(* ===== verification/Prelude.thy ===== *)
theory Prelude
  imports Main "HOL-Library.Word"
begin

text \<open>
  What every component shares: the outcome of a Go function (a value, an \<open>error\<close>
  return, or a panic), sequencing of outcomes, the fixed-width conversions of Go's
  \<open>int\<close>, \<open>int32\<close> and \<open>int64\<close>, and generic lemmas on lists that the component
  theories use through the collections \<open>go_simps\<close> and \<open>outcome_simps\<close>.
\<close>

section \<open>Outcomes\<close>

named_theorems outcome_simps \<open>facts that decide what a sequence of fallible calls returns\<close>
named_theorems go_simps \<open>unfolding rules for the small helpers of the Go runtime\<close>

text \<open>
  A Go function with an \<open>error\<close> result returns \<open>Ok\<close> with its values or \<open>Err\<close> with
  the error; a run-time panic (index out of range, nil dereference, explicit
  \<open>panic\<close>) is a third outcome, which no caller in the modelled code recovers from.
\<close>

datatype ('e, 'a) outcome = Ok 'a | Err 'e | Panic string

fun bind_o :: "('e, 'a) outcome \<Rightarrow> ('a \<Rightarrow> ('e, 'b) outcome) \<Rightarrow> ('e, 'b) outcome" where
  "bind_o (Ok a) f = f a"
| "bind_o (Err e) f = Err e"
| "bind_o (Panic p) f = Panic p"

fun map_o :: "('a \<Rightarrow> 'b) \<Rightarrow> ('e, 'a) outcome \<Rightarrow> ('e, 'b) outcome" where
  "map_o f (Ok a) = Ok (f a)"
| "map_o f (Err e) = Err e"
| "map_o f (Panic p) = Panic p"

fun map_err :: "('e \<Rightarrow> 'f) \<Rightarrow> ('e, 'a) outcome \<Rightarrow> ('f, 'a) outcome" where
  "map_err f (Ok a) = Ok a"
| "map_err f (Err e) = Err (f e)"
| "map_err f (Panic p) = Panic p"

fun is_ok :: "('e, 'a) outcome \<Rightarrow> bool" where
  "is_ok (Ok a) = True"
| "is_ok (Err e) = False"
| "is_ok (Panic p) = False"

fun is_panic :: "('e, 'a) outcome \<Rightarrow> bool" where
  "is_panic (Panic p) = True"
| "is_panic (Ok a) = False"
| "is_panic (Err e) = False"

lemma bind_o_eq_Ok [outcome_simps]:
  "bind_o m f = Ok b \<longleftrightarrow> (\<exists>a. m = Ok a \<and> f a = Ok b)"
  by (cases m) auto

lemma bind_o_eq_Err [outcome_simps]:
  "bind_o m f = Err e \<longleftrightarrow> m = Err e \<or> (\<exists>a. m = Ok a \<and> f a = Err e)"
  by (cases m) auto

lemma bind_o_eq_Panic [outcome_simps]:
  "bind_o m f = Panic p \<longleftrightarrow> m = Panic p \<or> (\<exists>a. m = Ok a \<and> f a = Panic p)"
  by (cases m) auto

lemma map_o_eq_Ok [outcome_simps]: "map_o f m = Ok b \<longleftrightarrow> (\<exists>a. m = Ok a \<and> b = f a)"
  by (cases m) auto

lemma map_o_eq_Err [outcome_simps]: "map_o f m = Err e \<longleftrightarrow> m = Err e"
  by (cases m) auto

lemma map_o_eq_Panic [outcome_simps]: "map_o f m = Panic p \<longleftrightarrow> m = Panic p"
  by (cases m) auto

lemma map_err_eq_Ok [outcome_simps]: "map_err f m = Ok a \<longleftrightarrow> m = Ok a"
  by (cases m) auto

lemma is_panic_map_err [simp]: "is_panic (map_err f m) \<longleftrightarrow> is_panic m"
  by (cases m) auto

lemma is_panic_bind_o:
  "is_panic (bind_o m f) \<longleftrightarrow> is_panic m \<or> (\<exists>a. m = Ok a \<and> is_panic (f a))"
  by (cases m) auto

lemma is_panic_map_o [simp]: "is_panic (map_o f m) \<longleftrightarrow> is_panic m"
  by (cases m) auto

lemma map_o_id [simp]: "map_o id m = m" "map_o (\<lambda>x. x) m = m"
  by (cases m; simp)+

lemma bind_o_Ok [simp]: "bind_o m Ok = m"
  by (cases m) auto

lemma bind_o_assoc: "bind_o (bind_o m f) g = bind_o m (\<lambda>x. bind_o (f x) g)"
  by (cases m) auto

text \<open>A loop that calls a fallible function on each element and stops at the first failure.\<close>

fun mapM_o :: "('a \<Rightarrow> ('e, 'b) outcome) \<Rightarrow> 'a list \<Rightarrow> ('e, 'b list) outcome" where
  "mapM_o f [] = Ok []"
| "mapM_o f (x # xs) = bind_o (f x) (\<lambda>y. bind_o (mapM_o f xs) (\<lambda>ys. Ok (y # ys)))"

lemma mapM_o_Ok_iff:
  "mapM_o f xs = Ok ys \<longleftrightarrow> list_all2 (\<lambda>x y. f x = Ok y) xs ys"
  by (induction xs arbitrary: ys) (auto simp: outcome_simps list_all2_Cons1)

lemma mapM_o_total: "(\<And>x. x \<in> set xs \<Longrightarrow> f x = Ok (g x)) \<Longrightarrow> mapM_o f xs = Ok (map g xs)"
  by (induction xs) auto

lemma mapM_o_length: "mapM_o f xs = Ok ys \<Longrightarrow> length ys = length xs"
  by (auto simp: mapM_o_Ok_iff dest: list_all2_lengthD)

section \<open>Machine integers\<close>

text \<open>
  Go's \<open>int\<close> and \<open>int64\<close> are 64 bits wide and \<open>int32\<close> 32 bits wide, in two's
  complement, and a conversion truncates. Where a value comes from the wire it is a
  \<open>word\<close>; where it is a program variable it is an \<open>int\<close>, and the conversions below
  say where the code truncates it.
\<close>

type_synonym byte = "8 word"

definition int64_of :: "int \<Rightarrow> int" where
  "int64_of i = signed_take_bit 63 i"

definition int32_of :: "int \<Rightarrow> int" where
  "int32_of i = signed_take_bit 31 i"

lemma int32_of_id: "- (2 ^ 31) \<le> i \<Longrightarrow> i < 2 ^ 31 \<Longrightarrow> int32_of i = i"
  by (simp add: int32_of_def signed_take_bit_int_eq_self)

lemma int64_of_id: "- (2 ^ 63) \<le> i \<Longrightarrow> i < 2 ^ 63 \<Longrightarrow> int64_of i = i"
  by (simp add: int64_of_def signed_take_bit_int_eq_self)

lemma int32_of_range: "- (2 ^ 31) \<le> int32_of i \<and> int32_of i < 2 ^ 31"
  unfolding int32_of_def
  using signed_take_bit_int_greater_eq_minus_exp [of 31 i] signed_take_bit_int_less_exp [of 31 i]
  by simp

text \<open>Go's \<open>/\<close> and \<open>%\<close> truncate towards zero.\<close>

definition go_quot :: "int \<Rightarrow> int \<Rightarrow> int" where
  "go_quot a b = sgn a * sgn b * (\<bar>a\<bar> div \<bar>b\<bar>)"

definition go_rem :: "int \<Rightarrow> int \<Rightarrow> int" where
  "go_rem a b = a - b * go_quot a b"

lemma go_quot_mult: "b \<noteq> 0 \<Longrightarrow> go_quot (k * b) b = k"
proof -
  assume b: "b \<noteq> 0"
  have "\<bar>k * b\<bar> div \<bar>b\<bar> = \<bar>k\<bar>" using b by (simp add: abs_mult)
  moreover have "sgn (k * b) * sgn b = sgn k"
    using b by (simp add: sgn_mult mult.assoc)
  ultimately show ?thesis by (simp add: go_quot_def sgn_mult_abs)
qed

lemma go_rem_mult: "b \<noteq> 0 \<Longrightarrow> go_rem (k * b) b = 0"
  by (simp add: go_rem_def go_quot_mult)

section \<open>Lists\<close>

text \<open>Removing duplicates while keeping the first occurrence of each element.\<close>

fun first_occurrences :: "'a set \<Rightarrow> 'a list \<Rightarrow> 'a list" where
  "first_occurrences seen [] = []"
| "first_occurrences seen (x # xs) =
     (if x \<in> seen then first_occurrences seen xs else x # first_occurrences (insert x seen) xs)"

lemma set_first_occurrences: "set (first_occurrences seen xs) = set xs - seen"
  by (induction xs arbitrary: seen) auto

lemma distinct_first_occurrences: "distinct (first_occurrences seen xs)"
  by (induction xs arbitrary: seen) (auto simp: set_first_occurrences)

lemma first_occurrences_distinct:
  "distinct xs \<Longrightarrow> set xs \<inter> seen = {} \<Longrightarrow> first_occurrences seen xs = xs"
  by (induction xs arbitrary: seen) auto

lemma length_first_occurrences: "length (first_occurrences seen xs) \<le> length xs"
  by (induction xs arbitrary: seen) (auto intro: le_SucI)

lemma first_occurrences_append:
  "first_occurrences seen (xs @ ys) =
     first_occurrences seen xs @ first_occurrences (seen \<union> set xs) ys"
  by (induction xs arbitrary: seen) (auto simp: insert_absorb Un_commute)

lemma first_occurrences_idem:
  "first_occurrences {} (first_occurrences seen xs) = first_occurrences seen xs"
  by (rule first_occurrences_distinct) (auto simp: distinct_first_occurrences)

text \<open>The position of the first element that satisfies a test.\<close>

fun find_index :: "('a \<Rightarrow> bool) \<Rightarrow> 'a list \<Rightarrow> nat option" where
  "find_index p [] = None"
| "find_index p (x # xs) = (if p x then Some 0 else map_option Suc (find_index p xs))"

lemma find_index_None: "find_index p xs = None \<longleftrightarrow> (\<forall>x\<in>set xs. \<not> p x)"
  by (induction xs) auto

lemma find_index_Some:
  "find_index p xs = Some i \<Longrightarrow> i < length xs \<and> p (xs ! i) \<and> (\<forall>j<i. \<not> p (xs ! j))"
  by (induction xs arbitrary: i) (auto split: if_splits simp: less_Suc_eq_0_disj nth_Cons')

lemma find_index_append_not:
  "\<forall>x\<in>set xs. \<not> p x \<Longrightarrow> find_index p (xs @ ys) = map_option ((+) (length xs)) (find_index p ys)"
proof (induction xs)
  case Nil
  then show ?case by (simp add: option.map_ident)
next
  case (Cons x xs)
  then show ?case by (simp add: option.map_comp comp_def)
qed

end
