(* ===== verification/Go_Strings.thy ===== *)
theory Go_Strings
  imports Prelude
begin

text \<open>
  The part of Go's standard library that the modelled code calls on strings and
  numerals: \<open>strings.HasPrefix\<close>, \<open>Contains\<close>, \<open>ReplaceAll\<close>, \<open>Split\<close>, \<open>ToLower\<close>,
  \<open>TrimSpace\<close> and their kin, \<open>strconv.Atoi\<close>, \<open>%d\<close>, and \<open>big.Int\<close>'s \<open>SetString\<close> and
  \<open>Text\<close>. A Go string is a sequence of bytes, here a \<open>char list\<close>. Case mapping and
  white space are those of the ASCII range: on a string with bytes above 127 Go folds
  whole runes, which these definitions leave unchanged.
\<close>

section \<open>Searching and trimming\<close>

fun has_prefix :: "string \<Rightarrow> string \<Rightarrow> bool" where
  "has_prefix s [] = True"
| "has_prefix [] (c # cs) = False"
| "has_prefix (a # s) (c # cs) = (a = c \<and> has_prefix s cs)"

definition has_suffix :: "string \<Rightarrow> string \<Rightarrow> bool" where
  "has_suffix s suf = has_prefix (rev s) (rev suf)"

fun str_index :: "string \<Rightarrow> string \<Rightarrow> nat option" where
  "str_index [] sub = (if sub = [] then Some 0 else None)"
| "str_index (c # s) sub =
     (if has_prefix (c # s) sub then Some 0 else map_option Suc (str_index s sub))"

definition str_contains :: "string \<Rightarrow> string \<Rightarrow> bool" where
  "str_contains s sub = (str_index s sub \<noteq> None)"

definition trim_prefix :: "string \<Rightarrow> string \<Rightarrow> string" where
  "trim_prefix s p = (if has_prefix s p then drop (length p) s else s)"

definition trim_suffix :: "string \<Rightarrow> string \<Rightarrow> string" where
  "trim_suffix s p = (if has_suffix s p then take (length s - length p) s else s)"

definition is_space :: "char \<Rightarrow> bool" where
  "is_space c = (of_char c \<in> {9, 10, 11, 12, 13, 32 :: nat})"

definition trim_space :: "string \<Rightarrow> string" where
  "trim_space s = rev (dropWhile is_space (rev (dropWhile is_space s)))"

text \<open>
  \<open>strings.ReplaceAll\<close> and \<open>strings.Split\<close>, for a non-empty pattern: every call in the
  modelled code passes a non-empty literal.
\<close>

function replace_all :: "string \<Rightarrow> string \<Rightarrow> string \<Rightarrow> string" where
  "replace_all s old new =
     (if s = [] \<or> old = [] then s
      else if has_prefix s old then new @ replace_all (drop (length old) s) old new
      else hd s # replace_all (tl s) old new)"
  by pat_completeness auto
termination
  by (relation "measure (\<lambda>(s, old, new). length s)") auto

declare replace_all.simps [simp del]

function split_on :: "string \<Rightarrow> string \<Rightarrow> string \<Rightarrow> string list" where
  "split_on sep cur s =
     (if s = [] \<or> sep = [] then [cur @ s]
      else if has_prefix s sep then cur # split_on sep [] (drop (length sep) s)
      else split_on sep (cur @ [hd s]) (tl s))"
  by pat_completeness auto
termination
  by (relation "measure (\<lambda>(sep, cur, s). length s)") auto

declare split_on.simps [simp del]

definition str_split :: "string \<Rightarrow> string \<Rightarrow> string list" where
  "str_split s sep = split_on sep [] s"

lemma has_prefix_iff: "has_prefix s p \<longleftrightarrow> (\<exists>t. s = p @ t)"
  by (induction s p rule: has_prefix.induct) auto

lemma has_prefix_self [simp]: "has_prefix (p @ s) p"
  by (auto simp: has_prefix_iff)

lemma trim_prefix_append [simp]: "trim_prefix (p @ s) p = s"
  by (simp add: trim_prefix_def)

lemma str_index_Some:
  "str_index s sub = Some i \<Longrightarrow> i \<le> length s \<and> has_prefix (drop i s) sub"
  by (induction s arbitrary: i) (auto split: if_splits)

lemma str_contains_iff: "str_contains s sub \<longleftrightarrow> (\<exists>u v. s = u @ sub @ v)"
proof (induction s)
  case Nil
  then show ?case by (auto simp: str_contains_def)
next
  case (Cons c s)
  have "str_contains (c # s) sub \<longleftrightarrow> has_prefix (c # s) sub \<or> str_contains s sub"
    by (auto simp: str_contains_def)
  also have "\<dots> \<longleftrightarrow> (\<exists>v. c # s = sub @ v) \<or> (\<exists>u v. s = u @ sub @ v)"
    by (simp add: Cons.IH has_prefix_iff)
  also have "\<dots> \<longleftrightarrow> (\<exists>u v. c # s = u @ sub @ v)"
    by (metis append_Cons append_Nil list.sel(3) neq_Nil_conv)
  finally show ?case .
qed

lemma dropWhile_hd: "s = [] \<or> \<not> p (hd s) \<Longrightarrow> dropWhile p s = s"
  by (cases s) auto

lemma trim_space_id: "s = [] \<or> (\<not> is_space (hd s) \<and> \<not> is_space (last s)) \<Longrightarrow> trim_space s = s"
  by (auto simp: trim_space_def dropWhile_hd hd_rev)

lemma split_on_no_sep:
  "sep = [c] \<Longrightarrow> c \<notin> set s \<Longrightarrow> split_on sep cur s = [cur @ s]"
proof (induction s arbitrary: cur)
  case Nil
  then show ?case by (simp add: split_on.simps)
next
  case (Cons a s)
  then show ?case by (subst split_on.simps) auto
qed

lemma split_on_single:
  "sep = [c] \<Longrightarrow> c \<notin> set s \<Longrightarrow> split_on sep cur (s @ c # t) = (cur @ s) # split_on sep [] t"
proof (induction s arbitrary: cur)
  case Nil
  then show ?case by (subst split_on.simps) simp
next
  case (Cons a s)
  then show ?case by (subst split_on.simps) auto
qed

lemma str_split_pair:
  "c \<notin> set a \<Longrightarrow> c \<notin> set b \<Longrightarrow> str_split (a @ c # b) [c] = [a, b]"
  by (simp add: str_split_def split_on_single split_on_no_sep)

lemma str_split_none: "c \<notin> set a \<Longrightarrow> str_split a [c] = [a]"
  by (simp add: str_split_def split_on_no_sep)

section \<open>Case mapping\<close>

definition is_upper :: "char \<Rightarrow> bool" where
  "is_upper c = (65 \<le> (of_char c :: nat) \<and> (of_char c :: nat) \<le> 90)"

definition char_lower :: "char \<Rightarrow> char" where
  "char_lower c = (if is_upper c then char_of ((of_char c :: nat) + 32) else c)"

definition to_lower :: "string \<Rightarrow> string" where
  "to_lower s = map char_lower s"

definition equal_fold :: "string \<Rightarrow> string \<Rightarrow> bool" where
  "equal_fold s t = (to_lower s = to_lower t)"

lemma of_char_less: "(of_char c :: nat) < 256"
  by simp

lemma of_char_char_of_nat: "n < 256 \<Longrightarrow> (of_char (char_of n) :: nat) = n"
  by (simp add: of_char_of)

lemma not_is_upper_char_lower: "\<not> is_upper (char_lower c)"
proof (cases "is_upper c")
  case True
  then have "(of_char c :: nat) + 32 < 256" by (simp add: is_upper_def)
  with True show ?thesis
    by (simp add: char_lower_def is_upper_def of_char_char_of_nat)
next
  case False
  then show ?thesis by (simp add: char_lower_def)
qed

lemma char_lower_idem [simp]: "char_lower (char_lower c) = char_lower c"
  using not_is_upper_char_lower [of c] by (simp add: char_lower_def [of "char_lower c"])

lemma to_lower_idem [simp]: "to_lower (to_lower s) = to_lower s"
  by (simp add: to_lower_def)

lemma to_lower_append [simp]: "to_lower (s @ t) = to_lower s @ to_lower t"
  by (simp add: to_lower_def)

lemma to_lower_Nil [simp]: "to_lower [] = []"
  by (simp add: to_lower_def)

lemma to_lower_eq_Nil [simp]: "to_lower s = [] \<longleftrightarrow> s = []"
  by (simp add: to_lower_def)

lemma length_to_lower [simp]: "length (to_lower s) = length s"
  by (simp add: to_lower_def)

end
