(* ===== verification/Go_Numerals.thy ===== *)
theory Go_Numerals
  imports Go_Strings
begin

text \<open>
  Numerals as Go's standard library reads and writes them: \<open>strconv.Atoi\<close> and
  \<open>fmt\<close>'s \<open>%d\<close> in base 10, \<open>big.Int\<close>'s \<open>SetString\<close> and \<open>Text\<close> in base 10 and 16.
  The main fact is that reading back a written numeral gives the number.
\<close>

section \<open>Digits\<close>

definition digit_char :: "nat \<Rightarrow> char" where
  "digit_char d = (if d < 10 then char_of (48 + d) else char_of (87 + d))"

definition char_digit :: "nat \<Rightarrow> char \<Rightarrow> nat option" where
  "char_digit b c =
     (let n = (of_char c :: nat);
          d = (if 48 \<le> n \<and> n \<le> 57 then Some (n - 48)
               else if 97 \<le> n \<and> n \<le> 122 then Some (n - 87)
               else if 65 \<le> n \<and> n \<le> 90 then Some (n - 55)
               else None)
      in case d of None \<Rightarrow> None | Some k \<Rightarrow> if k < b then Some k else None)"

lemma char_digit_digit_char: "d < b \<Longrightarrow> b \<le> 36 \<Longrightarrow> char_digit b (digit_char d) = Some d"
  by (simp add: char_digit_def digit_char_def of_char_of)

lemma digit_char_neq_minus: "d < 36 \<Longrightarrow> digit_char d \<noteq> CHR ''-''"
  using char_digit_digit_char [of d 36] by (auto simp: char_digit_def)

lemma digit_char_neq_plus: "d < 36 \<Longrightarrow> digit_char d \<noteq> CHR ''+''"
  using char_digit_digit_char [of d 36] by (auto simp: char_digit_def)

section \<open>Natural numbers in a base\<close>

fun nat_digits :: "nat \<Rightarrow> nat \<Rightarrow> nat list" where
  "nat_digits b n = (if b < 2 \<or> n < b then [n] else nat_digits b (n div b) @ [n mod b])"

declare nat_digits.simps [simp del]

definition nat_text :: "nat \<Rightarrow> nat \<Rightarrow> string" where
  "nat_text b n = map digit_char (nat_digits b n)"

fun parse_digits :: "nat \<Rightarrow> nat \<Rightarrow> string \<Rightarrow> nat option" where
  "parse_digits b acc [] = Some acc"
| "parse_digits b acc (c # cs) =
     (case char_digit b c of None \<Rightarrow> None | Some d \<Rightarrow> parse_digits b (acc * b + d) cs)"

definition parse_nat :: "nat \<Rightarrow> string \<Rightarrow> nat option" where
  "parse_nat b s = (if s = [] then None else parse_digits b 0 s)"

lemma nat_digits_less: "2 \<le> b \<Longrightarrow> d \<in> set (nat_digits b n) \<Longrightarrow> d < b"
proof (induction b n rule: nat_digits.induct)
  case (1 b n)
  then show ?case
    by (auto simp: nat_digits.simps [of b n] split: if_splits)
qed

lemma nat_digits_nonempty [simp]: "nat_digits b n \<noteq> []"
  by (subst nat_digits.simps) auto

lemma nat_text_nonempty [simp]: "nat_text b n \<noteq> []"
  by (simp add: nat_text_def)

lemma parse_digits_append:
  "parse_digits b acc (s @ t) =
     (case parse_digits b acc s of None \<Rightarrow> None | Some a \<Rightarrow> parse_digits b a t)"
  by (induction s arbitrary: acc) (auto split: option.splits)

lemma parse_digits_nat_text:
  "2 \<le> b \<Longrightarrow> b \<le> 36 \<Longrightarrow> parse_digits b 0 (nat_text b n) = Some n"
proof (induction b n rule: nat_digits.induct)
  case (1 b n)
  show ?case
  proof (cases "n < b")
    case True
    with 1 show ?thesis
      by (simp add: nat_text_def nat_digits.simps [of b n] char_digit_digit_char)
  next
    case False
    with 1 have "parse_digits b 0 (map digit_char (nat_digits b (n div b))) = Some (n div b)"
      by (simp add: nat_text_def)
    moreover have "char_digit b (digit_char (n mod b)) = Some (n mod b)"
      using 1 by (intro char_digit_digit_char) auto
    ultimately show ?thesis
      using False 1 by (simp add: nat_text_def nat_digits.simps [of b n] parse_digits_append)
  qed
qed

lemma parse_nat_nat_text: "2 \<le> b \<Longrightarrow> b \<le> 36 \<Longrightarrow> parse_nat b (nat_text b n) = Some n"
  by (simp add: parse_nat_def parse_digits_nat_text)

lemma nat_text_chars:
  "2 \<le> b \<Longrightarrow> b \<le> 36 \<Longrightarrow> c \<in> set (nat_text b n) \<Longrightarrow> \<exists>d<b. c = digit_char d"
  by (auto simp: nat_text_def dest: nat_digits_less)

section \<open>Signed numerals\<close>

text \<open>
  \<open>big.Int.SetString(s, base)\<close> for an explicit base (10 or 16): an optional sign, at
  least one digit, and nothing else; \<open>None\<close> is the result \<open>ok = false\<close>.
\<close>

definition parse_int :: "nat \<Rightarrow> string \<Rightarrow> int option" where
  "parse_int b s =
     (case s of
        [] \<Rightarrow> None
      | c # cs \<Rightarrow>
          if c = CHR ''-'' then map_option (\<lambda>n. - int n) (parse_nat b cs)
          else if c = CHR ''+'' then map_option int (parse_nat b cs)
          else map_option int (parse_nat b s))"

definition int_text :: "nat \<Rightarrow> int \<Rightarrow> string" where
  "int_text b i = (if i < 0 then CHR ''-'' # nat_text b (nat (- i)) else nat_text b (nat i))"

lemma parse_int_nat_text:
  assumes "2 \<le> b" "b \<le> 36"
  shows "parse_int b (nat_text b n) = Some (int n)"
proof -
  obtain c cs where s: "nat_text b n = c # cs"
    by (cases "nat_text b n") auto
  then have "c \<in> set (nat_text b n)" by simp
  then obtain d where "d < b" "c = digit_char d"
    using nat_text_chars assms by blast
  with assms have "c \<noteq> CHR ''-''" "c \<noteq> CHR ''+''"
    using digit_char_neq_minus [of d] digit_char_neq_plus [of d] by auto
  moreover have "parse_nat b (c # cs) = Some n"
    using parse_nat_nat_text [OF assms, of n] s by simp
  ultimately show ?thesis by (simp add: parse_int_def s)
qed

lemma parse_int_int_text: "2 \<le> b \<Longrightarrow> b \<le> 36 \<Longrightarrow> parse_int b (int_text b i) = Some i"
  by (auto simp: int_text_def parse_int_nat_text) (auto simp: parse_int_def parse_nat_nat_text)

text \<open>\<open>strconv.Atoi\<close>: base 10, and the value has to fit a 64-bit \<open>int\<close>.\<close>

definition atoi :: "string \<Rightarrow> int option" where
  "atoi s = (case parse_int 10 s of
       None \<Rightarrow> None
     | Some i \<Rightarrow> if - (2 ^ 63) \<le> i \<and> i < 2 ^ 63 then Some i else None)"

text \<open>\<open>%d\<close> and \<open>strconv.Itoa\<close>.\<close>

definition itoa :: "int \<Rightarrow> string" where
  "itoa i = int_text 10 i"

lemma atoi_itoa: "- (2 ^ 63) \<le> i \<Longrightarrow> i < 2 ^ 63 \<Longrightarrow> atoi (itoa i) = Some i"
  by (simp add: atoi_def itoa_def parse_int_int_text)

lemma itoa_inject: "itoa i = itoa j \<Longrightarrow> i = j"
proof -
  assume eq: "itoa i = itoa j"
  have "parse_int 10 (itoa i) = Some i" "parse_int 10 (itoa j) = Some j"
    by (simp_all only: itoa_def) (rule parse_int_int_text; simp)+
  then show "i = j" unfolding eq by simp
qed

lemma digit_char_code: "d < 10 \<Longrightarrow> (of_char (digit_char d) :: nat) = 48 + d"
  by (simp add: digit_char_def of_char_of)

lemma itoa_chars: "c \<in> set (itoa i) \<Longrightarrow> c = CHR ''-'' \<or> (\<exists>d<10. c = digit_char d)"
  using nat_text_chars [of 10 c] by (auto simp: itoa_def int_text_def split: if_splits)

lemma itoa_no_char:
  assumes "(of_char c :: nat) < 48 \<or> 57 < (of_char c :: nat)" "c \<noteq> CHR ''-''"
  shows "c \<notin> set (itoa i)"
proof
  assume "c \<in> set (itoa i)"
  with assms(2) obtain d where "d < 10" "c = digit_char d"
    using itoa_chars by blast
  then show False using assms(1) by (simp add: digit_char_code)
qed

end
