(* ===== verification/Cursor_Codec.thy ===== *)
theory Cursor_Codec
  imports Go_Numerals
begin

unbundle bit_operations_syntax

text \<open>
  The byte level of the pagination cursors (\<open>cursorEncoder\<close> and \<open>cursorDecoder\<close> in
  publicapi/pagination.go) and the standard-library codecs it calls: unsigned and
  zig-zag varints (encoding/binary), unpadded base64 (encoding/base64), and
  \<open>time.Time\<close>'s binary form. A \<open>bytes.Reader\<close> is the list of bytes not yet read.
  Every encoder is paired with the lemma that its decoder reads the value back and
  leaves the rest of the buffer.
\<close>

section \<open>Errors\<close>

datatype cur_err =
    EOF
  | UnexpectedEOF
  | VarintOverflow
  | CorruptInput
  | ShortRead string nat nat
  | TimeNoData
  | TimeVersion
  | TimeLength
  | TimeZoneOffset

section \<open>Varints\<close>

function put_uvarint :: "64 word \<Rightarrow> byte list" where
  "put_uvarint x =
     (if x < 128 then [ucast x] else (ucast x OR 128) # put_uvarint (drop_bit 7 x))"
  by pat_completeness auto
termination
proof (relation "measure unat")
  fix x :: "64 word"
  assume "\<not> x < 128"
  then have "128 \<le> unat x" by (simp add: not_less word_le_nat_alt)
  moreover have "unat (drop_bit 7 x) = unat x div 128"
    by (simp only: unat_drop_bit_eq) (simp add: drop_bit_eq_div)
  ultimately show "(drop_bit 7 x, x) \<in> measure unat" by simp
qed simp

declare put_uvarint.simps [simp del]

definition put_varint :: "64 word \<Rightarrow> byte list" where
  "put_varint x = put_uvarint (let ux = push_bit 1 x in if sint x < 0 then NOT ux else ux)"

text \<open>\<open>binary.ReadUvarint\<close>: at most ten bytes, the tenth of which may only be 0 or 1.\<close>

fun read_uvarint_at ::
  "nat \<Rightarrow> nat \<Rightarrow> 64 word \<Rightarrow> byte list \<Rightarrow> (cur_err, 64 word \<times> byte list) outcome" where
  "read_uvarint_at i s x [] =
     (if 10 \<le> i then Err VarintOverflow else if 0 < i then Err UnexpectedEOF else Err EOF)"
| "read_uvarint_at i s x (b # bs) =
     (if 10 \<le> i then Err VarintOverflow
      else if b < 128 then
        (if i = 9 \<and> 1 < b then Err VarintOverflow else Ok (x OR push_bit s (ucast b), bs))
      else read_uvarint_at (Suc i) (s + 7) (x OR push_bit s (ucast (b AND 127))) bs)"

definition read_uvarint :: "byte list \<Rightarrow> (cur_err, 64 word \<times> byte list) outcome" where
  "read_uvarint rd = read_uvarint_at 0 0 0 rd"

definition read_varint :: "byte list \<Rightarrow> (cur_err, 64 word \<times> byte list) outcome" where
  "read_varint rd =
     bind_o (read_uvarint rd) (\<lambda>(ux, r).
       let x = drop_bit 1 ux in Ok (if bit ux 0 then NOT x else x, r))"

lemma low7_mask: "(127 :: 'a::len word) = mask 7"
  by (simp add: mask_eq_exp_minus_1)

lemma bit_128: "bit (128 :: 'a::semiring_bits) n \<longleftrightarrow> n = 7 \<and> possible_bit TYPE('a) 7"
proof -
  have "(128 :: 'a) = 2 ^ 7" by simp
  then show ?thesis by (simp only: bit_exp_iff) auto
qed

lemma ucast_low7:
  "ucast (((ucast (v :: 64 word) :: byte) OR 128) AND 127) = take_bit 7 v"
  unfolding low7_mask
  by (rule bit_word_eqI) (auto simp: bit_simps bit_128)

lemma continuation_byte: "\<not> ((ucast (v :: 64 word) :: byte) OR 128) < 128"
proof
  let ?b = "(ucast v :: byte) OR 128"
  assume "?b < 128"
  then have "unat ?b < 2 ^ 7"
    by (simp add: word_less_nat_alt)
  then have "take_bit 7 (unat ?b) = unat ?b"
    by (simp add: take_bit_nat_eq_self_iff)
  then have "\<not> bit (unat ?b) 7"
    by (metis bit_take_bit_iff less_irrefl)
  moreover have "bit (unat ?b) 7"
    by (simp add: bit_unsigned_iff bit_or_iff bit_128)
  ultimately show False by simp
qed

lemma bit_small: "bit (v :: 64 word) n \<Longrightarrow> unat v < 128 \<Longrightarrow> n < 7"
proof (rule ccontr)
  assume "bit v n" "unat v < 128" "\<not> n < 7"
  then have "bit (unat v) n" "take_bit 7 (unat v) = unat v"
    by (simp_all add: bit_unsigned_iff bit_imp_le_length take_bit_nat_eq_self)
  with \<open>\<not> n < 7\<close> show False by (metis bit_take_bit_iff)
qed

lemma small_byte:
  assumes "(v :: 64 word) < 128"
  shows "ucast (ucast v :: byte) = v" and "(ucast v :: byte) < 128"
    and "unat (ucast v :: byte) = unat v"
proof -
  from assms have v: "unat v < 128" by (simp add: word_less_nat_alt)
  have "unat (ucast v :: byte) = take_bit 8 (unat v)"
    by (simp only: unsigned_ucast_eq) simp
  with v show u: "unat (ucast v :: byte) = unat v"
    by (simp add: take_bit_nat_eq_self)
  show "ucast (ucast v :: byte) = v"
    by (rule bit_word_eqI) (use v in \<open>auto simp: bit_simps intro: ccontr dest: bit_small\<close>)
  show "(ucast v :: byte) < 128"
    using v u by (simp add: word_less_nat_alt)
qed

lemma low_high_split:
  "push_bit s (take_bit 7 v) OR push_bit (s + 7) (drop_bit 7 v) = push_bit s (v :: 64 word)"
proof (rule bit_word_eqI)
  fix n
  assume "n < LENGTH(64)"
  moreover have "7 + (n - (s + 7)) = n - s" if "\<not> n - s < 7"
    using that by arith
  ultimately show "bit (push_bit s (take_bit 7 v) OR push_bit (s + 7) (drop_bit 7 v)) n
      = bit (push_bit s v) n"
    by (cases "n - s < 7") (auto simp: bit_simps)
qed

text \<open>
  Reading back: when \<open>i\<close> bytes have been read, the value still to come fits the
  \<open>64 - 7 * i\<close> remaining bits, and reading the encoding adds it to the accumulator.
\<close>

lemma read_uvarint_at_put:
  "i \<le> 9 \<Longrightarrow> unat v < 2 ^ (64 - 7 * i) \<Longrightarrow>
   read_uvarint_at i (7 * i) x (put_uvarint v @ rest) = Ok (x OR push_bit (7 * i) v, rest)"
proof (induction v arbitrary: i x rule: put_uvarint.induct)
  case (1 v)
  show ?case
  proof (cases "v < 128")
    case True
    have "\<not> (i = 9 \<and> 1 < (ucast v :: byte))"
    proof
      assume a: "i = 9 \<and> 1 < (ucast v :: byte)"
      with 1 have "unat v < 2" by simp
      with a show False by (simp add: word_less_nat_alt small_byte(3) [OF True])
    qed
    with True 1 show ?thesis
      by (simp add: put_uvarint.simps [of v] small_byte [OF True])
  next
    case False
    then have v: "128 \<le> unat v" by (simp add: not_less word_le_nat_alt)
    have i: "i \<noteq> 9"
    proof
      assume "i = 9"
      with 1 have "unat v < 2" by simp
      with v show False by simp
    qed
    have "unat (drop_bit 7 v) = unat v div 128"
      by (simp only: unat_drop_bit_eq) (simp add: drop_bit_eq_div)
    also have "unat v div 128 < 2 ^ (64 - 7 * Suc i)"
    proof -
      have "(2::nat) ^ (64 - 7 * i) = 2 ^ (64 - 7 * Suc i) * 128"
      proof -
        have "64 - 7 * i = (64 - 7 * Suc i) + 7" using 1 i by simp
        then show ?thesis by (simp only: power_add) simp
      qed
      then show ?thesis using 1 by (simp add: less_mult_imp_div_less)
    qed
    finally have IH: "read_uvarint_at (Suc i) (7 * Suc i) y (put_uvarint (drop_bit 7 v) @ rest) =
        Ok (y OR push_bit (7 * Suc i) (drop_bit 7 v), rest)" for y
      using "1.IH" [OF False, of "Suc i"] "1.prems" i by simp
    have "read_uvarint_at i (7 * i) x (put_uvarint v @ rest) =
        read_uvarint_at (Suc i) (7 * Suc i) (x OR push_bit (7 * i) (take_bit 7 v))
          (put_uvarint (drop_bit 7 v) @ rest)"
      using False 1 i
      by (simp add: put_uvarint.simps [of v] continuation_byte ucast_low7 add.commute)
    also have "\<dots> = Ok (x OR push_bit (7 * i) (take_bit 7 v)
          OR push_bit (7 * i + 7) (drop_bit 7 v), rest)"
      by (simp only: IH) (simp add: add.commute or.assoc)
    also have "x OR push_bit (7 * i) (take_bit 7 v) OR push_bit (7 * i + 7) (drop_bit 7 v)
        = x OR push_bit (7 * i) v"
      using low_high_split [of "7 * i" v] by (simp add: or.assoc)
    finally show ?thesis .
  qed
qed

lemma read_put_uvarint: "read_uvarint (put_uvarint v @ rest) = Ok (v, rest)"
  using read_uvarint_at_put [of 0 v 0 rest] unsigned_less [of v]
  by (simp add: read_uvarint_def)

lemma zigzag_decode:
  "(let ux = (let u = push_bit 1 x in if sint x < 0 then NOT u else u); y = drop_bit 1 ux
    in if bit ux 0 then NOT y else y) = (x :: 64 word)"
proof -
  have neg: "sint x < 0 \<longleftrightarrow> bit x 63"
    using bit_last_iff [of x] by simp
  obtain u where u: "u = push_bit 1 x" by simp
  have bu: "bit u n \<longleftrightarrow> 1 \<le> n \<and> n < 64 \<and> bit x (n - 1)" for n
    by (simp only: u bit_push_bit_iff) auto
  have bd: "bit (drop_bit (Suc 0) w) n \<longleftrightarrow> bit w (Suc n)" for w :: "64 word" and n
    by (simp only: bit_drop_bit_eq) simp
  have len: "bit w n \<Longrightarrow> n < 64" for w :: "64 word" and n
    using bit_imp_le_length [of w n] by simp
  show ?thesis
  proof (cases "bit x 63")
    case False
    have "drop_bit (Suc 0) u = x"
    proof (rule bit_word_eqI)
      fix n
      assume "n < LENGTH(64)"
      then show "bit (drop_bit (Suc 0) u) n = bit x n"
        using False by (cases "n = 63") (auto simp: bd bu)
    qed
    with False show ?thesis
      unfolding u [symmetric] neg Let_def by (simp add: bu)
  next
    case True
    have "NOT (drop_bit (Suc 0) (NOT u)) = x"
    proof (rule bit_word_eqI)
      fix n
      assume "n < LENGTH(64)"
      then show "bit (NOT (drop_bit (Suc 0) (NOT u))) n = bit x n"
        using True by (cases "n = 63") (auto simp: bit_not_iff bd bu dest: len)
    qed
    with True show ?thesis
      unfolding u [symmetric] neg Let_def by (simp add: bu bit_not_iff)
  qed
qed

lemma read_put_varint: "read_varint (put_varint x @ rest) = Ok (x, rest)"
  using zigzag_decode [of x]
  by (simp add: read_varint_def put_varint_def read_put_uvarint Let_def)

lemma put_uvarint_nonempty [simp]: "put_uvarint v \<noteq> []"
  by (subst put_uvarint.simps) simp

lemma put_varint_nonempty [simp]: "put_varint v \<noteq> []"
  by (simp add: put_varint_def Let_def)

text \<open>
  \<open>PutUvarint\<close> writes into a buffer of \<open>MaxVarintLen64\<close> (10) bytes and would panic beyond
  it: it never needs more.
\<close>

lemma length_put_uvarint_at:
  "i \<le> 9 \<Longrightarrow> unat v < 2 ^ (64 - 7 * i) \<Longrightarrow> length (put_uvarint v) + i \<le> 10"
proof (induction v arbitrary: i rule: put_uvarint.induct)
  case (1 v)
  show ?case
  proof (cases "v < 128")
    case True
    with 1 show ?thesis by (simp add: put_uvarint.simps [of v])
  next
    case False
    then have v: "128 \<le> unat v" by (simp add: not_less word_le_nat_alt)
    have i: "i \<noteq> 9"
    proof
      assume "i = 9"
      with 1 have "unat v < 2" by simp
      with v show False by simp
    qed
    have "64 - 7 * i = (64 - 7 * Suc i) + 7" using 1 i by simp
    then have "(2::nat) ^ (64 - 7 * i) = 2 ^ (64 - 7 * Suc i) * 128"
      by (simp only: power_add) simp
    then have "unat v div 128 < 2 ^ (64 - 7 * Suc i)"
      using 1 by (simp add: less_mult_imp_div_less)
    then have "unat (drop_bit 7 v) < 2 ^ (64 - 7 * Suc i)"
      by (simp only: unat_drop_bit_eq) (simp add: drop_bit_eq_div)
    with "1.IH" [OF False, of "Suc i"] "1.prems" i
    show ?thesis using False by (simp add: put_uvarint.simps [of v])
  qed
qed

lemma length_put_uvarint: "length (put_uvarint v) \<le> 10"
  using length_put_uvarint_at [of 0 v] unsigned_less [of v] by simp

section \<open>Base64\<close>

text \<open>
  \<open>base64.RawStdEncoding\<close>: the standard alphabet without padding. The decoder skips
  line breaks, refuses every other character outside the alphabet and a final group of
  one character, and ignores the unused low bits of a short final group (it is not the
  strict mode).
\<close>

definition b64_alphabet :: string where
  "b64_alphabet = ''ABCDEFGHIJKLMNOPQRSTUVWXYZabcdefghijklmnopqrstuvwxyz0123456789+/''"

definition b64_char :: "nat \<Rightarrow> char" where
  "b64_char n = b64_alphabet ! n"

definition b64_val :: "char \<Rightarrow> nat option" where
  "b64_val c = find_index (\<lambda>x. x = c) b64_alphabet"

fun b64_encode :: "byte list \<Rightarrow> string" where
  "b64_encode [] = []"
| "b64_encode [a] =
     (let v = unat a * 2 ^ 16
      in [b64_char (v div 2 ^ 18 mod 64), b64_char (v div 2 ^ 12 mod 64)])"
| "b64_encode [a, b] =
     (let v = unat a * 2 ^ 16 + unat b * 2 ^ 8
      in [b64_char (v div 2 ^ 18 mod 64), b64_char (v div 2 ^ 12 mod 64),
          b64_char (v div 2 ^ 6 mod 64)])"
| "b64_encode (a # b # c # bs) =
     (let v = unat a * 2 ^ 16 + unat b * 2 ^ 8 + unat c
      in b64_char (v div 2 ^ 18 mod 64) # b64_char (v div 2 ^ 12 mod 64)
         # b64_char (v div 2 ^ 6 mod 64) # b64_char (v mod 64) # b64_encode bs)"

fun b64_groups :: "nat list \<Rightarrow> byte list option" where
  "b64_groups [] = Some []"
| "b64_groups [p] = None"
| "b64_groups [p, q] =
     (let v = p * 2 ^ 18 + q * 2 ^ 12 in Some [of_nat (v div 2 ^ 16)])"
| "b64_groups [p, q, r] =
     (let v = p * 2 ^ 18 + q * 2 ^ 12 + r * 2 ^ 6
      in Some [of_nat (v div 2 ^ 16), of_nat (v div 2 ^ 8)])"
| "b64_groups (p # q # r # s # ds) =
     (let v = p * 2 ^ 18 + q * 2 ^ 12 + r * 2 ^ 6 + s
      in map_option (\<lambda>bs. of_nat (v div 2 ^ 16) # of_nat (v div 2 ^ 8) # of_nat v # bs)
           (b64_groups ds))"

fun b64_vals :: "string \<Rightarrow> nat list option" where
  "b64_vals [] = Some []"
| "b64_vals (c # cs) =
     (if c = CHR 0x0A \<or> c = CHR 0x0D then b64_vals cs
      else case b64_val c of
             None \<Rightarrow> None
           | Some v \<Rightarrow> map_option (\<lambda>vs. v # vs) (b64_vals cs))"

definition b64_decode :: "string \<Rightarrow> (cur_err, byte list) outcome" where
  "b64_decode s =
     (case b64_vals s of
        None \<Rightarrow> Err CorruptInput
      | Some vs \<Rightarrow> (case b64_groups vs of None \<Rightarrow> Err CorruptInput | Some bs \<Rightarrow> Ok bs))"

lemma b64_table:
  "\<forall>n\<in>set [0..<64]. b64_val (b64_char n) = Some n \<and> b64_char n \<noteq> CHR 0x0A \<and> b64_char n \<noteq> CHR 0x0D"
  by code_simp

lemma b64_vals_char:
  "n < 64 \<Longrightarrow> b64_vals (b64_char n # cs) = map_option (\<lambda>vs. n # vs) (b64_vals cs)"
  using b64_table by simp

text \<open>The sextets of an encoding, before they are looked up in the alphabet.\<close>

fun b64_sextets :: "byte list \<Rightarrow> nat list" where
  "b64_sextets [] = []"
| "b64_sextets [a] =
     (let v = unat a * 2 ^ 16 in [v div 2 ^ 18 mod 64, v div 2 ^ 12 mod 64])"
| "b64_sextets [a, b] =
     (let v = unat a * 2 ^ 16 + unat b * 2 ^ 8
      in [v div 2 ^ 18 mod 64, v div 2 ^ 12 mod 64, v div 2 ^ 6 mod 64])"
| "b64_sextets (a # b # c # bs) =
     (let v = unat a * 2 ^ 16 + unat b * 2 ^ 8 + unat c
      in v div 2 ^ 18 mod 64 # v div 2 ^ 12 mod 64 # v div 2 ^ 6 mod 64 # v mod 64
         # b64_sextets bs)"

lemma b64_vals_encode: "b64_vals (b64_encode bs) = Some (b64_sextets bs)"
  by (induction bs rule: b64_encode.induct) (simp_all add: Let_def b64_vals_char del: b64_vals.simps(2))

lemma unat_byte_less: "unat (b :: byte) < 256"
  using unsigned_less [of b] by simp

lemma of_nat_byte_low: "(word_of_nat (x * 256 + unat b) :: byte) = b"
proof -
  have "(256 :: byte) = 0" by simp
  then show ?thesis by (simp only: of_nat_add of_nat_mult of_nat_numeral) simp
qed

lemma sextets_sum:
  assumes "v < 2 ^ 24"
  shows "(v div 2 ^ 18 mod 64) * 2 ^ 18 + (v div 2 ^ 12 mod 64) * 2 ^ 12
           + (v div 2 ^ 6 mod 64) * 2 ^ 6 + v mod 64 = (v :: nat)"
proof -
  obtain x y z where xyz: "x = v div 2 ^ 6" "y = v div 2 ^ 12" "z = v div 2 ^ 18" by simp
  obtain p q r where pqr: "p = x mod 64" "q = y mod 64" "r = v mod 64" by simp
  have "v = x * 64 + r" "x = y * 64 + p" "y = z * 64 + q"
    using div_mult_mod_eq [of v 64] div_mult_mod_eq [of x 64] div_mult_mod_eq [of y 64]
    by (simp_all add: xyz pqr div_mult2_eq [symmetric])
  moreover have "z mod 64 = z"
    using assms by (simp add: xyz less_mult_imp_div_less)
  ultimately have "z mod 64 * 2 ^ 18 + q * 2 ^ 12 + p * 2 ^ 6 + r = v" by simp
  then show ?thesis by (simp only: xyz pqr)
qed

lemma b64_groups_sextets: "b64_groups (b64_sextets bs) = Some bs"
proof (induction bs rule: b64_sextets.induct)
  case 1
  then show ?case by simp
next
  case (2 a)
  let ?v = "unat a * 2 ^ 16"
  have v: "?v < 2 ^ 24" and 0: "?v mod 64 = 0" "?v div 2 ^ 6 mod 64 = 0"
    using unat_byte_less [of a] by simp_all
  have "(?v div 2 ^ 18 mod 64) * 2 ^ 18 + (?v div 2 ^ 12 mod 64) * 2 ^ 12 = ?v"
    using sextets_sum [OF v] by (simp only: 0 mult_zero_left add_0_right)
  then show ?case by (simp only: b64_sextets.simps b64_groups.simps Let_def) simp
next
  case (3 a b)
  let ?v = "unat a * 2 ^ 16 + unat b * 2 ^ 8"
  have "?v = (unat a * 1024 + unat b * 4) * 64" by simp
  then have 0: "?v mod 64 = 0" by (simp only: mod_mult_self2_is_0)
  have v: "?v < 2 ^ 24"
    using unat_byte_less [of a] unat_byte_less [of b] by simp
  have "(?v div 2 ^ 18 mod 64) * 2 ^ 18 + (?v div 2 ^ 12 mod 64) * 2 ^ 12
       + (?v div 2 ^ 6 mod 64) * 2 ^ 6 = ?v"
    using sextets_sum [OF v] by (simp only: 0 add_0_right)
  moreover have "?v div 2 ^ 16 = unat a" "?v div 2 ^ 8 = unat a * 256 + unat b"
    using unat_byte_less [of b] by simp_all
  ultimately show ?case
    by (simp only: b64_sextets.simps b64_groups.simps Let_def of_nat_byte_low) simp
next
  case (4 a b c bs)
  let ?v = "unat a * 2 ^ 16 + unat b * 2 ^ 8 + unat c"
  have "?v < 2 ^ 24"
    using unat_byte_less [of a] unat_byte_less [of b] unat_byte_less [of c] by simp
  note sum = sextets_sum [OF this]
  have 1: "?v div 2 ^ 16 = unat a" "?v div 2 ^ 8 = unat a * 256 + unat b"
    and 2: "?v = (unat a * 256 + unat b) * 256 + unat c"
    using unat_byte_less [of b] unat_byte_less [of c] by simp_all
  have "(word_of_nat ?v :: byte) = c"
    unfolding 2 by (rule of_nat_byte_low)
  then show ?case
    using 4 by (simp only: b64_sextets.simps b64_groups.simps Let_def sum 1 of_nat_byte_low) simp
qed

lemma b64_decode_encode: "b64_decode (b64_encode bs) = Ok bs"
  by (simp add: b64_decode_def b64_vals_encode b64_groups_sextets)

lemma b64_encode_eq_Nil [simp]: "b64_encode bs = [] \<longleftrightarrow> bs = []"
  by (cases bs rule: b64_encode.cases) (simp_all add: Let_def)

end
