(* ===== verification/Cursor.thy ===== *)
theory Cursor
  imports Cursor_Codec
begin

unbundle bit_operations_syntax

text \<open>
  The cursors of publicapi/pagination.go: \<open>cursorEncoder\<close> and \<open>cursorDecoder\<close>, the
  type-switched \<open>packVal\<close> and \<open>unpackVal\<close>, \<open>Pack\<close> and \<open>Unpack\<close>, and the seven cursor
  types built from them. The interface \<open>cursor\<close> of the code is a locale, interpreted
  for each cursor type.
\<close>

section \<open>time.Time\<close>

text \<open>
  A \<open>time.Time\<close> is its wall clock: seconds since January 1, year 1 (64 bits),
  nanoseconds, and its location, seen as \<open>UTC\<close> or as the zone offset in seconds that is
  in force at that time. \<open>MarshalBinary\<close> writes the offset in minutes, \<open>-1\<close> for UTC, and
  a version 2 form with one more byte when the offset has seconds.
\<close>

datatype zone = UTC | Offset int

record go_time =
  tm_sec :: "64 word"
  tm_nsec :: "32 word"
  tm_zone :: zone

fun be_bytes :: "nat \<Rightarrow> 'a::len word \<Rightarrow> byte list" where
  "be_bytes 0 w = []"
| "be_bytes (Suc n) w = be_bytes n (drop_bit 8 w) @ [ucast w]"

definition be_val :: "byte list \<Rightarrow> 'a::len word" where
  "be_val bs = foldl (\<lambda>acc b. push_bit 8 acc OR ucast b) 0 bs"

definition marshal_time :: "go_time \<Rightarrow> (cur_err, byte list) outcome" where
  "marshal_time t =
     (let stamp = be_bytes 8 (tm_sec t) @ be_bytes 4 (tm_nsec t)
      in case tm_zone t of
           UTC \<Rightarrow> Ok (1 # stamp @ be_bytes 2 (- 1 :: 16 word))
         | Offset off \<Rightarrow>
             let m = go_quot off 60; r = go_rem off 60
             in if m < - 32768 \<or> m = - 1 \<or> 32767 < m then Err TimeZoneOffset
                else if r \<noteq> 0
                then Ok (2 # stamp @ be_bytes 2 (word_of_int m :: 16 word) @ [word_of_int r])
                else Ok (1 # stamp @ be_bytes 2 (word_of_int m :: 16 word)))"

definition unmarshal_time :: "byte list \<Rightarrow> (cur_err, go_time) outcome" where
  "unmarshal_time data =
     (case data of
        [] \<Rightarrow> Err TimeNoData
      | v # buf \<Rightarrow>
          if v \<noteq> 1 \<and> v \<noteq> 2 then Err TimeVersion
          else if length data \<noteq> (if v = 2 then 16 else 15) then Err TimeLength
          else
            let off = sint (be_val (take 2 (drop 12 buf)) :: 16 word) * 60
                      + (if v = 2 then uint (buf ! 14) else 0)
            in Ok \<lparr>tm_sec = be_val (take 8 buf), tm_nsec = be_val (take 4 (drop 8 buf)),
                   tm_zone = (if off = - 60 then UTC else Offset off)\<rparr>)"

text \<open>The times whose zone survives the binary form: UTC, or whole minutes in range.\<close>

definition time_ok :: "go_time \<Rightarrow> bool" where
  "time_ok t = (case tm_zone t of
      UTC \<Rightarrow> True
    | Offset off \<Rightarrow> off mod 60 = 0 \<and> off \<noteq> - 60 \<and> - 32768 * 60 \<le> off \<and> off \<le> 32767 * 60)"

lemma length_be_bytes [simp]: "length (be_bytes n w) = n"
  by (induction n arbitrary: w) auto

lemma be_val_snoc: "be_val (bs @ [b]) = push_bit 8 (be_val bs) OR ucast b"
  by (simp add: be_val_def)

lemma be_val_be_bytes: "(be_val (be_bytes n w) :: 'a word) = take_bit (8 * n) (w :: 'a::len word)"
proof (induction n arbitrary: w)
  case 0
  then show ?case by (simp add: be_val_def)
next
  case (Suc n)
  show ?case
  proof (rule bit_word_eqI)
    fix k
    assume k: "k < LENGTH('a)"
    have "8 + (k - 8) = k" if "\<not> k < 8" using that by arith
    then show "bit (be_val (be_bytes (Suc n) w) :: 'a word) k = bit (take_bit (8 * Suc n) w) k"
      using k by (cases "k < 8") (auto simp: be_val_snoc Suc bit_simps)
  qed
qed

lemma be_val_full: "LENGTH('a) \<le> 8 * n \<Longrightarrow> be_val (be_bytes n w) = (w :: 'a::len word)"
  by (simp add: be_val_be_bytes take_bit_word_eq_self)

lemma unmarshal_marshal_time:
  assumes ok: "time_ok t" and m: "marshal_time t = Ok bs"
  shows "unmarshal_time bs = Ok t"
proof (cases "tm_zone t")
  case UTC
  with m show ?thesis
    by (auto simp: marshal_time_def unmarshal_time_def be_val_full Let_def)
next
  case (Offset off)
  with ok obtain k where off: "off = k * 60"
    by (auto simp: time_ok_def elim: dvdE simp flip: dvd_eq_mod_eq_0)
  with ok Offset have k: "- 32768 \<le> k" "k \<le> 32767" "k \<noteq> - 1"
    by (auto simp: time_ok_def)
  have "sint (word_of_int k :: 16 word) = k"
    using k by (simp add: sint_sbintrunc' signed_take_bit_int_eq_self)
  with m Offset k show ?thesis
    by (auto simp: marshal_time_def unmarshal_time_def be_val_full Let_def off
        go_quot_mult go_rem_mult)
qed

lemma marshal_time_total: "time_ok t \<Longrightarrow> \<exists>bs. marshal_time t = Ok bs \<and> length bs = 15"
  by (cases "tm_zone t")
     (auto simp: time_ok_def marshal_time_def Let_def go_quot_mult go_rem_mult mult.commute
        elim!: dvdE simp flip: dvd_eq_mod_eq_0)

lemma marshal_time_nonempty: "marshal_time t = Ok bs \<Longrightarrow> bs \<noteq> []"
  by (auto simp: marshal_time_def Let_def split: zone.splits if_splits)

section \<open>The encoder\<close>

text \<open>
  \<open>cursorEncoder\<close> is its buffer; every method appends to it. Strings are written as their
  bytes after their length, times as their binary form after its length.
\<close>

type_synonym dbid = string

definition str_bytes :: "string \<Rightarrow> byte list" where
  "str_bytes s = map (\<lambda>c. word_of_nat (of_char c)) s"

definition bytes_str :: "byte list \<Rightarrow> string" where
  "bytes_str bs = map (\<lambda>b. char_of (unat b)) bs"

definition newCursorEncoder :: "byte list" where
  "newCursorEncoder = []"

definition asBase64 :: "byte list \<Rightarrow> string" where
  "asBase64 e = b64_encode e"

definition appendUInt64 :: "byte list \<Rightarrow> 64 word \<Rightarrow> byte list" where
  "appendUInt64 e i = e @ put_uvarint i"

definition appendInt64 :: "byte list \<Rightarrow> 64 word \<Rightarrow> byte list" where
  "appendInt64 e i = e @ put_varint i"

definition appendBool :: "byte list \<Rightarrow> bool \<Rightarrow> byte list" where
  "appendBool e b = appendUInt64 e (if b then 1 else 0)"

definition appendTime :: "byte list \<Rightarrow> go_time \<Rightarrow> (cur_err, byte list) outcome" where
  "appendTime e t =
     map_o (\<lambda>tb. appendUInt64 e (word_of_nat (length tb)) @ tb) (marshal_time t)"

definition appendString :: "byte list \<Rightarrow> string \<Rightarrow> byte list" where
  "appendString e s =
     (let e' = appendUInt64 e (word_of_nat (length s))
      in if length s \<noteq> 0 then e' @ str_bytes s else e')"

definition appendDBID :: "byte list \<Rightarrow> dbid \<Rightarrow> byte list" where
  "appendDBID e d = appendString e d"

text \<open>A \<open>float64\<close> is its IEEE-754 bit pattern (\<open>math.Float64bits\<close>).\<close>

definition appendFloat64 :: "byte list \<Rightarrow> 64 word \<Rightarrow> byte list" where
  "appendFloat64 e bits = appendUInt64 e bits"

section \<open>The decoder\<close>

text \<open>
  A decoder call consumes a prefix of the unread bytes. A failed call ends the
  \<open>Unpack\<close> that made it, so what it leaves unread does not matter.
  \<open>make([]byte, n)\<close> panics when the size exceeds the address space the runtime can
  allocate from (\<open>2 ^ 48\<close> bytes on 64-bit Linux), and \<open>bytes.Reader.Read\<close> reports
  \<open>io.EOF\<close> whenever nothing is left, also when asked for zero bytes.
\<close>

type_synonym 'a reader = "byte list \<Rightarrow> (cur_err, 'a \<times> byte list) outcome"

definition max_alloc :: nat where
  "max_alloc = 2 ^ 48"

definition makeslice_panic :: string where
  "makeslice_panic = ''makeslice: len out of range''"

definition setReader :: "string \<Rightarrow> (cur_err, byte list) outcome" where
  "setReader base64Cursor = b64_decode base64Cursor"

definition reader_read :: "nat \<Rightarrow> byte list reader" where
  "reader_read n rd = (if rd = [] then Err EOF else Ok (take n rd, drop n rd))"

definition readUInt64 :: "64 word reader" where
  "readUInt64 rd = read_uvarint rd"

definition readInt64 :: "64 word reader" where
  "readInt64 rd = read_varint rd"

definition readBool :: "bool reader" where
  "readBool rd = bind_o (readUInt64 rd) (\<lambda>(b, r). Ok (0 < b, r))"

definition readTime :: "go_time reader" where
  "readTime rd =
     bind_o (readUInt64 rd) (\<lambda>(timeLen, r).
       if max_alloc < unat timeLen then Panic makeslice_panic
       else bind_o (reader_read (unat timeLen) r) (\<lambda>(timeBytes, r').
         if length timeBytes \<noteq> unat timeLen
         then Err (ShortRead ''time'' (unat timeLen) (length timeBytes))
         else bind_o (unmarshal_time timeBytes) (\<lambda>t. Ok (t, r'))))"

definition readString :: "string reader" where
  "readString rd =
     bind_o (readUInt64 rd) (\<lambda>(strLen, r).
       if max_alloc < unat strLen then Panic makeslice_panic
       else bind_o (reader_read (unat strLen) r) (\<lambda>(strBytes, r').
         if length strBytes \<noteq> unat strLen
         then Err (ShortRead ''string'' (unat strLen) (length strBytes))
         else Ok (bytes_str strBytes, r')))"

definition readDBID :: "dbid reader" where
  "readDBID rd = bind_o (readString rd) (\<lambda>(s, r). Ok (s, r))"

definition readFloat64 :: "64 word reader" where
  "readFloat64 rd = bind_o (readUInt64 rd) (\<lambda>(bits, r). Ok (bits, r))"

lemma bytes_str_str_bytes [simp]: "bytes_str (str_bytes s) = s"
proof -
  have "char_of (unat (word_of_nat (of_char c) :: byte)) = c" for c
  proof -
    have "unat (word_of_nat (of_char c) :: byte) = of_char c"
      by (simp add: unat_of_nat)
    then show ?thesis by simp
  qed
  then show ?thesis by (simp add: bytes_str_def str_bytes_def comp_def)
qed

lemma bytes_str_Nil [simp]: "bytes_str [] = []"
  by (simp add: bytes_str_def)

lemma length_str_bytes [simp]: "length (str_bytes s) = length s"
  by (simp add: str_bytes_def)

lemma str_bytes_eq_Nil [simp]: "str_bytes s = [] \<longleftrightarrow> s = []"
  by (simp add: str_bytes_def)

lemmas encoder_defs =
  appendUInt64_def appendInt64_def appendBool_def appendString_def appendDBID_def appendFloat64_def

text \<open>A short string or time length fits the 64-bit length prefix.\<close>

lemma unat_length: "n \<le> max_alloc \<Longrightarrow> unat (word_of_nat n :: 64 word) = n"
  by (simp add: max_alloc_def unat_of_nat)

lemma readUInt64_put: "readUInt64 (put_uvarint v @ rest) = Ok (v, rest)"
  by (simp add: readUInt64_def read_put_uvarint)

lemma readInt64_put: "readInt64 (put_varint v @ rest) = Ok (v, rest)"
  by (simp add: readInt64_def read_put_varint)

lemma readBool_put: "readBool (appendBool [] b @ rest) = Ok (b, rest)"
  by (simp add: readBool_def encoder_defs readUInt64_put)

lemma readFloat64_put: "readFloat64 (appendFloat64 [] f @ rest) = Ok (f, rest)"
  by (simp add: readFloat64_def encoder_defs readUInt64_put)

lemma readTime_put:
  assumes "time_ok t" "marshal_time t = Ok bs"
  shows "readTime (put_uvarint (word_of_nat (length bs)) @ bs @ rest) = Ok (t, rest)"
proof -
  have len: "length bs = 15" using assms marshal_time_total by fastforce
  then have "bs @ rest \<noteq> []" by auto
  with assms len show ?thesis
    by (simp add: readTime_def readUInt64_put reader_read_def unmarshal_marshal_time
        unat_length max_alloc_def)
qed

text \<open>
  A string is read back whenever a byte follows its length: an empty string at the very
  end of the buffer is not.
\<close>

lemma readString_put:
  assumes "length s \<le> max_alloc" "s \<noteq> [] \<or> rest \<noteq> []"
  shows "readString (appendString [] s @ rest) = Ok (s, rest)"
  using assms
  by (cases "s = []")
     (auto simp: readString_def encoder_defs Let_def readUInt64_put reader_read_def unat_length)

lemma readString_empty_at_end: "readString (appendString [] []) = Err EOF"
  using readUInt64_put [of 0 "[]"] by (simp add: readString_def encoder_defs reader_read_def)

lemma readDBID_eq: "readDBID = readString"
  by (rule ext) (simp add: readDBID_def)

section \<open>Typed cells, Pack and Unpack\<close>

text \<open>
  \<open>initCursor\<close> is handed pointers to the fields of a cursor as \<open>any\<close>, and \<open>packVal\<close> and
  \<open>unpackVal\<close> switch on the dynamic type. A cell is such a value with its dynamic type;
  \<open>VOther\<close> stands for every type the switches do not name. Packing knows more types
  than unpacking: a \<open>*uint64\<close>, \<open>*int\<close> or plain \<open>DBID\<close> can be packed only.
\<close>

datatype cell =
    VBool bool
  | VString string
  | VDBIDPtr dbid
  | VDBID dbid
  | VUint64 "64 word"
  | VInt64 "64 word"
  | VFloat64 "64 word"
  | VInt "64 word"
  | VTime go_time
  | VDBIDs "dbid list"
  | VOther string

definition packSlice :: "byte list \<Rightarrow> dbid list \<Rightarrow> byte list" where
  "packSlice e ds = foldl appendDBID (appendInt64 e (word_of_nat (length ds))) ds"

fun packVal :: "byte list \<Rightarrow> cell \<Rightarrow> (cur_err, byte list) outcome" where
  "packVal e (VBool v) = Ok (appendBool e v)"
| "packVal e (VString v) = Ok (appendString e v)"
| "packVal e (VDBIDPtr v) = Ok (appendDBID e v)"
| "packVal e (VDBID v) = Ok (appendDBID e v)"
| "packVal e (VUint64 v) = Ok (appendUInt64 e v)"
| "packVal e (VInt64 v) = Ok (appendInt64 e v)"
| "packVal e (VFloat64 v) = Ok (appendFloat64 e v)"
| "packVal e (VInt v) = Ok (appendInt64 e v)"
| "packVal e (VTime v) = appendTime e v"
| "packVal e (VDBIDs v) = Ok (packSlice e v)"
| "packVal e (VOther ty) = Panic (''don't know how to encode type: '' @ ty)"

fun packVals :: "byte list \<Rightarrow> cell list \<Rightarrow> (cur_err, byte list) outcome" where
  "packVals e [] = Ok e"
| "packVals e (v # vs) = bind_o (packVal e v) (\<lambda>e'. packVals e' vs)"

definition Pack :: "cell list \<Rightarrow> (cur_err, string) outcome" where
  "Pack vals = bind_o (packVals newCursorEncoder vals) (\<lambda>e. Ok (asBase64 e))"

fun readItems :: "nat \<Rightarrow> dbid list reader" where
  "readItems 0 rd = Ok ([], rd)"
| "readItems (Suc n) rd =
     bind_o (readDBID rd) (\<lambda>(d, r). bind_o (readItems n r) (\<lambda>(ds, r'). Ok (d # ds, r')))"

text \<open>\<open>make([]T, l)\<close> for 16-byte strings panics on a negative or oversized \<open>l\<close>.\<close>

definition unpackSliceTo :: "dbid list reader" where
  "unpackSliceTo rd =
     bind_o (readInt64 rd) (\<lambda>(l, r).
       if sint l < 0 \<or> int max_alloc < sint l * 16 then Panic makeslice_panic
       else readItems (nat (sint l)) r)"

definition unpackTo :: "('a \<Rightarrow> cell) \<Rightarrow> 'a reader \<Rightarrow> cell reader" where
  "unpackTo into f rd = bind_o (f rd) (\<lambda>(v, r). Ok (into v, r))"

fun unpackVal :: "cell \<Rightarrow> cell reader" where
  "unpackVal (VString v) rd = unpackTo VString readString rd"
| "unpackVal (VTime v) rd = unpackTo VTime readTime rd"
| "unpackVal (VDBIDPtr v) rd = unpackTo VDBIDPtr readDBID rd"
| "unpackVal (VBool v) rd = unpackTo VBool readBool rd"
| "unpackVal (VInt64 v) rd = unpackTo VInt64 readInt64 rd"
| "unpackVal (VFloat64 v) rd = unpackTo VFloat64 readFloat64 rd"
| "unpackVal (VDBIDs v) rd = unpackTo VDBIDs unpackSliceTo rd"
| "unpackVal v rd = Panic ''don't know how to unpack type''"

fun unpackVals :: "cell list \<Rightarrow> cell list reader" where
  "unpackVals [] rd = Ok ([], rd)"
| "unpackVals (v # vs) rd =
     bind_o (unpackVal v rd) (\<lambda>(w, r). bind_o (unpackVals vs r) (\<lambda>(ws, r'). Ok (w # ws, r')))"

text \<open>\<open>Unpack\<close> leaves the fields alone for an empty string and ignores bytes that follow
  the last field.\<close>

definition Unpack :: "string \<Rightarrow> cell list \<Rightarrow> (cur_err, cell list) outcome" where
  "Unpack s vals =
     (if s = [] then Ok vals
      else bind_o (setReader s) (\<lambda>rd. bind_o (unpackVals vals rd) (\<lambda>(ws, r). Ok ws)))"

text \<open>
  \<open>initCursor\<close> builds the unpacking functions of all fields at once, so a field that
  cannot be unpacked panics when the cursor is created.
\<close>

fun unpackable :: "cell \<Rightarrow> bool" where
  "unpackable (VString v) = True"
| "unpackable (VTime v) = True"
| "unpackable (VDBIDPtr v) = True"
| "unpackable (VBool v) = True"
| "unpackable (VInt64 v) = True"
| "unpackable (VFloat64 v) = True"
| "unpackable (VDBIDs v) = True"
| "unpackable v = False"

definition initCursor :: "cell list \<Rightarrow> (cur_err, cell list) outcome" where
  "initCursor vals =
     (if list_all unpackable vals then Ok vals else Panic ''don't know how to unpack type'')"

section \<open>Round trip\<close>

text \<open>
  Two cells have the same dynamic type, a cell's value can be written and read in full,
  and a cell's encoding ends with the length of an empty string: the last is what the
  decoder cannot read back at the end of the buffer.
\<close>

fun same_kind :: "cell \<Rightarrow> cell \<Rightarrow> bool" where
  "same_kind (VString a) (VString b) = True"
| "same_kind (VTime a) (VTime b) = True"
| "same_kind (VDBIDPtr a) (VDBIDPtr b) = True"
| "same_kind (VBool a) (VBool b) = True"
| "same_kind (VInt64 a) (VInt64 b) = True"
| "same_kind (VFloat64 a) (VFloat64 b) = True"
| "same_kind (VDBIDs a) (VDBIDs b) = True"
| "same_kind a b = False"

fun cell_ok :: "cell \<Rightarrow> bool" where
  "cell_ok (VString s) = (length s \<le> max_alloc)"
| "cell_ok (VDBIDPtr d) = (length d \<le> max_alloc)"
| "cell_ok (VTime t) = time_ok t"
| "cell_ok (VDBIDs ds) = (length ds * 16 \<le> max_alloc \<and> (\<forall>d\<in>set ds. length d \<le> max_alloc))"
| "cell_ok v = unpackable v"

fun ends_empty :: "cell \<Rightarrow> bool" where
  "ends_empty (VString s) = (s = [])"
| "ends_empty (VDBIDPtr d) = (d = [])"
| "ends_empty (VDBIDs ds) = (ds \<noteq> [] \<and> last ds = [])"
| "ends_empty v = False"

fun cell_bytes :: "cell \<Rightarrow> byte list" where
  "cell_bytes (VTime t) =
     (case marshal_time t of Ok bs \<Rightarrow> put_uvarint (word_of_nat (length bs)) @ bs | _ \<Rightarrow> [])"
| "cell_bytes v = (case packVal [] v of Ok bs \<Rightarrow> bs | _ \<Rightarrow> [])"

lemma foldl_appendDBID: "foldl appendDBID e ds = e @ concat (map (appendString []) ds)"
proof (induction ds arbitrary: e)
  case Nil
  then show ?case by simp
next
  case (Cons d ds)
  have "appendDBID e d = e @ appendString [] d"
    by (simp add: encoder_defs Let_def)
  then show ?case by (simp add: Cons)
qed

lemma packVal_bytes: "cell_ok v \<Longrightarrow> packVal e v = Ok (e @ cell_bytes v)"
  by (cases v)
     (auto simp: encoder_defs appendTime_def packSlice_def foldl_appendDBID Let_def
        dest: marshal_time_total)

lemma packVals_bytes:
  "list_all cell_ok vs \<Longrightarrow> packVals e vs = Ok (e @ concat (map cell_bytes vs))"
  by (induction vs arbitrary: e) (auto simp: packVal_bytes)

lemma cell_bytes_nonempty: "cell_ok v \<Longrightarrow> cell_bytes v \<noteq> []"
  by (cases v)
     (auto simp: encoder_defs packSlice_def foldl_appendDBID Let_def dest: marshal_time_total)

lemma appendString_nonempty [simp]: "appendString e s \<noteq> []"
  by (simp add: encoder_defs Let_def)

lemma readItems_put:
  assumes "\<forall>d\<in>set ds. length d \<le> max_alloc" "ds = [] \<or> last ds \<noteq> [] \<or> rest \<noteq> []"
  shows "readItems (length ds) (concat (map (appendString []) ds) @ rest) = Ok (ds, rest)"
  using assms
proof (induction ds)
  case Nil
  then show ?case by simp
next
  case (Cons d ds)
  have "d \<noteq> [] \<or> concat (map (appendString []) ds) @ rest \<noteq> []"
    using Cons.prems(2) by (cases ds) auto
  with Cons show ?case
    by (auto simp: readDBID_eq readString_put split: if_splits)
qed

lemma readItems_empty_at_end:
  "\<forall>d\<in>set ds. length d \<le> max_alloc \<Longrightarrow> ds \<noteq> [] \<Longrightarrow> last ds = [] \<Longrightarrow>
   readItems (length ds) (concat (map (appendString []) ds)) = Err EOF"
proof (induction ds)
  case Nil
  then show ?case by simp
next
  case (Cons d ds)
  show ?case
  proof (cases "ds = []")
    case True
    with Cons show ?thesis by (simp add: readDBID_eq readString_empty_at_end)
  next
    case False
    then have "concat (map (appendString []) ds) \<noteq> []" by (cases ds) auto
    with False Cons show ?thesis by (simp add: readDBID_eq readString_put)
  qed
qed

lemma sint_length: "n * 16 \<le> max_alloc \<Longrightarrow> sint (word_of_nat n :: 64 word) = int n"
proof -
  assume "n * 16 \<le> max_alloc"
  then have "int n < 2 ^ 63" by (simp add: max_alloc_def)
  moreover have "sint (word_of_int (int n) :: 64 word) = signed_take_bit 63 (int n)"
    by (simp only: sint_sbintrunc') simp
  ultimately show ?thesis by (simp add: signed_take_bit_int_eq_self)
qed

lemma unpackVal_time:
  assumes "time_ok t"
  shows "unpackVal (VTime u) (cell_bytes (VTime t) @ rest) = Ok (VTime t, rest)"
proof -
  obtain bs where "marshal_time t = Ok bs" using assms marshal_time_total by blast
  with readTime_put [OF assms this] show ?thesis by (simp add: unpackTo_def)
qed

lemma unpackVal_put:
  assumes "cell_ok v" "same_kind u v" "\<not> ends_empty v \<or> rest \<noteq> []"
  shows "unpackVal u (cell_bytes v @ rest) = Ok (v, rest)"
  using assms
proof (cases v)
  case (VTime t)
  with assms unpackVal_time show ?thesis by (cases u) auto
qed (cases u; auto simp: unpackTo_def readString_put readDBID_eq appendDBID_def readBool_put
       readFloat64_put appendInt64_def readInt64_put unpackSliceTo_def packSlice_def
       foldl_appendDBID readItems_put sint_length)+

lemma unpackVal_empty_at_end:
  assumes "cell_ok v" "same_kind u v" "ends_empty v"
  shows "unpackVal u (cell_bytes v) = Err EOF"
  using assms readInt64_put
  by (cases v; cases u)
     (auto simp: unpackTo_def readString_empty_at_end readDBID_eq appendDBID_def appendInt64_def
        unpackSliceTo_def packSlice_def foldl_appendDBID sint_length readItems_empty_at_end)

lemma unpackVals_put:
  assumes "list_all cell_ok vs" "list_all2 same_kind us vs"
    and "vs = [] \<or> \<not> ends_empty (last vs) \<or> rest \<noteq> []"
  shows "unpackVals us (concat (map cell_bytes vs) @ rest) = Ok (vs, rest)"
  using assms
proof (induction vs arbitrary: us)
  case Nil
  then show ?case by simp
next
  case (Cons v vs)
  then obtain u us' where us: "us = u # us'" "same_kind u v" "list_all2 same_kind us' vs"
    by (auto simp: list_all2_Cons2)
  have "\<not> ends_empty v \<or> concat (map cell_bytes vs) @ rest \<noteq> []"
    using Cons.prems(1,3) cell_bytes_nonempty by (cases vs) auto
  moreover have "vs = [] \<or> \<not> ends_empty (last vs) \<or> rest \<noteq> []"
    using Cons.prems(3) by (auto split: if_splits)
  ultimately show ?case
    using Cons us by (auto simp: unpackVal_put)
qed

lemma unpackVals_empty_at_end:
  assumes "list_all cell_ok vs" "list_all2 same_kind us vs" "vs \<noteq> []" "ends_empty (last vs)"
  shows "unpackVals us (concat (map cell_bytes vs)) = Err EOF"
  using assms
proof (induction vs arbitrary: us)
  case Nil
  then show ?case by simp
next
  case (Cons v vs)
  then obtain u us' where us: "us = u # us'" "same_kind u v" "list_all2 same_kind us' vs"
    by (auto simp: list_all2_Cons2)
  show ?case
  proof (cases "vs = []")
    case True
    with Cons us show ?thesis by (simp add: unpackVal_empty_at_end)
  next
    case False
    then have "concat (map cell_bytes vs) \<noteq> []"
      using Cons.prems(1) cell_bytes_nonempty by (cases vs) auto
    with False Cons us show ?thesis by (auto simp: unpackVal_put)
  qed
qed

lemma Pack_cells: "list_all cell_ok vs \<Longrightarrow> Pack vs = Ok (b64_encode (concat (map cell_bytes vs)))"
  by (simp add: Pack_def packVals_bytes newCursorEncoder_def asBase64_def)

lemma Pack_nonempty: "list_all cell_ok vs \<Longrightarrow> vs \<noteq> [] \<Longrightarrow> Pack vs = Ok s \<Longrightarrow> s \<noteq> []"
  using cell_bytes_nonempty by (cases vs) (auto simp: Pack_cells)

lemma Unpack_Pack:
  assumes "list_all cell_ok vs" "list_all2 same_kind us vs" "vs \<noteq> []" "\<not> ends_empty (last vs)"
    and "Pack vs = Ok s"
  shows "Unpack s us = Ok vs"
proof -
  have "s \<noteq> []" using assms Pack_nonempty by blast
  moreover have "setReader s = Ok (concat (map cell_bytes vs))"
    using assms by (auto simp: Pack_cells setReader_def b64_decode_encode)
  moreover have "unpackVals us (concat (map cell_bytes vs) @ []) = Ok (vs, [])"
    by (rule unpackVals_put) (use assms in auto)
  ultimately show ?thesis by (simp add: Unpack_def)
qed

lemma Unpack_Pack_empty_at_end:
  assumes "list_all cell_ok vs" "list_all2 same_kind us vs" "vs \<noteq> []" "ends_empty (last vs)"
    and "Pack vs = Ok s"
  shows "Unpack s us = Err EOF"
proof -
  have "s \<noteq> []" using assms Pack_nonempty by blast
  moreover have "setReader s = Ok (concat (map cell_bytes vs))"
    using assms by (auto simp: Pack_cells setReader_def b64_decode_encode)
  ultimately show ?thesis
    using unpackVals_empty_at_end [OF assms(1-4)] by (simp add: Unpack_def)
qed

end
