(* ===== verification/Cursor_Types.thy ===== *)
theory Cursor_Types
  imports Cursor
begin

text \<open>
  The seven cursor types of publicapi/pagination.go. Each is a record of its fields, the
  cells \<open>initCursor\<close> is handed, and \<open>Pack\<close> and \<open>Unpack\<close> through those cells. The Go
  interface \<open>cursor\<close> (\<open>Pack\<close> and \<open>Unpack\<close>) is the locale \<open>cursor_wire\<close>; every type
  interprets it, with the values that survive the wire as its \<open>wire_ok\<close>.
\<close>

section \<open>The interface\<close>

locale cursor_wire =
  fixes pack :: "'c \<Rightarrow> (cur_err, string) outcome"
    and unpack :: "string \<Rightarrow> 'c \<Rightarrow> (cur_err, 'c) outcome"
    and wire_ok :: "'c \<Rightarrow> bool"
  assumes pack_ok: "wire_ok c \<Longrightarrow> \<exists>s. pack c = Ok s \<and> s \<noteq> []"
    and unpack_pack: "wire_ok c \<Longrightarrow> pack c = Ok s \<Longrightarrow> unpack s c0 = Ok c"
begin

text \<open>Packed cursors identify the value: equal strings come from equal cursors.\<close>

lemma pack_inject:
  assumes "wire_ok c" "wire_ok d" "pack c = pack d"
  shows "c = d"
proof -
  obtain s where s: "pack c = Ok s" using pack_ok assms(1) by blast
  have "pack d = Ok s" using s assms(3) by (rule subst [of "pack c" "pack d" "\<lambda>r. r = Ok s", rotated])
  then have "unpack s c = Ok d" by (rule unpack_pack [OF assms(2)])
  moreover have "unpack s c = Ok c" using s by (rule unpack_pack [OF assms(1)])
  ultimately show ?thesis by simp
qed

lemma round_trip: "wire_ok c \<longrightarrow> (\<exists>s. pack c = Ok s \<and> s \<noteq> [] \<and> (\<forall>c0. unpack s c0 = Ok c))"
  using pack_ok unpack_pack by blast

lemma pack_not_panic: "wire_ok c \<Longrightarrow> \<not> is_panic (pack c)"
  using pack_ok by fastforce

lemma unpack_independent: "wire_ok c \<Longrightarrow> pack c = Ok s \<Longrightarrow> unpack s a = unpack s b"
  by (simp add: unpack_pack)

end

section \<open>The cursor types\<close>

type_synonym int64 = "64 word"
type_synonym float64 = "64 word"

definition zero_time :: go_time where
  "zero_time = \<lparr>tm_sec = 0, tm_nsec = 0, tm_zone = UTC\<rparr>"

text \<open>\<open>sliceToMapIndex\<close>: the index of each element, the last one if it occurs again.\<close>

fun index_from :: "int \<Rightarrow> ('v \<rightharpoonup> int) \<Rightarrow> 'v list \<Rightarrow> ('v \<rightharpoonup> int)" where
  "index_from i m [] = m"
| "index_from i m (v # vs) = index_from (i + 1) (m(v \<mapsto> i)) vs"

definition sliceToMapIndex :: "'v list \<Rightarrow> ('v \<rightharpoonup> int)" where
  "sliceToMapIndex s = index_from 0 Map.empty s"

lemma index_from_distinct:
  "distinct vs \<Longrightarrow> j < length vs \<Longrightarrow> index_from i m vs (vs ! j) = Some (i + int j)"
proof (induction vs arbitrary: i m j)
  case Nil
  then show ?case by simp
next
  case (Cons v vs)
  have other: "x \<notin> set vs \<Longrightarrow> index_from k n vs x = n x" for x k n
    by (induction vs arbitrary: k n) auto
  show ?case
    using Cons by (cases j) (auto simp: other)
qed

lemma sliceToMapIndex_nth: "distinct vs \<Longrightarrow> j < length vs \<Longrightarrow> sliceToMapIndex vs (vs ! j) = Some (int j)"
  by (simp add: sliceToMapIndex_def index_from_distinct)

subsection \<open>timeIDCursor\<close>

record timeIDCursor =
  ti_Time :: go_time
  ti_ID :: dbid

definition NewTimeIDCursor :: timeIDCursor where
  "NewTimeIDCursor = \<lparr>ti_Time = zero_time, ti_ID = []\<rparr>"

definition timeID_cells :: "timeIDCursor \<Rightarrow> cell list" where
  "timeID_cells c = [VTime (ti_Time c), VDBIDPtr (ti_ID c)]"

definition timeID_store :: "cell list \<Rightarrow> timeIDCursor \<Rightarrow> timeIDCursor" where
  "timeID_store vs c =
     (case vs of
        [VTime a, VDBIDPtr b] \<Rightarrow>
          c\<lparr>ti_Time := a, ti_ID := b\<rparr>
      | _ \<Rightarrow> c)"

definition timeID_Pack :: "timeIDCursor \<Rightarrow> (cur_err, string) outcome" where
  "timeID_Pack c = Pack (timeID_cells c)"

definition timeID_Unpack :: "string \<Rightarrow> timeIDCursor \<Rightarrow> (cur_err, timeIDCursor) outcome" where
  "timeID_Unpack s c = bind_o (Unpack s (timeID_cells c)) (\<lambda>vs. Ok (timeID_store vs c))"

definition timeID_wire_ok :: "timeIDCursor \<Rightarrow> bool" where
  "timeID_wire_ok c \<longleftrightarrow> list_all cell_ok (timeID_cells c) \<and> \<not> ends_empty (last (timeID_cells c))"

lemma timeID_same_kind: "list_all2 same_kind (timeID_cells c0) (timeID_cells c)"
  by (simp add: timeID_cells_def)

lemma timeID_wire: "cursor_wire timeID_Pack timeID_Unpack timeID_wire_ok"
proof
  fix c :: timeIDCursor
  assume ok: "timeID_wire_ok c"
  have ne: "timeID_cells c \<noteq> []" by (simp add: timeID_cells_def)
  from ok have all: "list_all cell_ok (timeID_cells c)" by (simp add: timeID_wire_ok_def)
  show "\<exists>s. timeID_Pack c = Ok s \<and> s \<noteq> []"
    using Pack_nonempty [OF all ne] by (auto simp: timeID_Pack_def Pack_cells [OF all])
  fix s c0
  assume "timeID_Pack c = Ok s"
  then have "Unpack s (timeID_cells c0) = Ok (timeID_cells c)"
    using ok by (intro Unpack_Pack all timeID_same_kind ne) (auto simp: timeID_Pack_def timeID_wire_ok_def)
  then show "timeID_Unpack s c0 = Ok c"
    using ok by (simp add: timeID_Unpack_def timeID_store_def timeID_cells_def)
qed

interpretation timeID_iface: cursor_wire timeID_Pack timeID_Unpack timeID_wire_ok
  by (rule timeID_wire)

subsection \<open>boolBoolIntIDCursor\<close>

record boolBoolIntIDCursor =
  bbii_Bool1 :: bool
  bbii_Bool2 :: bool
  bbii_Int :: int64
  bbii_ID :: dbid

definition NewBoolBoolIntIDCursor :: boolBoolIntIDCursor where
  "NewBoolBoolIntIDCursor = \<lparr>bbii_Bool1 = False, bbii_Bool2 = False, bbii_Int = 0, bbii_ID = []\<rparr>"

definition boolBoolIntID_cells :: "boolBoolIntIDCursor \<Rightarrow> cell list" where
  "boolBoolIntID_cells c = [VBool (bbii_Bool1 c), VBool (bbii_Bool2 c), VInt64 (bbii_Int c), VDBIDPtr (bbii_ID c)]"

definition boolBoolIntID_store :: "cell list \<Rightarrow> boolBoolIntIDCursor \<Rightarrow> boolBoolIntIDCursor" where
  "boolBoolIntID_store vs c =
     (case vs of
        [VBool a, VBool b, VInt64 d, VDBIDPtr e] \<Rightarrow>
          c\<lparr>bbii_Bool1 := a, bbii_Bool2 := b, bbii_Int := d, bbii_ID := e\<rparr>
      | _ \<Rightarrow> c)"

definition boolBoolIntID_Pack :: "boolBoolIntIDCursor \<Rightarrow> (cur_err, string) outcome" where
  "boolBoolIntID_Pack c = Pack (boolBoolIntID_cells c)"

definition boolBoolIntID_Unpack :: "string \<Rightarrow> boolBoolIntIDCursor \<Rightarrow> (cur_err, boolBoolIntIDCursor) outcome" where
  "boolBoolIntID_Unpack s c = bind_o (Unpack s (boolBoolIntID_cells c)) (\<lambda>vs. Ok (boolBoolIntID_store vs c))"

definition boolBoolIntID_wire_ok :: "boolBoolIntIDCursor \<Rightarrow> bool" where
  "boolBoolIntID_wire_ok c \<longleftrightarrow> list_all cell_ok (boolBoolIntID_cells c) \<and> \<not> ends_empty (last (boolBoolIntID_cells c))"

lemma boolBoolIntID_same_kind: "list_all2 same_kind (boolBoolIntID_cells c0) (boolBoolIntID_cells c)"
  by (simp add: boolBoolIntID_cells_def)

lemma boolBoolIntID_wire: "cursor_wire boolBoolIntID_Pack boolBoolIntID_Unpack boolBoolIntID_wire_ok"
proof
  fix c :: boolBoolIntIDCursor
  assume ok: "boolBoolIntID_wire_ok c"
  have ne: "boolBoolIntID_cells c \<noteq> []" by (simp add: boolBoolIntID_cells_def)
  from ok have all: "list_all cell_ok (boolBoolIntID_cells c)" by (simp add: boolBoolIntID_wire_ok_def)
  show "\<exists>s. boolBoolIntID_Pack c = Ok s \<and> s \<noteq> []"
    using Pack_nonempty [OF all ne] by (auto simp: boolBoolIntID_Pack_def Pack_cells [OF all])
  fix s c0
  assume "boolBoolIntID_Pack c = Ok s"
  then have "Unpack s (boolBoolIntID_cells c0) = Ok (boolBoolIntID_cells c)"
    using ok by (intro Unpack_Pack all boolBoolIntID_same_kind ne) (auto simp: boolBoolIntID_Pack_def boolBoolIntID_wire_ok_def)
  then show "boolBoolIntID_Unpack s c0 = Ok c"
    using ok by (simp add: boolBoolIntID_Unpack_def boolBoolIntID_store_def boolBoolIntID_cells_def)
qed

interpretation boolBoolIntID_iface: cursor_wire boolBoolIntID_Pack boolBoolIntID_Unpack boolBoolIntID_wire_ok
  by (rule boolBoolIntID_wire)

subsection \<open>boolTimeIDCursor\<close>

record boolTimeIDCursor =
  bti_Bool :: bool
  bti_Time :: go_time
  bti_ID :: dbid

definition NewBoolTimeIDCursor :: boolTimeIDCursor where
  "NewBoolTimeIDCursor = \<lparr>bti_Bool = False, bti_Time = zero_time, bti_ID = []\<rparr>"

definition boolTimeID_cells :: "boolTimeIDCursor \<Rightarrow> cell list" where
  "boolTimeID_cells c = [VBool (bti_Bool c), VTime (bti_Time c), VDBIDPtr (bti_ID c)]"

definition boolTimeID_store :: "cell list \<Rightarrow> boolTimeIDCursor \<Rightarrow> boolTimeIDCursor" where
  "boolTimeID_store vs c =
     (case vs of
        [VBool a, VTime b, VDBIDPtr d] \<Rightarrow>
          c\<lparr>bti_Bool := a, bti_Time := b, bti_ID := d\<rparr>
      | _ \<Rightarrow> c)"

definition boolTimeID_Pack :: "boolTimeIDCursor \<Rightarrow> (cur_err, string) outcome" where
  "boolTimeID_Pack c = Pack (boolTimeID_cells c)"

definition boolTimeID_Unpack :: "string \<Rightarrow> boolTimeIDCursor \<Rightarrow> (cur_err, boolTimeIDCursor) outcome" where
  "boolTimeID_Unpack s c = bind_o (Unpack s (boolTimeID_cells c)) (\<lambda>vs. Ok (boolTimeID_store vs c))"

definition boolTimeID_wire_ok :: "boolTimeIDCursor \<Rightarrow> bool" where
  "boolTimeID_wire_ok c \<longleftrightarrow> list_all cell_ok (boolTimeID_cells c) \<and> \<not> ends_empty (last (boolTimeID_cells c))"

lemma boolTimeID_same_kind: "list_all2 same_kind (boolTimeID_cells c0) (boolTimeID_cells c)"
  by (simp add: boolTimeID_cells_def)

lemma boolTimeID_wire: "cursor_wire boolTimeID_Pack boolTimeID_Unpack boolTimeID_wire_ok"
proof
  fix c :: boolTimeIDCursor
  assume ok: "boolTimeID_wire_ok c"
  have ne: "boolTimeID_cells c \<noteq> []" by (simp add: boolTimeID_cells_def)
  from ok have all: "list_all cell_ok (boolTimeID_cells c)" by (simp add: boolTimeID_wire_ok_def)
  show "\<exists>s. boolTimeID_Pack c = Ok s \<and> s \<noteq> []"
    using Pack_nonempty [OF all ne] by (auto simp: boolTimeID_Pack_def Pack_cells [OF all])
  fix s c0
  assume "boolTimeID_Pack c = Ok s"
  then have "Unpack s (boolTimeID_cells c0) = Ok (boolTimeID_cells c)"
    using ok by (intro Unpack_Pack all boolTimeID_same_kind ne) (auto simp: boolTimeID_Pack_def boolTimeID_wire_ok_def)
  then show "boolTimeID_Unpack s c0 = Ok c"
    using ok by (simp add: boolTimeID_Unpack_def boolTimeID_store_def boolTimeID_cells_def)
qed

interpretation boolTimeID_iface: cursor_wire boolTimeID_Pack boolTimeID_Unpack boolTimeID_wire_ok
  by (rule boolTimeID_wire)

subsection \<open>stringIDCursor\<close>

record stringIDCursor =
  si_String :: string
  si_ID :: dbid

definition NewStringIDCursor :: stringIDCursor where
  "NewStringIDCursor = \<lparr>si_String = [], si_ID = []\<rparr>"

definition stringID_cells :: "stringIDCursor \<Rightarrow> cell list" where
  "stringID_cells c = [VString (si_String c), VDBIDPtr (si_ID c)]"

definition stringID_store :: "cell list \<Rightarrow> stringIDCursor \<Rightarrow> stringIDCursor" where
  "stringID_store vs c =
     (case vs of
        [VString a, VDBIDPtr b] \<Rightarrow>
          c\<lparr>si_String := a, si_ID := b\<rparr>
      | _ \<Rightarrow> c)"

definition stringID_Pack :: "stringIDCursor \<Rightarrow> (cur_err, string) outcome" where
  "stringID_Pack c = Pack (stringID_cells c)"

definition stringID_Unpack :: "string \<Rightarrow> stringIDCursor \<Rightarrow> (cur_err, stringIDCursor) outcome" where
  "stringID_Unpack s c = bind_o (Unpack s (stringID_cells c)) (\<lambda>vs. Ok (stringID_store vs c))"

definition stringID_wire_ok :: "stringIDCursor \<Rightarrow> bool" where
  "stringID_wire_ok c \<longleftrightarrow> list_all cell_ok (stringID_cells c) \<and> \<not> ends_empty (last (stringID_cells c))"

lemma stringID_same_kind: "list_all2 same_kind (stringID_cells c0) (stringID_cells c)"
  by (simp add: stringID_cells_def)

lemma stringID_wire: "cursor_wire stringID_Pack stringID_Unpack stringID_wire_ok"
proof
  fix c :: stringIDCursor
  assume ok: "stringID_wire_ok c"
  have ne: "stringID_cells c \<noteq> []" by (simp add: stringID_cells_def)
  from ok have all: "list_all cell_ok (stringID_cells c)" by (simp add: stringID_wire_ok_def)
  show "\<exists>s. stringID_Pack c = Ok s \<and> s \<noteq> []"
    using Pack_nonempty [OF all ne] by (auto simp: stringID_Pack_def Pack_cells [OF all])
  fix s c0
  assume "stringID_Pack c = Ok s"
  then have "Unpack s (stringID_cells c0) = Ok (stringID_cells c)"
    using ok by (intro Unpack_Pack all stringID_same_kind ne) (auto simp: stringID_Pack_def stringID_wire_ok_def)
  then show "stringID_Unpack s c0 = Ok c"
    using ok by (simp add: stringID_Unpack_def stringID_store_def stringID_cells_def)
qed

interpretation stringID_iface: cursor_wire stringID_Pack stringID_Unpack stringID_wire_ok
  by (rule stringID_wire)

subsection \<open>intTimeIDCursor\<close>

record intTimeIDCursor =
  iti_Int :: int64
  iti_Time :: go_time
  iti_ID :: dbid

definition NewIntTimeIDCursor :: intTimeIDCursor where
  "NewIntTimeIDCursor = \<lparr>iti_Int = 0, iti_Time = zero_time, iti_ID = []\<rparr>"

definition intTimeID_cells :: "intTimeIDCursor \<Rightarrow> cell list" where
  "intTimeID_cells c = [VInt64 (iti_Int c), VTime (iti_Time c), VDBIDPtr (iti_ID c)]"

definition intTimeID_store :: "cell list \<Rightarrow> intTimeIDCursor \<Rightarrow> intTimeIDCursor" where
  "intTimeID_store vs c =
     (case vs of
        [VInt64 a, VTime b, VDBIDPtr d] \<Rightarrow>
          c\<lparr>iti_Int := a, iti_Time := b, iti_ID := d\<rparr>
      | _ \<Rightarrow> c)"

definition intTimeID_Pack :: "intTimeIDCursor \<Rightarrow> (cur_err, string) outcome" where
  "intTimeID_Pack c = Pack (intTimeID_cells c)"

definition intTimeID_Unpack :: "string \<Rightarrow> intTimeIDCursor \<Rightarrow> (cur_err, intTimeIDCursor) outcome" where
  "intTimeID_Unpack s c = bind_o (Unpack s (intTimeID_cells c)) (\<lambda>vs. Ok (intTimeID_store vs c))"

definition intTimeID_wire_ok :: "intTimeIDCursor \<Rightarrow> bool" where
  "intTimeID_wire_ok c \<longleftrightarrow> list_all cell_ok (intTimeID_cells c) \<and> \<not> ends_empty (last (intTimeID_cells c))"

lemma intTimeID_same_kind: "list_all2 same_kind (intTimeID_cells c0) (intTimeID_cells c)"
  by (simp add: intTimeID_cells_def)

lemma intTimeID_wire: "cursor_wire intTimeID_Pack intTimeID_Unpack intTimeID_wire_ok"
proof
  fix c :: intTimeIDCursor
  assume ok: "intTimeID_wire_ok c"
  have ne: "intTimeID_cells c \<noteq> []" by (simp add: intTimeID_cells_def)
  from ok have all: "list_all cell_ok (intTimeID_cells c)" by (simp add: intTimeID_wire_ok_def)
  show "\<exists>s. intTimeID_Pack c = Ok s \<and> s \<noteq> []"
    using Pack_nonempty [OF all ne] by (auto simp: intTimeID_Pack_def Pack_cells [OF all])
  fix s c0
  assume "intTimeID_Pack c = Ok s"
  then have "Unpack s (intTimeID_cells c0) = Ok (intTimeID_cells c)"
    using ok by (intro Unpack_Pack all intTimeID_same_kind ne) (auto simp: intTimeID_Pack_def intTimeID_wire_ok_def)
  then show "intTimeID_Unpack s c0 = Ok c"
    using ok by (simp add: intTimeID_Unpack_def intTimeID_store_def intTimeID_cells_def)
qed

interpretation intTimeID_iface: cursor_wire intTimeID_Pack intTimeID_Unpack intTimeID_wire_ok
  by (rule intTimeID_wire)

subsection \<open>positionCursor\<close>

record positionCursor =
  pos_CurrentPosition :: int64
  pos_IDs :: "dbid list"
  pos_Positions :: "dbid \<rightharpoonup> int"

definition NewPositionCursor :: positionCursor where
  "NewPositionCursor = \<lparr>pos_CurrentPosition = 0, pos_IDs = [], pos_Positions = Map.empty\<rparr>"

definition position_cells :: "positionCursor \<Rightarrow> cell list" where
  "position_cells c = [VInt64 (pos_CurrentPosition c), VDBIDs (pos_IDs c)]"

definition position_store :: "cell list \<Rightarrow> positionCursor \<Rightarrow> positionCursor" where
  "position_store vs c =
     (case vs of
        [VInt64 a, VDBIDs b] \<Rightarrow>
          c\<lparr>pos_CurrentPosition := a, pos_IDs := b\<rparr>
      | _ \<Rightarrow> c)"

definition position_Pack :: "positionCursor \<Rightarrow> (cur_err, string) outcome" where
  "position_Pack c = Pack (position_cells c)"

definition position_Unpack :: "string \<Rightarrow> positionCursor \<Rightarrow> (cur_err, positionCursor) outcome" where
  "position_Unpack s c =
     bind_o (Unpack s (position_cells c)) (\<lambda>vs.
       let c' = position_store vs c in Ok (c'\<lparr>pos_Positions := sliceToMapIndex (pos_IDs c')\<rparr>))"

definition position_wire_ok :: "positionCursor \<Rightarrow> bool" where
  "position_wire_ok c \<longleftrightarrow> list_all cell_ok (position_cells c) \<and> \<not> ends_empty (last (position_cells c)) \<and> pos_Positions c = sliceToMapIndex (pos_IDs c)"

lemma position_same_kind: "list_all2 same_kind (position_cells c0) (position_cells c)"
  by (simp add: position_cells_def)

lemma position_wire: "cursor_wire position_Pack position_Unpack position_wire_ok"
proof
  fix c :: positionCursor
  assume ok: "position_wire_ok c"
  have ne: "position_cells c \<noteq> []" by (simp add: position_cells_def)
  from ok have all: "list_all cell_ok (position_cells c)" by (simp add: position_wire_ok_def)
  show "\<exists>s. position_Pack c = Ok s \<and> s \<noteq> []"
    using Pack_nonempty [OF all ne] by (auto simp: position_Pack_def Pack_cells [OF all])
  fix s c0
  assume "position_Pack c = Ok s"
  then have "Unpack s (position_cells c0) = Ok (position_cells c)"
    using ok by (intro Unpack_Pack all position_same_kind ne) (auto simp: position_Pack_def position_wire_ok_def)
  then show "position_Unpack s c0 = Ok c"
    using ok by (simp add: position_Unpack_def position_store_def position_cells_def position_wire_ok_def Let_def)
qed

interpretation position_iface: cursor_wire position_Pack position_Unpack position_wire_ok
  by (rule position_wire)

subsection \<open>boolIDFloatIDCursor\<close>

record boolIDFloatIDCursor =
  bifi_Bool :: bool
  bifi_ID1 :: dbid
  bifi_Float :: float64
  bifi_ID2 :: dbid

definition NewBoolIDFloatIDCursor :: boolIDFloatIDCursor where
  "NewBoolIDFloatIDCursor = \<lparr>bifi_Bool = False, bifi_ID1 = [], bifi_Float = 0, bifi_ID2 = []\<rparr>"

definition boolIDFloatID_cells :: "boolIDFloatIDCursor \<Rightarrow> cell list" where
  "boolIDFloatID_cells c = [VBool (bifi_Bool c), VDBIDPtr (bifi_ID1 c), VFloat64 (bifi_Float c), VDBIDPtr (bifi_ID2 c)]"

definition boolIDFloatID_store :: "cell list \<Rightarrow> boolIDFloatIDCursor \<Rightarrow> boolIDFloatIDCursor" where
  "boolIDFloatID_store vs c =
     (case vs of
        [VBool a, VDBIDPtr b, VFloat64 d, VDBIDPtr e] \<Rightarrow>
          c\<lparr>bifi_Bool := a, bifi_ID1 := b, bifi_Float := d, bifi_ID2 := e\<rparr>
      | _ \<Rightarrow> c)"

definition boolIDFloatID_Pack :: "boolIDFloatIDCursor \<Rightarrow> (cur_err, string) outcome" where
  "boolIDFloatID_Pack c = Pack (boolIDFloatID_cells c)"

definition boolIDFloatID_Unpack :: "string \<Rightarrow> boolIDFloatIDCursor \<Rightarrow> (cur_err, boolIDFloatIDCursor) outcome" where
  "boolIDFloatID_Unpack s c = bind_o (Unpack s (boolIDFloatID_cells c)) (\<lambda>vs. Ok (boolIDFloatID_store vs c))"

definition boolIDFloatID_wire_ok :: "boolIDFloatIDCursor \<Rightarrow> bool" where
  "boolIDFloatID_wire_ok c \<longleftrightarrow> list_all cell_ok (boolIDFloatID_cells c) \<and> \<not> ends_empty (last (boolIDFloatID_cells c))"

lemma boolIDFloatID_same_kind: "list_all2 same_kind (boolIDFloatID_cells c0) (boolIDFloatID_cells c)"
  by (simp add: boolIDFloatID_cells_def)

lemma boolIDFloatID_wire: "cursor_wire boolIDFloatID_Pack boolIDFloatID_Unpack boolIDFloatID_wire_ok"
proof
  fix c :: boolIDFloatIDCursor
  assume ok: "boolIDFloatID_wire_ok c"
  have ne: "boolIDFloatID_cells c \<noteq> []" by (simp add: boolIDFloatID_cells_def)
  from ok have all: "list_all cell_ok (boolIDFloatID_cells c)" by (simp add: boolIDFloatID_wire_ok_def)
  show "\<exists>s. boolIDFloatID_Pack c = Ok s \<and> s \<noteq> []"
    using Pack_nonempty [OF all ne] by (auto simp: boolIDFloatID_Pack_def Pack_cells [OF all])
  fix s c0
  assume "boolIDFloatID_Pack c = Ok s"
  then have "Unpack s (boolIDFloatID_cells c0) = Ok (boolIDFloatID_cells c)"
    using ok by (intro Unpack_Pack all boolIDFloatID_same_kind ne) (auto simp: boolIDFloatID_Pack_def boolIDFloatID_wire_ok_def)
  then show "boolIDFloatID_Unpack s c0 = Ok c"
    using ok by (simp add: boolIDFloatID_Unpack_def boolIDFloatID_store_def boolIDFloatID_cells_def)
qed

interpretation boolIDFloatID_iface: cursor_wire boolIDFloatID_Pack boolIDFloatID_Unpack boolIDFloatID_wire_ok
  by (rule boolIDFloatID_wire)

section \<open>Properties\<close>

text \<open>C33: Every cursor type survives the wire: a cursor whose fields fit and whose last field is
  not empty packs to a non-empty string, and unpacking that string into any cursor of the type
  gives it back.\<close>

theorem cursors_round_trip:
  "(timeID_wire_ok c1 \<longrightarrow> (\<exists>s. timeID_Pack c1 = Ok s \<and> s \<noteq> [] \<and> (\<forall>c0. timeID_Unpack s c0 = Ok c1)))
   \<and> (boolBoolIntID_wire_ok c2 \<longrightarrow> (\<exists>s. boolBoolIntID_Pack c2 = Ok s \<and> s \<noteq> [] \<and> (\<forall>c0. boolBoolIntID_Unpack s c0 = Ok c2)))
   \<and> (boolTimeID_wire_ok c3 \<longrightarrow> (\<exists>s. boolTimeID_Pack c3 = Ok s \<and> s \<noteq> [] \<and> (\<forall>c0. boolTimeID_Unpack s c0 = Ok c3)))
   \<and> (stringID_wire_ok c4 \<longrightarrow> (\<exists>s. stringID_Pack c4 = Ok s \<and> s \<noteq> [] \<and> (\<forall>c0. stringID_Unpack s c0 = Ok c4)))
   \<and> (intTimeID_wire_ok c5 \<longrightarrow> (\<exists>s. intTimeID_Pack c5 = Ok s \<and> s \<noteq> [] \<and> (\<forall>c0. intTimeID_Unpack s c0 = Ok c5)))
   \<and> (position_wire_ok c6 \<longrightarrow> (\<exists>s. position_Pack c6 = Ok s \<and> s \<noteq> [] \<and> (\<forall>c0. position_Unpack s c0 = Ok c6)))
   \<and> (boolIDFloatID_wire_ok c7 \<longrightarrow> (\<exists>s. boolIDFloatID_Pack c7 = Ok s \<and> s \<noteq> [] \<and> (\<forall>c0. boolIDFloatID_Unpack s c0 = Ok c7)))"
  using timeID_iface.round_trip boolBoolIntID_iface.round_trip boolTimeID_iface.round_trip
    stringID_iface.round_trip intTimeID_iface.round_trip position_iface.round_trip
    boolIDFloatID_iface.round_trip by (intro conjI)

theorem cursors_round_trip_witness:
  "\<exists>s. timeID_Pack (NewTimeIDCursor\<lparr>ti_ID := ''id''\<rparr>) = Ok s \<and> timeID_Unpack s NewTimeIDCursor = Ok (NewTimeIDCursor\<lparr>ti_ID := ''id''\<rparr>)"
proof -
  have "timeID_wire_ok (NewTimeIDCursor\<lparr>ti_ID := ''id''\<rparr>)"
    by (simp add: timeID_wire_ok_def timeID_cells_def NewTimeIDCursor_def zero_time_def time_ok_def max_alloc_def)
  then show ?thesis using cursors_round_trip [THEN conjunct1] by blast
qed

text \<open>A cursor with an empty ID, like the default bounds of the paginators, packs without an
  error but cannot be unpacked: reading zero bytes at the end of the buffer reports \<open>io.EOF\<close>.\<close>

theorem empty_id_cursor_lost:
  assumes "time_ok (ti_Time c)" "ti_ID c = []" "timeID_Pack c = Ok s"
  shows "timeID_Unpack s c0 = Err EOF"
proof -
  have "Unpack s (timeID_cells c0) = Err EOF"
    by (rule Unpack_Pack_empty_at_end [of "timeID_cells c"])
       (use assms in \<open>simp_all add: timeID_cells_def timeID_Pack_def max_alloc_def\<close>)
  then show ?thesis by (simp add: timeID_Unpack_def)
qed

theorem empty_id_cursor_lost_witness:
  "\<exists>s. timeID_Pack NewTimeIDCursor = Ok s \<and> timeID_Unpack s NewTimeIDCursor = Err EOF"
proof -
  have ok: "time_ok (ti_Time NewTimeIDCursor)" "ti_ID NewTimeIDCursor = []"
    by (simp_all add: NewTimeIDCursor_def zero_time_def time_ok_def)
  then have "list_all cell_ok (timeID_cells NewTimeIDCursor)"
    by (simp add: timeID_cells_def max_alloc_def)
  from Pack_cells [OF this] obtain s where "timeID_Pack NewTimeIDCursor = Ok s"
    by (simp add: timeID_Pack_def)
  with empty_id_cursor_lost [OF ok this] show ?thesis by blast
qed

end
