(* ===== verification/Paging.thy ===== *)
theory Paging
  imports Cursor_Types "HOL-Library.Sublist"
begin

text \<open>
  The part of publicapi/pagination.go that every paginator shares: the checks on \<open>first\<close>
  and \<open>last\<close>, the Relay slicing of a result list (\<open>applyCursors\<close>, \<open>pageEdgesFrom\<close>,
  \<open>pageInfoFrom\<close>, \<open>pageFrom\<close>) and \<open>keysetPaginator.paginate\<close>. A database query, a
  cursor function and a count function are arguments, as they are in the code. The
  contract a keyset query owes the paginator is the locale \<open>keyset_source\<close>: relative to
  an order of the rows, it returns the rows strictly between two cursors, from the end
  the paging direction names. Inside it: a page is the next \<open>first\<close> (or previous \<open>last\<close>)
  rows, its flags are right, and a client that follows \<open>EndCursor\<close> visits every row once.
\<close>

section \<open>Errors, page information\<close>

text \<open>An error of a page request comes from a cursor or from a call of the caller's functions.\<close>

datatype 'x page_err = CursorErr cur_err | CallErr 'x

datatype params_err =
    ErrInvalidInput "string list"
  | StructErrors "(string \<times> string) list"

record PageInfo =
  pi_Total :: "int option"
  pi_Size :: nat
  pi_HasPreviousPage :: bool
  pi_HasNextPage :: bool
  pi_StartCursor :: string
  pi_EndCursor :: string

definition empty_PageInfo :: PageInfo where
  "empty_PageInfo = \<lparr>pi_Total = None, pi_Size = 0, pi_HasPreviousPage = False,
     pi_HasNextPage = False, pi_StartCursor = [], pi_EndCursor = []\<rparr>"

section \<open>Validation of the page arguments\<close>

text \<open>
  \<open>omitempty,gte=0\<close> on a nullable integer. \<open>ValidateFields\<close> ranges over a Go map, so the
  order of the reported parameters is not fixed by the code; here it is alphabetical.
\<close>

definition gte0 :: "int option \<Rightarrow> bool" where
  "gte0 v = (case v of None \<Rightarrow> True | Some n \<Rightarrow> 0 \<le> n)"

definition connectionPaginationParamsValidator ::
  "int option \<Rightarrow> int option \<Rightarrow> (string \<times> string) list" where
  "connectionPaginationParamsValidator first lst =
     (if first = None \<and> lst = None
      then [(''First'', ''required_without''), (''Last'', ''required_without'')] else [])
     @ (if first \<noteq> None \<and> lst \<noteq> None
      then [(''First'', ''excluded_with''), (''Last'', ''excluded_with'')] else [])"

definition validatePaginationParams :: "int option \<Rightarrow> int option \<Rightarrow> (params_err, unit) outcome" where
  "validatePaginationParams first lst =
     (let bad = (if gte0 first then [] else [''first'']) @ (if gte0 lst then [] else [''last''])
      in if bad \<noteq> [] then Err (ErrInvalidInput bad)
         else let errs = connectionPaginationParamsValidator first lst
              in if errs \<noteq> [] then Err (StructErrors errs) else Ok ())"

lemma validatePaginationParams_Ok:
  "validatePaginationParams first lst = Ok () \<longleftrightarrow>
     (\<exists>n\<ge>0. first = Some n \<and> lst = None) \<or> (\<exists>n\<ge>0. first = None \<and> lst = Some n)"
  by (cases first; cases lst)
     (auto simp: validatePaginationParams_def connectionPaginationParamsValidator_def gte0_def Let_def)

section \<open>Slicing a result list\<close>

definition packNode ::
  "('c \<Rightarrow> (cur_err, string) outcome) \<Rightarrow> ('n \<Rightarrow> ('x, 'c) outcome) \<Rightarrow> 'n \<Rightarrow> ('x page_err, string) outcome" where
  "packNode pk cF node = bind_o (map_err CallErr (cF node)) (\<lambda>cursor. map_err CursorErr (pk cursor))"

text \<open>
  The loops of \<open>applyCursors\<close>: pack one node after the other until one equals the
  wanted cursor; its index is the result, or nothing if none does. An error ends the loop.
\<close>

fun cursor_loop ::
  "('n \<Rightarrow> ('e, string) outcome) \<Rightarrow> string \<Rightarrow> nat \<Rightarrow> 'n list \<Rightarrow> ('e, nat option) outcome" where
  "cursor_loop pack wanted i [] = Ok None"
| "cursor_loop pack wanted i (edge # edges) =
     bind_o (pack edge) (\<lambda>cur.
       if cur = wanted then Ok (Some i) else cursor_loop pack wanted (Suc i) edges)"

definition applyCursors ::
  "('c \<Rightarrow> (cur_err, string) outcome) \<Rightarrow> 'n list \<Rightarrow> ('n \<Rightarrow> ('x, 'c) outcome) \<Rightarrow>
   string option \<Rightarrow> string option \<Rightarrow> ('x page_err, 'n list) outcome" where
  "applyCursors pk allEdges cF before after =
     bind_o (case after of
               None \<Rightarrow> Ok allEdges
             | Some a \<Rightarrow> bind_o (cursor_loop (packNode pk cF) a 0 allEdges) (\<lambda>found.
                 Ok (case found of None \<Rightarrow> allEdges | Some i \<Rightarrow> drop (i + 1) allEdges)))
       (\<lambda>edges. case before of
            None \<Rightarrow> Ok edges
          | Some b \<Rightarrow> bind_o (cursor_loop (packNode pk cF) b 0 edges) (\<lambda>found.
              Ok (case found of None \<Rightarrow> edges | Some i \<Rightarrow> take i edges)))"

text \<open>Slicing with a negative bound panics; a nil \<open>first\<close> or \<open>last\<close> does not slice.\<close>

definition slice_panic :: string where
  "slice_panic = ''slice bounds out of range''"

definition pageEdgesFrom ::
  "'n list \<Rightarrow> int option \<Rightarrow> int option \<Rightarrow> ('e, 'n list) outcome" where
  "pageEdgesFrom edges first lst =
     (let len = int (length edges) in
      case first of
        Some n \<Rightarrow>
          if n < len then (if n < 0 then Panic slice_panic else Ok (take (nat n) edges))
          else (case lst of
                  Some m \<Rightarrow> if m < len
                            then (if m < 0 then Panic slice_panic else Ok (drop (nat (len - m)) edges))
                            else Ok edges
                | None \<Rightarrow> Ok edges)
      | None \<Rightarrow>
          (case lst of
             Some m \<Rightarrow> if m < len
                       then (if m < 0 then Panic slice_panic else Ok (drop (nat (len - m)) edges))
                       else Ok edges
           | None \<Rightarrow> Ok edges))"

definition pageInfoFrom ::
  "('c \<Rightarrow> (cur_err, string) outcome) \<Rightarrow> 'n list \<Rightarrow> 'n list \<Rightarrow> ('x, int) outcome option \<Rightarrow>
   ('n \<Rightarrow> ('x, 'c) outcome) \<Rightarrow> int option \<Rightarrow> int option \<Rightarrow> ('x page_err, PageInfo) outcome" where
  "pageInfoFrom pk cursorEdges edgesPaged countF cF first lst =
     bind_o (if edgesPaged = [] then Ok ([], [])
             else bind_o (packNode pk cF (hd edgesPaged)) (\<lambda>s.
                  bind_o (packNode pk cF (List.last edgesPaged)) (\<lambda>e. Ok (s, e))))
       (\<lambda>(start, fin).
         bind_o (case countF of
                   None \<Rightarrow> Ok None
                 | Some c \<Rightarrow> map_err CallErr (map_o Some c))
           (\<lambda>tot. Ok \<lparr>pi_Total = tot, pi_Size = length edgesPaged,
              pi_HasPreviousPage = (case lst of None \<Rightarrow> False | Some m \<Rightarrow> m < int (length cursorEdges)),
              pi_HasNextPage = (case first of None \<Rightarrow> False | Some n \<Rightarrow> n < int (length cursorEdges)),
              pi_StartCursor = start, pi_EndCursor = fin\<rparr>))"

definition pageFrom ::
  "('c \<Rightarrow> (cur_err, string) outcome) \<Rightarrow> 'n list \<Rightarrow> ('x, int) outcome option \<Rightarrow>
   ('n \<Rightarrow> ('x, 'c) outcome) \<Rightarrow> string option \<Rightarrow> string option \<Rightarrow> int option \<Rightarrow> int option \<Rightarrow>
   ('x page_err, 'n list \<times> PageInfo) outcome" where
  "pageFrom pk allEdges countF cF before after first lst =
     bind_o (applyCursors pk allEdges cF before after) (\<lambda>cursorEdges.
     bind_o (pageEdgesFrom cursorEdges first lst) (\<lambda>edgesPaged.
     bind_o (pageInfoFrom pk cursorEdges edgesPaged countF cF first lst) (\<lambda>pageInfo.
       Ok (edgesPaged, pageInfo))))"

section \<open>keysetPaginator\<close>

record ('n, 'c, 'x) keysetPaginator =
  kp_QueryFunc :: "int \<Rightarrow> bool \<Rightarrow> ('x page_err, 'n list) outcome"
  kp_Cursorable :: "'n \<Rightarrow> ('x, 'c) outcome"
  kp_CountFunc :: "('x, int) outcome option"

text \<open>
  The limit is one more than asked for, computed in Go's 64-bit \<open>int\<close> and then truncated
  to \<open>int32\<close>. With neither \<open>first\<close> nor \<open>last\<close> the code dereferences a nil pointer.
\<close>

definition page_limit :: "int \<Rightarrow> int" where
  "page_limit n = int32_of (int64_of (1 + n))"

definition nil_deref :: string where
  "nil_deref = ''invalid memory address or nil pointer dereference''"

definition keyset_paginate ::
  "('c \<Rightarrow> (cur_err, string) outcome) \<Rightarrow> ('n, 'c, 'x) keysetPaginator \<Rightarrow>
   string option \<Rightarrow> string option \<Rightarrow> int option \<Rightarrow> int option \<Rightarrow>
   ('x page_err, 'n list \<times> PageInfo) outcome" where
  "keyset_paginate pk p before after first lst =
     (let pagingForward = (first \<noteq> None) in
      case (case first of Some n \<Rightarrow> Some n | None \<Rightarrow> lst) of
        None \<Rightarrow> Panic nil_deref
      | Some n \<Rightarrow>
          bind_o (kp_QueryFunc p (page_limit n) pagingForward) (\<lambda>results.
            pageFrom pk (if pagingForward then results else rev results)
              (kp_CountFunc p) (kp_Cursorable p) before after first lst))"

lemma page_limit_id: "0 \<le> n \<Longrightarrow> n < 2 ^ 31 - 1 \<Longrightarrow> page_limit n = n + 1"
  by (simp add: page_limit_def int32_of_id int64_of_id)

lemma page_limit_wraps: "page_limit (2 ^ 31 - 1) = - (2 ^ 31)"
  by (simp add: page_limit_def int32_of_def int64_of_def signed_take_bit_int_eq_self)

section \<open>What slicing does\<close>

lemma cursor_loop_none:
  "\<forall>n\<in>set ns. \<exists>s. pack n = Ok s \<and> s \<noteq> wanted \<Longrightarrow> cursor_loop pack wanted i ns = Ok None"
  by (induction ns arbitrary: i) auto

lemma cursor_loop_found:
  assumes "\<forall>n\<in>set ns. pack n = Ok (tok n)" "j < length ns" "tok (ns ! j) = wanted"
    and "\<forall>k<j. tok (ns ! k) \<noteq> wanted"
  shows "cursor_loop pack wanted i ns = Ok (Some (i + j))"
  using assms
proof (induction ns arbitrary: i j)
  case Nil
  then show ?case by simp
next
  case (Cons n ns)
  show ?case
  proof (cases j)
    case 0
    with Cons show ?thesis by simp
  next
    case (Suc k)
    from Cons.prems(4) Suc have "tok n \<noteq> wanted" by auto
    moreover from Cons.prems(4) Suc have "\<forall>l<k. tok (ns ! l) \<noteq> wanted" by auto
    ultimately show ?thesis using Cons Suc by simp
  qed
qed

lemma cursor_loop_not_panic:
  "\<forall>n\<in>set ns. \<not> is_panic (pack n) \<Longrightarrow> \<not> is_panic (cursor_loop pack w i ns)"
  by (induction ns arbitrary: i) (auto simp: is_panic_bind_o)

lemma pageEdgesFrom_first: "0 \<le> n \<Longrightarrow> pageEdgesFrom ns (Some n) None = Ok (take (nat n) ns)"
  by (auto simp: pageEdgesFrom_def Let_def)

lemma pageEdgesFrom_last:
  "0 \<le> n \<Longrightarrow> pageEdgesFrom ns None (Some n) = Ok (drop (length ns - nat n) ns)"
  by (auto simp: pageEdgesFrom_def Let_def nat_diff_distrib nat_less_iff)

lemma applyCursors_sublist:
  assumes "applyCursors pk ns cF before after = Ok es"
  shows "sublist es ns"
proof -
  let ?cut = "\<lambda>found. case found of None \<Rightarrow> ns | Some i \<Rightarrow> drop (i + 1) ns"
  obtain edges where
    a: "(case after of None \<Rightarrow> Ok ns
         | Some a \<Rightarrow> bind_o (cursor_loop (packNode pk cF) a 0 ns) (\<lambda>found. Ok (?cut found))) = Ok edges"
    and b: "(case before of None \<Rightarrow> Ok edges
         | Some b \<Rightarrow> bind_o (cursor_loop (packNode pk cF) b 0 edges) (\<lambda>found.
              Ok (case found of None \<Rightarrow> edges | Some i \<Rightarrow> take i edges))) = Ok es"
    using assms unfolding applyCursors_def bind_o_eq_Ok by blast
  have "edges = ns \<or> (\<exists>i. edges = drop (i + 1) ns)"
    using a by (auto simp: bind_o_eq_Ok split: option.splits)
  moreover have "es = edges \<or> (\<exists>i. es = take i edges)"
    using b by (auto simp: bind_o_eq_Ok split: option.splits)
  ultimately show ?thesis
    using sublist_take sublist_drop sublist_order.order.trans sublist_order.order.refl by metis
qed

lemma pageEdgesFrom_sublist:
  assumes "pageEdgesFrom es first lst = Ok ps"
  shows "sublist ps es"
proof -
  have "ps = es \<or> (\<exists>k. ps = take k es) \<or> (\<exists>l. ps = drop l es)"
    using assms by (auto simp: pageEdgesFrom_def Let_def split: option.splits if_splits)
  then show ?thesis
    using sublist_take sublist_drop sublist_order.order.refl by metis
qed

lemma pageEdgesFrom_bound:
  assumes "pageEdgesFrom es first lst = Ok ps"
  shows "(\<forall>n. first = Some n \<longrightarrow> n < int (length es) \<longrightarrow> int (length ps) = n) \<and>
         (\<forall>n. lst = Some n \<longrightarrow> first = None \<longrightarrow> n < int (length es) \<longrightarrow> int (length ps) = n)"
  using assms by (auto simp: pageEdgesFrom_def Let_def split: option.splits if_splits)

section \<open>The contract of a keyset query\<close>

text \<open>
  The rows strictly between two optional positions of a list. A missing lower position is
  the start of the list and a missing upper position its end.
\<close>

definition lo_index :: "nat option \<Rightarrow> nat" where
  "lo_index lo = (case lo of None \<Rightarrow> 0 | Some i \<Rightarrow> Suc i)"

definition between :: "'n list \<Rightarrow> nat option \<Rightarrow> nat option \<Rightarrow> 'n list" where
  "between ns lo hi =
     drop (lo_index lo) (case hi of None \<Rightarrow> ns | Some j \<Rightarrow> take j ns)"

definition pos_ok :: "'n list \<Rightarrow> nat option \<Rightarrow> bool" where
  "pos_ok ns p = (case p of None \<Rightarrow> True | Some i \<Rightarrow> i < length ns)"

lemma between_None [simp]: "between ns None None = ns"
  by (simp add: between_def lo_index_def)

lemma between_lo: "between ns (Some i) None = drop (Suc i) ns"
  by (simp add: between_def lo_index_def)

lemma between_hi: "between ns None (Some j) = take j ns"
  by (simp add: between_def lo_index_def)

lemma between_nth:
  assumes "n \<in> set (between ns lo hi)"
  shows "\<exists>k<length ns. n = ns ! k \<and> lo_index lo \<le> k \<and> (\<forall>j. hi = Some j \<longrightarrow> k < j)"
proof -
  obtain i where i: "i < length (between ns lo hi)" "n = between ns lo hi ! i"
    using assms by (auto simp: in_set_conv_nth)
  then show ?thesis
    by (intro exI [of _ "lo_index lo + i"]) (auto simp: between_def split: option.splits)
qed

lemma set_between: "set (between ns lo hi) \<subseteq> set ns"
  by (auto dest: between_nth)

text \<open>
  What a page request should return: a page with its flags and the cursors of its ends. A
  Relay client that walks forward follows \<open>EndCursor\<close> while \<open>HasNextPage\<close>; one that
  walks backward follows \<open>StartCursor\<close> while \<open>HasPreviousPage\<close>. The fuel counts pages.
\<close>

definition relay_page ::
  "('n \<Rightarrow> string) \<Rightarrow> 'n list \<Rightarrow> int option \<Rightarrow> bool \<Rightarrow> bool \<Rightarrow> 'n list \<times> PageInfo" where
  "relay_page tok page tot prev nxt =
     (page, \<lparr>pi_Total = tot, pi_Size = length page, pi_HasPreviousPage = prev, pi_HasNextPage = nxt,
        pi_StartCursor = (if page = [] then [] else tok (hd page)),
        pi_EndCursor = (if page = [] then [] else tok (last page))\<rparr>)"

fun walk_forward ::
  "(string option \<Rightarrow> ('e, 'n list \<times> PageInfo) outcome) \<Rightarrow> nat \<Rightarrow> string option \<Rightarrow>
   ('e, 'n list) outcome option" where
  "walk_forward request 0 after = None"
| "walk_forward request (Suc fuel) after =
     (case request after of
        Ok (ns, info) \<Rightarrow>
          if pi_HasNextPage info
          then map_option (map_o (\<lambda>ms. ns @ ms)) (walk_forward request fuel (Some (pi_EndCursor info)))
          else Some (Ok ns)
      | Err e \<Rightarrow> Some (Err e)
      | Panic m \<Rightarrow> Some (Panic m))"

fun walk_backward ::
  "(string option \<Rightarrow> ('e, 'n list \<times> PageInfo) outcome) \<Rightarrow> nat \<Rightarrow> string option \<Rightarrow>
   ('e, 'n list) outcome option" where
  "walk_backward request 0 before = None"
| "walk_backward request (Suc fuel) before =
     (case request before of
        Ok (ns, info) \<Rightarrow>
          if pi_HasPreviousPage info
          then map_option (map_o (\<lambda>ms. ms @ ns)) (walk_backward request fuel (Some (pi_StartCursor info)))
          else Some (Ok ns)
      | Err e \<Rightarrow> Some (Err e)
      | Panic m \<Rightarrow> Some (Panic m))"

text \<open>An operation that wraps the errors of another is walked as the other is.\<close>

lemma walk_forward_map_err:
  "walk_forward request fuel after = Some (Ok ns) \<Longrightarrow>
   walk_forward (\<lambda>a. map_err f (request a)) fuel after = Some (Ok ns)"
proof (induction fuel arbitrary: after ns)
  case (Suc fuel)
  then show ?case
    by (cases "request after") (fastforce simp: outcome_simps split: if_splits)+
qed simp

lemma walk_backward_map_err:
  "walk_backward request fuel before = Some (Ok ns) \<Longrightarrow>
   walk_backward (\<lambda>a. map_err f (request a)) fuel before = Some (Ok ns)"
proof (induction fuel arbitrary: before ns)
  case (Suc fuel)
  then show ?case
    by (cases "request before") (fastforce simp: outcome_simps split: if_splits)+
qed simp

definition tok_at :: "('n \<Rightarrow> string) \<Rightarrow> 'n list \<Rightarrow> nat option \<Rightarrow> string option" where
  "tok_at tok rows p = map_option (\<lambda>i. tok (rows ! i)) p"

definition keyset_record ::
  "(int \<Rightarrow> bool \<Rightarrow> ('x page_err, 'n list) outcome) \<Rightarrow> ('n \<Rightarrow> ('x, 'c) outcome) \<Rightarrow> ('x, int) outcome option \<Rightarrow>
   ('n, 'c, 'x) keysetPaginator" where
  "keyset_record query cF countF = \<lparr>kp_QueryFunc = query, kp_Cursorable = cF, kp_CountFunc = countF\<rparr>"

text \<open>
  \<open>order_of t\<close> is the order in which the rows of table \<open>t\<close> are paged through and
  \<open>tok n\<close> the cursor string of row \<open>n\<close>: a valid table has rows that can be packed, to
  different strings.
\<close>

locale row_source =
  fixes valid :: "'t \<Rightarrow> bool"
    and order_of :: "'t \<Rightarrow> 'n list"
    and tok :: "'n \<Rightarrow> string"
    and pk :: "'c \<Rightarrow> (cur_err, string) outcome"
    and cF :: "'n \<Rightarrow> ('x, 'c) outcome"
  assumes pack_ok: "valid t \<Longrightarrow> n \<in> set (order_of t) \<Longrightarrow> packNode pk cF n = Ok (tok n)"
    and tok_inj: "valid t \<Longrightarrow> i < length (order_of t) \<Longrightarrow> j < length (order_of t) \<Longrightarrow>
      tok (order_of t ! i) = tok (order_of t ! j) \<Longrightarrow> i = j"
begin

lemma applyCursors_between:
  assumes v: "valid t" and lo: "pos_ok (order_of t) lo" and hi: "pos_ok (order_of t) hi"
    and sub: "set es \<subseteq> set (between (order_of t) lo hi)"
  shows "applyCursors pk es cF (tok_at tok (order_of t) hi) (tok_at tok (order_of t) lo) = Ok es"
proof -
  have other: "\<exists>s. packNode pk cF n = Ok s \<and> s \<noteq> tok (order_of t ! i)"
    if n: "n \<in> set es" and i: "Some i = lo \<or> Some i = hi" for n i
  proof -
    obtain k where k: "k < length (order_of t)" "n = order_of t ! k"
      "lo_index lo \<le> k" "\<forall>j. hi = Some j \<longrightarrow> k < j"
      using between_nth [OF subsetD [OF sub n]] by (elim exE conjE) (rule that)
    have "i < length (order_of t)" using i lo hi by (auto simp: pos_ok_def)
    moreover have "i \<noteq> k" using i k(3,4) by (auto simp: lo_index_def)
    ultimately have "tok n \<noteq> tok (order_of t ! i)"
      using tok_inj [OF v k(1), of i] k(2) by auto
    then show ?thesis using pack_ok [OF v, of n] k(1,2) by simp
  qed
  have lo_none: "cursor_loop (packNode pk cF) (tok (order_of t ! i)) 0 es = Ok None" if "lo = Some i" for i
    by (rule cursor_loop_none) (use other that in blast)
  have hi_none: "cursor_loop (packNode pk cF) (tok (order_of t ! i)) 0 es = Ok None" if "hi = Some i" for i
    by (rule cursor_loop_none) (use other that in blast)
  show ?thesis
    by (cases lo; cases hi) (simp_all add: applyCursors_def tok_at_def lo_none hi_none)
qed

lemma pageInfo_between:
  assumes v: "valid t" and sub: "set ps \<subseteq> set (order_of t)"
  shows "pageInfoFrom pk es ps (map_option Ok tot) cF first lst =
           Ok (snd (relay_page tok ps tot
             (case lst of None \<Rightarrow> False | Some m \<Rightarrow> m < int (length es))
             (case first of None \<Rightarrow> False | Some n \<Rightarrow> n < int (length es))))"
proof (cases "ps = []")
  case True
  then show ?thesis by (cases tot) (simp_all add: pageInfoFrom_def relay_page_def)
next
  case False
  then have "hd ps \<in> set (order_of t)" "last ps \<in> set (order_of t)" using sub by auto
  then have "packNode pk cF (hd ps) = Ok (tok (hd ps))" "packNode pk cF (last ps) = Ok (tok (last ps))"
    using pack_ok [OF v] by blast+
  then show ?thesis using False by (cases tot) (simp_all add: pageInfoFrom_def relay_page_def)
qed

lemma pageFrom_first:
  assumes v: "valid t" and lo: "pos_ok (order_of t) lo" and hi: "pos_ok (order_of t) hi"
    and n: "0 \<le> n" and sub: "set es \<subseteq> set (between (order_of t) lo hi)"
  shows "pageFrom pk es (map_option Ok tot) cF (tok_at tok (order_of t) hi) (tok_at tok (order_of t) lo) (Some n) None =
           Ok (relay_page tok (take (nat n) es) tot False (n < int (length es)))"
proof -
  have "set (take (nat n) es) \<subseteq> set (order_of t)"
    by (rule subset_trans [OF set_take_subset subset_trans [OF sub set_between]])
  then show ?thesis
    using applyCursors_between [OF v lo hi sub] pageInfo_between [OF v, of "take (nat n) es" es tot "Some n" None]
    by (simp add: pageFrom_def pageEdgesFrom_first n relay_page_def)
qed

lemma pageFrom_last:
  assumes v: "valid t" and lo: "pos_ok (order_of t) lo" and hi: "pos_ok (order_of t) hi"
    and n: "0 \<le> n" and sub: "set es \<subseteq> set (between (order_of t) lo hi)"
  shows "pageFrom pk es (map_option Ok tot) cF (tok_at tok (order_of t) hi) (tok_at tok (order_of t) lo) None (Some n) =
           Ok (relay_page tok (drop (length es - nat n) es) tot (n < int (length es)) False)"
proof -
  have "set (drop (length es - nat n) es) \<subseteq> set (order_of t)"
    by (rule subset_trans [OF set_drop_subset subset_trans [OF sub set_between]])
  then show ?thesis
    using applyCursors_between [OF v lo hi sub]
      pageInfo_between [OF v, of "drop (length es - nat n) es" es tot None "Some n"]
    by (simp add: pageFrom_def pageEdgesFrom_last n relay_page_def)
qed

lemma between_next:
  assumes "pos_ok (order_of t) lo" "0 < n" "n < length (between (order_of t) lo None)"
  defines "p \<equiv> Some (lo_index lo + n - 1)"
  shows "pos_ok (order_of t) p \<and> between (order_of t) p None = drop n (between (order_of t) lo None)
    \<and> tok_at tok (order_of t) p = Some (tok (last (take n (between (order_of t) lo None))))"
proof -
  have len: "lo_index lo + n < length (order_of t)"
    using assms(3) by (simp add: between_def)
  have "last (take n (drop (lo_index lo) (order_of t))) = order_of t ! (lo_index lo + n - 1)"
    using len assms(2) by (subst last_conv_nth) (auto simp: add_diff_eq)
  then show ?thesis
    using len assms(2) by (simp add: p_def pos_ok_def between_def lo_index_def tok_at_def add.commute)
qed

lemma between_prev:
  assumes "pos_ok (order_of t) hi" "0 < n" "n < length (between (order_of t) None hi)"
  defines "p \<equiv> Some (length (between (order_of t) None hi) - n)"
  shows "pos_ok (order_of t) p
    \<and> between (order_of t) None p
        = take (length (between (order_of t) None hi) - n) (between (order_of t) None hi)
    \<and> tok_at tok (order_of t) p = Some (tok (hd (drop (length (between (order_of t) None hi) - n) (between (order_of t) None hi))))"
proof -
  obtain j where j: "between (order_of t) None hi = take j (order_of t)" "j \<le> length (order_of t)"
    using assms(1) that [of "length (order_of t)"] that by (cases hi) (auto simp: between_hi pos_ok_def)
  then have len: "length (between (order_of t) None hi) = j" by simp
  have "tok (order_of t ! (j - n)) = tok (take j (order_of t) ! (j - n))"
    using assms(2,3) len j by simp
  then show ?thesis
    using assms(2,3) j len unfolding p_def
    by (auto simp: pos_ok_def between_hi tok_at_def hd_drop_conv_nth min_def)
qed

text \<open>
  A client that follows the cursors from any row visits exactly the rows that come after
  (before) it, whatever answers its requests, if each answer is the next (previous) page.
\<close>

lemma walk_forward_request:
  assumes n: "0 < n"
    and page: "\<And>lo. pos_ok (order_of t) lo \<Longrightarrow> request (tok_at tok (order_of t) lo) =
      Ok (relay_page tok (take n (between (order_of t) lo None)) tot False
            (n < length (between (order_of t) lo None)))"
  shows "pos_ok (order_of t) lo \<Longrightarrow> length (between (order_of t) lo None) < fuel \<Longrightarrow>
    walk_forward request fuel (tok_at tok (order_of t) lo) = Some (Ok (between (order_of t) lo None))"
proof (induction fuel arbitrary: lo)
  case 0
  then show ?case by simp
next
  case (Suc fuel)
  let ?rest = "between (order_of t) lo None"
  show ?case
  proof (cases "n < length ?rest")
    case False
    then show ?thesis using page [OF Suc.prems(1)] by (simp add: relay_page_def)
  next
    case True
    let ?p = "Some (lo_index lo + n - 1)"
    have p: "pos_ok (order_of t) ?p" "between (order_of t) ?p None = drop n ?rest"
      "tok_at tok (order_of t) ?p = Some (tok (last (take n ?rest)))"
      using between_next [OF Suc.prems(1) n True] by auto
    have "take n ?rest \<noteq> []" using True n by auto
    then show ?thesis
      using Suc.IH [OF p(1)] Suc.prems(2) True n page [OF Suc.prems(1)] p(2)
      by (simp add: relay_page_def p(3) [symmetric])
  qed
qed

lemma walk_backward_request:
  assumes n: "0 < n"
    and page: "\<And>hi. pos_ok (order_of t) hi \<Longrightarrow> request (tok_at tok (order_of t) hi) =
      Ok (relay_page tok (drop (length (between (order_of t) None hi) - n) (between (order_of t) None hi))
            tot (n < length (between (order_of t) None hi)) False)"
  shows "pos_ok (order_of t) hi \<Longrightarrow> length (between (order_of t) None hi) < fuel \<Longrightarrow>
    walk_backward request fuel (tok_at tok (order_of t) hi) = Some (Ok (between (order_of t) None hi))"
proof (induction fuel arbitrary: hi)
  case 0
  then show ?case by simp
next
  case (Suc fuel)
  let ?rest = "between (order_of t) None hi"
  let ?k = "length ?rest - n"
  show ?case
  proof (cases "n < length ?rest")
    case False
    then show ?thesis using page [OF Suc.prems(1)] by (simp add: relay_page_def)
  next
    case True
    have p: "pos_ok (order_of t) (Some ?k)" "between (order_of t) None (Some ?k) = take ?k ?rest"
      "tok_at tok (order_of t) (Some ?k) = Some (tok (hd (drop ?k ?rest)))"
      using between_prev [OF Suc.prems(1) n True] by auto
    have "?k < length ?rest" using True n by auto
    then show ?thesis
      using Suc.IH [OF p(1)] Suc.prems(2) True n page [OF Suc.prems(1)] p(2)
      by (simp add: relay_page_def p(3) [symmetric])
  qed
qed

end

text \<open>A keyset query returns, from the end the direction names, the rows between two cursors.\<close>

locale keyset_source = row_source valid order_of tok pk cF
  for valid :: "'t \<Rightarrow> bool"
    and order_of :: "'t \<Rightarrow> 'n list"
    and tok :: "'n \<Rightarrow> string"
    and pk :: "'c \<Rightarrow> (cur_err, string) outcome"
    and cF :: "'n \<Rightarrow> ('x, 'c) outcome" +
  fixes query :: "'t \<Rightarrow> string option \<Rightarrow> string option \<Rightarrow> int \<Rightarrow> bool \<Rightarrow> ('x page_err, 'n list) outcome"
  assumes query_forward: "valid t \<Longrightarrow> pos_ok (order_of t) lo \<Longrightarrow> pos_ok (order_of t) hi \<Longrightarrow> 0 \<le> limit \<Longrightarrow>
      query t (map_option (\<lambda>j. tok (order_of t ! j)) hi) (map_option (\<lambda>i. tok (order_of t ! i)) lo) limit True
        = Ok (take (nat limit) (between (order_of t) lo hi))"
    and query_backward: "valid t \<Longrightarrow> pos_ok (order_of t) lo \<Longrightarrow> pos_ok (order_of t) hi \<Longrightarrow> 0 \<le> limit \<Longrightarrow>
      query t (map_option (\<lambda>j. tok (order_of t ! j)) hi) (map_option (\<lambda>i. tok (order_of t ! i)) lo) limit False
        = Ok (take (nat limit) (rev (between (order_of t) lo hi)))"
begin

lemma page_forward:
  assumes v: "valid t" and lo: "pos_ok (order_of t) lo" and hi: "pos_ok (order_of t) hi"
    and n: "0 \<le> n" "n < 2 ^ 31 - 1"
  defines "rest \<equiv> between (order_of t) lo hi"
  shows "keyset_paginate pk (keyset_record (query t (tok_at tok (order_of t) hi) (tok_at tok (order_of t) lo)) cF (map_option Ok tot))
           (tok_at tok (order_of t) hi) (tok_at tok (order_of t) lo) (Some n) None =
         Ok (relay_page tok (take (nat n) rest) tot False (n < int (length rest)))"
proof -
  let ?es = "take (nat (n + 1)) rest"
  have q: "query t (tok_at tok (order_of t) hi) (tok_at tok (order_of t) lo) (page_limit n) True = Ok ?es"
    using query_forward [OF v lo hi, of "n + 1"] n by (simp add: tok_at_def page_limit_id rest_def)
  have "set ?es \<subseteq> set (between (order_of t) lo hi)" by (simp add: rest_def set_take_subset)
  moreover have "take (nat n) ?es = take (nat n) rest" using n by (simp add: min_def nat_add_distrib)
  moreover have "n < int (length ?es) \<longleftrightarrow> n < int (length rest)" using n by auto
  ultimately show ?thesis
    using q pageFrom_first [OF v lo hi n(1), of ?es tot]
    by (simp add: keyset_paginate_def keyset_record_def)
qed

lemma page_backward:
  assumes v: "valid t" and lo: "pos_ok (order_of t) lo" and hi: "pos_ok (order_of t) hi"
    and n: "0 \<le> n" "n < 2 ^ 31 - 1"
  defines "rest \<equiv> between (order_of t) lo hi"
  shows "keyset_paginate pk (keyset_record (query t (tok_at tok (order_of t) hi) (tok_at tok (order_of t) lo)) cF (map_option Ok tot))
           (tok_at tok (order_of t) hi) (tok_at tok (order_of t) lo) None (Some n) =
         Ok (relay_page tok (drop (length rest - nat n) rest) tot (n < int (length rest)) False)"
proof -
  let ?es = "rev (take (nat (n + 1)) (rev rest))"
  have es: "?es = drop (length rest - nat (n + 1)) rest" by (simp add: rev_take rev_rev_ident)
  have drop_es: "drop (length ?es - nat n) ?es = drop (length rest - nat n) rest"
  proof -
    have "L - (L - Suc m + m) + (L - Suc m) = L - m" for L m :: nat by arith
    moreover have "nat (n + 1) = Suc (nat n)" using n by simp
    ultimately show ?thesis unfolding es by simp
  qed
  have sub: "set ?es \<subseteq> set (between (order_of t) lo hi)"
    unfolding es by (simp add: rest_def set_drop_subset)
  have q: "query t (tok_at tok (order_of t) hi) (tok_at tok (order_of t) lo) (page_limit n) False = Ok (take (nat (n + 1)) (rev rest))"
    using query_backward [OF v lo hi, of "n + 1"] n by (simp add: tok_at_def page_limit_id rest_def)
  have len: "n < int (length ?es) \<longleftrightarrow> n < int (length rest)" using n by auto
  show ?thesis
    using q pageFrom_last [OF v lo hi n(1) sub, of tot, unfolded drop_es len]
    by (simp add: keyset_paginate_def keyset_record_def)
qed

lemma walk_forward_from:
  assumes v: "valid t" and n: "1 \<le> n" "n < 2 ^ 31 - 1" and lo: "pos_ok (order_of t) lo"
    and fuel: "length (between (order_of t) lo None) < fuel"
  shows "walk_forward (\<lambda>a. keyset_paginate pk (keyset_record (query t None a) cF (map_option Ok tot)) None a (Some n) None)
      fuel (tok_at tok (order_of t) lo) = Some (Ok (between (order_of t) lo None))"
proof (rule walk_forward_request [of "nat n"])
  fix lo assume "pos_ok (order_of t) lo"
  from page_forward [OF v this, of None n tot] n
  show "keyset_paginate pk (keyset_record (query t None (tok_at tok (order_of t) lo)) cF (map_option Ok tot)) None (tok_at tok (order_of t) lo) (Some n) None
      = Ok (relay_page tok (take (nat n) (between (order_of t) lo None)) tot False
             (nat n < length (between (order_of t) lo None)))"
    by (simp add: pos_ok_def tok_at_def nat_less_iff)
qed (use n lo fuel in auto)

lemma walk_backward_from:
  assumes v: "valid t" and n: "1 \<le> n" "n < 2 ^ 31 - 1" and hi: "pos_ok (order_of t) hi"
    and fuel: "length (between (order_of t) None hi) < fuel"
  shows "walk_backward (\<lambda>b. keyset_paginate pk (keyset_record (query t b None) cF (map_option Ok tot)) b None None (Some n))
      fuel (tok_at tok (order_of t) hi) = Some (Ok (between (order_of t) None hi))"
proof (rule walk_backward_request [of "nat n"])
  fix hi assume "pos_ok (order_of t) hi"
  from page_backward [OF v _ this, of None n tot] n
  show "keyset_paginate pk (keyset_record (query t (tok_at tok (order_of t) hi) None) cF (map_option Ok tot)) (tok_at tok (order_of t) hi) None None (Some n)
      = Ok (relay_page tok (drop (length (between (order_of t) None hi) - nat n) (between (order_of t) None hi))
             tot (nat n < length (between (order_of t) None hi)) False)"
    by (simp add: pos_ok_def tok_at_def nat_less_iff)
qed (use n hi fuel in auto)

lemma walk_forward_all:
  "valid t \<Longrightarrow> 1 \<le> n \<Longrightarrow> n < 2 ^ 31 - 1 \<Longrightarrow>
   walk_forward (\<lambda>a. keyset_paginate pk (keyset_record (query t None a) cF (map_option Ok tot)) None a (Some n) None)
     (Suc (length (order_of t))) None = Some (Ok (order_of t))"
  using walk_forward_from [of t n None] by (simp add: pos_ok_def tok_at_def del: walk_forward.simps)

lemma walk_backward_all:
  "valid t \<Longrightarrow> 1 \<le> n \<Longrightarrow> n < 2 ^ 31 - 1 \<Longrightarrow>
   walk_backward (\<lambda>b. keyset_paginate pk (keyset_record (query t b None) cF (map_option Ok tot)) b None None (Some n))
     (Suc (length (order_of t))) None = Some (Ok (order_of t))"
  using walk_backward_from [of t n None] by (simp add: pos_ok_def tok_at_def del: walk_backward.simps)

end

end
