(* ===== verification/Paginators.thy ===== *)
theory Paginators
  imports Paging
begin

text \<open>
  The typed paginators of publicapi/pagination.go. Each has its record of functions, the
  parameters it hands to \<open>QueryFunc\<close>, the \<open>cursorable\<close> built from its \<open>CursorFunc\<close>, and its
  \<open>paginate\<close>, which starts both bounds from the defaults, overwrites them with the cursors of
  the request, and runs \<open>keysetPaginator.paginate\<close> (\<open>positionPaginator\<close> slices a full result
  instead). Default times are seconds since January 1, year 1, as in \<open>time.Time\<close>.
\<close>

section \<open>Default bounds\<close>

definition defaultCursorBeforeID :: dbid where
  "defaultCursorBeforeID = []"

definition defaultCursorAfterID :: dbid where
  "defaultCursorAfterID = []"

text \<open>\<open>time.Date(3000, 1, 1, 1, 1, 1, 1, time.UTC)\<close> and \<open>time.Date(1970, 1, 1, 1, 1, 1, 1, time.UTC)\<close>.\<close>

definition defaultCursorBeforeTime :: go_time where
  "defaultCursorBeforeTime = \<lparr>tm_sec = 94639280461, tm_nsec = 1, tm_zone = UTC\<rparr>"

definition defaultCursorAfterTime :: go_time where
  "defaultCursorAfterTime = \<lparr>tm_sec = 62135600461, tm_nsec = 1, tm_zone = UTC\<rparr>"

definition defaultCursorBeforeKey :: string where
  "defaultCursorBeforeKey = replicate 255 (CHR ''Z'')"

definition defaultCursorAfterKey :: string where
  "defaultCursorAfterKey = []"

definition defaultCursorBeforePosition :: int where
  "defaultCursorBeforePosition = 2147483646"

definition defaultCursorAfterPosition :: int where
  "defaultCursorAfterPosition = - 1"

text \<open>\<open>math.MaxFloat64\<close> and its negation, as bit patterns.\<close>

definition defaultCursorBeforeFloat :: float64 where
  "defaultCursorBeforeFloat = 0x7FEFFFFFFFFFFFFF"

definition defaultCursorAfterFloat :: float64 where
  "defaultCursorAfterFloat = 0xFFEFFFFFFFFFFFFF"

section \<open>Unpacking the cursors of a request\<close>

definition unpack_opt ::
  "(string \<Rightarrow> 'c \<Rightarrow> (cur_err, 'c) outcome) \<Rightarrow> string option \<Rightarrow> 'c \<Rightarrow> ('x page_err, 'c) outcome" where
  "unpack_opt unpack s c =
     (case s of None \<Rightarrow> Ok c | Some s' \<Rightarrow> map_err CursorErr (unpack s' c))"

text \<open>First \<open>before\<close> into its default, then \<open>after\<close> into its own.\<close>

definition unpack_bounds ::
  "(string \<Rightarrow> 'c \<Rightarrow> (cur_err, 'c) outcome) \<Rightarrow> string option \<Rightarrow> string option \<Rightarrow> 'c \<Rightarrow> 'c \<Rightarrow>
   ('x page_err, 'c \<times> 'c) outcome" where
  "unpack_bounds unpack before after beforeCur afterCur =
     bind_o (unpack_opt unpack before beforeCur) (\<lambda>b.
     bind_o (unpack_opt unpack after afterCur) (\<lambda>a. Ok (b, a)))"

section \<open>timeIDPaginator\<close>

record timeIDPagingParams =
  tip_Limit :: int
  tip_CursorBeforeTime :: go_time
  tip_CursorBeforeID :: dbid
  tip_CursorAfterTime :: go_time
  tip_CursorAfterID :: dbid
  tip_PagingForward :: bool

record ('n, 'x) timeIDPaginator =
  tip_QueryFunc :: "timeIDPagingParams \<Rightarrow> ('x, 'n list) outcome"
  tip_CursorFunc :: "'n \<Rightarrow> ('x, go_time \<times> dbid) outcome"
  tip_CountFunc :: "('x, int) outcome option"

definition newTimeIDCursor ::
  "('n \<Rightarrow> ('x, go_time \<times> dbid) outcome) \<Rightarrow> 'n \<Rightarrow> ('x, timeIDCursor) outcome" where
  "newTimeIDCursor f node =
     bind_o (f node) (\<lambda>(a, b). Ok (NewTimeIDCursor\<lparr>ti_Time := a, ti_ID := b\<rparr>))"

definition timeIDPaginator_defaults :: "timeIDCursor \<times> timeIDCursor" where
  "timeIDPaginator_defaults =
     (NewTimeIDCursor\<lparr>ti_Time := defaultCursorBeforeTime, ti_ID := defaultCursorBeforeID\<rparr>,
      NewTimeIDCursor\<lparr>ti_Time := defaultCursorAfterTime, ti_ID := defaultCursorAfterID\<rparr>)"

definition timeIDPaginator_query ::
  "(timeIDPagingParams \<Rightarrow> ('x, 'n list) outcome) \<Rightarrow> timeIDCursor \<times> timeIDCursor \<Rightarrow> string option \<Rightarrow> string option \<Rightarrow>
   int \<Rightarrow> bool \<Rightarrow> ('x page_err, 'n list) outcome" where
  "timeIDPaginator_query queryFunc defaults before after limit pagingForward =
     bind_o (unpack_bounds timeID_Unpack before after (fst defaults) (snd defaults))
       (\<lambda>(beforeCur, afterCur). map_err CallErr (queryFunc
         \<lparr>tip_Limit = limit,
          tip_CursorBeforeTime = ti_Time beforeCur, tip_CursorBeforeID = ti_ID beforeCur,
          tip_CursorAfterTime = ti_Time afterCur, tip_CursorAfterID = ti_ID afterCur,
          tip_PagingForward = pagingForward\<rparr>))"

text \<open>The options of \<open>paginate\<close> run in order on the pair of default cursors, before the cursors of
  the request are read.\<close>

definition withDefaultCursorTime ::
  "go_time \<Rightarrow> go_time \<Rightarrow> timeIDCursor \<times> timeIDCursor \<Rightarrow> timeIDCursor \<times> timeIDCursor" where
  "withDefaultCursorTime before after curs =
     ((fst curs)\<lparr>ti_Time := before\<rparr>, (snd curs)\<lparr>ti_Time := after\<rparr>)"

definition timeIDPaginator_paginate ::
  "('n, 'x) timeIDPaginator \<Rightarrow> string option \<Rightarrow> string option \<Rightarrow> int option \<Rightarrow> int option \<Rightarrow>
   (timeIDCursor \<times> timeIDCursor \<Rightarrow> timeIDCursor \<times> timeIDCursor) list \<Rightarrow>
   ('x page_err, 'n list \<times> PageInfo) outcome" where
  "timeIDPaginator_paginate p before after first lst opts =
     keyset_paginate timeID_Pack
       \<lparr>kp_QueryFunc = timeIDPaginator_query (tip_QueryFunc p) (foldl (\<lambda>curs opt. opt curs) timeIDPaginator_defaults opts) before after,
        kp_Cursorable = newTimeIDCursor (tip_CursorFunc p),
        kp_CountFunc = tip_CountFunc p\<rparr>
       before after first lst"

section \<open>boolIDFloatIDPaginator\<close>

record boolIDFloatIDPagingParams =
  bfp_Limit :: int
  bfp_CursorBeforeBool :: bool
  bfp_CursorBeforeID1 :: dbid
  bfp_CursorBeforeFloat :: float64
  bfp_CursorBeforeID2 :: dbid
  bfp_CursorAfterBool :: bool
  bfp_CursorAfterID1 :: dbid
  bfp_CursorAfterFloat :: float64
  bfp_CursorAfterID2 :: dbid
  bfp_PagingForward :: bool

record ('n, 'x) boolIDFloatIDPaginator =
  bfp_QueryFunc :: "boolIDFloatIDPagingParams \<Rightarrow> ('x, 'n list) outcome"
  bfp_CursorFunc :: "'n \<Rightarrow> ('x, bool \<times> dbid \<times> float64 \<times> dbid) outcome"
  bfp_CountFunc :: "('x, int) outcome option"

definition newBoolIDFloatIDCursor ::
  "('n \<Rightarrow> ('x, bool \<times> dbid \<times> float64 \<times> dbid) outcome) \<Rightarrow> 'n \<Rightarrow> ('x, boolIDFloatIDCursor) outcome" where
  "newBoolIDFloatIDCursor f node =
     bind_o (f node) (\<lambda>(a, b, d, e). Ok (NewBoolIDFloatIDCursor\<lparr>bifi_Bool := a, bifi_ID1 := b, bifi_Float := d, bifi_ID2 := e\<rparr>))"

definition boolIDFloatIDPaginator_defaults :: "boolIDFloatIDCursor \<times> boolIDFloatIDCursor" where
  "boolIDFloatIDPaginator_defaults =
     (NewBoolIDFloatIDCursor\<lparr>bifi_Bool := True, bifi_ID1 := defaultCursorBeforeID, bifi_Float := defaultCursorBeforeFloat\<rparr>,
      NewBoolIDFloatIDCursor\<lparr>bifi_Bool := False, bifi_ID1 := defaultCursorAfterID, bifi_Float := defaultCursorAfterFloat, bifi_ID2 := defaultCursorAfterID\<rparr>)"

definition boolIDFloatIDPaginator_query ::
  "(boolIDFloatIDPagingParams \<Rightarrow> ('x, 'n list) outcome) \<Rightarrow> boolIDFloatIDCursor \<times> boolIDFloatIDCursor \<Rightarrow> string option \<Rightarrow> string option \<Rightarrow>
   int \<Rightarrow> bool \<Rightarrow> ('x page_err, 'n list) outcome" where
  "boolIDFloatIDPaginator_query queryFunc defaults before after limit pagingForward =
     bind_o (unpack_bounds boolIDFloatID_Unpack before after (fst defaults) (snd defaults))
       (\<lambda>(beforeCur, afterCur). map_err CallErr (queryFunc
         \<lparr>bfp_Limit = limit,
          bfp_CursorBeforeBool = bifi_Bool beforeCur, bfp_CursorBeforeID1 = bifi_ID1 beforeCur, bfp_CursorBeforeFloat = bifi_Float beforeCur, bfp_CursorBeforeID2 = bifi_ID2 beforeCur,
          bfp_CursorAfterBool = bifi_Bool afterCur, bfp_CursorAfterID1 = bifi_ID1 afterCur, bfp_CursorAfterFloat = bifi_Float afterCur, bfp_CursorAfterID2 = bifi_ID2 afterCur,
          bfp_PagingForward = pagingForward\<rparr>))"

definition boolIDFloatIDPaginator_paginate ::
  "('n, 'x) boolIDFloatIDPaginator \<Rightarrow> string option \<Rightarrow> string option \<Rightarrow> int option \<Rightarrow> int option \<Rightarrow>
   ('x page_err, 'n list \<times> PageInfo) outcome" where
  "boolIDFloatIDPaginator_paginate p before after first lst =
     keyset_paginate boolIDFloatID_Pack
       \<lparr>kp_QueryFunc = boolIDFloatIDPaginator_query (bfp_QueryFunc p) boolIDFloatIDPaginator_defaults before after,
        kp_Cursorable = newBoolIDFloatIDCursor (bfp_CursorFunc p),
        kp_CountFunc = bfp_CountFunc p\<rparr>
       before after first lst"

section \<open>sharedFollowersPaginator\<close>

text \<open>It embeds a \<open>timeIDPaginator\<close>, and swaps the default times: its query pages forward in
  descending order.\<close>

definition sharedFollowers_defaults :: "timeIDCursor \<times> timeIDCursor" where
  "sharedFollowers_defaults =
     (NewTimeIDCursor\<lparr>ti_Time := \<lparr>tm_sec = 62135600461, tm_nsec = 1, tm_zone = UTC\<rparr>, ti_ID := defaultCursorBeforeID\<rparr>,
      NewTimeIDCursor\<lparr>ti_Time := \<lparr>tm_sec = 94639280461, tm_nsec = 1, tm_zone = UTC\<rparr>, ti_ID := defaultCursorAfterID\<rparr>)"

definition sharedFollowers_paginate ::
  "('n, 'x) timeIDPaginator \<Rightarrow> string option \<Rightarrow> string option \<Rightarrow> int option \<Rightarrow> int option \<Rightarrow>
   ('x page_err, 'n list \<times> PageInfo) outcome" where
  "sharedFollowers_paginate p before after first lst =
     keyset_paginate timeID_Pack
       \<lparr>kp_QueryFunc = timeIDPaginator_query (tip_QueryFunc p) sharedFollowers_defaults before after,
        kp_Cursorable = newTimeIDCursor (tip_CursorFunc p),
        kp_CountFunc = tip_CountFunc p\<rparr>
       before after first lst"

section \<open>sharedCommunitiesPaginator\<close>

record sharedCommunitiesPaginatorParams =
  scp_Limit :: int
  scp_CursorBeforeDisplayedByUserA :: bool
  scp_CursorBeforeDisplayedByUserB :: bool
  scp_CursorBeforeOwnedCount :: int
  scp_CursorBeforeCommunityID :: dbid
  scp_CursorAfterDisplayedByUserA :: bool
  scp_CursorAfterDisplayedByUserB :: bool
  scp_CursorAfterOwnedCount :: int
  scp_CursorAfterCommunityID :: dbid
  scp_PagingForward :: bool

record ('n, 'x) sharedCommunitiesPaginator =
  scp_QueryFunc :: "sharedCommunitiesPaginatorParams \<Rightarrow> ('x, 'n list) outcome"
  scp_CursorFunc :: "'n \<Rightarrow> ('x, bool \<times> bool \<times> int64 \<times> dbid) outcome"
  scp_CountFunc :: "('x, int) outcome option"

definition newBoolBoolIntIDCursor ::
  "('n \<Rightarrow> ('x, bool \<times> bool \<times> int64 \<times> dbid) outcome) \<Rightarrow> 'n \<Rightarrow> ('x, boolBoolIntIDCursor) outcome" where
  "newBoolBoolIntIDCursor f node =
     bind_o (f node) (\<lambda>(a, b, d, e). Ok (NewBoolBoolIntIDCursor\<lparr>bbii_Bool1 := a, bbii_Bool2 := b, bbii_Int := d, bbii_ID := e\<rparr>))"

definition sharedCommunitiesPaginator_defaults :: "boolBoolIntIDCursor \<times> boolBoolIntIDCursor" where
  "sharedCommunitiesPaginator_defaults =
     (NewBoolBoolIntIDCursor\<lparr>bbii_Bool1 := False, bbii_Bool2 := False, bbii_Int := - 1, bbii_ID := defaultCursorBeforeID\<rparr>,
      NewBoolBoolIntIDCursor\<lparr>bbii_Bool1 := True, bbii_Bool2 := True, bbii_Int := 2147483647, bbii_ID := defaultCursorAfterID\<rparr>)"

definition sharedCommunitiesPaginator_query ::
  "(sharedCommunitiesPaginatorParams \<Rightarrow> ('x, 'n list) outcome) \<Rightarrow> boolBoolIntIDCursor \<times> boolBoolIntIDCursor \<Rightarrow> string option \<Rightarrow> string option \<Rightarrow>
   int \<Rightarrow> bool \<Rightarrow> ('x page_err, 'n list) outcome" where
  "sharedCommunitiesPaginator_query queryFunc defaults before after limit pagingForward =
     bind_o (unpack_bounds boolBoolIntID_Unpack before after (fst defaults) (snd defaults))
       (\<lambda>(beforeCur, afterCur). map_err CallErr (queryFunc
         \<lparr>scp_Limit = limit,
          scp_CursorBeforeDisplayedByUserA = bbii_Bool1 beforeCur, scp_CursorBeforeDisplayedByUserB = bbii_Bool2 beforeCur, scp_CursorBeforeOwnedCount = sint (bbii_Int beforeCur), scp_CursorBeforeCommunityID = bbii_ID beforeCur,
          scp_CursorAfterDisplayedByUserA = bbii_Bool1 afterCur, scp_CursorAfterDisplayedByUserB = bbii_Bool2 afterCur, scp_CursorAfterOwnedCount = sint (bbii_Int afterCur), scp_CursorAfterCommunityID = bbii_ID afterCur,
          scp_PagingForward = pagingForward\<rparr>))"

definition sharedCommunitiesPaginator_paginate ::
  "('n, 'x) sharedCommunitiesPaginator \<Rightarrow> string option \<Rightarrow> string option \<Rightarrow> int option \<Rightarrow> int option \<Rightarrow>
   ('x page_err, 'n list \<times> PageInfo) outcome" where
  "sharedCommunitiesPaginator_paginate p before after first lst =
     keyset_paginate boolBoolIntID_Pack
       \<lparr>kp_QueryFunc = sharedCommunitiesPaginator_query (scp_QueryFunc p) sharedCommunitiesPaginator_defaults before after,
        kp_Cursorable = newBoolBoolIntIDCursor (scp_CursorFunc p),
        kp_CountFunc = scp_CountFunc p\<rparr>
       before after first lst"

section \<open>boolTimeIDPaginator\<close>

record boolTimeIDPagingParams =
  btp_Limit :: int
  btp_CursorBeforeBool :: bool
  btp_CursorBeforeTime :: go_time
  btp_CursorBeforeID :: dbid
  btp_CursorAfterBool :: bool
  btp_CursorAfterTime :: go_time
  btp_CursorAfterID :: dbid
  btp_PagingForward :: bool

record ('n, 'x) boolTimeIDPaginator =
  btp_QueryFunc :: "boolTimeIDPagingParams \<Rightarrow> ('x, 'n list) outcome"
  btp_CursorFunc :: "'n \<Rightarrow> ('x, bool \<times> go_time \<times> dbid) outcome"
  btp_CountFunc :: "('x, int) outcome option"

definition newBoolTimeIDCursor ::
  "('n \<Rightarrow> ('x, bool \<times> go_time \<times> dbid) outcome) \<Rightarrow> 'n \<Rightarrow> ('x, boolTimeIDCursor) outcome" where
  "newBoolTimeIDCursor f node =
     bind_o (f node) (\<lambda>(a, b, d). Ok (NewBoolTimeIDCursor\<lparr>bti_Bool := a, bti_Time := b, bti_ID := d\<rparr>))"

definition boolTimeIDPaginator_defaults :: "boolTimeIDCursor \<times> boolTimeIDCursor" where
  "boolTimeIDPaginator_defaults =
     (NewBoolTimeIDCursor\<lparr>bti_Bool := True, bti_Time := defaultCursorBeforeTime, bti_ID := defaultCursorBeforeID\<rparr>,
      NewBoolTimeIDCursor\<lparr>bti_Bool := False, bti_Time := defaultCursorAfterTime, bti_ID := defaultCursorAfterID\<rparr>)"

definition boolTimeIDPaginator_query ::
  "(boolTimeIDPagingParams \<Rightarrow> ('x, 'n list) outcome) \<Rightarrow> boolTimeIDCursor \<times> boolTimeIDCursor \<Rightarrow> string option \<Rightarrow> string option \<Rightarrow>
   int \<Rightarrow> bool \<Rightarrow> ('x page_err, 'n list) outcome" where
  "boolTimeIDPaginator_query queryFunc defaults before after limit pagingForward =
     bind_o (unpack_bounds boolTimeID_Unpack before after (fst defaults) (snd defaults))
       (\<lambda>(beforeCur, afterCur). map_err CallErr (queryFunc
         \<lparr>btp_Limit = limit,
          btp_CursorBeforeBool = bti_Bool beforeCur, btp_CursorBeforeTime = bti_Time beforeCur, btp_CursorBeforeID = bti_ID beforeCur,
          btp_CursorAfterBool = bti_Bool afterCur, btp_CursorAfterTime = bti_Time afterCur, btp_CursorAfterID = bti_ID afterCur,
          btp_PagingForward = pagingForward\<rparr>))"

definition boolTimeIDPaginator_paginate ::
  "('n, 'x) boolTimeIDPaginator \<Rightarrow> string option \<Rightarrow> string option \<Rightarrow> int option \<Rightarrow> int option \<Rightarrow>
   ('x page_err, 'n list \<times> PageInfo) outcome" where
  "boolTimeIDPaginator_paginate p before after first lst =
     keyset_paginate boolTimeID_Pack
       \<lparr>kp_QueryFunc = boolTimeIDPaginator_query (btp_QueryFunc p) boolTimeIDPaginator_defaults before after,
        kp_Cursorable = newBoolTimeIDCursor (btp_CursorFunc p),
        kp_CountFunc = btp_CountFunc p\<rparr>
       before after first lst"

section \<open>lexicalPaginator\<close>

record lexicalPagingParams =
  lxp_Limit :: int
  lxp_CursorBeforeKey :: string
  lxp_CursorBeforeID :: dbid
  lxp_CursorAfterKey :: string
  lxp_CursorAfterID :: dbid
  lxp_PagingForward :: bool

record ('n, 'x) lexicalPaginator =
  lxp_QueryFunc :: "lexicalPagingParams \<Rightarrow> ('x, 'n list) outcome"
  lxp_CursorFunc :: "'n \<Rightarrow> ('x, string \<times> dbid) outcome"
  lxp_CountFunc :: "('x, int) outcome option"

definition newStringIDCursor ::
  "('n \<Rightarrow> ('x, string \<times> dbid) outcome) \<Rightarrow> 'n \<Rightarrow> ('x, stringIDCursor) outcome" where
  "newStringIDCursor f node =
     bind_o (f node) (\<lambda>(a, b). Ok (NewStringIDCursor\<lparr>si_String := a, si_ID := b\<rparr>))"

definition lexicalPaginator_defaults :: "stringIDCursor \<times> stringIDCursor" where
  "lexicalPaginator_defaults =
     (NewStringIDCursor\<lparr>si_String := defaultCursorBeforeKey, si_ID := defaultCursorBeforeID\<rparr>,
      NewStringIDCursor\<lparr>si_String := defaultCursorAfterKey, si_ID := defaultCursorAfterID\<rparr>)"

definition lexicalPaginator_query ::
  "(lexicalPagingParams \<Rightarrow> ('x, 'n list) outcome) \<Rightarrow> stringIDCursor \<times> stringIDCursor \<Rightarrow> string option \<Rightarrow> string option \<Rightarrow>
   int \<Rightarrow> bool \<Rightarrow> ('x page_err, 'n list) outcome" where
  "lexicalPaginator_query queryFunc defaults before after limit pagingForward =
     bind_o (unpack_bounds stringID_Unpack before after (fst defaults) (snd defaults))
       (\<lambda>(beforeCur, afterCur). map_err CallErr (queryFunc
         \<lparr>lxp_Limit = limit,
          lxp_CursorBeforeKey = si_String beforeCur, lxp_CursorBeforeID = si_ID beforeCur,
          lxp_CursorAfterKey = si_String afterCur, lxp_CursorAfterID = si_ID afterCur,
          lxp_PagingForward = pagingForward\<rparr>))"

definition lexicalPaginator_paginate ::
  "('n, 'x) lexicalPaginator \<Rightarrow> string option \<Rightarrow> string option \<Rightarrow> int option \<Rightarrow> int option \<Rightarrow>
   ('x page_err, 'n list \<times> PageInfo) outcome" where
  "lexicalPaginator_paginate p before after first lst =
     keyset_paginate stringID_Pack
       \<lparr>kp_QueryFunc = lexicalPaginator_query (lxp_QueryFunc p) lexicalPaginator_defaults before after,
        kp_Cursorable = newStringIDCursor (lxp_CursorFunc p),
        kp_CountFunc = lxp_CountFunc p\<rparr>
       before after first lst"

section \<open>intTimeIDPaginator\<close>

record intTimeIDPagingParams =
  itp_Limit :: int
  itp_CursorBeforeInt :: int
  itp_CursorBeforeTime :: go_time
  itp_CursorBeforeID :: dbid
  itp_CursorAfterInt :: int
  itp_CursorAfterTime :: go_time
  itp_CursorAfterID :: dbid
  itp_PagingForward :: bool

record ('n, 'x) intTimeIDPaginator =
  itp_QueryFunc :: "intTimeIDPagingParams \<Rightarrow> ('x, 'n list) outcome"
  itp_CursorFunc :: "'n \<Rightarrow> ('x, int64 \<times> go_time \<times> dbid) outcome"
  itp_CountFunc :: "('x, int) outcome option"

definition newIntTimeIDCursor ::
  "('n \<Rightarrow> ('x, int64 \<times> go_time \<times> dbid) outcome) \<Rightarrow> 'n \<Rightarrow> ('x, intTimeIDCursor) outcome" where
  "newIntTimeIDCursor f node =
     bind_o (f node) (\<lambda>(a, b, d). Ok (NewIntTimeIDCursor\<lparr>iti_Int := a, iti_Time := b, iti_ID := d\<rparr>))"

definition intTimeIDPaginator_defaults :: "intTimeIDCursor \<times> intTimeIDCursor" where
  "intTimeIDPaginator_defaults =
     (NewIntTimeIDCursor\<lparr>iti_Int := 2147483647, iti_Time := defaultCursorBeforeTime, iti_ID := defaultCursorBeforeID\<rparr>,
      NewIntTimeIDCursor\<lparr>iti_Int := 0, iti_Time := defaultCursorAfterTime, iti_ID := defaultCursorAfterID\<rparr>)"

definition intTimeIDPaginator_query ::
  "(intTimeIDPagingParams \<Rightarrow> ('x, 'n list) outcome) \<Rightarrow> intTimeIDCursor \<times> intTimeIDCursor \<Rightarrow> string option \<Rightarrow> string option \<Rightarrow>
   int \<Rightarrow> bool \<Rightarrow> ('x page_err, 'n list) outcome" where
  "intTimeIDPaginator_query queryFunc defaults before after limit pagingForward =
     bind_o (unpack_bounds intTimeID_Unpack before after (fst defaults) (snd defaults))
       (\<lambda>(beforeCur, afterCur). map_err CallErr (queryFunc
         \<lparr>itp_Limit = limit,
          itp_CursorBeforeInt = int32_of (sint (iti_Int beforeCur)), itp_CursorBeforeTime = iti_Time beforeCur, itp_CursorBeforeID = iti_ID beforeCur,
          itp_CursorAfterInt = int32_of (sint (iti_Int afterCur)), itp_CursorAfterTime = iti_Time afterCur, itp_CursorAfterID = iti_ID afterCur,
          itp_PagingForward = pagingForward\<rparr>))"

definition intTimeIDPaginator_paginate ::
  "('n, 'x) intTimeIDPaginator \<Rightarrow> string option \<Rightarrow> string option \<Rightarrow> int option \<Rightarrow> int option \<Rightarrow>
   ('x page_err, 'n list \<times> PageInfo) outcome" where
  "intTimeIDPaginator_paginate p before after first lst =
     keyset_paginate intTimeID_Pack
       \<lparr>kp_QueryFunc = intTimeIDPaginator_query (itp_QueryFunc p) intTimeIDPaginator_defaults before after,
        kp_Cursorable = newIntTimeIDCursor (itp_CursorFunc p),
        kp_CountFunc = itp_CountFunc p\<rparr>
       before after first lst"

section \<open>positionPaginator\<close>

text \<open>
  The one paginator without a keyset query: it hands the positions to \<open>QueryFunc\<close>, which
  returns every row between them, and slices the result. Its \<open>CountFunc\<close> is not consulted.
\<close>

record positionPagingParams =
  pop_CursorBeforePos :: int
  pop_CursorAfterPos :: int

record ('n, 'x) positionPaginator =
  pop_QueryFunc :: "positionPagingParams \<Rightarrow> ('x, 'n list) outcome"
  pop_CursorFunc :: "'n \<Rightarrow> ('x, int64 \<times> dbid list) outcome"
  pop_CountFunc :: "('x, int) outcome option"

definition newPositionCursor ::
  "('n \<Rightarrow> ('x, int64 \<times> dbid list) outcome) \<Rightarrow> 'n \<Rightarrow> ('x, positionCursor) outcome" where
  "newPositionCursor f node =
     bind_o (f node) (\<lambda>(a, b).
       Ok (NewPositionCursor\<lparr>pos_CurrentPosition := a, pos_IDs := b, pos_Positions := sliceToMapIndex b\<rparr>))"

definition positionPaginator_args ::
  "string option \<Rightarrow> string option \<Rightarrow> ('x page_err, positionPagingParams) outcome" where
  "positionPaginator_args before after =
     bind_o (case before of
               None \<Rightarrow> Ok (int32_of defaultCursorBeforePosition)
             | Some b \<Rightarrow> map_err CursorErr
                 (map_o (\<lambda>c. int32_of (sint (pos_CurrentPosition c))) (position_Unpack b NewPositionCursor)))
       (\<lambda>beforePos.
     bind_o (case after of
               None \<Rightarrow> Ok (int32_of defaultCursorAfterPosition)
             | Some a \<Rightarrow> map_err CursorErr
                 (map_o (\<lambda>c. int32_of (sint (pos_CurrentPosition c))) (position_Unpack a NewPositionCursor)))
       (\<lambda>afterPos. Ok \<lparr>pop_CursorBeforePos = beforePos, pop_CursorAfterPos = afterPos\<rparr>))"

definition positionPaginator_paginate ::
  "('n, 'x) positionPaginator \<Rightarrow> string option \<Rightarrow> string option \<Rightarrow> int option \<Rightarrow> int option \<Rightarrow>
   ('x page_err, 'n list \<times> PageInfo) outcome" where
  "positionPaginator_paginate p before after first lst =
     bind_o (positionPaginator_args before after) (\<lambda>args.
     bind_o (map_err CallErr (pop_QueryFunc p args)) (\<lambda>results.
       pageFrom position_Pack results None (newPositionCursor (pop_CursorFunc p)) before after first lst))"

end
