(* ===== verification/Keyset_Sql.thy ===== *)
theory Keyset_Sql
  imports Paginators "HOL-Library.Product_Lexorder"
begin

text \<open>
  The keyset queries of db/queries/core/query.sql behind the paginators, and the API methods
  that join the two. A keyset query filters the rows strictly between two keys, sorts by the
  key in the paging direction, and limits; PostgreSQL rejects a negative \<open>LIMIT\<close>, keeps
  microseconds of a timestamp, and compares text by the collation of the database, which is a
  parameter here: \<open>coll\<close> maps a text to its sort key. \<open>sql_keyset_source\<close> joins a cursor type
  that survives the wire (\<open>cursor_wire\<close>) with a query on its keys, and yields \<open>keyset_source\<close>.
\<close>

section \<open>The query\<close>

datatype sql_err = NegativeLimit

definition keyset_rows :: "('n \<Rightarrow> 'k::linorder) \<Rightarrow> 'n list \<Rightarrow> 'k \<Rightarrow> 'k \<Rightarrow> bool \<Rightarrow> 'n list" where
  "keyset_rows key tbl before after pagingForward =
     (let asc = sort_key key (filter (\<lambda>r. key r < before \<and> after < key r) tbl)
      in if pagingForward then asc else rev asc)"

definition sql_keyset ::
  "('n \<Rightarrow> 'k::linorder) \<Rightarrow> 'n list \<Rightarrow> 'k \<Rightarrow> 'k \<Rightarrow> int \<Rightarrow> bool \<Rightarrow> (sql_err, 'n list) outcome" where
  "sql_keyset key tbl before after limit pagingForward =
     (if limit < 0 then Err NegativeLimit
      else Ok (take (nat limit) (keyset_rows key tbl before after pagingForward)))"

text \<open>A timestamp as PostgreSQL stores it: whole microseconds.\<close>

definition pg_time :: "go_time \<Rightarrow> int" where
  "pg_time t = sint (tm_sec t) * 1000000 + uint (tm_nsec t) div 1000"

section \<open>Cutting a sorted list\<close>

lemma filter_take:
  assumes "j \<le> length xs" "\<forall>k<j. P (xs ! k)" "\<forall>k<length xs. j \<le> k \<longrightarrow> \<not> P (xs ! k)"
  shows "filter P xs = take j xs"
proof -
  have "filter P (take j xs) = take j xs"
    using assms(1,2) by (auto simp: filter_id_conv in_set_conv_nth)
  moreover have "filter P (drop j xs) = []"
    using assms(3) by (auto simp: filter_empty_conv in_set_conv_nth)
  moreover have "filter P xs = filter P (take j xs) @ filter P (drop j xs)"
    by (simp flip: filter_append)
  ultimately show ?thesis by simp
qed

lemma filter_drop:
  assumes "j \<le> length xs" "\<forall>k<j. \<not> P (xs ! k)" "\<forall>k<length xs. j \<le> k \<longrightarrow> P (xs ! k)"
  shows "filter P xs = drop j xs"
proof -
  have "filter P (take j xs) = []"
    using assms(1,2) by (auto simp: filter_empty_conv in_set_conv_nth)
  moreover have "filter P (drop j xs) = drop j xs"
    using assms(3) by (auto simp: filter_id_conv in_set_conv_nth)
  moreover have "filter P xs = filter P (take j xs) @ filter P (drop j xs)"
    by (simp flip: filter_append)
  ultimately show ?thesis by simp
qed

definition strictly_sorted :: "('n \<Rightarrow> 'k::linorder) \<Rightarrow> 'n list \<Rightarrow> bool" where
  "strictly_sorted key rows = sorted_wrt (<) (map key rows)"

lemma strictly_sorted_nth:
  "strictly_sorted key rows \<Longrightarrow> i < length rows \<Longrightarrow> j < length rows \<Longrightarrow>
     key (rows ! i) < key (rows ! j) \<longleftrightarrow> i < j"
  by (metis linorder_neqE_nat order_less_asym order_less_irrefl strictly_sorted_def
      length_map nth_map sorted_wrt_iff_nth_less)

lemma strictly_sorted_sort_key:
  "distinct (map key rows) \<Longrightarrow> strictly_sorted key (sort_key key rows)"
  by (simp add: strictly_sorted_def strict_sorted_iff distinct_map)

lemma filter_upper:
  assumes "strictly_sorted key rows" "j < length rows"
  shows "filter (\<lambda>r. key r < key (rows ! j)) rows = take j rows"
  by (rule filter_take) (use assms in \<open>auto simp: strictly_sorted_nth\<close>)

lemma filter_lower:
  assumes "strictly_sorted key rows" "i < length rows" "j \<le> length rows"
  shows "filter (\<lambda>r. key (rows ! i) < key r) (take j rows) = drop (Suc i) (take j rows)"
proof (cases "Suc i \<le> j")
  case True
  then show ?thesis by (intro filter_drop) (use assms in \<open>auto simp: strictly_sorted_nth\<close>)
next
  case False
  then have "filter (\<lambda>r. key (rows ! i) < key r) (take j rows) = []"
    using assms by (auto simp: filter_empty_conv in_set_conv_nth strictly_sorted_nth)
  then show ?thesis using False by simp
qed

text \<open>
  Bounds that are the keys of two rows, or lie outside all of them, select the rows strictly
  between the two positions.
\<close>

definition upper_bound :: "('n \<Rightarrow> 'k::linorder) \<Rightarrow> 'n list \<Rightarrow> nat option \<Rightarrow> 'k \<Rightarrow> bool" where
  "upper_bound key rows hi b =
     (case hi of None \<Rightarrow> \<forall>r\<in>set rows. key r < b | Some j \<Rightarrow> b = key (rows ! j))"

definition lower_bound :: "('n \<Rightarrow> 'k::linorder) \<Rightarrow> 'n list \<Rightarrow> nat option \<Rightarrow> 'k \<Rightarrow> bool" where
  "lower_bound key rows lo a =
     (case lo of None \<Rightarrow> \<forall>r\<in>set rows. a < key r | Some i \<Rightarrow> a = key (rows ! i))"

lemma filter_between:
  assumes s: "strictly_sorted key rows" and lo: "pos_ok rows lo" and hi: "pos_ok rows hi"
    and b: "upper_bound key rows hi b" and a: "lower_bound key rows lo a"
  shows "filter (\<lambda>r. key r < b \<and> a < key r) rows = between rows lo hi"
proof -
  define j where "j = (case hi of None \<Rightarrow> length rows | Some j \<Rightarrow> j)"
  have j: "j \<le> length rows" using hi by (auto simp: j_def pos_ok_def split: option.splits)
  have up: "filter (\<lambda>r. key r < b) rows = take j rows"
    using b hi s
    by (cases hi) (auto simp: j_def upper_bound_def pos_ok_def filter_upper filter_id_conv)
  have "filter (\<lambda>r. key r < b \<and> a < key r) rows = filter (\<lambda>r. a < key r) (take j rows)"
    by (simp flip: up add: conj_commute)
  also have "\<dots> = drop (lo_index lo) (take j rows)"
  proof (cases lo)
    case None
    then have "\<forall>r\<in>set (take j rows). a < key r"
      using a set_take_subset by (fastforce simp: lower_bound_def)
    then show ?thesis using None by (simp add: filter_id_conv lo_index_def)
  next
    case (Some i)
    then have "a = key (rows ! i)" "i < length rows" using a lo by (auto simp: lower_bound_def pos_ok_def)
    then show ?thesis using filter_lower [OF s _ j] Some by (simp add: lo_index_def)
  qed
  also have "\<dots> = between rows lo hi"
    by (cases hi) (simp_all add: between_def j_def)
  finally show ?thesis .
qed

lemma keyset_rows_between:
  assumes "distinct (map key tbl)"
  defines "rows \<equiv> sort_key key tbl"
  assumes "pos_ok rows lo" "pos_ok rows hi" "upper_bound key rows hi b" "lower_bound key rows lo a"
  shows "keyset_rows key tbl b a fwd = (if fwd then between rows lo hi else rev (between rows lo hi))"
proof -
  have "sort_key key (filter (\<lambda>r. key r < b \<and> a < key r) tbl) = between rows lo hi"
    using filter_between [OF strictly_sorted_sort_key [OF assms(1)], of lo hi b a] assms(3-6)
    by (simp add: rows_def filter_sort)
  then show ?thesis by (simp add: keyset_rows_def Let_def)
qed

section \<open>A wire format joined with a query\<close>

definition packed :: "('c \<Rightarrow> (cur_err, string) outcome) \<Rightarrow> 'c \<Rightarrow> string" where
  "packed pack c = (case pack c of Ok s \<Rightarrow> s | _ \<Rightarrow> [])"

text \<open>
  The tables a paginator pages through without loss: the keys of the rows are distinct and lie
  between the default bounds, and the rows' cursors survive the wire.
\<close>

definition keyset_valid ::
  "('c \<Rightarrow> bool) \<Rightarrow> ('c \<Rightarrow> 'k::linorder) \<Rightarrow> ('n \<Rightarrow> 'c) \<Rightarrow> 'c \<times> 'c \<Rightarrow> 'n list \<Rightarrow> bool" where
  "keyset_valid wire_ok key_of cur_of dflt tbl \<longleftrightarrow>
     distinct (map (\<lambda>r. key_of (cur_of r)) tbl) \<and>
     (\<forall>r\<in>set tbl. wire_ok (cur_of r) \<and> key_of (cur_of r) < key_of (fst dflt)
        \<and> key_of (snd dflt) < key_of (cur_of r))"

context cursor_wire
begin

lemma pack_packed: "wire_ok c \<Longrightarrow> pack c = Ok (packed pack c)"
  using pack_ok by (fastforce simp: packed_def)

lemma unpack_packed: "wire_ok c \<Longrightarrow> unpack (packed pack c) c0 = Ok c"
  by (rule unpack_pack) (simp_all add: pack_packed)

lemma packed_inject: "wire_ok c \<Longrightarrow> wire_ok d \<Longrightarrow> packed pack c = packed pack d \<Longrightarrow> c = d"
  by (rule pack_inject) (simp_all add: pack_packed)

end

locale sql_keyset_source = cursor_wire pack unpack wire_ok
  for pack :: "'c \<Rightarrow> (cur_err, string) outcome"
    and unpack :: "string \<Rightarrow> 'c \<Rightarrow> (cur_err, 'c) outcome"
    and wire_ok :: "'c \<Rightarrow> bool" +
  fixes cur_of :: "'n \<Rightarrow> 'c"
    and key_of :: "'c \<Rightarrow> 'k::linorder"
    and dflt :: "'c \<times> 'c"
    and sel :: "'t \<Rightarrow> 'n list"
    and cF :: "'n \<Rightarrow> ('x, 'c) outcome"
    and query :: "'t \<Rightarrow> string option \<Rightarrow> string option \<Rightarrow> int \<Rightarrow> bool \<Rightarrow> ('x page_err, 'n list) outcome"
  assumes cF_ok: "cF n = Ok (cur_of n)"
    and query_ok: "unpack_bounds unpack before after (fst dflt) (snd dflt)
                     = (Ok (b, a) :: ('x page_err, 'c \<times> 'c) outcome) \<Longrightarrow> 0 \<le> limit \<Longrightarrow>
      query t before after limit fwd =
        Ok (take (nat limit) (keyset_rows (\<lambda>r. key_of (cur_of r)) (sel t) (key_of b) (key_of a) fwd))"
begin

lemma query_between:
  assumes v: "keyset_valid wire_ok key_of cur_of dflt (sel t)" and limit: "0 \<le> limit"
  defines "rows \<equiv> sort_key (\<lambda>r. key_of (cur_of r)) (sel t)"
  assumes lo: "pos_ok rows lo" and hi: "pos_ok rows hi"
  shows "query t (map_option (\<lambda>j. packed pack (cur_of (rows ! j))) hi)
           (map_option (\<lambda>i. packed pack (cur_of (rows ! i))) lo) limit fwd =
         Ok (take (nat limit) (if fwd then between rows lo hi else rev (between rows lo hi)))"
proof -
  define b where "b = (case hi of None \<Rightarrow> fst dflt | Some j \<Rightarrow> cur_of (rows ! j))"
  define a where "a = (case lo of None \<Rightarrow> snd dflt | Some i \<Rightarrow> cur_of (rows ! i))"
  have row: "wire_ok (cur_of (rows ! i))" if "i < length rows" for i
    using v nth_mem [OF that] by (simp add: keyset_valid_def rows_def)
  have "unpack_bounds unpack (map_option (\<lambda>j. packed pack (cur_of (rows ! j))) hi)
      (map_option (\<lambda>i. packed pack (cur_of (rows ! i))) lo) (fst dflt) (snd dflt)
    = (Ok (b, a) :: ('x page_err, 'c \<times> 'c) outcome)"
    using lo hi by (cases lo; cases hi)
      (simp_all add: unpack_bounds_def unpack_opt_def b_def a_def pos_ok_def unpack_packed row)
  moreover have "upper_bound (\<lambda>r. key_of (cur_of r)) rows hi (key_of b)"
    using v by (cases hi) (simp_all add: upper_bound_def b_def keyset_valid_def rows_def)
  moreover have "lower_bound (\<lambda>r. key_of (cur_of r)) rows lo (key_of a)"
    using v by (cases lo) (simp_all add: lower_bound_def a_def keyset_valid_def rows_def)
  ultimately show ?thesis
    using query_ok limit keyset_rows_between [of "\<lambda>r. key_of (cur_of r)" "sel t" lo hi] v lo hi
    by (simp add: keyset_valid_def rows_def)
qed

lemma is_keyset_source:
  "keyset_source (\<lambda>t. keyset_valid wire_ok key_of cur_of dflt (sel t))
     (\<lambda>t. sort_key (\<lambda>r. key_of (cur_of r)) (sel t)) (\<lambda>r. packed pack (cur_of r)) pack cF query"
proof
  fix t n
  assume v: "keyset_valid wire_ok key_of cur_of dflt (sel t)"
    and n: "n \<in> set (sort_key (\<lambda>r. key_of (cur_of r)) (sel t))"
  then show "packNode pack cF n = Ok (packed pack (cur_of n))"
    by (simp add: packNode_def cF_ok pack_packed keyset_valid_def)
next
  fix t i j
  let ?rows = "sort_key (\<lambda>r. key_of (cur_of r)) (sel t)"
  assume v: "keyset_valid wire_ok key_of cur_of dflt (sel t)"
    and i: "i < length ?rows" and j: "j < length ?rows"
    and eq: "packed pack (cur_of (?rows ! i)) = packed pack (cur_of (?rows ! j))"
  have "wire_ok (cur_of (?rows ! i))" "wire_ok (cur_of (?rows ! j))"
    using v nth_mem [OF i] nth_mem [OF j] by (simp_all add: keyset_valid_def)
  then have "cur_of (?rows ! i) = cur_of (?rows ! j)" using eq by (rule packed_inject)
  moreover have "strictly_sorted (\<lambda>r. key_of (cur_of r)) ?rows"
    using v by (simp add: strictly_sorted_sort_key keyset_valid_def)
  ultimately show "i = j"
    using strictly_sorted_nth [of "\<lambda>r. key_of (cur_of r)" ?rows] i j
    by (metis linorder_neqE_nat order_less_irrefl)
qed (simp_all add: query_between)

end

sublocale sql_keyset_source \<subseteq> keyset_source
  "\<lambda>t. keyset_valid wire_ok key_of cur_of dflt (sel t)"
  "\<lambda>t. sort_key (\<lambda>r. key_of (cur_of r)) (sel t)" "\<lambda>r. packed pack (cur_of r)" pack cF query
  by (rule is_keyset_source)

end
