(* ===== verification/Page_Api.thy ===== *)
theory Page_Api
  imports Keyset_Sql
begin

text \<open>
  The API methods that page through the database: \<open>GetViewerNotifications\<close> of
  publicapi/notifications.go, \<open>GetUsersByIDs\<close>, \<open>PaginateUsersWithRole\<close> and the paginator over a
  fixed list of user IDs of publicapi/user.go, on tables of the columns their queries read
  (db/queries/core/query.sql). Each keyset query interprets \<open>sql_keyset_source\<close> and the
  position query \<open>row_source\<close>, so a client that follows the cursors of these methods sees every
  row once.
\<close>

section \<open>Tables and queries\<close>

record notification_row =
  n_ID :: dbid
  n_OwnerID :: dbid
  n_CreatedAt :: go_time
  n_Deleted :: bool
  n_Seen :: bool

record user_row =
  u_ID :: dbid
  u_CreatedAt :: go_time
  u_UsernameIdempotent :: "string option"
  u_Universal :: bool
  u_Deleted :: bool

record user_role_row =
  ur_UserID :: dbid
  ur_Role :: string
  ur_Deleted :: bool

definition owned_notifications :: "dbid \<Rightarrow> notification_row list \<Rightarrow> notification_row list" where
  "owned_notifications owner tbl = filter (\<lambda>n. n_OwnerID n = owner \<and> \<not> n_Deleted n) tbl"

definition getUserNotificationsBatch ::
  "(string \<Rightarrow> 'k::linorder) \<Rightarrow> notification_row list \<Rightarrow> dbid \<Rightarrow> timeIDPagingParams \<Rightarrow>
   (sql_err, notification_row list) outcome" where
  "getUserNotificationsBatch coll tbl owner p =
     sql_keyset (\<lambda>n. (pg_time (n_CreatedAt n), coll (n_ID n))) (owned_notifications owner tbl)
       (pg_time (tip_CursorBeforeTime p), coll (tip_CursorBeforeID p))
       (pg_time (tip_CursorAfterTime p), coll (tip_CursorAfterID p))
       (tip_Limit p) (tip_PagingForward p)"

definition countUserNotifications :: "notification_row list \<Rightarrow> dbid \<Rightarrow> int" where
  "countUserNotifications tbl owner = int (length (owned_notifications owner tbl))"

definition countUserUnseenNotifications :: "notification_row list \<Rightarrow> dbid \<Rightarrow> int" where
  "countUserUnseenNotifications tbl owner =
     int (length (filter (\<lambda>n. \<not> n_Seen n) (owned_notifications owner tbl)))"

definition users_with_ids :: "dbid list \<Rightarrow> user_row list \<Rightarrow> user_row list" where
  "users_with_ids ids tbl = filter (\<lambda>u. u_ID u \<in> set ids \<and> \<not> u_Deleted u) tbl"

definition getUsersByIDs_query ::
  "(string \<Rightarrow> 'k::linorder) \<Rightarrow> user_row list \<Rightarrow> dbid list \<Rightarrow> timeIDPagingParams \<Rightarrow>
   (sql_err, user_row list) outcome" where
  "getUsersByIDs_query coll tbl ids p =
     sql_keyset (\<lambda>u. (pg_time (u_CreatedAt u), coll (u_ID u))) (users_with_ids ids tbl)
       (pg_time (tip_CursorBeforeTime p), coll (tip_CursorBeforeID p))
       (pg_time (tip_CursorAfterTime p), coll (tip_CursorAfterID p))
       (tip_Limit p) (tip_PagingForward p)"

text \<open>A join of users and roles; a NULL username compares as unknown, which drops the row.\<close>

definition users_with_role :: "string \<Rightarrow> user_row list \<times> user_role_row list \<Rightarrow> user_row list" where
  "users_with_role role db =
     [u. u \<leftarrow> fst db, ur \<leftarrow> snd db,
         \<not> u_Deleted u \<and> \<not> ur_Deleted ur \<and> u_ID u = ur_UserID ur \<and> ur_Role ur = role
         \<and> u_UsernameIdempotent u \<noteq> None]"

definition username_str :: "user_row \<Rightarrow> string" where
  "username_str u = (case u_UsernameIdempotent u of None \<Rightarrow> [] | Some s \<Rightarrow> s)"

definition getUsersWithRolePaginate ::
  "(string \<Rightarrow> 'k::linorder) \<Rightarrow> user_row list \<times> user_role_row list \<Rightarrow> string \<Rightarrow> lexicalPagingParams \<Rightarrow>
   (sql_err, user_row list) outcome" where
  "getUsersWithRolePaginate coll db role p =
     sql_keyset (\<lambda>u. (coll (username_str u), coll (u_ID u))) (users_with_role role db)
       (coll (lxp_CursorBeforeKey p), coll (lxp_CursorBeforeID p))
       (coll (lxp_CursorAfterKey p), coll (lxp_CursorAfterID p))
       (lxp_Limit p) (lxp_PagingForward p)"

text \<open>\<open>unnest(ids) with ordinality\<close> numbers the IDs from 1; the join keeps the users that exist.\<close>

definition users_at_positions :: "user_row list \<Rightarrow> dbid list \<Rightarrow> int \<Rightarrow> int \<Rightarrow> user_row list" where
  "users_at_positions tbl ids afterPos beforePos =
     [u. (pos, i) \<leftarrow> List.enumerate 1 ids, u \<leftarrow> tbl,
         u_ID u = i \<and> \<not> u_Deleted u \<and> \<not> u_Universal u \<and> afterPos < int pos \<and> int pos < beforePos]"

section \<open>The methods\<close>

datatype api_err =
    AuthErr string
  | ParamsErr params_err
  | PageErr "sql_err page_err"

definition required_str :: "string \<Rightarrow> string \<Rightarrow> (api_err, unit) outcome" where
  "required_str name v = (if v = [] then Err (ParamsErr (ErrInvalidInput [name])) else Ok ())"

definition viewer_paginator ::
  "(string \<Rightarrow> 'k::linorder) \<Rightarrow> notification_row list \<Rightarrow> dbid \<Rightarrow> (notification_row, sql_err) timeIDPaginator" where
  "viewer_paginator coll tbl userID =
     \<lparr>tip_QueryFunc = getUserNotificationsBatch coll tbl userID,
      tip_CursorFunc = (\<lambda>n. Ok (n_CreatedAt n, n_ID n)),
      tip_CountFunc = Some (Ok (countUserNotifications tbl userID))\<rparr>"

definition GetViewerNotifications ::
  "(string \<Rightarrow> 'k::linorder) \<Rightarrow> notification_row list \<Rightarrow> (string, dbid) outcome \<Rightarrow>
   string option \<Rightarrow> string option \<Rightarrow> int option \<Rightarrow> int option \<Rightarrow>
   (api_err, notification_row list \<times> PageInfo \<times> int) outcome" where
  "GetViewerNotifications coll tbl auth before after first lst =
     bind_o (map_err AuthErr auth) (\<lambda>userID.
     bind_o (required_str ''userID'' userID) (\<lambda>_.
     bind_o (map_err ParamsErr (validatePaginationParams first lst)) (\<lambda>_.
     bind_o (map_err PageErr (timeIDPaginator_paginate (viewer_paginator coll tbl userID) before after first lst []))
       (\<lambda>(notifications, pageInfo).
         Ok (notifications, pageInfo, countUserUnseenNotifications tbl userID)))))"

definition users_by_ids_paginator ::
  "(string \<Rightarrow> 'k::linorder) \<Rightarrow> user_row list \<Rightarrow> dbid list \<Rightarrow> (user_row, sql_err) timeIDPaginator" where
  "users_by_ids_paginator coll tbl userIDs =
     \<lparr>tip_QueryFunc = getUsersByIDs_query coll tbl userIDs,
      tip_CursorFunc = (\<lambda>u. Ok (u_CreatedAt u, u_ID u)),
      tip_CountFunc = Some (Ok (int (length userIDs)))\<rparr>"

text \<open>\<open>required\<close> on a slice rejects nil, not an empty slice; \<open>None\<close> is the nil slice.\<close>

definition GetUsersByIDs ::
  "(string \<Rightarrow> 'k::linorder) \<Rightarrow> user_row list \<Rightarrow> dbid list option \<Rightarrow>
   string option \<Rightarrow> string option \<Rightarrow> int option \<Rightarrow> int option \<Rightarrow> (api_err, user_row list \<times> PageInfo) outcome" where
  "GetUsersByIDs coll tbl userIDs before after first lst =
     (case userIDs of
        None \<Rightarrow> Err (ParamsErr (ErrInvalidInput [''userIDs'']))
      | Some ids \<Rightarrow>
          bind_o (map_err ParamsErr (validatePaginationParams first lst)) (\<lambda>_.
            map_err PageErr
              (timeIDPaginator_paginate (users_by_ids_paginator coll tbl ids) before after first lst [])))"

definition role_paginator ::
  "(string \<Rightarrow> 'k::linorder) \<Rightarrow> user_row list \<times> user_role_row list \<Rightarrow> string \<Rightarrow> (user_row, sql_err) lexicalPaginator" where
  "role_paginator coll db role =
     \<lparr>lxp_QueryFunc = getUsersWithRolePaginate coll db role,
      lxp_CursorFunc = (\<lambda>u. Ok (username_str u, u_ID u)),
      lxp_CountFunc = None\<rparr>"

definition IsValidRole :: "string \<Rightarrow> bool" where
  "IsValidRole role \<longleftrightarrow> role = ''ADMIN'' \<or> role = ''BETA_TESTER''"

definition PaginateUsersWithRole ::
  "(string \<Rightarrow> 'k::linorder) \<Rightarrow> user_row list \<times> user_role_row list \<Rightarrow> string \<Rightarrow>
   string option \<Rightarrow> string option \<Rightarrow> int option \<Rightarrow> int option \<Rightarrow> (api_err, user_row list \<times> PageInfo) outcome" where
  "PaginateUsersWithRole coll db role before after first lst =
     (if \<not> IsValidRole role then Err (ParamsErr (ErrInvalidInput [''role'']))
      else bind_o (map_err ParamsErr (validatePaginationParams first lst)) (\<lambda>_.
        map_err PageErr (lexicalPaginator_paginate (role_paginator coll db role) before after first lst)))"

definition paginatorWithQuery ::
  "positionCursor \<Rightarrow> (positionPagingParams \<Rightarrow> (sql_err, user_row list) outcome) \<Rightarrow>
   (user_row, sql_err) positionPaginator" where
  "paginatorWithQuery c queryF =
     \<lparr>pop_QueryFunc = queryF,
      pop_CursorFunc = (\<lambda>u. Ok (word_of_int (case pos_Positions c (u_ID u) of None \<Rightarrow> 0 | Some i \<Rightarrow> i), pos_IDs c)),
      pop_CountFunc = None\<rparr>"

text \<open>PostgreSQL counts positions from 1, so both bounds move up by one, in \<open>int32\<close>.\<close>

definition paginatorFromCursor :: "user_row list \<Rightarrow> positionCursor \<Rightarrow> (user_row, sql_err) positionPaginator" where
  "paginatorFromCursor tbl c =
     paginatorWithQuery c (\<lambda>p. Ok (users_at_positions tbl (pos_IDs c)
       (int32_of (pop_CursorAfterPos p + 1)) (int32_of (pop_CursorBeforePos p + 1))))"

definition paginatorFromResults :: "positionCursor \<Rightarrow> user_row list \<Rightarrow> (user_row, sql_err) positionPaginator" where
  "paginatorFromResults c users = paginatorWithQuery c (\<lambda>_. Ok users)"

definition paginatorFromCursorStr ::
  "user_row list \<Rightarrow> string \<Rightarrow> (cur_err, (user_row, sql_err) positionPaginator) outcome" where
  "paginatorFromCursorStr tbl curStr =
     bind_o (position_Unpack curStr NewPositionCursor) (\<lambda>cur. Ok (paginatorFromCursor tbl cur))"

section \<open>The paginators implement the keyset contract\<close>

definition time_key :: "(string \<Rightarrow> 'k::linorder) \<Rightarrow> timeIDCursor \<Rightarrow> int \<times> 'k" where
  "time_key coll c = (pg_time (ti_Time c), coll (ti_ID c))"

definition lex_key :: "(string \<Rightarrow> 'k::linorder) \<Rightarrow> stringIDCursor \<Rightarrow> 'k \<times> 'k" where
  "lex_key coll c = (coll (si_String c), coll (si_ID c))"

definition notification_cursor :: "notification_row \<Rightarrow> timeIDCursor" where
  "notification_cursor n = NewTimeIDCursor\<lparr>ti_Time := n_CreatedAt n, ti_ID := n_ID n\<rparr>"

definition user_time_cursor :: "user_row \<Rightarrow> timeIDCursor" where
  "user_time_cursor u = NewTimeIDCursor\<lparr>ti_Time := u_CreatedAt u, ti_ID := u_ID u\<rparr>"

definition user_name_cursor :: "user_row \<Rightarrow> stringIDCursor" where
  "user_name_cursor u = NewStringIDCursor\<lparr>si_String := username_str u, si_ID := u_ID u\<rparr>"

interpretation notifications: sql_keyset_source timeID_Pack timeID_Unpack timeID_wire_ok
  notification_cursor "time_key coll" timeIDPaginator_defaults
  "\<lambda>(owner, tbl). owned_notifications owner tbl"
  "newTimeIDCursor (\<lambda>n. Ok (n_CreatedAt n, n_ID n))"
  "\<lambda>(owner, tbl). timeIDPaginator_query (getUserNotificationsBatch coll tbl owner) timeIDPaginator_defaults"
  for coll :: "string \<Rightarrow> 'k::linorder"
proof unfold_locales
  fix before after b a fwd and limit :: int and t :: "dbid \<times> notification_row list"
  assume "unpack_bounds timeID_Unpack before after (fst timeIDPaginator_defaults) (snd timeIDPaginator_defaults)
      = (Ok (b, a) :: (sql_err page_err, timeIDCursor \<times> timeIDCursor) outcome)" "0 \<le> limit"
  then show "(case t of (owner, tbl) \<Rightarrow>
      timeIDPaginator_query (getUserNotificationsBatch coll tbl owner) timeIDPaginator_defaults) before after limit fwd
    = Ok (take (nat limit) (keyset_rows (\<lambda>r. time_key coll (notification_cursor r))
        (case t of (owner, tbl) \<Rightarrow> owned_notifications owner tbl) (time_key coll b) (time_key coll a) fwd))"
    by (cases t) (simp add: timeIDPaginator_query_def getUserNotificationsBatch_def time_key_def
        notification_cursor_def sql_keyset_def)
qed (simp add: newTimeIDCursor_def notification_cursor_def)

interpretation users_by_ids: sql_keyset_source timeID_Pack timeID_Unpack timeID_wire_ok
  user_time_cursor "time_key coll" timeIDPaginator_defaults
  "\<lambda>(ids, tbl). users_with_ids ids tbl"
  "newTimeIDCursor (\<lambda>u. Ok (u_CreatedAt u, u_ID u))"
  "\<lambda>(ids, tbl). timeIDPaginator_query (getUsersByIDs_query coll tbl ids) timeIDPaginator_defaults"
  for coll :: "string \<Rightarrow> 'k::linorder"
proof unfold_locales
  fix before after b a fwd and limit :: int and t :: "dbid list \<times> user_row list"
  assume "unpack_bounds timeID_Unpack before after (fst timeIDPaginator_defaults) (snd timeIDPaginator_defaults)
      = (Ok (b, a) :: (sql_err page_err, timeIDCursor \<times> timeIDCursor) outcome)" "0 \<le> limit"
  then show "(case t of (ids, tbl) \<Rightarrow>
      timeIDPaginator_query (getUsersByIDs_query coll tbl ids) timeIDPaginator_defaults) before after limit fwd
    = Ok (take (nat limit) (keyset_rows (\<lambda>r. time_key coll (user_time_cursor r))
        (case t of (ids, tbl) \<Rightarrow> users_with_ids ids tbl) (time_key coll b) (time_key coll a) fwd))"
    by (cases t) (simp add: timeIDPaginator_query_def getUsersByIDs_query_def time_key_def
        user_time_cursor_def sql_keyset_def)
qed (simp add: newTimeIDCursor_def user_time_cursor_def)

interpretation users_by_role: sql_keyset_source stringID_Pack stringID_Unpack stringID_wire_ok
  user_name_cursor "lex_key coll" lexicalPaginator_defaults
  "\<lambda>(role, db). users_with_role role db"
  "newStringIDCursor (\<lambda>u. Ok (username_str u, u_ID u))"
  "\<lambda>(role, db). lexicalPaginator_query (getUsersWithRolePaginate coll db role) lexicalPaginator_defaults"
  for coll :: "string \<Rightarrow> 'k::linorder"
proof unfold_locales
  fix before after b a fwd and limit :: int and t :: "string \<times> user_row list \<times> user_role_row list"
  assume "unpack_bounds stringID_Unpack before after (fst lexicalPaginator_defaults) (snd lexicalPaginator_defaults)
      = (Ok (b, a) :: (sql_err page_err, stringIDCursor \<times> stringIDCursor) outcome)" "0 \<le> limit"
  then show "(case t of (role, db) \<Rightarrow>
      lexicalPaginator_query (getUsersWithRolePaginate coll db role) lexicalPaginator_defaults) before after limit fwd
    = Ok (take (nat limit) (keyset_rows (\<lambda>r. lex_key coll (user_name_cursor r))
        (case t of (role, db) \<Rightarrow> users_with_role role db) (lex_key coll b) (lex_key coll a) fwd))"
    by (cases t) (simp add: lexicalPaginator_query_def getUsersWithRolePaginate_def lex_key_def
        user_name_cursor_def sql_keyset_def)
qed (simp add: newStringIDCursor_def user_name_cursor_def)

lemma viewer_paginate:
  "timeIDPaginator_paginate (viewer_paginator coll tbl owner) before after first lst [] =
     keyset_paginate timeID_Pack
       (keyset_record (timeIDPaginator_query (getUserNotificationsBatch coll tbl owner) timeIDPaginator_defaults before after)
          (newTimeIDCursor (\<lambda>n. Ok (n_CreatedAt n, n_ID n)))
          (map_option Ok (Some (countUserNotifications tbl owner))))
       before after first lst"
  by (simp add: timeIDPaginator_paginate_def viewer_paginator_def keyset_record_def)

lemma users_by_ids_paginate:
  "timeIDPaginator_paginate (users_by_ids_paginator coll tbl ids) before after first lst [] =
     keyset_paginate timeID_Pack
       (keyset_record (timeIDPaginator_query (getUsersByIDs_query coll tbl ids) timeIDPaginator_defaults before after)
          (newTimeIDCursor (\<lambda>u. Ok (u_CreatedAt u, u_ID u)))
          (map_option Ok (Some (int (length ids)))))
       before after first lst"
  by (simp add: timeIDPaginator_paginate_def users_by_ids_paginator_def keyset_record_def)

lemma role_paginate:
  "lexicalPaginator_paginate (role_paginator coll db role) before after first lst =
     keyset_paginate stringID_Pack
       (keyset_record (lexicalPaginator_query (getUsersWithRolePaginate coll db role) lexicalPaginator_defaults before after)
          (newStringIDCursor (\<lambda>u. Ok (username_str u, u_ID u))) (map_option Ok None))
       before after first lst"
  by (simp add: lexicalPaginator_paginate_def role_paginator_def keyset_record_def)

definition page_of :: "('e, 'n list \<times> PageInfo \<times> int) outcome \<Rightarrow> ('e, 'n list \<times> PageInfo) outcome" where
  "page_of r = map_o (\<lambda>(ns, info, unseen). (ns, info)) r"

lemma viewer_page:
  assumes "owner \<noteq> []" "validatePaginationParams first lst = Ok ()"
  shows "page_of (GetViewerNotifications coll tbl (Ok owner) before after first lst) =
    map_err PageErr (timeIDPaginator_paginate (viewer_paginator coll tbl owner) before after first lst [])"
  using assms
  by (cases "timeIDPaginator_paginate (viewer_paginator coll tbl owner) before after first lst []")
     (auto simp: GetViewerNotifications_def required_str_def page_of_def)

section \<open>A caching loader\<close>

text \<open>
  \<open>GetUserNotificationsBatch\<close> is a dataloader that keeps the result of each parameter set for the
  life of the request (cmd/dataloaders/generator), and \<open>keysetPaginator.paginate\<close> reverses the
  result of a backward page in place: the slice it reverses is the cached one. The cache is the
  state; a page request returns its answer and the cache it leaves.
\<close>

type_synonym loader_cache = "timeIDPagingParams \<rightharpoonup> notification_row list"

definition load_cached ::
  "(timeIDPagingParams \<Rightarrow> (sql_err, notification_row list) outcome) \<Rightarrow> timeIDPagingParams \<Rightarrow> loader_cache \<Rightarrow>
   (sql_err, notification_row list) outcome \<times> loader_cache" where
  "load_cached fetch p cache =
     (case cache p of
        Some ns \<Rightarrow> (Ok ns, cache)
      | None \<Rightarrow> (case fetch p of
            Ok ns \<Rightarrow> (Ok ns, cache(p \<mapsto> ns))
          | Err e \<Rightarrow> (Err e, cache)
          | Panic m \<Rightarrow> (Panic m, cache)))"

definition default_params :: "int \<Rightarrow> bool \<Rightarrow> timeIDPagingParams" where
  "default_params limit fwd =
     \<lparr>tip_Limit = limit,
      tip_CursorBeforeTime = ti_Time (fst timeIDPaginator_defaults), tip_CursorBeforeID = ti_ID (fst timeIDPaginator_defaults),
      tip_CursorAfterTime = ti_Time (snd timeIDPaginator_defaults), tip_CursorAfterID = ti_ID (snd timeIDPaginator_defaults),
      tip_PagingForward = fwd\<rparr>"

text \<open>A backward page with neither cursor, \<open>last = n\<close>, through the caching loader.\<close>

definition last_page_cached ::
  "(string \<Rightarrow> 'k::linorder) \<Rightarrow> notification_row list \<Rightarrow> dbid \<Rightarrow> int \<Rightarrow> loader_cache \<Rightarrow>
   (sql_err page_err, notification_row list \<times> PageInfo) outcome \<times> loader_cache" where
  "last_page_cached coll tbl owner n cache =
     (let p = default_params (page_limit n) False in
      case load_cached (getUserNotificationsBatch coll tbl owner) p cache of
        (Ok results, cache') \<Rightarrow>
          let reversed = rev results in
          (pageFrom timeID_Pack reversed (Some (Ok (countUserNotifications tbl owner)))
             (newTimeIDCursor (\<lambda>n. Ok (n_CreatedAt n, n_ID n))) None None None (Some n),
           cache'(p \<mapsto> reversed))
      | (Err e, cache') \<Rightarrow> (Err (CallErr e), cache')
      | (Panic m, cache') \<Rightarrow> (Panic m, cache'))"

lemma keyset_query_defaults:
  "timeIDPaginator_query f timeIDPaginator_defaults None None limit fwd = map_err CallErr (f (default_params limit fwd))"
  by (simp add: timeIDPaginator_query_def unpack_bounds_def unpack_opt_def default_params_def
      case_prod_unfold)

lemma notifications_default_query:
  assumes "keyset_valid timeID_wire_ok (time_key coll) notification_cursor
      timeIDPaginator_defaults (owned_notifications owner tbl)" "0 \<le> n" "n < 2 ^ 31 - 1"
  shows "getUserNotificationsBatch coll tbl owner (default_params (page_limit n) False) =
    Ok (take (nat (n + 1)) (rev (sort_key (\<lambda>r. time_key coll (notification_cursor r)) (owned_notifications owner tbl))))"
  using notifications.query_backward [of coll "(owner, tbl)" None None "n + 1"] assms
  by (simp add: pos_ok_def page_limit_id keyset_query_defaults outcome_simps)

lemma default_pageFrom_last:
  assumes v: "keyset_valid timeID_wire_ok (time_key coll) notification_cursor
      timeIDPaginator_defaults (owned_notifications owner tbl)" and n: "0 \<le> n"
    and es: "set es \<subseteq> set (owned_notifications owner tbl)"
  shows "(pageFrom timeID_Pack es (Some (Ok c)) (newTimeIDCursor (\<lambda>n. Ok (n_CreatedAt n, n_ID n))) None None None (Some n)
      :: (sql_err page_err, notification_row list \<times> PageInfo) outcome)
    = Ok (relay_page (\<lambda>r. packed timeID_Pack (notification_cursor r)) (drop (length es - nat n) es) (Some c)
            (n < int (length es)) False)"
  using notifications.pageFrom_last [of coll "(owner, tbl)" None None n es "Some c"] assms
  by (simp add: pos_ok_def tok_at_def)

section \<open>Sample tables\<close>

text \<open>Three notifications of one user and one of another, on which the properties are instantiated.\<close>

definition sample_time :: "64 word \<Rightarrow> go_time" where
  "sample_time s = \<lparr>tm_sec = s, tm_nsec = 500000, tm_zone = UTC\<rparr>"

definition sample_notifications :: "notification_row list" where
  "sample_notifications =
     [\<lparr>n_ID = ''c'', n_OwnerID = ''u1'', n_CreatedAt = sample_time 63800000300, n_Deleted = False, n_Seen = False\<rparr>,
      \<lparr>n_ID = ''a'', n_OwnerID = ''u1'', n_CreatedAt = sample_time 63800000100, n_Deleted = False, n_Seen = True\<rparr>,
      \<lparr>n_ID = ''x'', n_OwnerID = ''u2'', n_CreatedAt = sample_time 63800000150, n_Deleted = False, n_Seen = True\<rparr>,
      \<lparr>n_ID = ''b'', n_OwnerID = ''u1'', n_CreatedAt = sample_time 63800000200, n_Deleted = False, n_Seen = False\<rparr>]"

lemma sample_notifications_valid:
  "keyset_valid timeID_wire_ok (time_key length) notification_cursor timeIDPaginator_defaults
     (owned_notifications ''u1'' sample_notifications)"
  by (simp add: keyset_valid_def owned_notifications_def sample_notifications_def sample_time_def
      notification_cursor_def time_key_def timeID_wire_ok_def timeID_cells_def time_ok_def pg_time_def
      NewTimeIDCursor_def timeIDPaginator_defaults_def defaultCursorBeforeTime_def
      defaultCursorAfterTime_def max_alloc_def)

section \<open>Properties\<close>

text \<open>C31: Following \<open>EndCursor\<close> while \<open>HasNextPage\<close>, with any page size, a client of
  \<open>GetViewerNotifications\<close> receives every notification of the viewer exactly once, oldest
  first, when their (time, id) keys differ and lie between the default bounds.\<close>

theorem viewer_notifications_walk_forward:
  assumes valid: "keyset_valid timeID_wire_ok (time_key coll) notification_cursor
      timeIDPaginator_defaults (owned_notifications owner tbl)"
    and owner: "owner \<noteq> []" and n: "1 \<le> n" "n < 2 ^ 31 - 1"
  shows "walk_forward (\<lambda>a. page_of (GetViewerNotifications coll tbl (Ok owner) None a (Some n) None))
           (Suc (length (owned_notifications owner tbl))) None
       = Some (Ok (sort_key (\<lambda>r. time_key coll (notification_cursor r)) (owned_notifications owner tbl)))"
proof -
  have "validatePaginationParams (Some n) None = Ok ()" using n by (auto simp: validatePaginationParams_Ok)
  then have req: "(\<lambda>a. page_of (GetViewerNotifications coll tbl (Ok owner) None a (Some n) None))
    = (\<lambda>a. map_err PageErr (timeIDPaginator_paginate (viewer_paginator coll tbl owner) None a (Some n) None []))"
    by (intro ext viewer_page owner)
  show ?thesis
    unfolding req viewer_paginate
    using notifications.walk_forward_all [of coll "(owner, tbl)" n] valid n
    by (intro walk_forward_map_err) (simp del: walk_forward.simps option.map)
qed

theorem viewer_notifications_walk_forward_witness:
  "walk_forward (\<lambda>a. page_of (GetViewerNotifications length sample_notifications (Ok ''u1'') None a (Some 2) None))
     (Suc (length (owned_notifications ''u1'' sample_notifications))) None
   = Some (Ok (sort_key (\<lambda>r. time_key length (notification_cursor r))
       (owned_notifications ''u1'' sample_notifications)))"
  using viewer_notifications_walk_forward [OF sample_notifications_valid, of 2] by simp

text \<open>Following \<open>StartCursor\<close> while \<open>HasPreviousPage\<close> visits the same notifications from
  the newest back, each once.\<close>

theorem viewer_notifications_walk_backward:
  assumes valid: "keyset_valid timeID_wire_ok (time_key coll) notification_cursor
      timeIDPaginator_defaults (owned_notifications owner tbl)"
    and owner: "owner \<noteq> []" and n: "1 \<le> n" "n < 2 ^ 31 - 1"
  shows "walk_backward (\<lambda>b. page_of (GetViewerNotifications coll tbl (Ok owner) b None None (Some n)))
           (Suc (length (owned_notifications owner tbl))) None
       = Some (Ok (sort_key (\<lambda>r. time_key coll (notification_cursor r)) (owned_notifications owner tbl)))"
proof -
  have "validatePaginationParams None (Some n) = Ok ()" using n by (auto simp: validatePaginationParams_Ok)
  then have req: "(\<lambda>b. page_of (GetViewerNotifications coll tbl (Ok owner) b None None (Some n)))
    = (\<lambda>b. map_err PageErr (timeIDPaginator_paginate (viewer_paginator coll tbl owner) b None None (Some n) []))"
    by (intro ext viewer_page owner)
  show ?thesis
    unfolding req viewer_paginate
    using notifications.walk_backward_all [of coll "(owner, tbl)" n] valid n
    by (intro walk_backward_map_err) (simp del: walk_backward.simps option.map)
qed

theorem viewer_notifications_walk_backward_witness:
  "walk_backward (\<lambda>b. page_of (GetViewerNotifications length sample_notifications (Ok ''u1'') b None None (Some 2)))
     (Suc (length (owned_notifications ''u1'' sample_notifications))) None
   = Some (Ok (sort_key (\<lambda>r. time_key length (notification_cursor r))
       (owned_notifications ''u1'' sample_notifications)))"
  using viewer_notifications_walk_backward [OF sample_notifications_valid, of 2] by simp

text \<open>C32: A forward page between two cursors of the viewer's own notifications holds the next
  \<open>first\<close> of the notifications strictly between them, with \<open>HasNextPage\<close> exactly when more
  follow, the cursors of its ends, and the total and unseen counts.\<close>

theorem viewer_notifications_page:
  assumes valid: "keyset_valid timeID_wire_ok (time_key coll) notification_cursor
      timeIDPaginator_defaults (owned_notifications owner tbl)"
    and owner: "owner \<noteq> []" and n: "0 \<le> n" "n < 2 ^ 31 - 1"
  defines "rows \<equiv> sort_key (\<lambda>r. time_key coll (notification_cursor r)) (owned_notifications owner tbl)"
  defines "tok \<equiv> \<lambda>r. packed timeID_Pack (notification_cursor r)"
  assumes lo: "pos_ok rows lo" and hi: "pos_ok rows hi"
  shows "GetViewerNotifications coll tbl (Ok owner) (tok_at tok rows hi) (tok_at tok rows lo) (Some n) None =
    (case relay_page tok (take (nat n) (between rows lo hi)) (Some (countUserNotifications tbl owner)) False
            (n < int (length (between rows lo hi))) of
       (page, info) \<Rightarrow> Ok (page, info, countUserUnseenNotifications tbl owner))"
proof -
  have val: "validatePaginationParams (Some n) None = Ok ()" using n by (auto simp: validatePaginationParams_Ok)
  show ?thesis
    using notifications.page_forward [of coll "(owner, tbl)" lo hi n "Some (countUserNotifications tbl owner)"]
      valid owner n lo hi
    by (simp add: GetViewerNotifications_def required_str_def val viewer_paginate rows_def tok_def relay_page_def)
qed

theorem viewer_notifications_page_witness:
  "\<exists>page info. GetViewerNotifications length sample_notifications (Ok ''u1'') None None (Some 2) None
     = Ok (page, info, countUserUnseenNotifications sample_notifications ''u1'') \<and> length page = 2 \<and> pi_HasNextPage info"
proof -
  have len: "length (owned_notifications ''u1'' sample_notifications) = 3"
    by (simp add: owned_notifications_def sample_notifications_def)
  show ?thesis
    using viewer_notifications_page [OF sample_notifications_valid, of 2 None None] len
    by (simp add: pos_ok_def tok_at_def relay_page_def)
qed

text \<open>Two equal backward requests in one GraphQL request do not get equal answers: the second
  finds the cached slice reversed, skips the newest notification and lists newest first.\<close>

theorem cached_backward_page_reversed:
  assumes valid: "keyset_valid timeID_wire_ok (time_key coll) notification_cursor
      timeIDPaginator_defaults (owned_notifications owner tbl)"
    and n: "1 \<le> n" "n < 2 ^ 31 - 1" and more: "n < int (length (owned_notifications owner tbl))"
  defines "rows \<equiv> sort_key (\<lambda>r. time_key coll (notification_cursor r)) (owned_notifications owner tbl)"
  shows "map_o fst (fst (last_page_cached coll tbl owner n Map.empty))
           = Ok (drop (length rows - nat n) rows)
       \<and> map_o fst (fst (last_page_cached coll tbl owner n (snd (last_page_cached coll tbl owner n Map.empty))))
           = Ok (drop 1 (rev (drop (length rows - nat (n + 1)) rows)))"
proof -
  let ?es = "take (nat (n + 1)) (rev rows)"
  have q: "getUserNotificationsBatch coll tbl owner (default_params (page_limit n) False) = Ok ?es"
    using notifications_default_query [OF valid, of n] n by (simp add: rows_def)
  have sub: "set (rev ?es) \<subseteq> set (owned_notifications owner tbl)" "set ?es \<subseteq> set (owned_notifications owner tbl)"
    using set_take_subset [of "nat (n + 1)" "rev rows"] by (simp_all add: rows_def)
  have n1: "nat (n + 1) = Suc (nat n)" "nat n < length rows" using n more by (simp_all add: rows_def)
  have k: "length rows - (length rows - Suc (nat n)) = Suc (nat n)" using n1(2) by linarith
  have es: "?es = rev (drop (length rows - nat (n + 1)) rows)" by (simp only: rev_drop n1(1) k)
  have page1: "drop (length (rev ?es) - nat n) (rev ?es) = drop (length rows - nat n) rows"
    using n1 by (simp add: rev_take Suc_diff_Suc)
  have page2: "drop (length ?es - nat n) ?es = drop 1 ?es" using n1 by simp
  show ?thesis
    using default_pageFrom_last [OF valid _ sub(1), of n "countUserNotifications tbl owner", unfolded page1]
      default_pageFrom_last [OF valid _ sub(2), of n "countUserNotifications tbl owner", unfolded page2] n
    by (simp add: last_page_cached_def load_cached_def q relay_page_def Let_def flip: es)
qed

theorem cached_backward_page_reversed_witness:
  "map_o fst (fst (last_page_cached length sample_notifications ''u1'' 2
      (snd (last_page_cached length sample_notifications ''u1'' 2 Map.empty))))
   \<noteq> map_o fst (fst (last_page_cached length sample_notifications ''u1'' 2 Map.empty))"
  using cached_backward_page_reversed [OF sample_notifications_valid, of 2]
  by (simp add: owned_notifications_def sample_notifications_def sample_time_def notification_cursor_def
      time_key_def pg_time_def NewTimeIDCursor_def)

end
