(* ===== verification/Position_Api.thy ===== *)
theory Position_Api
  imports Page_Api
begin

text \<open>
  Paging over a fixed list of user IDs (publicapi/user.go): \<open>paginatorFromCursor\<close> queries the users at the
  positions strictly between two cursors and \<open>positionPaginator\<close> slices the result. The users in
  list order, with their position as the key, interpret \<open>row_source\<close>.
\<close>

section \<open>Users in list order\<close>

definition live_users_with_id :: "user_row list \<Rightarrow> dbid \<Rightarrow> user_row list" where
  "live_users_with_id tbl i = filter (\<lambda>u. u_ID u = i \<and> \<not> u_Deleted u \<and> \<not> u_Universal u) tbl"

definition users_in_order :: "user_row list \<Rightarrow> dbid list \<Rightarrow> user_row list" where
  "users_in_order tbl ids = concat (map (live_users_with_id tbl) ids)"

definition position_in :: "dbid list \<Rightarrow> user_row \<Rightarrow> int" where
  "position_in ids u = (case sliceToMapIndex ids (u_ID u) of None \<Rightarrow> 0 | Some i \<Rightarrow> i)"

lemma live_users_single:
  "distinct (map u_ID tbl) \<Longrightarrow> live_users_with_id tbl i = [] \<or> (\<exists>u. live_users_with_id tbl i = [u] \<and> u_ID u = i)"
proof (induction tbl)
  case Nil
  then show ?case by (simp add: live_users_with_id_def)
next
  case (Cons v tbl)
  show ?case
  proof (cases "u_ID v = i")
    case True
    have "u_ID x \<noteq> i" if "x \<in> set tbl" for x
      using Cons.prems imageI [OF that, of u_ID] True by auto
    then have "live_users_with_id tbl i = []"
      by (auto simp: live_users_with_id_def filter_empty_conv)
    then show ?thesis using True by (auto simp: live_users_with_id_def)
  next
    case False
    then show ?thesis using Cons by (auto simp: live_users_with_id_def)
  qed
qed

lemma position_in_nth: "distinct ids \<Longrightarrow> j < length ids \<Longrightarrow> u_ID u = ids ! j \<Longrightarrow> position_in ids u = int j"
  by (simp add: position_in_def sliceToMapIndex_nth)

lemma users_at_positions_filter:
  assumes "distinct ids"
  shows "users_at_positions tbl ids a b =
           filter (\<lambda>u. a < position_in ids u + 1 \<and> position_in ids u + 1 < b) (users_in_order tbl ids)"
proof -
  have one: "[u. u \<leftarrow> tbl, u_ID u = i \<and> \<not> u_Deleted u \<and> \<not> u_Universal u \<and> a < int pos \<and> int pos < b]
      = filter (\<lambda>u. a < position_in ids u + 1 \<and> position_in ids u + 1 < b) (live_users_with_id tbl i)"
    if "(pos, i) \<in> set (List.enumerate 1 ids)" for pos i
  proof -
    from that have p: "pos - 1 < length ids" "i = ids ! (pos - 1)" "1 \<le> pos"
      by (auto simp: in_set_enumerate_eq)
    then have "int pos = position_in ids u + 1" if "u_ID u = i" for u
      using position_in_nth [OF assms p(1), of u] that by simp
    then show ?thesis
      by (induction tbl) (auto simp: live_users_with_id_def)
  qed
  have "users_at_positions tbl ids a b
      = concat (map (\<lambda>(pos, i). filter (\<lambda>u. a < position_in ids u + 1 \<and> position_in ids u + 1 < b)
                                 (live_users_with_id tbl i)) (List.enumerate 1 ids))"
    unfolding users_at_positions_def
    by (rule arg_cong [where f = concat], rule map_cong) (auto simp: one)
  also have "map (\<lambda>(pos, i). filter (\<lambda>u. a < position_in ids u + 1 \<and> position_in ids u + 1 < b)
                                 (live_users_with_id tbl i)) (List.enumerate 1 ids)
      = map (\<lambda>i. filter (\<lambda>u. a < position_in ids u + 1 \<and> position_in ids u + 1 < b) (live_users_with_id tbl i)) ids"
    by (rule nth_equalityI) (auto simp: nth_enumerate_eq)
  finally show ?thesis
    by (simp add: users_in_order_def filter_concat comp_def)
qed

lemma users_in_order_sorted:
  assumes tbl: "distinct (map u_ID tbl)" and ids: "distinct ids"
  shows "strictly_sorted (position_in ids) (users_in_order tbl ids)"
proof -
  have "sorted_wrt (<) (map (position_in ids) (users_in_order tbl js)) \<and>
        (\<forall>u\<in>set (users_in_order tbl js). int k \<le> position_in ids u)"
    if "\<forall>j<length js. k + j < length ids \<and> js ! j = ids ! (k + j)" for js k
    using that
  proof (induction js arbitrary: k)
    case Nil
    then show ?case by (simp add: users_in_order_def)
  next
    case (Cons i js)
    have k: "k < length ids" "i = ids ! k" using Cons.prems by auto
    have "\<forall>j<length js. Suc k + j < length ids \<and> js ! j = ids ! (Suc k + j)"
      using Cons.prems by (metis add_Suc_shift length_Cons not_less_eq nth_Cons_Suc)
    from Cons.IH [OF this] have IH:
      "sorted_wrt (<) (map (position_in ids) (users_in_order tbl js))"
      "\<forall>u\<in>set (users_in_order tbl js). int k < position_in ids u" by auto
    have le: "\<forall>u\<in>set (users_in_order tbl js). int k \<le> position_in ids u"
      using IH(2) by (simp add: less_imp_le)
    have split: "users_in_order tbl (i # js) = live_users_with_id tbl i @ users_in_order tbl js"
      by (simp add: users_in_order_def)
    from live_users_single [OF tbl, of i] show ?case
    proof
      assume "live_users_with_id tbl i = []"
      then show ?thesis using IH(1) le by (simp add: split)
    next
      assume "\<exists>u. live_users_with_id tbl i = [u] \<and> u_ID u = i"
      then obtain u where u: "live_users_with_id tbl i = [u]" "u_ID u = i" by blast
      then have "position_in ids u = int k" using position_in_nth [OF ids k(1)] k(2) by simp
      then show ?thesis using IH le u by (simp add: split)
    qed
  qed
  from this [of ids 0] show ?thesis by (simp add: strictly_sorted_def)
qed

lemma position_in_range:
  assumes "distinct ids" "u \<in> set (users_in_order tbl ids)"
  shows "0 \<le> position_in ids u \<and> position_in ids u < int (length ids)"
proof -
  from assms(2) obtain j where "j < length ids" "u_ID u = ids ! j"
    by (auto simp: users_in_order_def live_users_with_id_def in_set_conv_nth)
  then show ?thesis using position_in_nth [OF assms(1)] by simp
qed

section \<open>The contract\<close>

definition position_valid :: "dbid list \<Rightarrow> user_row list \<Rightarrow> bool" where
  "position_valid ids tbl \<longleftrightarrow> distinct ids \<and> distinct (map u_ID tbl) \<and> length ids < 2147483646
     \<and> (\<forall>i\<in>set ids. i \<noteq> [] \<and> length i \<le> max_alloc)"

definition ids_cursor :: "dbid list \<Rightarrow> positionCursor" where
  "ids_cursor ids = \<lparr>pos_CurrentPosition = 0, pos_IDs = ids, pos_Positions = sliceToMapIndex ids\<rparr>"

definition position_cursor :: "dbid list \<Rightarrow> user_row \<Rightarrow> positionCursor" where
  "position_cursor ids u = (ids_cursor ids)\<lparr>pos_CurrentPosition := word_of_int (position_in ids u)\<rparr>"

lemma position_cursor_wire:
  assumes "position_valid ids tbl" "u \<in> set (users_in_order tbl ids)"
  shows "position_wire_ok (position_cursor ids u)"
proof -
  have "ids \<noteq> [] \<Longrightarrow> last ids \<noteq> []" using assms(1) by (auto simp: position_valid_def)
  then show ?thesis
    using assms(1)
    by (auto simp: position_valid_def position_wire_ok_def position_cells_def position_cursor_def
        ids_cursor_def max_alloc_def)
qed

lemma sint_position:
  "0 \<le> p \<Longrightarrow> p < 2147483647 \<Longrightarrow> sint (word_of_int p :: int64) = p"
  by (simp add: sint_sbintrunc' signed_take_bit_int_eq_self)

lemma position_row_sint:
  assumes "position_valid ids tbl" "u \<in> set (users_in_order tbl ids)"
  shows "sint (pos_CurrentPosition (position_cursor ids u)) = position_in ids u"
  using position_in_range [OF _ assms(2)] assms(1)
  by (simp add: position_cursor_def position_valid_def sint_position)

lemma position_row_source:
  "row_source (position_valid ids) (\<lambda>tbl. users_in_order tbl ids)
     (\<lambda>u. packed position_Pack (position_cursor ids u)) position_Pack
     (newPositionCursor (\<lambda>u. Ok (word_of_int (position_in ids u), ids)) :: user_row \<Rightarrow> ('x, positionCursor) outcome)"
proof
  fix tbl u
  assume v: "position_valid ids tbl" and u: "u \<in> set (users_in_order tbl ids)"
  have "newPositionCursor (\<lambda>u. Ok (word_of_int (position_in ids u), ids)) u = (Ok (position_cursor ids u) :: ('x, positionCursor) outcome)"
    by (simp add: newPositionCursor_def position_cursor_def ids_cursor_def NewPositionCursor_def)
  then show "packNode position_Pack (newPositionCursor (\<lambda>u. Ok (word_of_int (position_in ids u), ids))) u
      = (Ok (packed position_Pack (position_cursor ids u)) :: ('x page_err, string) outcome)"
    by (simp add: packNode_def position_iface.pack_packed [OF position_cursor_wire [OF v u]])
next
  fix tbl i j
  let ?rows = "users_in_order tbl ids"
  assume v: "position_valid ids tbl" and i: "i < length ?rows" and j: "j < length ?rows"
    and eq: "packed position_Pack (position_cursor ids (?rows ! i)) = packed position_Pack (position_cursor ids (?rows ! j))"
  have "position_cursor ids (?rows ! i) = position_cursor ids (?rows ! j)"
    by (rule position_iface.packed_inject [OF position_cursor_wire [OF v nth_mem [OF i]]
          position_cursor_wire [OF v nth_mem [OF j]] eq])
  then have "position_in ids (?rows ! i) = position_in ids (?rows ! j)"
    using position_row_sint [OF v nth_mem [OF i]] position_row_sint [OF v nth_mem [OF j]] by simp
  moreover have "strictly_sorted (position_in ids) ?rows"
    using v by (intro users_in_order_sorted) (simp_all add: position_valid_def)
  ultimately show "i = j"
    using strictly_sorted_nth [of "position_in ids" ?rows] i j
    by (metis linorder_neqE_nat order_less_irrefl)
qed

interpretation positions: row_source "position_valid ids" "\<lambda>tbl. users_in_order tbl ids"
  "\<lambda>u. packed position_Pack (position_cursor ids u)" position_Pack
  "newPositionCursor (\<lambda>u. Ok (word_of_int (position_in ids u), ids)) :: user_row \<Rightarrow> (sql_err, positionCursor) outcome"
  for ids :: "dbid list"
  by (rule position_row_source)

section \<open>The query between two cursors\<close>

definition position_bound :: "int \<Rightarrow> dbid list \<Rightarrow> user_row list \<Rightarrow> nat option \<Rightarrow> int" where
  "position_bound d ids rows p = (case p of None \<Rightarrow> d | Some i \<Rightarrow> position_in ids (rows ! i))"

abbreviation position_tok :: "dbid list \<Rightarrow> user_row list \<Rightarrow> nat option \<Rightarrow> string option" where
  "position_tok ids tbl \<equiv> tok_at (\<lambda>u. packed position_Pack (position_cursor ids u)) (users_in_order tbl ids)"

lemma position_args:
  assumes v: "position_valid ids tbl"
    and lo: "pos_ok (users_in_order tbl ids) lo" and hi: "pos_ok (users_in_order tbl ids) hi"
  shows "positionPaginator_args (position_tok ids tbl hi) (position_tok ids tbl lo) =
    Ok \<lparr>pop_CursorBeforePos = position_bound 2147483646 ids (users_in_order tbl ids) hi,
        pop_CursorAfterPos = position_bound (- 1) ids (users_in_order tbl ids) lo\<rparr>"
proof -
  let ?rows = "users_in_order tbl ids"
  have row: "map_o (\<lambda>c. int32_of (sint (pos_CurrentPosition c)))
      (position_Unpack (packed position_Pack (position_cursor ids (?rows ! i))) NewPositionCursor)
     = Ok (position_in ids (?rows ! i))" if i: "i < length ?rows" for i
  proof -
    have "0 \<le> position_in ids (?rows ! i)" "position_in ids (?rows ! i) < 2147483646"
      using v position_in_range [OF _ nth_mem [OF i]] by (auto simp: position_valid_def)
    then show ?thesis
      by (simp add: position_iface.unpack_packed [OF position_cursor_wire [OF v nth_mem [OF i]]]
          position_row_sint [OF v nth_mem [OF i]] int32_of_id)
  qed
  show ?thesis
    using lo hi
    by (cases lo; cases hi)
       (simp_all add: positionPaginator_args_def tok_at_def position_bound_def pos_ok_def row
         defaultCursorBeforePosition_def defaultCursorAfterPosition_def int32_of_id)
qed

lemma position_query_between:
  assumes v: "position_valid ids tbl"
    and lo: "pos_ok (users_in_order tbl ids) lo" and hi: "pos_ok (users_in_order tbl ids) hi"
  shows "users_at_positions tbl ids
      (int32_of (position_bound (- 1) ids (users_in_order tbl ids) lo + 1))
      (int32_of (position_bound 2147483646 ids (users_in_order tbl ids) hi + 1))
    = between (users_in_order tbl ids) lo hi"
proof -
  let ?rows = "users_in_order tbl ids"
  let ?a = "position_bound (- 1) ids ?rows lo" and ?b = "position_bound 2147483646 ids ?rows hi"
  have d: "distinct ids" "distinct (map u_ID tbl)" "int (length ids) < 2147483646"
    using v by (auto simp: position_valid_def)
  have range: "\<forall>u\<in>set ?rows. - 1 < position_in ids u \<and> position_in ids u < 2147483646"
    using position_in_range [OF d(1)] d(3) by force
  have a: "- 1 \<le> ?a" "?a < 2147483646" and b: "- 1 < ?b" "?b \<le> 2147483646"
    using lo hi range nth_mem
    by (fastforce simp: position_bound_def pos_ok_def split: option.splits)+
  then have "int32_of (?a + 1) = ?a + 1" "int32_of (?b + 1) = ?b + 1" by (simp_all add: int32_of_id)
  moreover have "upper_bound (position_in ids) ?rows hi ?b" "lower_bound (position_in ids) ?rows lo ?a"
    using range by (auto simp: upper_bound_def lower_bound_def position_bound_def split: option.splits)
  moreover have "(\<lambda>u. ?a + 1 < position_in ids u + 1 \<and> position_in ids u + 1 < ?b + 1)
      = (\<lambda>r. position_in ids r < ?b \<and> ?a < position_in ids r)" by auto
  ultimately show ?thesis
    using filter_between [OF users_in_order_sorted [OF d(2,1)] lo hi, of ?b ?a]
    by (simp only: users_at_positions_filter [OF d(1)])
qed

lemma position_page:
  assumes v: "position_valid ids tbl"
    and lo: "pos_ok (users_in_order tbl ids) lo" and hi: "pos_ok (users_in_order tbl ids) hi"
  shows "positionPaginator_paginate (paginatorFromCursor tbl (ids_cursor ids))
      (position_tok ids tbl hi) (position_tok ids tbl lo) first lst =
    pageFrom position_Pack (between (users_in_order tbl ids) lo hi) (map_option Ok None)
      (newPositionCursor (\<lambda>u. Ok (word_of_int (position_in ids u), ids)))
      (position_tok ids tbl hi) (position_tok ids tbl lo) first lst"
  using position_query_between [OF v lo hi]
  by (simp add: position_args [OF v lo hi] positionPaginator_paginate_def paginatorFromCursor_def paginatorWithQuery_def
      ids_cursor_def position_in_def cong: option.case_cong)

lemma position_page_forward:
  assumes "position_valid ids tbl" "pos_ok (users_in_order tbl ids) lo" "0 \<le> n"
  shows "positionPaginator_paginate (paginatorFromCursor tbl (ids_cursor ids)) None (position_tok ids tbl lo) (Some n) None
    = Ok (relay_page (\<lambda>u. packed position_Pack (position_cursor ids u))
        (take (nat n) (between (users_in_order tbl ids) lo None)) None False
        (n < int (length (between (users_in_order tbl ids) lo None))))"
  using position_page [OF assms(1,2), of None "Some n" None]
    positions.pageFrom_first [OF assms(1,2) _ assms(3), of None "between (users_in_order tbl ids) lo None" None]
  by (simp add: pos_ok_def tok_at_def)

lemma position_page_backward:
  assumes "position_valid ids tbl" "pos_ok (users_in_order tbl ids) hi" "0 \<le> n"
  defines "rest \<equiv> between (users_in_order tbl ids) None hi"
  shows "positionPaginator_paginate (paginatorFromCursor tbl (ids_cursor ids)) (position_tok ids tbl hi) None None (Some n)
    = Ok (relay_page (\<lambda>u. packed position_Pack (position_cursor ids u))
        (drop (length rest - nat n) rest) None (n < int (length rest)) False)"
  using position_page [OF assms(1) _ assms(2), of None None "Some n"]
    positions.pageFrom_last [OF assms(1) _ assms(2,3), of None "between (users_in_order tbl ids) None hi" None]
  by (simp add: pos_ok_def tok_at_def rest_def)

section \<open>Properties\<close>

text \<open>Following \<open>EndCursor\<close> over a fixed list of user IDs visits the existing, non-universal users
  of the list once each, in list order, whatever the page size.\<close>

theorem position_walk_forward:
  assumes v: "position_valid ids tbl" and n: "1 \<le> n"
  shows "walk_forward (\<lambda>a. positionPaginator_paginate (paginatorFromCursor tbl (ids_cursor ids)) None a (Some n) None)
           (Suc (length (users_in_order tbl ids))) None = Some (Ok (users_in_order tbl ids))"
  using positions.walk_forward_request
    [where n = "nat n" and tot = None and lo = None and ids = ids and t = tbl
       and request = "\<lambda>a. positionPaginator_paginate (paginatorFromCursor tbl (ids_cursor ids)) None a (Some n) None",
     OF _ _ _ lessI] position_page_forward [OF v] n
  by (simp add: pos_ok_def tok_at_def nat_less_iff del: walk_forward.simps)

theorem position_walk_forward_witness:
  "walk_forward (\<lambda>a. positionPaginator_paginate (paginatorFromCursor
        [\<lparr>u_ID = ''k1'', u_CreatedAt = sample_time 1, u_UsernameIdempotent = None, u_Universal = False, u_Deleted = False\<rparr>,
         \<lparr>u_ID = ''k2'', u_CreatedAt = sample_time 2, u_UsernameIdempotent = None, u_Universal = False, u_Deleted = False\<rparr>]
        (ids_cursor [''k2'', ''gone'', ''k1''])) None a (Some 1) None) 3 None
   = Some (Ok
        [\<lparr>u_ID = ''k2'', u_CreatedAt = sample_time 2, u_UsernameIdempotent = None, u_Universal = False, u_Deleted = False\<rparr>,
         \<lparr>u_ID = ''k1'', u_CreatedAt = sample_time 1, u_UsernameIdempotent = None, u_Universal = False, u_Deleted = False\<rparr>])"
  using position_walk_forward [of "[''k2'', ''gone'', ''k1'']"
      "[\<lparr>u_ID = ''k1'', u_CreatedAt = sample_time 1, u_UsernameIdempotent = None, u_Universal = False, u_Deleted = False\<rparr>,
        \<lparr>u_ID = ''k2'', u_CreatedAt = sample_time 2, u_UsernameIdempotent = None, u_Universal = False, u_Deleted = False\<rparr>]" 1]
  by (simp add: position_valid_def users_in_order_def live_users_with_id_def max_alloc_def numeral_3_eq_3
      del: walk_forward.simps)

end
