(* ===== verification/Page_Properties.thy ===== *)
theory Page_Properties
  imports Position_Api "HOL-Library.Char_ord" "HOL-Library.List_Lexorder"
begin

text \<open>
  Properties of the API methods beyond their contract: what a request may carry (limits,
  cursors a client wrote by hand), how errors come back, and what the default bounds hide.
\<close>

section \<open>Every page is part of the query's rows\<close>

lemma pageFrom_Ok_parts:
  assumes "pageFrom pk ns countF cF before after first lst = (Ok (page, info) :: ('x page_err, 'n list \<times> PageInfo) outcome)"
  obtains es where "applyCursors pk ns cF before after = Ok es"
    and "pageEdgesFrom es first lst = (Ok page :: ('x page_err, 'n list) outcome)"
    and "pageInfoFrom pk es page countF cF first lst = Ok info"
  using assms by (auto simp: pageFrom_def outcome_simps)

lemma pageFrom_Ok_sublist:
  "pageFrom pk ns countF cF before after first lst = Ok (page, info) \<Longrightarrow> sublist page ns"
  by (elim pageFrom_Ok_parts)
     (metis applyCursors_sublist pageEdgesFrom_sublist sublist_order.order.trans)

lemma pageFrom_Ok_length:
  assumes "pageFrom pk ns countF cF before after first lst = Ok (page, info)"
    and "first = Some n \<and> 0 \<le> n \<or> first = None \<and> lst = Some n \<and> 0 \<le> n"
  shows "int (length page) \<le> n \<and> pi_Size info = length page"
  using assms(1)
proof (rule pageFrom_Ok_parts)
  fix es
  assume "pageEdgesFrom es first lst = (Ok page :: ('a page_err, 'b list) outcome)"
    and "pageInfoFrom pk es page countF cF first lst = Ok info"
  then show ?thesis using assms(2)
    by (auto simp: pageEdgesFrom_def pageInfoFrom_def outcome_simps Let_def split: if_splits option.splits)
qed

lemma set_keyset_rows:
  "set (keyset_rows key tbl b a fwd) = {r \<in> set tbl. key r < b \<and> a < key r}"
  by (auto simp: keyset_rows_def Let_def)

lemma sql_keyset_Ok_set:
  "sql_keyset key tbl b a limit fwd = Ok rs \<Longrightarrow> set rs \<subseteq> {r \<in> set tbl. key r < b \<and> a < key r}"
  using set_take_subset [of "nat limit" "keyset_rows key tbl b a fwd"]
  by (auto simp: sql_keyset_def set_keyset_rows split: if_splits)

lemma set_if_rev: "set rs = set (if b then rs else rev rs)"
  by simp

lemma keyset_paginate_Ok:
  assumes "keyset_paginate pk p before after first lst = Ok (page, info)"
  shows "\<exists>limit fwd rs ns. kp_QueryFunc p limit fwd = Ok rs \<and> set ns = set rs
    \<and> pageFrom pk ns (kp_CountFunc p) (kp_Cursorable p) before after first lst = Ok (page, info)"
proof -
  from assms obtain n rs where q: "kp_QueryFunc p (page_limit n) (first \<noteq> None) = Ok rs"
    and f: "pageFrom pk (if first \<noteq> None then rs else rev rs) (kp_CountFunc p) (kp_Cursorable p) before after first lst
            = Ok (page, info)"
    by (auto simp: keyset_paginate_def Let_def outcome_simps split: option.splits)
  show ?thesis
    by (intro exI conjI) (rule q, rule sym, rule set_if_rev, rule f)
qed

section \<open>Properties\<close>

text \<open>C34: However it is called, \<open>GetViewerNotifications\<close> answers with at most \<open>first\<close> (or
  \<open>last\<close>) notifications, all of them owned by the viewer and not deleted, and \<open>Size\<close> is their
  number.\<close>

theorem viewer_notifications_bounded:
  assumes "GetViewerNotifications coll tbl (Ok owner) before after first lst = Ok (page, info, unseen)"
  shows "set page \<subseteq> set (owned_notifications owner tbl) \<and> pi_Size info = length page \<and>
    (\<forall>n. first = Some n \<or> first = None \<and> lst = Some n \<longrightarrow> int (length page) \<le> n)"
proof -
  from assms have val: "validatePaginationParams first lst = Ok ()"
    and page: "timeIDPaginator_paginate (viewer_paginator coll tbl owner) before after first lst [] = Ok (page, info)"
    by (auto simp: GetViewerNotifications_def outcome_simps)
  obtain limit fwd rs ns where q: "timeIDPaginator_query (getUserNotificationsBatch coll tbl owner)
      timeIDPaginator_defaults before after limit fwd = Ok rs" "set ns = set rs"
    and f: "pageFrom timeID_Pack ns (Some (Ok (countUserNotifications tbl owner)))
      (newTimeIDCursor (\<lambda>n. Ok (n_CreatedAt n, n_ID n))) before after first lst = (Ok (page, info) ::
        (sql_err page_err, notification_row list \<times> PageInfo) outcome)"
    using keyset_paginate_Ok [OF page [unfolded viewer_paginate]] by (auto simp: keyset_record_def)
  have "set rs \<subseteq> set (owned_notifications owner tbl)"
    using q(1) by (auto simp: timeIDPaginator_query_def outcome_simps getUserNotificationsBatch_def dest!: sql_keyset_Ok_set)
  then have "set page \<subseteq> set (owned_notifications owner tbl)"
    using set_mono_sublist [OF pageFrom_Ok_sublist [OF f]] q(2) by simp
  moreover have "pi_Size info = length page \<and> int (length page) \<le> n"
    if "first = Some n \<or> first = None \<and> lst = Some n" for n
    using pageFrom_Ok_length [OF f, of n] that val by (auto simp: validatePaginationParams_Ok)
  ultimately show ?thesis using val by (auto simp: validatePaginationParams_Ok)
qed

theorem viewer_notifications_bounded_witness:
  "\<exists>page info unseen. GetViewerNotifications length sample_notifications (Ok ''u1'') None None (Some 0) None
     = Ok (page, info, unseen) \<and> pi_Size info = length page"
proof -
  have "GetViewerNotifications length sample_notifications (Ok ''u1'') None None (Some 0) None
      = Ok ([], empty_PageInfo\<lparr>pi_Total := Some 3, pi_HasNextPage := True\<rparr>, 2)"
    by code_simp
  from viewer_notifications_bounded [OF this] this show ?thesis by blast
qed

text \<open>The largest \<open>first\<close> the validator accepts, \<open>2^31 - 1\<close>, wraps to the limit \<open>-2^31\<close>,
  which the database rejects: the request fails whatever the table holds.\<close>

theorem largest_first_rejected:
  assumes "owner \<noteq> []"
  shows "validatePaginationParams (Some 2147483647) None = Ok ()
       \<and> GetViewerNotifications coll tbl (Ok owner) None None (Some 2147483647) None = Err (PageErr (CallErr NegativeLimit))"
proof -
  have val: "validatePaginationParams (Some 2147483647) None = Ok ()"
    by (simp add: validatePaginationParams_Ok)
  have "page_limit 2147483647 = - 2147483648" using page_limit_wraps by simp
  then have "timeIDPaginator_paginate (viewer_paginator coll tbl owner) None None (Some 2147483647) None []
      = Err (CallErr NegativeLimit)"
    by (simp add: viewer_paginate keyset_paginate_def keyset_record_def keyset_query_defaults
        getUserNotificationsBatch_def default_params_def sql_keyset_def)
  then show ?thesis using assms val by (simp add: GetViewerNotifications_def required_str_def)
qed

theorem largest_first_rejected_witness:
  "GetViewerNotifications length sample_notifications (Ok ''u1'') None None (Some 2147483647) None
     = Err (PageErr (CallErr NegativeLimit))"
  using largest_first_rejected [of "''u1''" length sample_notifications] by simp

text \<open>Who asks and how much are checked before the database is read: an authentication error
  comes back as it is, and a request that does not give exactly one non-negative limit is
  refused whatever the table and the cursors are.\<close>

theorem viewer_notifications_rejects:
  "GetViewerNotifications coll tbl (Err e) before after first lst = Err (AuthErr e)
   \<and> GetViewerNotifications coll tbl (Ok []) before after first lst = Err (ParamsErr (ErrInvalidInput [''userID'']))
   \<and> ((first = None) = (lst = None) \<or> first = Some n \<and> n < 0 \<or> lst = Some n \<and> n < 0 \<longrightarrow> owner \<noteq> [] \<longrightarrow>
        (\<exists>p. GetViewerNotifications coll tbl (Ok owner) before after first lst = Err (ParamsErr p)))"
  by (auto simp: GetViewerNotifications_def required_str_def validatePaginationParams_def gte0_def
      connectionPaginationParamsValidator_def Let_def split: option.splits)

theorem viewer_notifications_rejects_witness:
  "\<exists>p. GetViewerNotifications length sample_notifications (Ok ''u1'') None None (Some 1) (Some 1) = Err (ParamsErr p)"
  using viewer_notifications_rejects [of length sample_notifications _ None None "Some 1" "Some 1" 0 "''u1''"] by simp

text \<open>A cursor a client writes by hand, an unpadded base64 string whose first varint exceeds
  \<open>2^48\<close>, makes the server panic when it allocates the buffer for the time.\<close>

theorem crafted_cursor_panics:
  assumes len: "max_alloc < unat v" and owner: "owner \<noteq> []" and n: "0 \<le> n"
  shows "GetViewerNotifications coll tbl (Ok owner) None (Some (b64_encode (put_uvarint v @ rest))) (Some n) None
       = Panic makeslice_panic"
proof -
  let ?s = "b64_encode (put_uvarint v @ rest)"
  have "readTime (put_uvarint v @ rest) = Panic makeslice_panic"
    using len by (simp add: readTime_def readUInt64_put)
  then have "timeID_Unpack ?s c = Panic makeslice_panic" for c
    by (simp add: timeID_Unpack_def timeID_cells_def Unpack_def setReader_def b64_decode_encode unpackTo_def)
  then have "timeIDPaginator_paginate (viewer_paginator coll tbl owner) None (Some ?s) (Some n) None []
      = Panic makeslice_panic"
    by (simp add: viewer_paginate keyset_paginate_def keyset_record_def timeIDPaginator_query_def
        unpack_bounds_def unpack_opt_def)
  moreover have "validatePaginationParams (Some n) None = Ok ()" using n by (simp add: validatePaginationParams_Ok)
  ultimately show ?thesis using owner by (simp add: GetViewerNotifications_def required_str_def)
qed

theorem crafted_cursor_panics_witness:
  "GetViewerNotifications length sample_notifications (Ok ''u1'') None
     (Some (b64_encode (put_uvarint (2 ^ 63) @ []))) (Some 1) None = Panic makeslice_panic"
  by (rule crafted_cursor_panics) (simp_all add: max_alloc_def)

text \<open>Without a \<open>before\<close> cursor and under a bytewise collation, \<open>PaginateUsersWithRole\<close> never
  lists a user whose username starts with a lower-case letter: the bound that should come
  after every key is 255 times \<open>Z\<close>.\<close>

theorem lower_case_users_hidden:
  assumes "PaginateUsersWithRole (\<lambda>s. s) db role None after first lst = Ok (users, info)"
    and "u \<in> set users" "u_UsernameIdempotent u = Some (c # cs)"
  shows "c \<le> CHR ''Z''"
proof -
  have page: "lexicalPaginator_paginate (role_paginator (\<lambda>s. s) db role) None after first lst = Ok (users, info)"
    using assms(1) by (auto simp: PaginateUsersWithRole_def outcome_simps split: if_splits)
  obtain limit fwd rs ns where q: "lexicalPaginator_query (getUsersWithRolePaginate (\<lambda>s. s) db role)
      lexicalPaginator_defaults None after limit fwd = Ok rs" "set ns = set rs"
    and f: "pageFrom stringID_Pack ns None (newStringIDCursor (\<lambda>u. Ok (username_str u, u_ID u))) None after first lst
      = (Ok (users, info) :: (sql_err page_err, user_row list \<times> PageInfo) outcome)"
    using keyset_paginate_Ok [OF page [unfolded role_paginate]] by (auto simp: keyset_record_def)
  have "u \<in> set rs" using set_mono_sublist [OF pageFrom_Ok_sublist [OF f]] q(2) assms(2) by auto
  then have "(username_str u, u_ID u) < (defaultCursorBeforeKey, [])"
    using q(1) by (auto simp: lexicalPaginator_query_def outcome_simps unpack_bounds_def unpack_opt_def
        getUsersWithRolePaginate_def lexicalPaginator_defaults_def defaultCursorBeforeID_def dest!: sql_keyset_Ok_set)
  then have "c # cs \<le> CHR ''Z'' # replicate 254 (CHR ''Z'')"
    using assms(3) by (auto simp: username_str_def defaultCursorBeforeKey_def numeral_eq_Suc)
  then show ?thesis by auto
qed

definition sample_users :: "user_row list \<times> user_role_row list" where
  "sample_users =
     ([\<lparr>u_ID = ''k1'', u_CreatedAt = sample_time 63800000100, u_UsernameIdempotent = Some ''bob'', u_Universal = False, u_Deleted = False\<rparr>,
       \<lparr>u_ID = ''k2'', u_CreatedAt = sample_time 63800000200, u_UsernameIdempotent = Some ''7up'', u_Universal = False, u_Deleted = False\<rparr>,
       \<lparr>u_ID = ''k3'', u_CreatedAt = sample_time 63800000300, u_UsernameIdempotent = Some ''42'', u_Universal = False, u_Deleted = False\<rparr>],
      [\<lparr>ur_UserID = ''k1'', ur_Role = ''ADMIN'', ur_Deleted = False\<rparr>,
       \<lparr>ur_UserID = ''k2'', ur_Role = ''ADMIN'', ur_Deleted = False\<rparr>,
       \<lparr>ur_UserID = ''k3'', ur_Role = ''ADMIN'', ur_Deleted = False\<rparr>])"

lemma sample_role_valid:
  "keyset_valid stringID_wire_ok (lex_key length) user_name_cursor
     lexicalPaginator_defaults (users_with_role ''ADMIN'' (tl (fst sample_users), snd sample_users))"
  by (simp add: keyset_valid_def users_with_role_def sample_users_def sample_time_def user_name_cursor_def
      username_str_def lex_key_def stringID_wire_ok_def stringID_cells_def NewStringIDCursor_def max_alloc_def
      lexicalPaginator_defaults_def defaultCursorBeforeKey_def defaultCursorAfterKey_def)

lemma sample_role_query:
  "lexicalPaginator_query (getUsersWithRolePaginate (\<lambda>s. s) sample_users ''ADMIN'') lexicalPaginator_defaults None None 6 True
     = Ok (rev (tl (fst sample_users)))"
  by code_simp

lemma sample_role_page:
  "\<exists>info. PaginateUsersWithRole (\<lambda>s. s) sample_users ''ADMIN'' None None (Some 5) None = Ok (rev (tl (fst sample_users)), info)"
proof -
  have "set (rev (tl (fst sample_users))) \<subseteq> set (users_with_role ''ADMIN'' (tl (fst sample_users), snd sample_users))"
    by (simp add: sample_users_def users_with_role_def)
  then show ?thesis
    using users_by_role.pageFrom_first [of length "(''ADMIN'', tl (fst sample_users), snd sample_users)" None None 5
        "rev (tl (fst sample_users))" None] sample_role_valid sample_role_query
    by (simp add: PaginateUsersWithRole_def IsValidRole_def validatePaginationParams_def gte0_def
        connectionPaginationParamsValidator_def role_paginate keyset_paginate_def keyset_record_def page_limit_id
        pos_ok_def tok_at_def relay_page_def sample_users_def)
qed

theorem lower_case_users_hidden_witness:
  "\<exists>users info. PaginateUsersWithRole (\<lambda>s. s) sample_users ''ADMIN'' None None (Some 5) None = Ok (users, info)
     \<and> users \<noteq> [] \<and> (\<forall>u\<in>set users. \<forall>c cs. u_UsernameIdempotent u = Some (c # cs) \<longrightarrow> c \<le> CHR ''Z'')"
proof -
  obtain users info where page:
    "PaginateUsersWithRole (\<lambda>s. s) sample_users ''ADMIN'' None None (Some 5) None = Ok (users, info)" "users \<noteq> []"
    using sample_role_page that by (auto simp: sample_users_def)
  show ?thesis using page lower_case_users_hidden [OF page(1)] by blast
qed

text \<open>Under a collation that keeps the usernames inside the default bounds,
  following \<open>EndCursor\<close> of \<open>PaginateUsersWithRole\<close> visits every user with the role once, by username.\<close>

theorem role_walk_forward:
  assumes valid: "keyset_valid stringID_wire_ok (lex_key coll) user_name_cursor
      lexicalPaginator_defaults (users_with_role role db)"
    and role: "IsValidRole role" and n: "1 \<le> n" "n < 2 ^ 31 - 1"
  shows "walk_forward (\<lambda>a. PaginateUsersWithRole coll db role None a (Some n) None)
           (Suc (length (users_with_role role db))) None
       = Some (Ok (sort_key (\<lambda>u. lex_key coll (user_name_cursor u)) (users_with_role role db)))"
proof -
  have val: "validatePaginationParams (Some n) None = Ok ()" using n by (auto simp: validatePaginationParams_Ok)
  have req: "(\<lambda>a. PaginateUsersWithRole coll db role None a (Some n) None)
    = (\<lambda>a. map_err PageErr (lexicalPaginator_paginate (role_paginator coll db role) None a (Some n) None))"
    using role by (simp add: PaginateUsersWithRole_def val)
  show ?thesis
    unfolding req role_paginate
    using users_by_role.walk_forward_all [of coll "(role, db)" n None] valid n
    by (intro walk_forward_map_err) (simp del: walk_forward.simps option.map)
qed

theorem role_walk_forward_witness:
  "walk_forward (\<lambda>a. PaginateUsersWithRole length
       (tl (fst sample_users), snd sample_users) ''ADMIN'' None a (Some 1) None)
     (Suc (length (users_with_role ''ADMIN'' (tl (fst sample_users), snd sample_users)))) None
   = Some (Ok (sort_key (\<lambda>u. lex_key length (user_name_cursor u))
       (users_with_role ''ADMIN'' (tl (fst sample_users), snd sample_users))))"
  by (rule role_walk_forward [OF sample_role_valid]) (simp_all add: IsValidRole_def)

text \<open>Following \<open>EndCursor\<close> of \<open>GetUsersByIDs\<close> visits the existing users among the given IDs
  once each, oldest first, while every page reports the number of IDs asked for as its total.\<close>

theorem users_by_ids_walk_forward:
  assumes valid: "keyset_valid timeID_wire_ok (time_key coll) user_time_cursor
      timeIDPaginator_defaults (users_with_ids ids tbl)"
    and n: "1 \<le> n" "n < 2 ^ 31 - 1"
  shows "walk_forward (\<lambda>a. GetUsersByIDs coll tbl (Some ids) None a (Some n) None)
           (Suc (length (users_with_ids ids tbl))) None
       = Some (Ok (sort_key (\<lambda>u. time_key coll (user_time_cursor u)) (users_with_ids ids tbl)))
     \<and> map_o (\<lambda>r. pi_Total (snd r)) (GetUsersByIDs coll tbl (Some ids) None None (Some n) None) = Ok (Some (int (length ids)))"
proof -
  have val: "validatePaginationParams (Some n) None = Ok ()" using n by (auto simp: validatePaginationParams_Ok)
  have req: "(\<lambda>a. GetUsersByIDs coll tbl (Some ids) None a (Some n) None)
    = (\<lambda>a. map_err PageErr (timeIDPaginator_paginate (users_by_ids_paginator coll tbl ids) None a (Some n) None []))"
    by (simp add: GetUsersByIDs_def val)
  have "walk_forward (\<lambda>a. GetUsersByIDs coll tbl (Some ids) None a (Some n) None) (Suc (length (users_with_ids ids tbl))) None
       = Some (Ok (sort_key (\<lambda>u. time_key coll (user_time_cursor u)) (users_with_ids ids tbl)))"
    unfolding req users_by_ids_paginate
    using users_by_ids.walk_forward_all [of coll "(ids, tbl)" n "Some (int (length ids))"] valid n
    by (intro walk_forward_map_err) (simp del: walk_forward.simps option.map)
  moreover have "map_o (\<lambda>r. pi_Total (snd r)) (GetUsersByIDs coll tbl (Some ids) None None (Some n) None) = Ok (Some (int (length ids)))"
    using users_by_ids.page_forward [of coll "(ids, tbl)" None None n "Some (int (length ids))"] valid n
    by (simp add: GetUsersByIDs_def val users_by_ids_paginate pos_ok_def tok_at_def relay_page_def)
  ultimately show ?thesis by blast
qed

lemma sample_users_by_ids_valid:
  "keyset_valid timeID_wire_ok (time_key length) user_time_cursor timeIDPaginator_defaults
     (users_with_ids [''k3'', ''k1'', ''none''] (fst sample_users))"
  by (simp add: keyset_valid_def users_with_ids_def sample_users_def sample_time_def
      user_time_cursor_def time_key_def timeID_wire_ok_def timeID_cells_def time_ok_def pg_time_def
      NewTimeIDCursor_def timeIDPaginator_defaults_def defaultCursorBeforeTime_def
      defaultCursorAfterTime_def max_alloc_def)

theorem users_by_ids_walk_forward_witness:
  "map_o (\<lambda>r. pi_Total (snd r)) (GetUsersByIDs length (fst sample_users) (Some [''k3'', ''k1'', ''none'']) None None (Some 7) None)
     = Ok (Some 3)"
  using users_by_ids_walk_forward [OF sample_users_by_ids_valid, of 7] by simp

end
