(* ===== verification/Batcher.thy ===== *)
theory Batcher
  imports Prelude
begin

text \<open>
  The request batcher of util/batch/batch.go, which the dataloaders wrap. Callers run
  concurrently: each is a program counter with its parameter, and a step is one atomic access
  of the code, an atomic integer, a \<open>sync.Map\<close> call, or the section under \<open>b.mu\<close>. Two steps of
  one batch are also made by its timeout goroutine. What the batch function returns is up to
  the environment; every call of it is logged. The invariant says that the batches are well
  formed and that each closed batch has exactly one goroutine that submits it.
\<close>

section \<open>State\<close>

datatype batchStatus = Open | Closed

datatype timer = NoTimer | Sleeping | TimerSubmitting | TimerDone

text \<open>A Go error slice: \<open>None\<close> is the nil slice, and an entry \<open>None\<close> is a nil error.\<close>

type_synonym 'e errors = "'e option list option"

text \<open>
  \<open>b_keys\<close> are what parameters are compared by: the parameters themselves when they are
  comparable, their JSON text (\<open>jsonParams\<close>) otherwise.
\<close>

record ('p, 'k, 'r, 'e) batch =
  b_params :: "'p list"
  b_keys :: "'k list"
  b_results :: "'r list"
  b_errors :: "'e errors"
  b_status :: batchStatus
  b_done :: bool
  b_numCallers :: int
  b_timer :: timer

datatype ('p, 'k, 'r, 'e) caller =
    Adding 'p 'k
  | HasID 'p 'k int
  | HasBatch 'p 'k int
  | Bumping 'p 'k int
  | Assigned 'p 'k int
  | Submitting 'p 'k int nat
  | BumpAfter 'p 'k int nat
  | Waiting 'p 'k int nat
  | Finished 'p 'r "'e option"

record ('p, 'k, 'r, 'e) batcher =
  s_currentBatchID :: int
  s_batches :: "int \<rightharpoonup> ('p, 'k, 'r, 'e) batch"
  s_resultCache :: "'k \<rightharpoonup> 'r"
  s_subscribers :: "nat list"
  s_callers :: "nat \<rightharpoonup> ('p, 'k, 'r, 'e) caller"
  s_published :: "(nat \<times> 'r) list"
  s_calls :: "(int \<times> 'p list \<times> 'r list \<times> 'e errors) list"
  s_primed :: "('k \<times> 'r) list"
  s_crashed :: bool

text \<open>\<open>c_key\<close> is \<open>paramToJSON\<close>, which can fail, or the parameter itself when it is comparable.\<close>

record ('p, 'k, 'r, 'e) config =
  c_maxBatchSize :: int
  c_cacheResults :: bool
  c_publishResults :: bool
  c_key :: "'p \<Rightarrow> 'e + 'k"
  c_zero :: 'r

definition newBatcher :: "('p, 'k, 'r, 'e) batcher" where
  "newBatcher = \<lparr>s_currentBatchID = 0, s_batches = Map.empty, s_resultCache = Map.empty,
     s_subscribers = [], s_callers = Map.empty, s_published = [], s_calls = [], s_primed = [],
     s_crashed = False\<rparr>"

definition newBatch :: "('p, 'k, 'r, 'e) batch" where
  "newBatch = \<lparr>b_params = [], b_keys = [], b_results = [], b_errors = None, b_status = Open,
     b_done = False, b_numCallers = 0, b_timer = NoTimer\<rparr>"

section \<open>Operations\<close>

fun indexOf :: "'k list \<Rightarrow> 'k \<Rightarrow> nat option" where
  "indexOf [] item = None"
| "indexOf (x # xs) item = (if x = item then Some 0 else map_option Suc (indexOf xs item))"

datatype add_result = Retry | Existing nat | Added nat | Filled nat

text \<open>The section of \<open>addParamToBatch\<close> between \<open>b.mu.Lock\<close> and \<open>b.mu.Unlock\<close>.\<close>

definition add_locked ::
  "('p, 'k, 'r, 'e) config \<Rightarrow> 'p \<Rightarrow> 'k \<Rightarrow> ('p, 'k, 'r, 'e) batch \<Rightarrow> add_result \<times> ('p, 'k, 'r, 'e) batch" where
  "add_locked c p k b =
     (if b_status b = Closed then (Retry, b)
      else case indexOf (b_keys b) k of
        Some i \<Rightarrow> (Existing i, b)
      | None \<Rightarrow>
          let i = length (b_params b);
              b1 = b\<lparr>b_params := b_params b @ [p], b_keys := b_keys b @ [k]\<rparr>;
              b2 = (if i = 0 then b1\<lparr>b_timer := Sleeping\<rparr> else b1)
          in if int (length (b_params b2)) = c_maxBatchSize c
             then (Filled i, b2\<lparr>b_status := Closed\<rparr>)
             else (Added i, b2))"

text \<open>\<open>publishToSubscribers\<close> indexes the error slice with every result, so a short slice panics.\<close>

fun publish_from :: "nat list \<Rightarrow> 'e option list \<Rightarrow> nat \<Rightarrow> 'r list \<Rightarrow> (string, (nat \<times> 'r) list) outcome" where
  "publish_from subs errs i [] = Ok []"
| "publish_from subs errs i (r # rs) =
     (if length errs \<le> i then Panic ''index out of range''
      else bind_o (publish_from subs errs (Suc i) rs) (\<lambda>ps.
        Ok (if errs ! i \<noteq> None then ps else map (\<lambda>s. (s, r)) subs @ ps)))"

definition publishToSubscribers ::
  "nat list \<Rightarrow> 'r list \<Rightarrow> 'e errors \<Rightarrow> (string, (nat \<times> 'r) list) outcome" where
  "publishToSubscribers subs results errs =
     publish_from subs (case errs of None \<Rightarrow> [] | Some es \<Rightarrow> es) 0 results"

text \<open>What the thunk of \<open>DoThunk\<close> reads from a finished batch.\<close>

definition thunk_value :: "'r \<Rightarrow> 'r list \<Rightarrow> 'e errors \<Rightarrow> nat \<Rightarrow> (string, 'r \<times> 'e option) outcome" where
  "thunk_value zero results errs index =
     (let result = (if index < length results then results ! index else zero) in
      case errs of
        None \<Rightarrow> Ok (result, None)
      | Some es \<Rightarrow>
          if length es = 1 then Ok (result, es ! 0)
          else if index < length es then Ok (result, es ! index)
          else Panic ''index out of range'')"

text \<open>\<open>submitBatch\<close> on batch \<open>i\<close>, when the batch function returns \<open>results\<close> and \<open>errs\<close>.\<close>

definition submitBatch ::
  "('p, 'k, 'r, 'e) config \<Rightarrow> int \<Rightarrow> 'r list \<Rightarrow> 'e errors \<Rightarrow> ('p, 'k, 'r, 'e) batcher \<Rightarrow> ('p, 'k, 'r, 'e) batcher" where
  "submitBatch c i results errs s =
     (case s_batches s i of
        None \<Rightarrow> s
      | Some b \<Rightarrow>
          let s1 = s\<lparr>s_calls := s_calls s @ [(i, b_params b, results, errs)]\<rparr>;
              fin = s1\<lparr>s_batches := (s_batches s)(i \<mapsto> b\<lparr>b_results := results, b_errors := errs, b_done := True\<rparr>)\<rparr>
          in if c_publishResults c
             then (case publishToSubscribers (s_subscribers s) results errs of
                     Ok ps \<Rightarrow> fin\<lparr>s_published := s_published s @ ps\<rparr>
                   | _ \<Rightarrow> s1\<lparr>s_crashed := True\<rparr>)
             else fin)"

definition loadOrStore :: "'k \<Rightarrow> 'r \<Rightarrow> ('k \<rightharpoonup> 'r) \<Rightarrow> ('k \<rightharpoonup> 'r)" where
  "loadOrStore k r cache = (if cache k = None then cache(k \<mapsto> r) else cache)"

definition Prime :: "('p, 'k, 'r, 'e) config \<Rightarrow> 'p \<Rightarrow> 'r \<Rightarrow> ('p, 'k, 'r, 'e) batcher \<Rightarrow> ('p, 'k, 'r, 'e) batcher" where
  "Prime c p r s =
     (if \<not> c_cacheResults c then s
      else case c_key c p of
        Inl e \<Rightarrow> s
      | Inr k \<Rightarrow> s\<lparr>s_resultCache := loadOrStore k r (s_resultCache s), s_primed := (k, r) # s_primed s\<rparr>)"

definition RegisterResultSubscriber :: "nat \<Rightarrow> ('p, 'k, 'r, 'e) batcher \<Rightarrow> ('p, 'k, 'r, 'e) batcher" where
  "RegisterResultSubscriber sub s = s\<lparr>s_subscribers := s_subscribers s @ [sub]\<rparr>"

definition set_caller :: "nat \<Rightarrow> ('p, 'k, 'r, 'e) caller \<Rightarrow> ('p, 'k, 'r, 'e) batcher \<Rightarrow> ('p, 'k, 'r, 'e) batcher" where
  "set_caller t pc s = s\<lparr>s_callers := (s_callers s)(t \<mapsto> pc)\<rparr>"

definition set_batch :: "int \<Rightarrow> ('p, 'k, 'r, 'e) batch \<Rightarrow> ('p, 'k, 'r, 'e) batcher \<Rightarrow> ('p, 'k, 'r, 'e) batcher" where
  "set_batch i b s = s\<lparr>s_batches := (s_batches s)(i \<mapsto> b)\<rparr>"

text \<open>\<open>atomic.CompareAndSwapInt32(&d.currentBatchID, i, i + 1)\<close>.\<close>

definition bump_id :: "int \<Rightarrow> ('p, 'k, 'r, 'e) batcher \<Rightarrow> ('p, 'k, 'r, 'e) batcher" where
  "bump_id i s =
     s\<lparr>s_currentBatchID := (if s_currentBatchID s = i then int32_of (i + 1) else s_currentBatchID s)\<rparr>"

text \<open>\<open>DoThunk\<close> up to \<open>addParamToBatch\<close>: a parameter with no JSON form fails, a cached result is
  returned at once.\<close>

definition DoThunk :: "('p, 'k, 'r, 'e) config \<Rightarrow> nat \<Rightarrow> 'p \<Rightarrow> ('p, 'k, 'r, 'e) batcher \<Rightarrow> ('p, 'k, 'r, 'e) batcher" where
  "DoThunk c t p s =
     set_caller t
       (case c_key c p of
          Inl e \<Rightarrow> Finished p (c_zero c) (Some e)
        | Inr k \<Rightarrow> (case (if c_cacheResults c then s_resultCache s k else None) of
              Some r \<Rightarrow> Finished p r None
            | None \<Rightarrow> Adding p k)) s"

text \<open>The thunk after \<open>b.done\<close> is closed: an error-free result is offered to the cache.\<close>

definition finish_thunk ::
  "('p, 'k, 'r, 'e) config \<Rightarrow> nat \<Rightarrow> 'p \<Rightarrow> 'k \<Rightarrow> ('p, 'k, 'r, 'e) batch \<Rightarrow> nat \<Rightarrow> ('p, 'k, 'r, 'e) batcher \<Rightarrow> ('p, 'k, 'r, 'e) batcher" where
  "finish_thunk c t p k b index s =
     (case thunk_value (c_zero c) (b_results b) (b_errors b) index of
        Ok (r, err) \<Rightarrow>
          set_caller t (Finished p r err)
            (s\<lparr>s_resultCache := (if err = None \<and> c_cacheResults c
               then loadOrStore k r (s_resultCache s) else s_resultCache s)\<rparr>)
      | _ \<Rightarrow> s\<lparr>s_crashed := True\<rparr>)"

text \<open>\<open>Load\<close> and \<open>LoadOrStore\<close> on \<open>d.batches\<close>; the bound on the callers of a batch, which keeps
  later ones off its lock; the section of \<open>closeAfterTimeout\<close> under the lock.\<close>

definition get_or_new :: "('p, 'k, 'r, 'e) batcher \<Rightarrow> int \<Rightarrow> ('p, 'k, 'r, 'e) batch" where
  "get_or_new s i = (case s_batches s i of None \<Rightarrow> newBatch | Some b \<Rightarrow> b)"

definition assigned_pc :: "('p, 'k, 'r, 'e) config \<Rightarrow> int \<Rightarrow> 'p \<Rightarrow> 'k \<Rightarrow> int \<Rightarrow> ('p, 'k, 'r, 'e) caller" where
  "assigned_pc c n p k i = (if int32_of (c_maxBatchSize c) < n then Bumping p k i else Assigned p k i)"

definition closeAfterTimeout :: "('p, 'k, 'r, 'e) batch \<Rightarrow> ('p, 'k, 'r, 'e) batch" where
  "closeAfterTimeout b =
     (if b_status b = Open then b\<lparr>b_status := Closed, b_timer := TimerSubmitting\<rparr> else b\<lparr>b_timer := TimerDone\<rparr>)"

section \<open>Steps\<close>

datatype ('p, 'r, 'e) event =
    ECall nat 'p | EReadID nat | ELoadBatch nat | EAssign nat | EBump nat | ELock nat
  | ESubmit nat "'r list" "'e errors" | EBumpAfter nat | EWait nat
  | ETimeout int | ETimerSubmit int "'r list" "'e errors"
  | EPrime 'p 'r | ESubscribe nat

inductive bstep ::
  "('p, 'k, 'r, 'e) config \<Rightarrow> ('p, 'k, 'r, 'e) batcher \<Rightarrow> ('p, 'r, 'e) event \<Rightarrow> ('p, 'k, 'r, 'e) batcher \<Rightarrow> bool"
  for c where
  call: "\<not> s_crashed s \<Longrightarrow> s_callers s t = None \<Longrightarrow> bstep c s (ECall t p) (DoThunk c t p s)"
| read_id: "\<not> s_crashed s \<Longrightarrow> s_callers s t = Some (Adding p k) \<Longrightarrow>
    bstep c s (EReadID t) (set_caller t (HasID p k (s_currentBatchID s)) s)"
| load_batch: "\<not> s_crashed s \<Longrightarrow> s_callers s t = Some (HasID p k i) \<Longrightarrow>
    bstep c s (ELoadBatch t) (set_caller t (HasBatch p k i)
      (set_batch i (get_or_new s i) s))"
| assign: "\<not> s_crashed s \<Longrightarrow> s_callers s t = Some (HasBatch p k i) \<Longrightarrow> s_batches s i = Some b \<Longrightarrow>
    n = int32_of (b_numCallers b + 1) \<Longrightarrow>
    bstep c s (EAssign t) (set_caller t (assigned_pc c n p k i)
      (set_batch i (b\<lparr>b_numCallers := n\<rparr>) s))"
| bump: "\<not> s_crashed s \<Longrightarrow> s_callers s t = Some (Bumping p k i) \<Longrightarrow>
    bstep c s (EBump t) (set_caller t (Adding p k) (bump_id i s))"
| lock: "\<not> s_crashed s \<Longrightarrow> s_callers s t = Some (Assigned p k i) \<Longrightarrow> s_batches s i = Some b \<Longrightarrow>
    add_locked c p k b = (res, b') \<Longrightarrow>
    bstep c s (ELock t) (set_caller t
      (case res of Retry \<Rightarrow> Bumping p k i | Existing j \<Rightarrow> Waiting p k i j | Added j \<Rightarrow> Waiting p k i j | Filled j \<Rightarrow> Submitting p k i j)
      (set_batch i b' s))"
| submit: "\<not> s_crashed s \<Longrightarrow> s_callers s t = Some (Submitting p k i j) \<Longrightarrow>
    bstep c s (ESubmit t results errs) (set_caller t (BumpAfter p k i j) (submitBatch c i results errs s))"
| bump_after: "\<not> s_crashed s \<Longrightarrow> s_callers s t = Some (BumpAfter p k i j) \<Longrightarrow>
    bstep c s (EBumpAfter t) (set_caller t (Waiting p k i j) (bump_id i s))"
| wait: "\<not> s_crashed s \<Longrightarrow> s_callers s t = Some (Waiting p k i j) \<Longrightarrow> s_batches s i = Some b \<Longrightarrow> b_done b \<Longrightarrow>
    bstep c s (EWait t) (finish_thunk c t p k b j s)"
| timeout: "\<not> s_crashed s \<Longrightarrow> s_batches s i = Some b \<Longrightarrow> b_timer b = Sleeping \<Longrightarrow>
    bstep c s (ETimeout i) (set_batch i
      (closeAfterTimeout b) s)"
| timer_submit: "\<not> s_crashed s \<Longrightarrow> s_batches s i = Some b \<Longrightarrow> b_timer b = TimerSubmitting \<Longrightarrow>
    bstep c s (ETimerSubmit i results errs)
      (submitBatch c i results errs (set_batch i (b\<lparr>b_timer := TimerDone\<rparr>) s))"
| prime: "\<not> s_crashed s \<Longrightarrow> bstep c s (EPrime p r) (Prime c p r s)"
| subscribe: "\<not> s_crashed s \<Longrightarrow> bstep c s (ESubscribe n) (RegisterResultSubscriber n s)"

inductive batcher_reach :: "('p, 'k, 'r, 'e) config \<Rightarrow> ('p, 'k, 'r, 'e) batcher \<Rightarrow> bool" for c where
  init: "batcher_reach c newBatcher"
| step: "batcher_reach c s \<Longrightarrow> bstep c s e s' \<Longrightarrow> batcher_reach c s'"

end
