(* ===== verification/Batcher_Inv.thy ===== *)
theory Batcher_Inv
  imports Batcher
begin

text \<open>
  The invariant of the batcher and its consequences: every answer comes from one call of the
  batch function on a batch of distinct parameters within the size limit, each batch is
  submitted exactly once, and no caller waits for a batch nobody will submit.
\<close>

section \<open>The invariant\<close>

definition batch_ok :: "('p, 'k, 'r, 'e) config \<Rightarrow> ('p, 'k, 'r, 'e) batch \<Rightarrow> bool" where
  "batch_ok c b \<longleftrightarrow>
     list_all2 (\<lambda>p k. c_key c p = Inr k) (b_params b) (b_keys b) \<and> distinct (b_keys b) \<and>
     int (length (b_keys b)) \<le> c_maxBatchSize c \<and>
     (b_status b = Open \<longrightarrow> \<not> b_done b \<and> int (length (b_keys b)) < c_maxBatchSize c) \<and>
     (b_status b = Closed \<longrightarrow> b_keys b \<noteq> []) \<and>
     (b_timer b = NoTimer \<longleftrightarrow> b_keys b = []) \<and>
     (b_status b = Open \<longrightarrow> b_timer b = NoTimer \<or> b_timer b = Sleeping) \<and>
     (b_timer b = TimerSubmitting \<longrightarrow> \<not> b_done b)"

text \<open>An answer comes from a logged call whose parameters hold the caller's key.\<close>

definition from_call ::
  "('p, 'k, 'r, 'e) config \<Rightarrow> (int \<times> 'p list \<times> 'r list \<times> 'e errors) list \<Rightarrow> 'k \<Rightarrow> 'r \<Rightarrow> 'e option \<Rightarrow> bool" where
  "from_call c calls k r err \<longleftrightarrow>
     (\<exists>i ps rs es n. (i, ps, rs, es) \<in> set calls \<and> n < length ps \<and> c_key c (ps ! n) = Inr k
        \<and> thunk_value (c_zero c) rs es n = Ok (r, err))"

definition answered ::
  "('p, 'k, 'r, 'e) config \<Rightarrow> ('p, 'k, 'r, 'e) batcher \<Rightarrow> 'p \<Rightarrow> 'r \<Rightarrow> 'e option \<Rightarrow> bool" where
  "answered c s p r err \<longleftrightarrow>
     (case c_key c p of
        Inl e \<Rightarrow> r = c_zero c \<and> err = Some e
      | Inr k \<Rightarrow> from_call c (s_calls s) k r err \<or> err = None \<and> (k, r) \<in> set (s_primed s))"

definition has_key :: "(int \<rightharpoonup> ('p, 'k, 'r, 'e) batch) \<Rightarrow> int \<Rightarrow> nat \<Rightarrow> 'k \<Rightarrow> bool" where
  "has_key bs i j k \<longleftrightarrow> (\<exists>b. bs i = Some b \<and> j < length (b_keys b) \<and> b_keys b ! j = k)"

fun caller_ok :: "('p, 'k, 'r, 'e) config \<Rightarrow> ('p, 'k, 'r, 'e) batcher \<Rightarrow> ('p, 'k, 'r, 'e) caller \<Rightarrow> bool" where
  "caller_ok c s (Adding p k) \<longleftrightarrow> c_key c p = Inr k"
| "caller_ok c s (HasID p k i) \<longleftrightarrow> c_key c p = Inr k"
| "caller_ok c s (Bumping p k i) \<longleftrightarrow> c_key c p = Inr k"
| "caller_ok c s (HasBatch p k i) \<longleftrightarrow> c_key c p = Inr k \<and> s_batches s i \<noteq> None"
| "caller_ok c s (Assigned p k i) \<longleftrightarrow> c_key c p = Inr k \<and> s_batches s i \<noteq> None"
| "caller_ok c s (Submitting p k i j) \<longleftrightarrow> c_key c p = Inr k \<and> has_key (s_batches s) i j k \<and>
     (\<forall>b. s_batches s i = Some b \<longrightarrow> b_status b = Closed \<and> \<not> b_done b \<and> b_timer b \<noteq> TimerSubmitting)"
| "caller_ok c s (BumpAfter p k i j) \<longleftrightarrow> c_key c p = Inr k \<and> has_key (s_batches s) i j k"
| "caller_ok c s (Waiting p k i j) \<longleftrightarrow> c_key c p = Inr k \<and> has_key (s_batches s) i j k"
| "caller_ok c s (Finished p r err) \<longleftrightarrow> answered c s p r err"

definition submits :: "('p, 'k, 'r, 'e) batcher \<Rightarrow> nat \<Rightarrow> int \<Rightarrow> bool" where
  "submits s t i \<longleftrightarrow> (\<exists>p k j. s_callers s t = Some (Submitting p k i j))"

definition batcher_inv :: "('p, 'k, 'r, 'e) config \<Rightarrow> ('p, 'k, 'r, 'e) batcher \<Rightarrow> bool" where
  "batcher_inv c s \<longleftrightarrow>
     (\<forall>i b. s_batches s i = Some b \<longrightarrow> batch_ok c b) \<and>
     (\<forall>t pc. s_callers s t = Some pc \<longrightarrow> caller_ok c s pc) \<and>
     (\<forall>t t' i. submits s t i \<longrightarrow> submits s t' i \<longrightarrow> t = t') \<and>
     (\<forall>i b. s_batches s i = Some b \<longrightarrow> b_status b = Closed \<longrightarrow> \<not> b_done b \<longrightarrow>
        b_timer b = TimerSubmitting \<or> (\<exists>t. submits s t i)) \<and>
     (\<forall>i b. s_batches s i = Some b \<longrightarrow> b_done b \<longrightarrow>
        (i, b_params b, b_results b, b_errors b) \<in> set (s_calls s)) \<and>
     (\<forall>k r. s_resultCache s k = Some r \<longrightarrow> from_call c (s_calls s) k r None \<or> (k, r) \<in> set (s_primed s)) \<and>
     (\<forall>x\<in>set (s_calls s). \<exists>b. s_batches s (fst x) = Some b \<and> b_done b \<and> b_params b = fst (snd x)) \<and>
     distinct (map fst (s_calls s))"

section \<open>Frame facts\<close>

named_theorems batcher_simps \<open>unfolding rules for the operations on the batcher's state\<close>

declare set_caller_def [batcher_simps] set_batch_def [batcher_simps] bump_id_def [batcher_simps]
  get_or_new_def [batcher_simps] assigned_pc_def [batcher_simps] Prime_def [batcher_simps] RegisterResultSubscriber_def [batcher_simps] loadOrStore_def [batcher_simps]

lemma indexOf_Some: "indexOf xs k = Some i \<Longrightarrow> i < length xs \<and> xs ! i = k"
  by (induction xs arbitrary: i) (auto split: if_splits)

lemma indexOf_None: "indexOf xs k = None \<longleftrightarrow> k \<notin> set xs"
  by (induction xs) auto

lemma from_call_mono: "from_call c calls k r err \<Longrightarrow> set calls \<subseteq> set calls' \<Longrightarrow> from_call c calls' k r err"
  unfolding from_call_def by blast

lemma answered_mono:
  "answered c s p r err \<Longrightarrow> set (s_calls s) \<subseteq> set (s_calls s') \<Longrightarrow> set (s_primed s) \<subseteq> set (s_primed s') \<Longrightarrow>
   answered c s' p r err"
  by (auto simp: answered_def split: sum.splits intro: from_call_mono)

text \<open>
  A batch may only grow: its keys are extended, and a batch some caller is to submit keeps
  waiting for that caller. A caller other than the ones that change stays as it should be.
\<close>

definition batches_le :: "(int \<rightharpoonup> ('p, 'k, 'r, 'e) batch) \<Rightarrow> (int \<rightharpoonup> ('p, 'k, 'r, 'e) batch) \<Rightarrow> bool" where
  "batches_le bs bs' \<longleftrightarrow>
     (\<forall>i b. bs i = Some b \<longrightarrow> (\<exists>b'. bs' i = Some b' \<and> (\<exists>ks. b_keys b' = b_keys b @ ks)))"

lemma batches_le_refl [simp]: "batches_le bs bs"
  by (auto simp: batches_le_def)

lemma has_key_mono: "has_key bs i j k \<Longrightarrow> batches_le bs bs' \<Longrightarrow> has_key bs' i j k"
  unfolding has_key_def batches_le_def by (metis length_append nth_append trans_less_add1)

lemma batches_le_ne: "batches_le bs bs' \<Longrightarrow> bs i \<noteq> None \<Longrightarrow> bs' i \<noteq> None"
  unfolding batches_le_def by fastforce

lemma caller_ok_mono:
  assumes "caller_ok c s pc" "batches_le (s_batches s) (s_batches s')"
    and "set (s_calls s) \<subseteq> set (s_calls s')" "set (s_primed s) \<subseteq> set (s_primed s')"
    and "\<And>p k i j b. pc = Submitting p k i j \<Longrightarrow> s_batches s' i = Some b \<Longrightarrow>
      b_status b = Closed \<and> \<not> b_done b \<and> b_timer b \<noteq> TimerSubmitting"
  shows "caller_ok c s' pc"
  using assms by (cases pc) (auto dest: batches_le_ne intro: has_key_mono answered_mono)

lemma batcher_inv_init: "batcher_inv c newBatcher"
  by (simp add: batcher_inv_def newBatcher_def submits_def)

lemma newBatch_ok: "1 \<le> c_maxBatchSize c \<Longrightarrow> batch_ok c newBatch"
  by (simp add: batch_ok_def newBatch_def)

section \<open>Every step preserves it\<close>

lemma inv_batch: "batcher_inv c s \<Longrightarrow> s_batches s i = Some b \<Longrightarrow> batch_ok c b"
  and inv_caller: "batcher_inv c s \<Longrightarrow> s_callers s t = Some pc \<Longrightarrow> caller_ok c s pc"
  and inv_unique: "batcher_inv c s \<Longrightarrow> submits s t i \<Longrightarrow> submits s t' i \<Longrightarrow> t = t'"
  and inv_submitter: "batcher_inv c s \<Longrightarrow> s_batches s i = Some b \<Longrightarrow> b_status b = Closed \<Longrightarrow> \<not> b_done b \<Longrightarrow>
    b_timer b = TimerSubmitting \<or> (\<exists>t. submits s t i)"
  and inv_done: "batcher_inv c s \<Longrightarrow> s_batches s i = Some b \<Longrightarrow> b_done b \<Longrightarrow>
    (i, b_params b, b_results b, b_errors b) \<in> set (s_calls s)"
  and inv_cache: "batcher_inv c s \<Longrightarrow> s_resultCache s k = Some r \<Longrightarrow>
    from_call c (s_calls s) k r None \<or> (k, r) \<in> set (s_primed s)"
  and inv_calls: "batcher_inv c s \<Longrightarrow> x \<in> set (s_calls s) \<Longrightarrow>
    \<exists>b. s_batches s (fst x) = Some b \<and> b_done b \<and> b_params b = fst (snd x)"
  and inv_distinct: "batcher_inv c s \<Longrightarrow> distinct (map fst (s_calls s))"
  unfolding batcher_inv_def by blast+

lemma batcher_invI:
  assumes "\<And>i b. s_batches s i = Some b \<Longrightarrow> batch_ok c b"
    and "\<And>t pc. s_callers s t = Some pc \<Longrightarrow> caller_ok c s pc"
    and "\<And>t t' i. submits s t i \<Longrightarrow> submits s t' i \<Longrightarrow> t = t'"
    and "\<And>i b. s_batches s i = Some b \<Longrightarrow> b_status b = Closed \<Longrightarrow> \<not> b_done b \<Longrightarrow>
        b_timer b = TimerSubmitting \<or> (\<exists>t. submits s t i)"
    and "\<And>i b. s_batches s i = Some b \<Longrightarrow> b_done b \<Longrightarrow>
        (i, b_params b, b_results b, b_errors b) \<in> set (s_calls s)"
    and "\<And>k r. s_resultCache s k = Some r \<Longrightarrow> from_call c (s_calls s) k r None \<or> (k, r) \<in> set (s_primed s)"
    and "\<And>x. x \<in> set (s_calls s) \<Longrightarrow> \<exists>b. s_batches s (fst x) = Some b \<and> b_done b \<and> b_params b = fst (snd x)"
    and "distinct (map fst (s_calls s))"
  shows "batcher_inv c s"
  unfolding batcher_inv_def using assms by blast

lemmas batcher_inv_dests =
  inv_batch inv_caller inv_unique inv_submitter inv_done inv_cache inv_calls inv_distinct

text \<open>
  Steps that neither close, submit nor grow a batch: counters, cache, and callers that move
  between states that submit nothing.
\<close>

definition same_batch :: "('p, 'k, 'r, 'e) batch option \<Rightarrow> ('p, 'k, 'r, 'e) batch \<Rightarrow> bool" where
  "same_batch old b' \<longleftrightarrow>
     (case old of
        None \<Rightarrow> b' = newBatch
      | Some b \<Rightarrow> b' = b\<lparr>b_numCallers := b_numCallers b'\<rparr>)"

lemma same_batch_fields:
  "same_batch (Some b) b' \<Longrightarrow> b_params b' = b_params b \<and> b_keys b' = b_keys b \<and> b_status b' = b_status b
     \<and> b_done b' = b_done b \<and> b_timer b' = b_timer b \<and> b_results b' = b_results b \<and> b_errors b' = b_errors b"
  by (cases b, cases b') (simp add: same_batch_def)

lemma inv_quiet_step:
  assumes inv: "batcher_inv c s" and max: "1 \<le> c_maxBatchSize c"
    and bs: "\<And>i b'. s_batches s' i = Some b' \<Longrightarrow> same_batch (s_batches s i) b'"
    and le: "batches_le (s_batches s) (s_batches s')"
    and calls: "s_calls s' = s_calls s" and primed: "set (s_primed s) \<subseteq> set (s_primed s')"
    and pcs: "\<And>u pc. s_callers s' u = Some pc \<Longrightarrow>
      s_callers s u = Some pc \<or> caller_ok c s' pc \<and> (\<forall>p k i j. pc \<noteq> Submitting p k i j)"
    and subs: "\<And>u i. submits s u i \<Longrightarrow> submits s' u i"
    and cache: "\<And>k r. s_resultCache s' k = Some r \<Longrightarrow> s_resultCache s k = Some r \<or>
      from_call c (s_calls s) k r None \<or> (k, r) \<in> set (s_primed s')"
  shows "batcher_inv c s'"
proof -
  have new: "batch_ok c newBatch" by (rule newBatch_ok [OF max])
  have old: "s_batches s i = None \<and> b' = newBatch \<or> (\<exists>b. s_batches s i = Some b \<and> same_batch (Some b) b')"
    if "s_batches s' i = Some b'" for i b'
    using bs [OF that] by (cases "s_batches s i") (auto simp: same_batch_def)
  have ok: "batch_ok c b'" if b': "s_batches s' i = Some b'" for i b'
    using old [OF b']
  proof (elim disjE exE conjE)
    fix b assume b: "s_batches s i = Some b" and same: "same_batch (Some b) b'"
    show "batch_ok c b'"
      using inv_batch [OF inv b] same_batch_fields [OF same] unfolding batch_ok_def by metis
  qed (simp add: new)
  have sub: "submits s u i" if "submits s' u i" for u i
    using that pcs unfolding submits_def by blast
  have caller: "caller_ok c s' pc" if pc: "s_callers s' u = Some pc" for u pc
  proof (cases "s_callers s u = Some pc")
    case True
    show ?thesis
    proof (rule caller_ok_mono [OF inv_caller [OF inv True] le])
      fix p k i j b'
      assume sb: "pc = Submitting p k i j" and b': "s_batches s' i = Some b'"
      with inv_caller [OF inv True] obtain b where b: "s_batches s i = Some b"
        "b_status b = Closed" "\<not> b_done b" "b_timer b \<noteq> TimerSubmitting"
        by (auto simp: has_key_def)
      with old [OF b'] show "b_status b' = Closed \<and> \<not> b_done b' \<and> b_timer b' \<noteq> TimerSubmitting"
        by (auto dest: same_batch_fields)
    qed (simp_all add: calls primed)
  next
    case False
    then show ?thesis using pcs [OF pc] by blast
  qed
  have submitter: "b_timer b' = TimerSubmitting \<or> (\<exists>t. submits s' t i)"
    if "s_batches s' i = Some b'" "b_status b' = Closed" "\<not> b_done b'" for i b'
    using old [OF that(1)] that(2,3) inv_submitter [OF inv] subs
    by (auto simp: newBatch_def dest!: same_batch_fields) blast
  have fin: "(i, b_params b', b_results b', b_errors b') \<in> set (s_calls s')"
    if "s_batches s' i = Some b'" "b_done b'" for i b'
    using old [OF that(1)] that(2) inv_done [OF inv]
    by (auto simp: newBatch_def calls dest!: same_batch_fields)
  have logged: "\<exists>b'. s_batches s' (fst x) = Some b' \<and> b_done b' \<and> b_params b' = fst (snd x)"
    if x: "x \<in> set (s_calls s')" for x
  proof -
    obtain b where b: "s_batches s (fst x) = Some b" "b_done b" "b_params b = fst (snd x)"
      using inv_calls [OF inv, of x] x calls by metis
    then obtain b' where "s_batches s' (fst x) = Some b'" using le by (auto simp: batches_le_def)
    with old [OF this] b show ?thesis by (auto dest: same_batch_fields)
  qed
  have cached: "from_call c (s_calls s') k r None \<or> (k, r) \<in> set (s_primed s')"
    if "s_resultCache s' k = Some r" for k r
    using cache [OF that] inv_cache [OF inv, of k r] primed calls by auto
  show ?thesis
    by (rule batcher_invI)
       (fact ok, fact caller, use sub inv_unique [OF inv] in blast, fact submitter, fact fin, fact cached,
        fact logged, use inv_distinct [OF inv] calls in simp)
qed

lemma inv_call:
  assumes inv: "batcher_inv c s" and max: "1 \<le> c_maxBatchSize c" and t: "s_callers s t = None"
  shows "batcher_inv c (DoThunk c t p s)"
proof (rule inv_quiet_step [OF inv max])
  fix u pc
  assume u: "s_callers (DoThunk c t p s) u = Some pc"
  have cached: "answered c (DoThunk c t p s) p r None"
    if "c_key c p = Inr k" "s_resultCache s k = Some r" for k r
    using inv_cache [OF inv that(2)] that(1) by (simp add: answered_def DoThunk_def batcher_simps)
  show "s_callers s u = Some pc \<or> caller_ok c (DoThunk c t p s) pc \<and> (\<forall>p k i j. pc \<noteq> Submitting p k i j)"
  proof (cases "u = t")
    case True
    with u have "pc = (case c_key c p of Inl e \<Rightarrow> Finished p (c_zero c) (Some e)
        | Inr k \<Rightarrow> (case (if c_cacheResults c then s_resultCache s k else None) of
              Some r \<Rightarrow> Finished p r None | None \<Rightarrow> Adding p k))"
      by (simp add: DoThunk_def batcher_simps)
    then show ?thesis
      using cached by (auto split: sum.splits option.splits if_splits) (simp add: answered_def)
  next
    case False
    then show ?thesis using u by (simp add: DoThunk_def batcher_simps)
  qed
next
  fix u i assume "submits s u i"
  then show "submits (DoThunk c t p s) u i" using t by (auto simp: submits_def DoThunk_def batcher_simps)
qed (auto simp: DoThunk_def batcher_simps same_batch_def split: option.splits)

lemma inv_wait:
  assumes inv: "batcher_inv c s" and max: "1 \<le> c_maxBatchSize c"
    and t: "s_callers s t = Some (Waiting p k i j)" and b: "s_batches s i = Some b" "b_done b"
    and ok: "\<not> s_crashed (finish_thunk c t p k b j s)" and nc: "\<not> s_crashed s"
  shows "batcher_inv c (finish_thunk c t p k b j s)"
proof -
  from ok obtain r err where v: "thunk_value (c_zero c) (b_results b) (b_errors b) j = Ok (r, err)"
    using nc by (auto simp: finish_thunk_def split: outcome.splits)
  have key: "c_key c p = Inr k" "j < length (b_keys b)" "b_keys b ! j = k"
    using inv_caller [OF inv t] b by (auto simp: has_key_def)
  have all: "list_all2 (\<lambda>p k. c_key c p = Inr k) (b_params b) (b_keys b)"
    using inv_batch [OF inv b(1)] by (simp add: batch_ok_def)
  then have "j < length (b_params b)" "c_key c (b_params b ! j) = Inr k"
    using key by (auto dest: list_all2_nthD2 list_all2_lengthD)
  then have from_call: "from_call c (s_calls s) k r err"
    using inv_done [OF inv b] v unfolding from_call_def by blast
  show ?thesis
  proof (rule inv_quiet_step [OF inv max])
    fix u pc
    assume "s_callers (finish_thunk c t p k b j s) u = Some pc"
    then show "s_callers s u = Some pc \<or> caller_ok c (finish_thunk c t p k b j s) pc \<and> (\<forall>p k i j. pc \<noteq> Submitting p k i j)"
      using from_call key(1)
      by (cases "u = t") (auto simp: finish_thunk_def v batcher_simps answered_def)
  next
    fix k' r'
    assume "s_resultCache (finish_thunk c t p k b j s) k' = Some r'"
    then show "s_resultCache s k' = Some r' \<or> from_call c (s_calls s) k' r' None
        \<or> (k', r') \<in> set (s_primed (finish_thunk c t p k b j s))"
      using from_call by (auto simp: finish_thunk_def v batcher_simps split: if_splits)
  qed (use t in \<open>auto simp: finish_thunk_def v batcher_simps same_batch_def submits_def split: option.splits\<close>)
qed

text \<open>The section under the batch's lock.\<close>

lemma add_locked_cases:
  assumes ok: "batch_ok c b" and r: "add_locked c p k b = (res, b')"
  obtains (retry) "res = Retry" "b' = b" "b_status b = Closed"
  | (existing) j where "res = Existing j" "b' = b" "j < length (b_keys b)" "b_keys b ! j = k"
  | (grown) "b_status b = Open" "k \<notin> set (b_keys b)" "b_params b' = b_params b @ [p]"
      "b_keys b' = b_keys b @ [k]" "b_done b' = b_done b" "b_timer b' = Sleeping"
      "res = Added (length (b_keys b)) \<and> b_status b' = Open \<and> int (Suc (length (b_keys b))) \<noteq> c_maxBatchSize c
       \<or> res = Filled (length (b_keys b)) \<and> b_status b' = Closed \<and> int (Suc (length (b_keys b))) = c_maxBatchSize c"
proof (cases "b_status b")
  case Closed
  then show ?thesis using r that(1) by (simp add: add_locked_def)
next
  case Open
  have len: "length (b_params b) = length (b_keys b)"
    using ok by (auto simp: batch_ok_def dest: list_all2_lengthD)
  have timer: "b_keys b \<noteq> [] \<Longrightarrow> b_timer b = Sleeping" using ok Open by (auto simp: batch_ok_def)
  show ?thesis
  proof (cases "indexOf (b_keys b) k")
    case (Some j)
    then have "res = Existing j" "b' = b" using r Open by (simp_all add: add_locked_def)
    then show ?thesis using that(2) indexOf_Some [OF Some] by simp
  next
    case None
    show ?thesis
      by (rule that(3)) (use r Open None len timer in
        \<open>auto simp: add_locked_def Let_def indexOf_None split: if_splits\<close>)
  qed
qed

lemma add_locked_ok:
  assumes ok: "batch_ok c b" and key: "c_key c p = Inr k" and r: "add_locked c p k b = (res, b')"
  shows "batch_ok c b'"
  using ok r
proof (cases rule: add_locked_cases)
  case grown
  then show ?thesis using ok key by (auto simp: batch_ok_def intro: list_all2_appendI)
qed (use ok in simp_all)

lemma inv_lock:
  assumes inv: "batcher_inv c s" and t: "s_callers s t = Some (Assigned p k i)" and b: "s_batches s i = Some b"
    and r: "add_locked c p k b = (res, b')"
  shows "batcher_inv c (set_caller t
      (case res of Retry \<Rightarrow> Bumping p k i | Existing j \<Rightarrow> Waiting p k i j | Added j \<Rightarrow> Waiting p k i j
         | Filled j \<Rightarrow> Submitting p k i j) (set_batch i b' s))" (is "batcher_inv c ?s")
proof -
  have key: "c_key c p = Inr k" using inv_caller [OF inv t] by simp
  have ok: "batch_ok c b" by (rule inv_batch [OF inv b])
  have ok': "batch_ok c b'" by (rule add_locked_ok [OF ok key r])
  have le: "batches_le (s_batches s) (s_batches ?s)"
    using ok r by (cases rule: add_locked_cases) (auto simp: batches_le_def batcher_simps b)
  have nosub: "\<not> submits s u i \<or> b_status b = Closed \<and> b' = b" for u
    using ok r inv_caller [OF inv, of u] b by (cases rule: add_locked_cases) (auto simp: submits_def)
  have eq: "s_calls ?s = s_calls s" "s_primed ?s = s_primed s" "s_resultCache ?s = s_resultCache s"
    by (simp_all add: batcher_simps)
  have old_caller: "caller_ok c ?s pc" if pc: "s_callers s u = Some pc" for u pc
  proof (rule caller_ok_mono [OF inv_caller [OF inv pc] le])
    fix p' k' i' j' b''
    assume "pc = Submitting p' k' i' j'" "s_batches ?s i' = Some b''"
    then show "b_status b'' = Closed \<and> \<not> b_done b'' \<and> b_timer b'' \<noteq> TimerSubmitting"
      using inv_caller [OF inv pc] nosub [of u] pc b
      by (cases "i' = i") (auto simp: batcher_simps submits_def)
  qed (simp_all add: eq)
  have new_caller: "caller_ok c ?s (case res of Retry \<Rightarrow> Bumping p k i | Existing j \<Rightarrow> Waiting p k i j
      | Added j \<Rightarrow> Waiting p k i j | Filled j \<Rightarrow> Submitting p k i j)"
    using ok r
  proof (cases rule: add_locked_cases)
    case grown
    then show ?thesis using key ok by (auto simp: has_key_def batcher_simps batch_ok_def nth_append)
  qed (auto simp: key has_key_def batcher_simps b)
  have filled: "submits ?s u i' \<longleftrightarrow> (if u = t then (\<exists>j. res = Filled j) \<and> i' = i else submits s u i')" for u i'
    by (auto simp: submits_def batcher_simps split: add_result.splits)
  have fill_open: "res = Filled j \<Longrightarrow> \<not> submits s u i" for j u
    using ok r nosub [of u] by (cases rule: add_locked_cases) auto
  have t_free: "\<not> submits s t i'" for i' using t by (simp add: submits_def)
  have keep: "submits ?s u i'" if "submits s u i'" for u i'
    using that t_free [of i'] by (cases "u = t") (simp_all add: filled)
  show ?thesis
  proof (rule batcher_invI)
    fix i' b'' assume "s_batches ?s i' = Some b''"
    then show "batch_ok c b''" using ok' inv_batch [OF inv] by (auto simp: batcher_simps split: if_splits)
  next
    fix u pc assume "s_callers ?s u = Some pc"
    then show "caller_ok c ?s pc"
      using old_caller new_caller by (cases "u = t") (auto simp: batcher_simps)
  next
    fix u u' i' assume "submits ?s u i'" "submits ?s u' i'"
    then show "u = u'" using fill_open inv_unique [OF inv] by (auto simp: filled split: if_splits)
  next
    fix i' b''
    assume a: "s_batches ?s i' = Some b''" "b_status b'' = Closed" "\<not> b_done b''"
    show "b_timer b'' = TimerSubmitting \<or> (\<exists>u. submits ?s u i')"
    proof (cases "i' = i")
      case True
      then have b'': "b'' = b'" using a(1) by (simp add: batcher_simps)
      from ok r show ?thesis
      proof (cases rule: add_locked_cases)
        case grown
        then have "\<exists>j. res = Filled j" using a b'' by auto
        then show ?thesis using True by (auto simp: filled)
      next
        case retry
        show ?thesis using inv_submitter [OF inv b] a(2,3) b'' retry(2) True keep by metis
      next
        case existing
        show ?thesis using inv_submitter [OF inv b] a(2,3) b'' existing(2) True keep by metis
      qed
    next
      case False
      then have "s_batches s i' = Some b''" using a(1) by (simp add: batcher_simps)
      from inv_submitter [OF inv this a(2,3)] show ?thesis using keep by blast
    qed
  next
    fix i' b'' assume a: "s_batches ?s i' = Some b''" "b_done b''"
    have "s_batches s i' = Some b''"
      using ok r a b ok'
      by (cases rule: add_locked_cases; cases "i' = i") (auto simp: batcher_simps batch_ok_def)
    then show "(i', b_params b'', b_results b'', b_errors b'') \<in> set (s_calls ?s)"
      using inv_done [OF inv _ a(2)] eq by simp
  next
    fix k' r' assume "s_resultCache ?s k' = Some r'"
    then show "from_call c (s_calls ?s) k' r' None \<or> (k', r') \<in> set (s_primed ?s)"
      using inv_cache [OF inv] eq by simp
  next
    fix x assume "x \<in> set (s_calls ?s)"
    then obtain b0 where b0: "s_batches s (fst x) = Some b0" "b_done b0" "b_params b0 = fst (snd x)"
      using inv_calls [OF inv, of x] eq by auto
    show "\<exists>b. s_batches ?s (fst x) = Some b \<and> b_done b \<and> b_params b = fst (snd x)"
    proof (cases "fst x = i")
      case True
      then have "b0 = b" using b b0 by simp
      from ok r have "b' = b" using b0(2) \<open>b0 = b\<close> ok by (cases rule: add_locked_cases) (auto simp: batch_ok_def)
      then show ?thesis using True b0 \<open>b0 = b\<close> by (simp add: batcher_simps)
    next
      case False
      then show ?thesis using b0 by (simp add: batcher_simps)
    qed
  next
    show "distinct (map fst (s_calls ?s))" using inv_distinct [OF inv] eq by simp
  qed
qed

text \<open>A submission: the batch is finished with what the batch function returned.\<close>

lemma inv_finish:
  assumes inv: "batcher_inv c s" and b: "s_batches s i = Some b" "b_status b = Closed" "\<not> b_done b"
    and tm: "tm \<noteq> TimerSubmitting" "tm = b_timer b \<or> tm = TimerDone"
    and calls: "s_calls s' = s_calls s @ [(i, b_params b, rs, es)]"
    and bs: "s_batches s' = (s_batches s)(i \<mapsto> b\<lparr>b_timer := tm, b_results := rs, b_errors := es, b_done := True\<rparr>)"
    and primed: "s_primed s' = s_primed s" and cache: "s_resultCache s' = s_resultCache s"
    and pcs: "\<And>u pc. s_callers s' u = Some pc \<Longrightarrow>
      s_callers s u = Some pc \<and> (\<forall>p k j. pc \<noteq> Submitting p k i j) \<or>
      (\<exists>p k j. pc = BumpAfter p k i j \<and> s_callers s u = Some (Submitting p k i j))"
    and subs: "\<And>u i'. submits s u i' \<Longrightarrow> i' \<noteq> i \<Longrightarrow> submits s' u i'"
  shows "batcher_inv c s'"
proof -
  have le: "batches_le (s_batches s) (s_batches s')" using b by (auto simp: batches_le_def bs)
  have sub: "submits s u i' \<and> i' \<noteq> i" if "submits s' u i'" for u i'
    using that pcs unfolding submits_def by blast
  have i_new: "i \<notin> fst ` set (s_calls s)"
    using inv_calls [OF inv] b(1,3) by force
  show ?thesis
  proof (rule batcher_invI)
    fix i' b' assume "s_batches s' i' = Some b'"
    then show "batch_ok c b'"
      using inv_batch [OF inv] inv_batch [OF inv b(1)] b(2) tm
      by (cases "i' = i") (auto simp: bs batch_ok_def)
  next
    fix u pc assume pc: "s_callers s' u = Some pc"
    from pcs [OF pc] show "caller_ok c s' pc"
    proof (elim disjE exE conjE)
      assume old: "s_callers s u = Some pc" and ns: "\<forall>p k j. pc \<noteq> Submitting p k i j"
      show ?thesis
      proof (rule caller_ok_mono [OF inv_caller [OF inv old] le])
        fix p k i' j b' assume sb: "pc = Submitting p k i' j" "s_batches s' i' = Some b'"
        then have "s_batches s i' = Some b'" using ns by (auto simp: bs split: if_splits)
        then show "b_status b' = Closed \<and> \<not> b_done b' \<and> b_timer b' \<noteq> TimerSubmitting"
          using inv_caller [OF inv old] sb by simp
      qed (simp_all add: calls primed subset_iff)
    next
      fix p k j assume n: "pc = BumpAfter p k i j" and old: "s_callers s u = Some (Submitting p k i j)"
      then show ?thesis using inv_caller [OF inv old] has_key_mono [OF _ le] by simp
    qed
  next
    fix u u' i' assume "submits s' u i'" "submits s' u' i'"
    then show "u = u'" using sub inv_unique [OF inv] by blast
  next
    fix i' b' assume a: "s_batches s' i' = Some b'" "b_status b' = Closed" "\<not> b_done b'"
    then have "i' \<noteq> i" "s_batches s i' = Some b'" by (auto simp: bs split: if_splits)
    then show "b_timer b' = TimerSubmitting \<or> (\<exists>u. submits s' u i')"
      using inv_submitter [OF inv _ a(2,3)] subs by blast
  next
    fix i' b' assume a: "s_batches s' i' = Some b'" "b_done b'"
    then show "(i', b_params b', b_results b', b_errors b') \<in> set (s_calls s')"
      using inv_done [OF inv, of i' b'] by (cases "i' = i") (auto simp: bs calls)
  next
    fix k r assume "s_resultCache s' k = Some r"
    then show "from_call c (s_calls s') k r None \<or> (k, r) \<in> set (s_primed s')"
      using inv_cache [OF inv, of k r] from_call_mono [of c "s_calls s" k r None "s_calls s'"]
      by (auto simp: cache primed calls)
  next
    fix x assume x: "x \<in> set (s_calls s')"
    show "\<exists>b. s_batches s' (fst x) = Some b \<and> b_done b \<and> b_params b = fst (snd x)"
    proof (cases "fst x = i")
      case True
      then have "x = (i, b_params b, rs, es)" using x i_new by (auto simp: calls image_iff)
      then show ?thesis by (simp add: bs)
    next
      case False
      then have "x \<in> set (s_calls s)" using x by (auto simp: calls)
      from inv_calls [OF inv this] False show ?thesis by (simp add: bs)
    qed
  next
    show "distinct (map fst (s_calls s'))" using inv_distinct [OF inv] i_new by (simp add: calls)
  qed
qed

lemma submitBatch_fields:
  assumes "\<not> s_crashed (submitBatch c i rs es s)" "\<not> s_crashed s" "s_batches s i = Some b"
  shows "s_calls (submitBatch c i rs es s) = s_calls s @ [(i, b_params b, rs, es)]"
    and "s_batches (submitBatch c i rs es s) = (s_batches s)(i \<mapsto> b\<lparr>b_results := rs, b_errors := es, b_done := True\<rparr>)"
    and "s_primed (submitBatch c i rs es s) = s_primed s"
    and "s_resultCache (submitBatch c i rs es s) = s_resultCache s"
    and "s_callers (submitBatch c i rs es s) = s_callers s"
  using assms
  by (auto simp: submitBatch_def Let_def split: outcome.splits if_splits)

lemma inv_submit:
  assumes inv: "batcher_inv c s" and t: "s_callers s t = Some (Submitting p k i j)"
    and nc: "\<not> s_crashed (set_caller t (BumpAfter p k i j) (submitBatch c i rs es s))" "\<not> s_crashed s"
  shows "batcher_inv c (set_caller t (BumpAfter p k i j) (submitBatch c i rs es s))"
proof -
  from inv_caller [OF inv t] obtain b where b: "s_batches s i = Some b" "b_status b = Closed" "\<not> b_done b"
    "b_timer b \<noteq> TimerSubmitting" by (auto simp: has_key_def)
  have nc': "\<not> s_crashed (submitBatch c i rs es s)" using nc(1) by (simp add: set_caller_def)
  note f = submitBatch_fields [OF nc' nc(2) b(1)]
  have ti: "submits s t i" using t by (auto simp: submits_def)
  show ?thesis
  proof (rule inv_finish [OF inv b(1-3), of "b_timer b" _ rs es])
    fix u pc assume u: "s_callers (set_caller t (BumpAfter p k i j) (submitBatch c i rs es s)) u = Some pc"
    show "s_callers s u = Some pc \<and> (\<forall>p k j. pc \<noteq> Submitting p k i j) \<or>
      (\<exists>p k j. pc = BumpAfter p k i j \<and> s_callers s u = Some (Submitting p k i j))"
    proof (cases "u = t")
      case True
      then show ?thesis using u t by (simp add: set_caller_def)
    next
      case False
      then have "s_callers s u = Some pc" using u by (simp add: set_caller_def f)
      moreover have "\<not> submits s u i" using inv_unique [OF inv ti] False by blast
      ultimately show ?thesis by (auto simp: submits_def)
    qed
  next
    fix u i' assume "submits s u i'" "i' \<noteq> i"
    then show "submits (set_caller t (BumpAfter p k i j) (submitBatch c i rs es s)) u i'"
      using t by (auto simp: submits_def set_caller_def f)
  qed (use b(4) in \<open>simp_all add: set_caller_def f\<close>)
qed

lemma inv_timer_submit:
  assumes inv: "batcher_inv c s" and b: "s_batches s i = Some b" and tm: "b_timer b = TimerSubmitting"
    and nc: "\<not> s_crashed (submitBatch c i rs es (set_batch i (b\<lparr>b_timer := TimerDone\<rparr>) s))" "\<not> s_crashed s"
  shows "batcher_inv c (submitBatch c i rs es (set_batch i (b\<lparr>b_timer := TimerDone\<rparr>) s))"
proof -
  have cl: "b_status b = Closed" "\<not> b_done b"
    using inv_batch [OF inv b] tm batchStatus.exhaust [of "b_status b"] by (auto simp: batch_ok_def)
  have nosub: "\<not> submits s u i" for u
    using inv_caller [OF inv, of u] b tm by (auto simp: submits_def)
  have nc': "\<not> s_crashed (set_batch i (b\<lparr>b_timer := TimerDone\<rparr>) s)"
    "s_batches (set_batch i (b\<lparr>b_timer := TimerDone\<rparr>) s) i = Some (b\<lparr>b_timer := TimerDone\<rparr>)"
    using nc(2) by (simp_all add: set_batch_def)
  note f = submitBatch_fields [OF nc(1) nc']
  show ?thesis
  proof (rule inv_finish [OF inv b cl, of TimerDone _ rs es])
    fix u pc assume "s_callers (submitBatch c i rs es (set_batch i (b\<lparr>b_timer := TimerDone\<rparr>) s)) u = Some pc"
    then show "s_callers s u = Some pc \<and> (\<forall>p k j. pc \<noteq> Submitting p k i j) \<or>
      (\<exists>p k j. pc = BumpAfter p k i j \<and> s_callers s u = Some (Submitting p k i j))"
      using nosub [of u] unfolding f by (auto simp: set_batch_def submits_def)
  next
    fix u i' assume "submits s u i'" "i' \<noteq> i"
    then show "submits (submitBatch c i rs es (set_batch i (b\<lparr>b_timer := TimerDone\<rparr>) s)) u i'"
      unfolding submits_def f by (simp add: set_batch_def)
  qed (unfold f, simp_all add: set_batch_def)
qed

lemma inv_timeout:
  assumes inv: "batcher_inv c s" and b: "s_batches s i = Some b" and tm: "b_timer b = Sleeping"
  shows "batcher_inv c (set_batch i (closeAfterTimeout b) s)"
proof -
  let ?b = "if b_status b = Open then b\<lparr>b_status := Closed, b_timer := TimerSubmitting\<rparr> else b\<lparr>b_timer := TimerDone\<rparr>"
  have ok: "batch_ok c b" by (rule inv_batch [OF inv b])
  have bs: "s_batches (set_batch i ?b s) = (s_batches s)(i \<mapsto> ?b)" by (simp add: set_batch_def)
  have rest: "s_callers (set_batch i ?b s) = s_callers s" "s_calls (set_batch i ?b s) = s_calls s"
    "s_primed (set_batch i ?b s) = s_primed s" "s_resultCache (set_batch i ?b s) = s_resultCache s"
    by (simp_all add: set_batch_def)
  have sub: "submits (set_batch i ?b s) u i' = submits s u i'" for u i'
    by (simp add: submits_def rest)
  have le: "batches_le (s_batches s) (s_batches (set_batch i ?b s))"
    unfolding bs using b by (auto simp: batches_le_def)
  have closed: "b_status b = Closed" if "submits s u i" for u
    using inv_caller [OF inv, of u] that b by (auto simp: submits_def)
  show ?thesis
    unfolding closeAfterTimeout_def
  proof (rule batcher_invI)
    fix i' b' assume "s_batches (set_batch i ?b s) i' = Some b'"
    then show "batch_ok c b'"
      using inv_batch [OF inv, of i' b'] ok tm by (cases "i' = i") (auto simp: bs batch_ok_def split: if_splits)
  next
    fix u pc assume "s_callers (set_batch i ?b s) u = Some pc"
    then have old: "s_callers s u = Some pc" by (simp add: rest)
    show "caller_ok c (set_batch i ?b s) pc"
    proof (rule caller_ok_mono [OF inv_caller [OF inv old] le])
      fix p k i' j b' assume sb: "pc = Submitting p k i' j" "s_batches (set_batch i ?b s) i' = Some b'"
      then have "submits s u i'" using old by (auto simp: submits_def)
      then show "b_status b' = Closed \<and> \<not> b_done b' \<and> b_timer b' \<noteq> TimerSubmitting"
        using inv_caller [OF inv old] sb closed [of u] b by (cases "i' = i") (auto simp: set_batch_def)
    qed (simp_all add: rest)
  next
    fix u u' i' assume "submits (set_batch i ?b s) u i'" "submits (set_batch i ?b s) u' i'"
    then show "u = u'" using inv_unique [OF inv] sub by blast
  next
    fix i' b' assume a: "s_batches (set_batch i ?b s) i' = Some b'" "b_status b' = Closed" "\<not> b_done b'"
    show "b_timer b' = TimerSubmitting \<or> (\<exists>u. submits (set_batch i ?b s) u i')"
    proof (cases "i' = i \<and> b_status b = Open")
      case True
      then show ?thesis using a(1) by (auto simp: set_batch_def)
    next
      case False
      have "\<exists>b0. s_batches s i' = Some b0 \<and> b_status b0 = Closed \<and> \<not> b_done b0
          \<and> (b_timer b0 = TimerSubmitting \<longrightarrow> b_timer b' = TimerSubmitting)"
      proof (cases "i' = i")
        case True
        then have "b_status b = Closed" using False batchStatus.exhaust [of "b_status b"] by auto
        then show ?thesis using True a b tm by (auto simp: set_batch_def)
      next
        case False
        then show ?thesis using a by (simp add: set_batch_def)
      qed
      then show ?thesis using inv_submitter [OF inv] sub by blast
    qed
  next
    fix i' b' assume a: "s_batches (set_batch i ?b s) i' = Some b'" "b_done b'"
    then show "(i', b_params b', b_results b', b_errors b') \<in> set (s_calls (set_batch i ?b s))"
      using inv_done [OF inv, of i' "if i' = i then b else b'"] b by (auto simp: bs rest split: if_splits)
  next
    fix k r assume "s_resultCache (set_batch i ?b s) k = Some r"
    then show "from_call c (s_calls (set_batch i ?b s)) k r None \<or> (k, r) \<in> set (s_primed (set_batch i ?b s))"
      using inv_cache [OF inv, of k r] by (simp add: rest)
  next
    fix x assume "x \<in> set (s_calls (set_batch i ?b s))"
    then show "\<exists>b. s_batches (set_batch i ?b s) (fst x) = Some b \<and> b_done b \<and> b_params b = fst (snd x)"
      using inv_calls [OF inv, of x] b by (cases "fst x = i") (auto simp: bs rest)
  next
    show "distinct (map fst (s_calls (set_batch i ?b s)))" using inv_distinct [OF inv] by (simp add: rest)
  qed
qed

theorem inv_step:
  assumes inv: "batcher_inv c s" and max: "1 \<le> c_maxBatchSize c" and st: "bstep c s e s'" and nc: "\<not> s_crashed s'"
  shows "batcher_inv c s'"
  using st
proof cases
  case (call t p)
  then show ?thesis using inv_call [OF inv max] by simp
next
  case (read_id t p k)
  then show ?thesis
    using inv_caller [OF inv read_id(4)]
    by (simp only:) (rule inv_quiet_step [OF inv max]; auto simp: batcher_simps same_batch_def submits_def split: option.splits if_splits)
next
  case (load_batch t p k i)
  then show ?thesis
    using inv_caller [OF inv load_batch(4)]
    by (simp only:) (rule inv_quiet_step [OF inv max];
      auto simp: batcher_simps same_batch_def submits_def batches_le_def split: option.splits if_splits)
next
  case (assign t p k i b n)
  then show ?thesis
    using inv_caller [OF inv assign(4)]
    by (simp only:) (rule inv_quiet_step [OF inv max];
      auto simp: batcher_simps same_batch_def submits_def batches_le_def split: option.splits if_splits)
next
  case (bump t p k i)
  then show ?thesis
    using inv_caller [OF inv bump(4)]
    by (simp only:) (rule inv_quiet_step [OF inv max]; auto simp: batcher_simps same_batch_def submits_def split: option.splits if_splits)
next
  case (lock t p k i b res b')
  then show ?thesis using inv_lock [OF inv lock(4-6)] by simp
next
  case (submit t p k i j rs es)
  then show ?thesis using inv_submit [OF inv submit(4)] nc by simp
next
  case (bump_after t p k i j)
  then show ?thesis
    using inv_caller [OF inv bump_after(4)]
    by (simp only:) (rule inv_quiet_step [OF inv max]; auto simp: batcher_simps same_batch_def submits_def split: option.splits if_splits)
next
  case (wait t p k i b j)
  then show ?thesis using inv_wait [OF inv max] nc by simp
next
  case (timeout i b)
  then show ?thesis using inv_timeout [OF inv] by simp
next
  case (timer_submit i b rs es)
  then show ?thesis using inv_timer_submit [OF inv] nc by simp
next
  case (prime p r)
  then show ?thesis
    by (simp only:) (rule inv_quiet_step [OF inv max];
      auto simp: batcher_simps same_batch_def submits_def split: option.splits if_splits sum.splits)
next
  case (subscribe n)
  then show ?thesis
    by (simp only:) (rule inv_quiet_step [OF inv max]; auto simp: batcher_simps same_batch_def submits_def split: option.splits)
qed

lemma bstep_alive: "bstep c s e s' \<Longrightarrow> \<not> s_crashed s"
  by (cases rule: bstep.cases) auto

lemma reach_inv:
  "batcher_reach c s \<Longrightarrow> 1 \<le> c_maxBatchSize c \<Longrightarrow> \<not> s_crashed s \<Longrightarrow> batcher_inv c s"
  by (induction rule: batcher_reach.induct) (auto simp: batcher_inv_init intro: inv_step dest: bstep_alive)

end
