(* ===== verification/Batcher_Props.thy ===== *)
theory Batcher_Props
  imports Batcher_Inv
begin

text \<open>
  What the batcher promises its callers, from the invariant, and an executable run function
  that the instances are computed with.
\<close>

section \<open>Runs\<close>

text \<open>The state after an event, when the event is enabled.\<close>

definition bexec ::
  "('p, 'k, 'r, 'e) config \<Rightarrow> ('p, 'k, 'r, 'e) batcher \<Rightarrow> ('p, 'r, 'e) event \<Rightarrow> ('p, 'k, 'r, 'e) batcher option" where
  "bexec c s e =
     (if s_crashed s then None else
      case e of
        ECall t p \<Rightarrow> if s_callers s t = None then Some (DoThunk c t p s) else None
      | EReadID t \<Rightarrow> (case s_callers s t of
            Some (Adding p k) \<Rightarrow> Some (set_caller t (HasID p k (s_currentBatchID s)) s) | _ \<Rightarrow> None)
      | ELoadBatch t \<Rightarrow> (case s_callers s t of
            Some (HasID p k i) \<Rightarrow> Some (set_caller t (HasBatch p k i)
              (set_batch i (get_or_new s i) s)) | _ \<Rightarrow> None)
      | EAssign t \<Rightarrow> (case s_callers s t of
            Some (HasBatch p k i) \<Rightarrow> (case s_batches s i of
                Some b \<Rightarrow> let n = int32_of (b_numCallers b + 1) in
                  Some (set_caller t (assigned_pc c n p k i)
                    (set_batch i (b\<lparr>b_numCallers := n\<rparr>) s))
              | None \<Rightarrow> None) | _ \<Rightarrow> None)
      | EBump t \<Rightarrow> (case s_callers s t of
            Some (Bumping p k i) \<Rightarrow> Some (set_caller t (Adding p k) (bump_id i s)) | _ \<Rightarrow> None)
      | ELock t \<Rightarrow> (case s_callers s t of
            Some (Assigned p k i) \<Rightarrow> (case s_batches s i of
                Some b \<Rightarrow> (case add_locked c p k b of (res, b') \<Rightarrow>
                  Some (set_caller t (case res of Retry \<Rightarrow> Bumping p k i | Existing j \<Rightarrow> Waiting p k i j
                      | Added j \<Rightarrow> Waiting p k i j | Filled j \<Rightarrow> Submitting p k i j) (set_batch i b' s)))
              | None \<Rightarrow> None) | _ \<Rightarrow> None)
      | ESubmit t rs es \<Rightarrow> (case s_callers s t of
            Some (Submitting p k i j) \<Rightarrow> Some (set_caller t (BumpAfter p k i j) (submitBatch c i rs es s)) | _ \<Rightarrow> None)
      | EBumpAfter t \<Rightarrow> (case s_callers s t of
            Some (BumpAfter p k i j) \<Rightarrow> Some (set_caller t (Waiting p k i j) (bump_id i s)) | _ \<Rightarrow> None)
      | EWait t \<Rightarrow> (case s_callers s t of
            Some (Waiting p k i j) \<Rightarrow> (case s_batches s i of
                Some b \<Rightarrow> if b_done b then Some (finish_thunk c t p k b j s) else None | None \<Rightarrow> None) | _ \<Rightarrow> None)
      | ETimeout i \<Rightarrow> (case s_batches s i of
            Some b \<Rightarrow> if b_timer b = Sleeping then Some (set_batch i
              (closeAfterTimeout b) s)
              else None | None \<Rightarrow> None)
      | ETimerSubmit i rs es \<Rightarrow> (case s_batches s i of
            Some b \<Rightarrow> if b_timer b = TimerSubmitting
              then Some (submitBatch c i rs es (set_batch i (b\<lparr>b_timer := TimerDone\<rparr>) s)) else None | None \<Rightarrow> None)
      | EPrime p r \<Rightarrow> Some (Prime c p r s)
      | ESubscribe n \<Rightarrow> Some (RegisterResultSubscriber n s))"

lemma bexec_step: "bexec c s e = Some s' \<Longrightarrow> bstep c s e s'"
  by (cases e) (auto simp: bexec_def Let_def intro: bstep.intros split: option.splits caller.splits if_splits prod.splits)

fun brun ::
  "('p, 'k, 'r, 'e) config \<Rightarrow> ('p, 'k, 'r, 'e) batcher \<Rightarrow> ('p, 'r, 'e) event list \<Rightarrow> ('p, 'k, 'r, 'e) batcher option" where
  "brun c s [] = Some s"
| "brun c s (e # es) = (case bexec c s e of None \<Rightarrow> None | Some s' \<Rightarrow> brun c s' es)"

lemma brun_reach: "batcher_reach c s \<Longrightarrow> brun c s es = Some s' \<Longrightarrow> batcher_reach c s'"
  by (induction es arbitrary: s) (auto intro: batcher_reach.step bexec_step split: option.splits)

lemma brun_the_reach: "brun c newBatcher es \<noteq> None \<Longrightarrow> batcher_reach c (the (brun c newBatcher es))"
  using brun_reach [OF batcher_reach.init] by auto

section \<open>Sample run\<close>

text \<open>Three callers of a batcher of size 2, two of them with the same parameter.\<close>

definition sample_config :: "(nat, nat, nat, string) config" where
  "sample_config = \<lparr>c_maxBatchSize = 2, c_cacheResults = True, c_publishResults = True, c_key = Inr, c_zero = 0\<rparr>"

definition add_events :: "nat \<Rightarrow> nat \<Rightarrow> (nat, nat, string) event list" where
  "add_events t p = [ECall t p, EReadID t, ELoadBatch t, EAssign t, ELock t]"

definition sample_run :: "(nat, nat, nat, string) batcher" where
  "sample_run = the (brun sample_config newBatcher
     (ESubscribe 9 # add_events 1 5 @ add_events 2 5 @
      [ETimeout 0, ETimerSubmit 0 [50] (Some [None]), EWait 1, EWait 2]))"

definition sample_waiting :: "(nat, nat, nat, string) batcher" where
  "sample_waiting = the (brun sample_config newBatcher (add_events 1 5 @ add_events 2 5))"

lemma sample_run_eval: "brun sample_config newBatcher
     (ESubscribe 9 # add_events 1 5 @ add_events 2 5 @
      [ETimeout 0, ETimerSubmit 0 [50] (Some [None]), EWait 1, EWait 2]) \<noteq> None
   \<and> s_callers sample_run 2 = Some (Finished 5 50 None) \<and> \<not> s_crashed sample_run
   \<and> s_primed sample_run = [] \<and> s_calls sample_run = [(0, [5], [50], Some [None])]"
  by code_simp

lemma sample_run_reach: "batcher_reach sample_config sample_run"
  unfolding sample_run_def
  by (rule brun_the_reach) (use sample_run_eval in blast)

lemma sample_waiting_eval:
  "brun sample_config newBatcher (add_events 1 5 @ add_events 2 5) \<noteq> None
   \<and> s_callers sample_waiting 2 = Some (Waiting 5 5 0 0) \<and> \<not> s_crashed sample_waiting
   \<and> map_option b_done (s_batches sample_waiting 0) = Some False"
  by code_simp

lemma sample_waiting_reach: "batcher_reach sample_config sample_waiting"
  unfolding sample_waiting_def
  by (rule brun_the_reach) (use sample_waiting_eval in blast)

section \<open>Properties\<close>

text \<open>C35: If every call of the batch function answers each of its parameters with \<open>f\<close>, then
  whatever the interleaving of callers, timers and batches, a finished \<open>Do p\<close> has \<open>f p\<close> and
  no error: batching and caching refine calling \<open>f\<close> directly.\<close>

theorem batcher_refines_direct_call:
  assumes reach: "batcher_reach c s" and max: "1 \<le> c_maxBatchSize c" and alive: "\<not> s_crashed s"
    and calls: "\<forall>(i, ps, rs, es)\<in>set (s_calls s). rs = map f ps \<and> (es = None \<or> es = Some (replicate (length ps) None))"
    and keys: "\<forall>p q k. c_key c p = Inr k \<longrightarrow> c_key c q = Inr k \<longrightarrow> f p = f q"
    and primed: "\<forall>(k, r)\<in>set (s_primed s). \<forall>p. c_key c p = Inr k \<longrightarrow> r = f p"
    and fin: "s_callers s t = Some (Finished p r err)" and json: "c_key c p = Inr k"
  shows "r = f p \<and> err = None"
proof -
  have ans: "answered c s p r err"
    using inv_caller [OF reach_inv [OF reach max alive] fin] by simp
  then consider (called) "from_call c (s_calls s) k r err" | (cached) "err = None" "(k, r) \<in> set (s_primed s)"
    by (auto simp: answered_def json)
  then show ?thesis
  proof cases
    case called
    then obtain i ps rs es n where n: "(i, ps, rs, es) \<in> set (s_calls s)" "n < length ps" "c_key c (ps ! n) = Inr k"
      and v: "thunk_value (c_zero c) rs es n = Ok (r, err)" by (auto simp: from_call_def)
    have "rs = map f ps" "es = None \<or> es = Some (replicate (length ps) None)" using bspec [OF calls n(1)] by simp_all
    then have "r = f (ps ! n)" "err = None" using v n(2) by (auto simp: thunk_value_def Let_def split: if_splits)
    then show ?thesis using keys [rule_format, OF json n(3)] by simp
  next
    case cached
    then show ?thesis using primed json by auto
  qed
qed

theorem batcher_refines_direct_call_witness:
  "s_callers sample_run 2 = Some (Finished 5 50 None) \<and> (50 :: nat) = 10 * 5"
proof -
  have run: "s_callers sample_run 2 = Some (Finished 5 50 None)" "\<not> s_crashed sample_run"
    "s_primed sample_run = []" "s_calls sample_run = [(0, [5], [50], Some [None])]"
    using sample_run_eval by auto
  have "(50 :: nat) = 10 * 5 \<and> (None :: string option) = None"
    by (rule batcher_refines_direct_call [OF sample_run_reach _ run(2) _ _ _ run(1), of "\<lambda>p. 10 * p" 5])
       (simp_all add: run sample_config_def)
  then show ?thesis using run by simp
qed

text \<open>C36: Every call of the batch function gets between one and \<open>maxBatchSize\<close> parameters with
  pairwise different keys, and no batch is ever submitted twice.\<close>

theorem batcher_calls_well_formed:
  fixes c :: "('p, 'k, 'r, 'e) config"
  assumes reach: "batcher_reach c s" and max: "1 \<le> c_maxBatchSize c" and alive: "\<not> s_crashed s"
  shows "distinct (map fst (s_calls s)) \<and>
    (\<forall>(i, ps, rs, es)\<in>set (s_calls s). ps \<noteq> [] \<and> int (length ps) \<le> c_maxBatchSize c \<and> distinct (map (c_key c) ps))"
proof -
  have inv: "batcher_inv c s" by (rule reach_inv [OF reach max alive])
  have "ps \<noteq> [] \<and> int (length ps) \<le> c_maxBatchSize c \<and> distinct (map (c_key c) ps)"
    if x: "(i, ps, rs, es) \<in> set (s_calls s)" for i ps rs es
  proof -
    obtain b where b: "s_batches s i = Some b" "b_done b" "b_params b = ps"
      using inv_calls [OF inv x] by auto
    have ok: "batch_ok c b" by (rule inv_batch [OF inv b(1)])
    then have keys: "list_all2 (\<lambda>p k. c_key c p = Inr k) ps (b_keys b)" using b(3) by (simp add: batch_ok_def)
    then have "map (c_key c) ps = map Inr (b_keys b)"
      by (induction rule: list_all2_induct) auto
    moreover have "distinct (map Inr (b_keys b) :: ('e + 'k) list)"
      using ok by (simp add: batch_ok_def distinct_map)
    ultimately have "distinct (map (c_key c) ps)" by simp
    moreover have "b_status b = Closed" using ok b(2) batchStatus.exhaust [of "b_status b"] by (auto simp: batch_ok_def)
    then have "ps \<noteq> []" "int (length ps) \<le> c_maxBatchSize c"
      using ok list_all2_lengthD [OF keys] by (auto simp: batch_ok_def)
    ultimately show ?thesis by simp
  qed
  then show ?thesis using inv_distinct [OF inv] by auto
qed

theorem batcher_calls_well_formed_witness:
  "s_calls sample_run = [(0, [5], [50], Some [None])] \<and> distinct (map fst (s_calls sample_run))
   \<and> int (length [5 :: nat]) \<le> 2"
  using batcher_calls_well_formed [OF sample_run_reach] sample_run_eval by (auto simp: sample_config_def)

text \<open>C37: No caller waits for nothing: when the batch it waits for is not finished, either the
  batch's timer can fire or some goroutine is about to submit it, and within three such events
  the caller can have an answer.\<close>

theorem waiting_caller_can_finish:
  fixes c :: "('p, 'k, 'r, 'e) config"
  assumes reach: "batcher_reach c s" and max: "1 \<le> c_maxBatchSize c" and alive: "\<not> s_crashed s"
    and t: "s_callers s t = Some (Waiting p k i j)" and b: "s_batches s i = Some b" "\<not> b_done b"
  shows "\<exists>es s'. brun c s es = Some s' \<and> length es \<le> 3 \<and> s_callers s' t = Some (Finished p (c_zero c) None)"
proof -
  have inv: "batcher_inv c s" by (rule reach_inv [OF reach max alive])
  have ok: "batch_ok c b" by (rule inv_batch [OF inv b(1)])
  have keys: "b_keys b \<noteq> []" using inv_caller [OF inv t] b(1) by (auto simp: has_key_def)
  have finish: "\<exists>s2. bexec c s1 (EWait t) = Some s2 \<and> s_callers s2 t = Some (Finished p (c_zero c) None)"
    if "s_callers s1 t = Some (Waiting p k i j)" "\<not> s_crashed s1" "s_batches s1 i = Some b1"
      "b_done b1" "b_results b1 = []" "b_errors b1 = None" for s1 :: "('p, 'k, 'r, 'e) batcher" and b1
    using that by (simp add: bexec_def finish_thunk_def thunk_value_def batcher_simps)
  have submit: "\<exists>s1 b1. bexec c s0 e = Some s1 \<and> s_callers s1 t = Some (Waiting p k i j) \<and> \<not> s_crashed s1
      \<and> s_batches s1 i = Some b1 \<and> b_done b1 \<and> b_results b1 = [] \<and> b_errors b1 = None"
    if "s_callers s0 t = Some (Waiting p k i j)" "\<not> s_crashed s0" "s_batches s0 i = Some b0"
      "e = ETimerSubmit i [] None \<and> b_timer b0 = TimerSubmitting \<or>
       (\<exists>u p' k' j'. e = ESubmit u [] None \<and> u \<noteq> t \<and> s_callers s0 u = Some (Submitting p' k' i j'))"
    for s0 :: "('p, 'k, 'r, 'e) batcher" and b0 e
    using that by (auto simp: bexec_def submitBatch_def publishToSubscribers_def batcher_simps Let_def)
  show ?thesis
  proof (cases "b_status b")
    case Closed
    have "\<exists>e. e = ETimerSubmit i [] None \<and> b_timer b = TimerSubmitting \<or>
       (\<exists>u p' k' j'. e = ESubmit u [] None \<and> u \<noteq> t \<and> s_callers s u = Some (Submitting p' k' i j'))"
      using inv_submitter [OF inv b(1) Closed b(2)]
    proof
      assume "\<exists>u. submits s u i"
      then obtain u p' k' j' where u: "s_callers s u = Some (Submitting p' k' i j')" by (auto simp: submits_def)
      then have "u \<noteq> t" using t by auto
      with u show ?thesis by blast
    qed blast
    then obtain e s1 b1 where "bexec c s e = Some s1" "s_callers s1 t = Some (Waiting p k i j)" "\<not> s_crashed s1"
      "s_batches s1 i = Some b1" "b_done b1" "b_results b1 = []" "b_errors b1 = None"
      using submit [OF t alive b(1)] by blast
    moreover from finish [OF this(2-7)] obtain s2 where "bexec c s1 (EWait t) = Some s2"
      "s_callers s2 t = Some (Finished p (c_zero c) None)" by blast
    ultimately show ?thesis by (intro exI [of _ "[e, EWait t]"]) simp
  next
    case Open
    then have tm: "b_timer b = Sleeping" using ok keys by (auto simp: batch_ok_def)
    define s0 where "s0 = set_batch i (closeAfterTimeout b) s"
    have s0: "bexec c s (ETimeout i) = Some s0" "s_callers s0 t = Some (Waiting p k i j)" "\<not> s_crashed s0"
      "s_batches s0 i = Some (closeAfterTimeout b)" "b_timer (closeAfterTimeout b) = TimerSubmitting"
      using alive t b tm Open by (simp_all add: bexec_def s0_def batcher_simps closeAfterTimeout_def)
    then obtain s1 b1 where "bexec c s0 (ETimerSubmit i [] None) = Some s1" "s_callers s1 t = Some (Waiting p k i j)"
      "\<not> s_crashed s1" "s_batches s1 i = Some b1" "b_done b1" "b_results b1 = []" "b_errors b1 = None"
      using submit [OF s0(2-4)] by blast
    moreover from finish [OF this(2-7)] obtain s2 where "bexec c s1 (EWait t) = Some s2"
      "s_callers s2 t = Some (Finished p (c_zero c) None)" by blast
    ultimately show ?thesis using s0(1)
      by (intro exI [of _ "[ETimeout i, ETimerSubmit i [] None, EWait t]"]) simp
  qed
qed

theorem waiting_caller_can_finish_witness:
  "\<exists>es s'. brun sample_config sample_waiting es = Some s' \<and> length es \<le> 3 \<and> s_callers s' 2 = Some (Finished 5 0 None)"
proof -
  obtain b where "s_batches sample_waiting 0 = Some b" "\<not> b_done b" using sample_waiting_eval by auto
  moreover have "c_zero sample_config = 0" "1 \<le> c_maxBatchSize sample_config" by (simp_all add: sample_config_def)
  ultimately show ?thesis
    using waiting_caller_can_finish [OF sample_waiting_reach, of 2 5 5 0 0 b] sample_waiting_eval by simp
qed

text \<open>A cached result is final: no step of any goroutine replaces it, and every later \<open>Do\<close> of
  that key returns it without joining a batch.\<close>

theorem cached_result_is_final:
  assumes st: "bstep c s e s'" and cached: "s_resultCache s k = Some r"
  shows "s_resultCache s' k = Some r \<and>
    (c_cacheResults c \<and> c_key c p = Inr k \<longrightarrow> s_callers (DoThunk c t p s') t = Some (Finished p r None))"
proof -
  have "s_resultCache s' k = Some r"
    using st cached
    by cases (auto simp: batcher_simps DoThunk_def submitBatch_def finish_thunk_def Let_def
        split: sum.splits option.splits outcome.splits)
  then show ?thesis by (simp add: DoThunk_def batcher_simps)
qed

theorem cached_result_is_final_witness:
  "s_callers (DoThunk sample_config 3 5 (RegisterResultSubscriber 1 sample_run)) 3 = Some (Finished 5 50 None)"
proof -
  have "s_resultCache sample_run 5 = Some 50" by code_simp
  from cached_result_is_final [OF bstep.subscribe this, of 1 sample_config 5 3] sample_run_eval show ?thesis
    by (simp add: sample_config_def)
qed

text \<open>A batch function may return nil errors or a single error for the whole batch, and \<open>Do\<close>
  accepts both, but a batcher that publishes its results panics on them: it reads an error for
  every result.\<close>

theorem publishing_needs_an_error_per_result:
  assumes "length rs > (case es of None \<Rightarrow> 0 | Some e \<Rightarrow> length e)"
  shows "is_panic (publishToSubscribers subs rs es)"
proof -
  have "is_panic (publish_from subs errs n rs)" if "length errs < n + length rs" "n \<le> length errs" for errs n
    using that
  proof (induction rs arbitrary: n)
    case Nil
    then show ?case by simp
  next
    case (Cons r rs)
    then show ?case
      by (cases "n = length errs") (auto simp: is_panic_bind_o Suc_le_eq)
  qed
  from this [of "case es of None \<Rightarrow> [] | Some e \<Rightarrow> e" 0] show ?thesis
    using assms by (auto simp: publishToSubscribers_def split: option.splits)
qed

theorem publishing_needs_an_error_per_result_witness:
  "is_panic (publishToSubscribers [1] [10, 20 :: nat] (Some [Some ''db down'']))
   \<and> thunk_value 0 [10, 20] (Some [Some ''db down'']) 1 = Ok (20 :: nat, Some ''db down'')"
  using publishing_needs_an_error_per_result [of "Some [Some ''db down'']" "[10, 20 :: nat]" "[1]"]
  by (simp add: thunk_value_def)

end
