(* ===== verification/Go_Values.thy ===== *)
theory Go_Values
  imports Go_Numerals
begin

text \<open>
  Dynamically typed values that reach the program from its libraries: the \<open>interface{}\<close> that
  a database driver hands to \<open>Scan\<close> or gqlgen hands to \<open>UnmarshalGQL\<close>, and parsed JSON, which
  \<open>encoding/json\<close> reads into Go variables. A type assertion \<open>v.(T)\<close> without \<open>ok\<close> panics on a
  value of another type.
\<close>

section \<open>Interface values\<close>

datatype any =
    Nil_v
  | String_v string
  | Int64_v int
  | Int32_v int
  | Int_v int
  | Bool_v bool
  | Bytes_v string
  | Other_v string

fun assert_string :: "any \<Rightarrow> (string, string) outcome" where
  "assert_string (String_v s) = Ok s"
| "assert_string _ = Panic ''interface conversion: not string''"

fun assert_int64 :: "any \<Rightarrow> (string, int) outcome" where
  "assert_int64 (Int64_v i) = Ok i"
| "assert_int64 _ = Panic ''interface conversion: not int64''"

fun assert_int32 :: "any \<Rightarrow> (string, int) outcome" where
  "assert_int32 (Int32_v i) = Ok i"
| "assert_int32 _ = Panic ''interface conversion: not int32''"

lemma assert_string_eq_Ok [outcome_simps]: "assert_string v = Ok s \<longleftrightarrow> v = String_v s"
  by (cases v) auto

lemma assert_int64_eq_Ok [outcome_simps]: "assert_int64 v = Ok i \<longleftrightarrow> v = Int64_v i"
  by (cases v) auto

section \<open>JSON\<close>

text \<open>\<open>JNum\<close> is a number literal without fraction or exponent, \<open>JReal\<close> any other number literal.\<close>

datatype json =
    JNull
  | JBool bool
  | JNum int
  | JReal string
  | JString string
  | JArray "json list"
  | JObject "(string \<times> json) list"

text \<open>
  \<open>json.Unmarshal\<close> into a variable of type \<open>int\<close> or \<open>string\<close>: \<open>null\<close> leaves the variable as it
  is, a value of another type or out of range is an error.
\<close>

fun unmarshal_int :: "json \<Rightarrow> int \<Rightarrow> (string, int) outcome" where
  "unmarshal_int JNull old = Ok old"
| "unmarshal_int (JNum i) old =
     (if - (2 ^ 63) \<le> i \<and> i < 2 ^ 63 then Ok i else Err ''cannot unmarshal number into int'')"
| "unmarshal_int _ old = Err ''cannot unmarshal into int''"

fun unmarshal_string :: "json \<Rightarrow> string \<Rightarrow> (string, string) outcome" where
  "unmarshal_string JNull old = Ok old"
| "unmarshal_string (JString s) old = Ok s"
| "unmarshal_string _ old = Err ''cannot unmarshal into string''"

text \<open>The last field of an object with a given name, which is the one the decoder keeps.\<close>

fun json_field :: "string \<Rightarrow> (string \<times> json) list \<Rightarrow> json option" where
  "json_field k [] = None"
| "json_field k ((n, v) # fs) =
     (case json_field k fs of Some w \<Rightarrow> Some w | None \<Rightarrow> if n = k then Some v else None)"

section \<open>Padding\<close>

text \<open>\<open>fmt\<close>'s \<open>%0<w>s\<close> pads on the left with zeros up to \<open>w\<close> characters (Go 1.19).\<close>

definition pad_zeros :: "nat \<Rightarrow> string \<Rightarrow> string" where
  "pad_zeros w s = replicate (w - length s) CHR ''0'' @ s"

lemma length_pad_zeros: "length (pad_zeros w s) = max w (length s)"
  by (simp add: pad_zeros_def)

end
