(* ===== verification/Token_Ids.thy ===== *)
theory Token_Ids
  imports Go_Values
begin

text \<open>
  The numeric strings of service/persist/token.go with util/numbers.go: \<open>DecimalTokenID\<close>,
  \<open>HexTokenID\<close>, \<open>HexString\<close> and \<open>BlockNumber\<close>, their conversions, database and GraphQL forms.
  Token IDs are 256-bit numbers kept as text; the lemmas relate the text operations to the
  integers they stand for.
\<close>

type_synonym DecimalTokenID = string
type_synonym HexTokenID = string
type_synonym HexString = string

section \<open>Left-padded zeros\<close>

fun from_first_nonzero :: "string \<Rightarrow> string \<Rightarrow> string" where
  "from_first_nonzero full [] = full"
| "from_first_nonzero full (c # cs) = (if c \<noteq> CHR ''0'' then c # cs else from_first_nonzero full cs)"

definition RemoveLeftPaddedZeros :: "string \<Rightarrow> string" where
  "RemoveLeftPaddedZeros str =
     (if str = ''0x'' then ''0''
      else let str1 = trim_prefix str ''0x'' in
        if replace_all str1 ''0'' [] = [] then ''0'' else from_first_nonzero str1 str1)"

lemma replace_all_zero: "replace_all s ''0'' [] = filter (\<lambda>c. c \<noteq> CHR ''0'') s"
proof (induction s)
  case Nil
  then show ?case by (simp add: replace_all.simps)
next
  case (Cons c s)
  then show ?case by (subst replace_all.simps) auto
qed

lemma from_first_nonzero_dropWhile:
  "\<exists>c\<in>set s. c \<noteq> CHR ''0'' \<Longrightarrow> from_first_nonzero full s = dropWhile (\<lambda>c. c = CHR ''0'') s"
  by (induction s) auto

lemma RemoveLeftPaddedZeros_eq:
  "RemoveLeftPaddedZeros s =
     (let t = dropWhile (\<lambda>c. c = CHR ''0'') (trim_prefix s ''0x'') in if t = [] then ''0'' else t)"
proof -
  have "replace_all (trim_prefix s ''0x'') ''0'' [] = [] \<longleftrightarrow> (\<forall>c\<in>set (trim_prefix s ''0x''). c = CHR ''0'')"
    by (auto simp: replace_all_zero filter_empty_conv)
  moreover have "trim_prefix ''0x'' ''0x'' = []" by (simp add: trim_prefix_def)
  ultimately show ?thesis
    by (auto simp: RemoveLeftPaddedZeros_def Let_def from_first_nonzero_dropWhile dropWhile_eq_Nil_conv)
qed

lemma RemoveLeftPaddedZeros_nonempty [simp]: "RemoveLeftPaddedZeros s \<noteq> []"
  by (auto simp: RemoveLeftPaddedZeros_eq Let_def)

section \<open>Decimal token IDs\<close>

definition DecimalTokenID_String :: "DecimalTokenID \<Rightarrow> string" where
  "DecimalTokenID_String i = RemoveLeftPaddedZeros i"

definition expandNumericString :: "string \<Rightarrow> (string, string) outcome" where
  "expandNumericString s =
     (let parts = str_split s ''e'' in
      if length parts = 1 then Ok s
      else if length parts \<noteq> 2 then Err (''string does not contain a valid format: '' @ s)
      else case atoi (parts ! 1) of
          None \<Rightarrow> Err (''invalid exponent: '' @ parts ! 1)
        | Some exponent \<Rightarrow>
            if exponent < 0 then Err (''negative exponent not handled: '' @ itoa exponent)
            else Ok (parts ! 0 @ replicate (nat exponent) CHR ''0''))"

fun DecimalTokenID_Scan :: "any \<Rightarrow> (string, DecimalTokenID) outcome" where
  "DecimalTokenID_Scan Nil_v = Ok []"
| "DecimalTokenID_Scan (String_v str) = expandNumericString str"
| "DecimalTokenID_Scan _ = Err ''cannot convert to DecimalTokenID''"

definition DecimalTokenID_BigInt :: "DecimalTokenID \<Rightarrow> (string, int) outcome" where
  "DecimalTokenID_BigInt i =
     (let normalized = DecimalTokenID_String i in
      if normalized = [] then Ok 0
      else case parse_int 10 normalized of
          Some n \<Rightarrow> Ok n
        | None \<Rightarrow> Panic (''failed to parse token ID '' @ normalized @ '' as base 10''))"

definition ToHexTokenID :: "DecimalTokenID \<Rightarrow> (string, HexTokenID) outcome" where
  "ToHexTokenID i = map_o (int_text 16) (DecimalTokenID_BigInt i)"

fun DecimalTokenID_UnmarshalGQL :: "any \<Rightarrow> (string, DecimalTokenID) outcome" where
  "DecimalTokenID_UnmarshalGQL (String_v val) =
     (case parse_int 10 val of
        Some i \<Rightarrow> Ok (int_text 10 i)
      | None \<Rightarrow> Err (''failed to convert '' @ val @ '' to an integer''))"
| "DecimalTokenID_UnmarshalGQL _ = Err ''failed to convert to an integer''"

definition DecimalTokenID_MarshalGQL :: "DecimalTokenID \<Rightarrow> string" where
  "DecimalTokenID_MarshalGQL i = CHR 0x22 # DecimalTokenID_String i @ [CHR 0x22]"

section \<open>Hexadecimal token IDs\<close>

definition HexTokenID_String :: "HexTokenID \<Rightarrow> string" where
  "HexTokenID_String i = to_lower (RemoveLeftPaddedZeros i)"

definition HexTokenID_Value :: "HexTokenID \<Rightarrow> any" where
  "HexTokenID_Value i = String_v (HexTokenID_String i)"

definition HexTokenID_Scan :: "any \<Rightarrow> (string, HexTokenID) outcome" where
  "HexTokenID_Scan src = (if src = Nil_v then Ok [] else assert_string src)"

definition HexTokenID_BigInt :: "HexTokenID \<Rightarrow> (string, int) outcome" where
  "HexTokenID_BigInt i =
     (let normalized = HexTokenID_String i in
      if normalized = [] then Ok 0
      else case parse_int 16 normalized of
          Some n \<Rightarrow> Ok n
        | None \<Rightarrow> Panic (''failed to parse token ID '' @ normalized @ '' as base 16''))"

definition ToUint256String :: "HexTokenID \<Rightarrow> string" where
  "ToUint256String i = pad_zeros 64 (HexTokenID_String i)"

definition Base10String :: "HexTokenID \<Rightarrow> (string, string) outcome" where
  "Base10String i = map_o (int_text 10) (HexTokenID_BigInt i)"

definition ToDecimalTokenID :: "HexTokenID \<Rightarrow> (string, DecimalTokenID) outcome" where
  "ToDecimalTokenID i = map_o (int_text 10) (HexTokenID_BigInt i)"

text \<open>\<open>big.Int.Int64\<close> keeps the low 64 bits.\<close>

definition ToInt :: "HexTokenID \<Rightarrow> (string, int) outcome" where
  "ToInt i = map_o int64_of (HexTokenID_BigInt i)"

text \<open>\<open>old\<close> is the variable's value before the call, which a non-string leaves in place.\<close>

fun HexTokenID_UnmarshalGQL :: "any \<Rightarrow> HexTokenID \<Rightarrow> (string, HexTokenID) outcome" where
  "HexTokenID_UnmarshalGQL (String_v val) old =
     (if has_prefix val ''0x'' then Ok (HexTokenID_String val)
      else case atoi val of
          None \<Rightarrow> Err (''failed to convert '' @ val @ ''; prepend with '' @ [CHR 0x27] @ ''0x'' @ [CHR 0x27] @ '' if val is in hex'')
        | Some asInt \<Rightarrow> Ok (int_text 16 asInt))"
| "HexTokenID_UnmarshalGQL _ old = Ok old"

definition HexTokenID_MarshalGQL :: "HexTokenID \<Rightarrow> string" where
  "HexTokenID_MarshalGQL i = CHR 0x22 # (''0x'' @ HexTokenID_String i) @ [CHR 0x22]"

section \<open>Hex strings\<close>

definition HexString_String :: "HexString \<Rightarrow> string" where
  "HexString_String hex = trim_prefix (to_lower hex) ''0x''"

definition HexString_Value :: "HexString \<Rightarrow> any" where
  "HexString_Value hex = String_v (HexString_String hex)"

definition HexString_Scan :: "any \<Rightarrow> (string, HexString) outcome" where
  "HexString_Scan src = (if src = Nil_v then Ok [] else assert_string src)"

definition HexString_BigInt :: "HexString \<Rightarrow> int" where
  "HexString_BigInt hex =
     (case parse_int 16 (HexString_String hex) of
        Some it \<Rightarrow> it
      | None \<Rightarrow> (case parse_int 10 (HexString_String hex) of Some it \<Rightarrow> it | None \<Rightarrow> 0))"

definition HexString_Add :: "HexString \<Rightarrow> HexString \<Rightarrow> HexString" where
  "HexString_Add hex new = int_text 16 (HexString_BigInt hex + HexString_BigInt new)"

definition HexString_Sub :: "HexString \<Rightarrow> HexString \<Rightarrow> HexString" where
  "HexString_Sub hex new = int_text 16 (HexString_BigInt hex - HexString_BigInt new)"

definition MustHexString :: "string \<Rightarrow> (string, HexString) outcome" where
  "MustHexString s =
     (let hex = has_prefix s ''0x'';
          s1 = (if hex then trim_prefix s ''0x'' else s);
          base = (if hex then 16 else 10)
      in case parse_int base s1 of
           Some v \<Rightarrow> Ok (int_text 16 v)
         | None \<Rightarrow> Panic (''failed to convert '' @ [CHR 0x27] @ s1 @ [CHR 0x27] @ '' to a number''))"

definition MustTokenID :: "string \<Rightarrow> (string, HexTokenID) outcome" where
  "MustTokenID s = MustHexString s"

section \<open>Block numbers and addresses\<close>

type_synonym BlockNumber = "64 word"

definition BlockNumber_BigInt :: "BlockNumber \<Rightarrow> int" where
  "BlockNumber_BigInt b = uint b"

definition BlockNumber_String :: "BlockNumber \<Rightarrow> string" where
  "BlockNumber_String b = to_lower (int_text 10 (BlockNumber_BigInt b))"

definition BlockNumber_Hex :: "BlockNumber \<Rightarrow> string" where
  "BlockNumber_Hex b = to_lower (int_text 16 (BlockNumber_BigInt b))"

definition BlockNumber_Value :: "BlockNumber \<Rightarrow> any" where
  "BlockNumber_Value b = Int64_v (int64_of (BlockNumber_BigInt b))"

definition BlockNumber_Scan :: "any \<Rightarrow> (string, BlockNumber) outcome" where
  "BlockNumber_Scan src = (if src = Nil_v then Ok 0 else map_o word_of_int (assert_int64 src))"

definition normalizeAddress :: "string \<Rightarrow> string" where
  "normalizeAddress address =
     (let withoutPrefix = trim_prefix address ''0x'' in
      if length withoutPrefix < 40 then []
      else ''0x'' @ drop (length withoutPrefix - 40) withoutPrefix)"

section \<open>Text and numbers\<close>

lemma char_digit_lower [simp]: "char_digit b (char_lower c) = char_digit b c"
  by (auto simp: char_digit_def char_lower_def is_upper_def of_char_char_of_nat)

lemma parse_digits_lower [simp]: "parse_digits b acc (to_lower s) = parse_digits b acc s"
  by (induction s arbitrary: acc) (auto simp: to_lower_def split: option.splits)

lemma parse_nat_lower [simp]: "parse_nat b (to_lower s) = parse_nat b s"
  by (simp add: parse_nat_def)

lemma digit_char_char_digit:
  assumes "char_digit b c = Some d" "\<not> is_upper c"
  shows "digit_char d = c" "d < b"
proof -
  have "of_char (digit_char d) = (of_char c :: nat)" "d < b"
    using assms by (auto simp: char_digit_def digit_char_def is_upper_def Let_def of_char_char_of_nat
        split: if_splits)
  then show "digit_char d = c" "d < b" by simp_all
qed

lemma digit_char_0: "digit_char 0 = CHR ''0''"
  by code_simp

lemma char_digit_0 [simp]: "2 \<le> b \<Longrightarrow> char_digit b (CHR ''0'') = Some 0"
  using char_digit_digit_char [of 0 b] by (simp add: char_digit_def)

lemma char_digit_zero: "char_digit b c = Some 0 \<Longrightarrow> c = CHR ''0''"
proof -
  assume c: "char_digit b c = Some 0"
  then have "\<not> is_upper c" by (auto simp: char_digit_def is_upper_def Let_def split: if_splits)
  with c show ?thesis using digit_char_char_digit [of b c 0] by (simp add: digit_char_0)
qed

lemma parse_digits_mono: "2 \<le> b \<Longrightarrow> parse_digits b acc s = Some n \<Longrightarrow> acc \<le> n"
proof (induction s arbitrary: acc)
  case (Cons c s)
  then obtain d where "parse_digits b (acc * b + d) s = Some n" by (auto split: option.splits)
  with Cons.IH Cons.prems(1) have "acc * b + d \<le> n" by blast
  moreover have "acc \<le> acc * b" using Cons.prems(1) by simp
  ultimately show ?case by linarith
qed simp

text \<open>A lower-case numeral without a leading zero is the text of its value.\<close>

lemma parse_digits_canonical:
  assumes b: "2 \<le> b"
  shows "parse_digits b 0 s = Some n \<Longrightarrow> s \<noteq> [] \<Longrightarrow> hd s \<noteq> CHR ''0'' \<Longrightarrow> \<forall>c\<in>set s. \<not> is_upper c
    \<Longrightarrow> s = nat_text b n \<and> 0 < n"
proof (induction s arbitrary: n rule: rev_induct)
  case (snoc c s)
  obtain m d where m: "parse_digits b 0 s = Some m" "char_digit b c = Some d" "n = m * b + d"
    using snoc.prems(1) by (auto simp: parse_digits_append split: option.splits)
  have d: "digit_char d = c" "d < b" using digit_char_char_digit [OF m(2)] snoc.prems(4) by auto
  show ?case
  proof (cases "s = []")
    case True
    then have "c \<noteq> CHR ''0''" "m = 0" using snoc.prems(3) m(1) by auto
    then have "d \<noteq> 0" using char_digit_zero m(2) by metis
    with True d m(3) \<open>m = 0\<close> show ?thesis by (simp add: nat_text_def nat_digits.simps)
  next
    case False
    then have "s = nat_text b m" "0 < m" using snoc.IH [OF m(1)] snoc.prems by auto
    then have "1 * b \<le> m * b" by (intro mult_right_mono) auto
    then have n: "b \<le> n" unfolding m(3) by linarith
    have "n div b = m" "n mod b = d" using d(2) b unfolding m(3) by simp_all
    then have "nat_text b n = nat_text b m @ [digit_char d]"
      using n b by (simp add: nat_text_def nat_digits.simps [of b n])
    with d \<open>s = nat_text b m\<close> n b show ?thesis by simp
  qed
qed simp

lemma parse_digits_drop_zeros:
  "2 \<le> b \<Longrightarrow> parse_digits b 0 (dropWhile (\<lambda>c. c = CHR ''0'') s) = parse_digits b 0 s"
proof (induction s)
  case (Cons c s)
  then show ?case by (cases "c = CHR ''0''") simp_all
qed simp

lemma dropWhile_zeros_hd:
  "dropWhile (\<lambda>c. c = CHR ''0'') s \<noteq> [] \<Longrightarrow> hd (dropWhile (\<lambda>c. c = CHR ''0'') s) \<noteq> CHR ''0''"
  by (rule hd_dropWhile)

lemma parse_nat_remove_zeros:
  assumes "2 \<le> b" "parse_nat b (trim_prefix s ''0x'') = Some n"
  shows "parse_nat b (RemoveLeftPaddedZeros s) = Some n"
proof -
  let ?t = "dropWhile (\<lambda>c. c = CHR ''0'') (trim_prefix s ''0x'')"
  have "parse_digits b 0 ?t = Some n"
    using assms by (simp add: parse_digits_drop_zeros parse_nat_def split: if_splits)
  then show ?thesis using assms(1)
    by (cases "?t = []")
      (simp_all only: RemoveLeftPaddedZeros_eq Let_def if_True if_False parse_nat_def, simp_all)
qed

lemma char_lower_zero: "char_lower c = CHR ''0'' \<Longrightarrow> c = CHR ''0''"
proof -
  assume l: "char_lower c = CHR ''0''"
  have "\<not> is_upper c"
  proof
    assume u: "is_upper c"
    then have "(of_char (char_lower c) :: nat) = of_char c + 32"
      by (simp add: char_lower_def is_upper_def of_char_char_of_nat)
    with l u show False by (simp add: is_upper_def)
  qed
  with l show ?thesis by (simp add: char_lower_def)
qed

lemma to_lower_not_upper: "\<forall>c\<in>set (to_lower s). \<not> is_upper c"
  by (auto simp: to_lower_def not_is_upper_char_lower)

lemma nat_text_0: "2 \<le> b \<Longrightarrow> nat_text b 0 = ''0''"
  by (simp add: nat_text_def nat_digits.simps digit_char_0)

text \<open>Removing the padding and folding the case leaves the one text of the number.\<close>

lemma canonical_text:
  assumes b: "2 \<le> b" and n: "parse_nat b (trim_prefix s ''0x'') = Some n"
  shows "to_lower (RemoveLeftPaddedZeros s) = nat_text b n"
proof -
  let ?t = "dropWhile (\<lambda>c. c = CHR ''0'') (trim_prefix s ''0x'')"
  have t: "parse_digits b 0 ?t = Some n"
    using assms by (simp add: parse_digits_drop_zeros parse_nat_def split: if_splits)
  show ?thesis
  proof (cases "?t = []")
    case True
    with t have "n = 0" by simp
    moreover have "to_lower (RemoveLeftPaddedZeros s) = ''0''"
      using True by (simp add: RemoveLeftPaddedZeros_eq to_lower_def char_lower_def is_upper_def)
    ultimately show ?thesis using b by (simp add: nat_text_0)
  next
    case False
    have "hd (to_lower ?t) \<noteq> CHR ''0''"
      using dropWhile_zeros_hd [OF False] False char_lower_zero by (cases ?t) (auto simp: to_lower_def)
    then have "to_lower ?t = nat_text b n"
      using parse_digits_canonical [OF b, of "to_lower ?t" n] t False to_lower_not_upper by auto
    then show ?thesis by (simp only: RemoveLeftPaddedZeros_eq Let_def False if_False)
  qed
qed

lemma nat_text_inject: "2 \<le> b \<Longrightarrow> b \<le> 36 \<Longrightarrow> nat_text b n = nat_text b m \<longleftrightarrow> n = m"
  using parse_nat_nat_text [of b] by (metis option.inject)

lemma parse_digits_chars:
  "parse_digits b acc s = Some n \<Longrightarrow> c \<in> set s \<Longrightarrow> char_digit b c \<noteq> None"
  by (induction s arbitrary: acc) (auto split: option.splits)

lemma parse_int_parse_nat:
  assumes "parse_nat b s = Some n"
  shows "parse_int b s = Some (int n)"
proof -
  obtain c cs where s: "s = c # cs" using assms by (cases s) (auto simp: parse_nat_def)
  then have "char_digit b c \<noteq> None"
    using assms parse_digits_chars [of b 0 s n c] by (simp add: parse_nat_def)
  then have "c \<noteq> CHR ''-''" "c \<noteq> CHR ''+''" by (auto simp: char_digit_def)
  with assms s show ?thesis by (simp add: parse_int_def)
qed

lemma nat_text_lower [simp]: "2 \<le> b \<Longrightarrow> b \<le> 36 \<Longrightarrow> to_lower (nat_text b n) = nat_text b n"
proof -
  assume b: "2 \<le> b" "b \<le> 36"
  have "char_lower c = c" if c: "c \<in> set (nat_text b n)" for c
  proof -
    obtain d where d: "d < b" "c = digit_char d" using nat_text_chars [OF b c] by blast
    then have "\<not> is_upper c" using b by (simp add: is_upper_def digit_char_def of_char_char_of_nat)
    then show ?thesis by (simp add: char_lower_def)
  qed
  then show ?thesis by (simp add: to_lower_def map_idI)
qed

lemma nat_text_no_0x [simp]:
  assumes "2 \<le> b" "b \<le> 33"
  shows "\<not> has_prefix (nat_text b n) ''0x''" "trim_prefix (nat_text b n) ''0x'' = nat_text b n"
proof -
  have "parse_digits b 0 (nat_text b n) = Some n" by (rule parse_digits_nat_text) (use assms in auto)
  moreover have "char_digit b CHR ''x'' = None" using assms by (simp add: char_digit_def)
  ultimately show "\<not> has_prefix (nat_text b n) ''0x''"
    using parse_digits_chars [of b 0 "nat_text b n" n "CHR ''x''"] by (auto simp: has_prefix_iff)
  then show "trim_prefix (nat_text b n) ''0x'' = nat_text b n" by (simp add: trim_prefix_def)
qed

lemma HexTokenID_String_canonical:
  "parse_nat 16 (trim_prefix i ''0x'') = Some n \<Longrightarrow> HexTokenID_String i = nat_text 16 n"
  by (simp add: HexTokenID_String_def canonical_text)

lemma HexTokenID_BigInt_canonical:
  "HexTokenID_String i = nat_text 16 n \<Longrightarrow> HexTokenID_BigInt i = Ok (int n)"
  by (simp add: HexTokenID_BigInt_def parse_int_nat_text)

lemma HexTokenID_String_text [simp]: "HexTokenID_String (nat_text 16 n) = nat_text 16 n"
  by (rule HexTokenID_String_canonical) (simp add: parse_nat_nat_text)

lemma DecimalTokenID_BigInt_value:
  "parse_nat 10 (trim_prefix i ''0x'') = Some n \<Longrightarrow> DecimalTokenID_BigInt i = Ok (int n)"
  by (simp add: DecimalTokenID_BigInt_def DecimalTokenID_String_def parse_nat_remove_zeros
      parse_int_parse_nat Let_def)

lemma int_text_of_nat: "int_text b (int n) = nat_text b n"
  by (simp add: int_text_def)

lemma to_lower_minus: "to_lower (CHR ''-'' # s) = CHR ''-'' # to_lower s"
  by (simp add: to_lower_def char_lower_def is_upper_def)

lemma HexString_BigInt_text: "HexString_BigInt (int_text 16 i) = i"
proof -
  have "HexString_String (int_text 16 i) = int_text 16 i"
    by (simp add: HexString_String_def int_text_def to_lower_minus trim_prefix_def)
  then show ?thesis by (simp add: HexString_BigInt_def parse_int_int_text)
qed

lemma length_nat_digits: "2 \<le> b \<Longrightarrow> 0 < k \<Longrightarrow> n < b ^ k \<Longrightarrow> length (nat_digits b n) \<le> k"
proof (induction k arbitrary: n)
  case (Suc k)
  show ?case
  proof (cases "n < b")
    case False
    then have "k \<noteq> 0" using Suc.prems by (cases k) auto
    moreover have "n div b < b ^ k" using Suc.prems by (simp add: less_mult_imp_div_less mult.commute)
    ultimately have "length (nat_digits b (n div b)) \<le> k" using Suc by simp
    with False Suc.prems show ?thesis by (simp add: nat_digits.simps [of b n])
  qed (simp add: nat_digits.simps)
qed simp

lemma parse_digits_replicate_zero: "2 \<le> b \<Longrightarrow> parse_digits b 0 (replicate k CHR ''0'' @ s) = parse_digits b 0 s"
  by (induction k) auto

section \<open>Properties\<close>

text \<open>C38: A hexadecimal token ID, however it is padded, prefixed or capitalised, has as its
  string the one lower-case numeral of its number; the number is read back from it, and two IDs
  have the same string exactly when they are the same number.\<close>

theorem token_id_text_canonical:
  assumes "parse_nat 16 (trim_prefix a ''0x'') = Some n" and "parse_nat 16 (trim_prefix b ''0x'') = Some m"
  shows "HexTokenID_String a = nat_text 16 n \<and> HexTokenID_BigInt a = Ok (int n)
    \<and> (HexTokenID_String a = HexTokenID_String b \<longleftrightarrow> n = m)"
  using assms
  by (auto simp: HexTokenID_String_canonical HexTokenID_BigInt_canonical nat_text_inject)

theorem token_id_text_canonical_witness:
  "HexTokenID_String ''0x00Ff'' = nat_text 16 255 \<and> HexTokenID_BigInt ''0x00Ff'' = Ok 255
   \<and> HexTokenID_String ''0x00Ff'' = HexTokenID_String ''fF''"
proof -
  have "parse_nat 16 (trim_prefix ''0x00Ff'' ''0x'') = Some 255" "parse_nat 16 (trim_prefix ''fF'' ''0x'') = Some 255"
    by code_simp+
  from token_id_text_canonical [OF this] show ?thesis by (metis of_nat_numeral)
qed

text \<open>C39: Token IDs keep their number through every conversion: decimal to hexadecimal and
  back, to the GraphQL form of either and back, and a block number through its database column.\<close>

theorem token_id_round_trips:
  assumes n: "parse_nat 10 (trim_prefix d ''0x'') = Some n"
  shows "(\<exists>h. ToHexTokenID d = Ok h \<and> ToDecimalTokenID h = Ok (nat_text 10 n)
      \<and> Base10String h = Ok (nat_text 10 n) \<and> HexTokenID_MarshalGQL h = CHR 0x22 # ''0x'' @ h @ [CHR 0x22]
      \<and> HexTokenID_UnmarshalGQL (String_v (''0x'' @ h)) old = Ok h)
    \<and> DecimalTokenID_UnmarshalGQL (String_v (DecimalTokenID_String d)) = Ok (nat_text 10 n)
    \<and> BlockNumber_Scan (BlockNumber_Value blk) = Ok blk"
proof -
  have gql: "HexTokenID_String (''0x'' @ nat_text 16 n) = nat_text 16 n"
    by (rule HexTokenID_String_canonical) (simp add: trim_prefix_def parse_nat_nat_text)
  have "HexTokenID_BigInt (nat_text 16 n) = Ok (int n)"
    by (rule HexTokenID_BigInt_canonical) simp
  then have "ToHexTokenID d = Ok (nat_text 16 n) \<and> ToDecimalTokenID (nat_text 16 n) = Ok (nat_text 10 n)
      \<and> Base10String (nat_text 16 n) = Ok (nat_text 10 n)"
    using DecimalTokenID_BigInt_value [OF n]
    by (simp add: ToHexTokenID_def ToDecimalTokenID_def Base10String_def int_text_of_nat)
  moreover have "parse_int 10 (DecimalTokenID_String d) = Some (int n)"
    using n by (simp add: DecimalTokenID_String_def parse_nat_remove_zeros parse_int_parse_nat)
  moreover have "BlockNumber_Scan (BlockNumber_Value blk) = Ok blk"
    by (simp add: BlockNumber_Scan_def BlockNumber_Value_def BlockNumber_BigInt_def int64_of_def
        flip: sint_uint [where 'a = 64, simplified])
  ultimately show ?thesis using gql by (simp add: HexTokenID_MarshalGQL_def int_text_of_nat)
qed

theorem token_id_round_trips_witness:
  "\<exists>h. ToHexTokenID ''0042'' = Ok h \<and> ToDecimalTokenID h = Ok (nat_text 10 42)"
proof -
  have "parse_nat 10 (trim_prefix ''0042'' ''0x'') = Some 42" by code_simp
  from token_id_round_trips [OF this] show ?thesis by blast
qed

text \<open>Adding and subtracting hex strings is adding and subtracting the integers they stand
  for, negative results included.\<close>

theorem hex_string_arithmetic:
  "HexString_BigInt (HexString_Add a b) = HexString_BigInt a + HexString_BigInt b
   \<and> HexString_BigInt (HexString_Sub a b) = HexString_BigInt a - HexString_BigInt b"
  by (simp add: HexString_Add_def HexString_Sub_def HexString_BigInt_text)

text \<open>The token ID that \<open>ReplaceID\<close> puts into a URI has exactly 64 hexadecimal digits and is
  the ID's number, for every ID below \<open>2^256\<close>.\<close>

theorem uint256_text:
  assumes "parse_nat 16 (trim_prefix i ''0x'') = Some n" "n < 2 ^ 256"
  shows "length (ToUint256String i) = 64 \<and> parse_nat 16 (ToUint256String i) = Some n"
proof -
  have "length (nat_text 16 n) \<le> 64"
    using length_nat_digits [of 16 64 n] assms(2) by (simp add: nat_text_def)
  moreover have "ToUint256String i = replicate (64 - length (nat_text 16 n)) CHR ''0'' @ nat_text 16 n"
    by (simp add: ToUint256String_def pad_zeros_def HexTokenID_String_canonical [OF assms(1)])
  moreover have "parse_digits 16 0 (replicate k CHR ''0'' @ nat_text 16 n) = Some n" for k
    by (simp add: parse_digits_replicate_zero parse_digits_nat_text)
  ultimately show ?thesis by (simp add: parse_nat_def)
qed

theorem uint256_text_witness: "length (ToUint256String ''0x00Ff'') = 64"
proof -
  have "parse_nat 16 (trim_prefix ''0x00Ff'' ''0x'') = Some 255" by code_simp
  from uint256_text [OF this] show ?thesis by simp
qed

text \<open>A decimal token ID of \<open>2^63\<close> or more is refused where a hexadecimal ID is read from
  GraphQL, though the same text is a valid decimal ID.\<close>

theorem large_decimal_id_rejected:
  assumes "2 ^ 63 \<le> n"
  shows "(\<exists>e. HexTokenID_UnmarshalGQL (String_v (nat_text 10 n)) old = Err e)
    \<and> DecimalTokenID_UnmarshalGQL (String_v (nat_text 10 n)) = Ok (nat_text 10 n)"
proof -
  have "\<not> int n < 2 ^ 63" using assms by (metis int_ops(2) not_less numeral_power_eq_of_nat_cancel_iff of_nat_less_iff)
  then show ?thesis by (simp add: atoi_def parse_int_nat_text int_text_of_nat)
qed

theorem large_decimal_id_rejected_witness:
  "\<exists>e. HexTokenID_UnmarshalGQL (String_v (nat_text 10 (2 ^ 63))) [] = Err e"
  using large_decimal_id_rejected [of "2 ^ 63" "[]"] by blast

end
