(* ===== verification/Chains.thy ===== *)
theory Chains
  imports Go_Values
begin

text \<open>
  Chains and addresses: \<open>Chain\<close> and \<open>TokenChainAddress\<close> of service/persist/token.go and
  \<open>ChainAddress\<close>, \<open>L1ChainAddress\<close>, \<open>ChainPubKey\<close> and \<open>WalletType\<close> of service/persist/wallet.go,
  with their text, JSON, GraphQL and database forms. A method with a pointer receiver takes the
  old value and returns the new one.
\<close>

section \<open>Chains\<close>

type_synonym Chain = int
type_synonym L1Chain = int
type_synonym Address = string
type_synonym PubKey = string

definition ChainETH :: Chain where "ChainETH = 0"
definition ChainArbitrum :: Chain where "ChainArbitrum = 1"
definition ChainPolygon :: Chain where "ChainPolygon = 2"
definition ChainOptimism :: Chain where "ChainOptimism = 3"
definition ChainBase :: Chain where "ChainBase = 4"
definition ChainSepolia :: Chain where "ChainSepolia = 5"
definition ChainBaseSepolia :: Chain where "ChainBaseSepolia = 6"
definition MaxChainValue :: Chain where "MaxChainValue = ChainBaseSepolia"

lemmas chain_defs = ChainETH_def ChainArbitrum_def ChainPolygon_def ChainOptimism_def ChainBase_def
  ChainSepolia_def ChainBaseSepolia_def MaxChainValue_def

definition AllChains :: "Chain list" where
  "AllChains = [ChainETH, ChainArbitrum, ChainPolygon, ChainOptimism, ChainBase]"

definition evmChains :: "Chain \<Rightarrow> bool" where
  "evmChains c = (c \<in> {ChainETH, ChainOptimism, ChainPolygon, ChainArbitrum, ChainBase})"

text \<open>\<open>util.MapKeys\<close> lists the keys in the map's iteration order, which Go leaves open: a set here.\<close>

definition EvmChains :: "Chain set" where
  "EvmChains = {ChainETH, ChainOptimism, ChainPolygon, ChainArbitrum, ChainBase}"

definition L1Chains :: "Chain \<Rightarrow> L1Chain option" where
  "L1Chains c =
     (if c \<in> {ChainOptimism, ChainPolygon, ChainArbitrum, ChainBase, ChainBaseSepolia, ChainETH}
      then Some ChainETH else None)"

definition L1ChainGroups :: "L1Chain \<Rightarrow> Chain set option" where
  "L1ChainGroups l = (if l = ChainETH then Some EvmChains else None)"

definition to_l1 :: "Chain \<Rightarrow> (string, L1Chain) outcome" where
  "to_l1 c = (case L1Chains c of Some lc \<Rightarrow> Ok lc | None \<Rightarrow> Panic ''l1 chain not found'')"

definition L1ChainGroup :: "Chain \<Rightarrow> (string, Chain set) outcome" where
  "L1ChainGroup c = bind_o (to_l1 c) (\<lambda>lc.
     case L1ChainGroups lc of Some cg \<Rightarrow> Ok cg | None \<Rightarrow> Panic ''chain group not found'')"

definition NormalizeAddress :: "Chain \<Rightarrow> Address \<Rightarrow> string" where
  "NormalizeAddress c addr = (if evmChains c then to_lower addr else addr)"

definition Chain_Scan :: "any \<Rightarrow> (string, Chain) outcome" where
  "Chain_Scan src = (if src = Nil_v then Ok 0 else assert_int64 src)"

text \<open>The switch of \<open>UnmarshalGQL\<close> and \<open>UnmarshalJSON\<close> has no default: another name keeps \<open>old\<close>.\<close>

definition chain_named :: "string \<Rightarrow> Chain \<Rightarrow> Chain" where
  "chain_named n old =
     (let l = to_lower n in
      if l = ''ethereum'' then ChainETH
      else if l = ''arbitrum'' then ChainArbitrum
      else if l = ''polygon'' then ChainPolygon
      else if l = ''optimism'' then ChainOptimism
      else if l = ''base'' then ChainBase
      else old)"

fun Chain_UnmarshalGQL :: "any \<Rightarrow> Chain \<Rightarrow> (string, Chain) outcome" where
  "Chain_UnmarshalGQL (String_v n) old = Ok (chain_named n old)"
| "Chain_UnmarshalGQL _ old = Err ''Chain must be a string''"

definition Chain_UnmarshalJSON :: "json \<Rightarrow> Chain \<Rightarrow> (string, Chain) outcome" where
  "Chain_UnmarshalJSON v old =
     (case unmarshal_int v 0 of
        Ok s \<Rightarrow> Ok s
      | _ \<Rightarrow> map_o (\<lambda>asString. chain_named asString old) (unmarshal_string v []))"

text \<open>\<open>MarshalGQL\<close> writes a quoted name, or nothing for a chain its switch does not list.\<close>

definition quoted :: "string \<Rightarrow> string" where
  "quoted s = CHR 0x22 # s @ [CHR 0x22]"

definition Chain_MarshalGQL :: "Chain \<Rightarrow> string" where
  "Chain_MarshalGQL c =
     (if c = ChainETH then quoted ''Ethereum''
      else if c = ChainArbitrum then quoted ''Arbitrum''
      else if c = ChainPolygon then quoted ''Polygon''
      else if c = ChainOptimism then quoted ''Optimism''
      else if c = ChainBase then quoted ''Base''
      else [])"

section \<open>Token addresses\<close>

record TokenChainAddress =
  tca_address :: Address
  tca_chain :: Chain

definition NewTokenChainAddress :: "Address \<Rightarrow> Chain \<Rightarrow> TokenChainAddress" where
  "NewTokenChainAddress a c = \<lparr>tca_address = a, tca_chain = c\<rparr>"

definition TokenChainAddress_String :: "TokenChainAddress \<Rightarrow> string" where
  "TokenChainAddress_String t = NormalizeAddress (tca_chain t) (tca_address t) @ ''+'' @ itoa (tca_chain t)"

definition AsJSONKey :: "TokenChainAddress \<Rightarrow> string" where
  "AsJSONKey t = tca_address t @ ''+'' @ itoa (tca_chain t)"

definition FromJSONKey :: "string \<Rightarrow> (string, TokenChainAddress) outcome" where
  "FromJSONKey key =
     (let res = str_split key ''+'' in
      if length res \<noteq> 2 then Err (''invalid token chain address: '' @ key)
      else case atoi (res ! 1) of
          None \<Rightarrow> Err ''strconv.Atoi: invalid syntax''
        | Some chain \<Rightarrow> Ok (NewTokenChainAddress (res ! 0) chain))"

definition TokenChainAddressFromString :: "string \<Rightarrow> (string, TokenChainAddress) outcome" where
  "TokenChainAddressFromString s =
     (let res = str_split s ''+'' in
      if length res \<noteq> 2 then Err (''invalid token chain address: '' @ s)
      else case atoi (res ! 1) of
          None \<Rightarrow> Err ''strconv.Atoi: invalid syntax''
        | Some chain \<Rightarrow> Ok \<lparr>tca_address = res ! 0, tca_chain = chain\<rparr>)"

definition TokenChainAddress_Value :: "TokenChainAddress \<Rightarrow> any" where
  "TokenChainAddress_Value t = String_v (TokenChainAddress_String t)"

text \<open>\<open>res[1]\<close> is read after a test that \<open>res\<close> has one element.\<close>

definition TokenChainAddress_Scan :: "any \<Rightarrow> (string, TokenChainAddress) outcome" where
  "TokenChainAddress_Scan i =
     (if i = Nil_v then Ok \<lparr>tca_address = [], tca_chain = 0\<rparr>
      else bind_o (assert_string i) (\<lambda>s.
        let res = str_split s ''+'' in
        if length res \<noteq> 1 then Err (''invalid token chain address: '' @ s)
        else if length res \<le> 1 then Panic ''index out of range''
        else case atoi (res ! 1) of
            None \<Rightarrow> Err ''strconv.Atoi: invalid syntax''
          | Some chain \<Rightarrow> Ok \<lparr>tca_address = res ! 0, tca_chain = chain\<rparr>))"

section \<open>Wallet addresses\<close>

record ChainAddress =
  ca_addressSet :: bool
  ca_chainSet :: bool
  ca_address :: Address
  ca_chain :: Chain

definition zero_ChainAddress :: ChainAddress where
  "zero_ChainAddress = \<lparr>ca_addressSet = False, ca_chainSet = False, ca_address = [], ca_chain = 0\<rparr>"

definition ca_updateCasing :: "ChainAddress \<Rightarrow> (string, ChainAddress) outcome" where
  "ca_updateCasing c = map_o (\<lambda>l1. if l1 = ChainETH then c\<lparr>ca_address := to_lower (ca_address c)\<rparr> else c)
     (to_l1 (ca_chain c))"

definition NewChainAddress :: "Address \<Rightarrow> Chain \<Rightarrow> (string, ChainAddress) outcome" where
  "NewChainAddress address chain =
     ca_updateCasing \<lparr>ca_addressSet = True, ca_chainSet = True, ca_address = address, ca_chain = chain\<rparr>"

definition GQLSetAddressFromResolver :: "Address \<Rightarrow> ChainAddress \<Rightarrow> (string, ChainAddress) outcome" where
  "GQLSetAddressFromResolver address c =
     (if ca_addressSet c then Err ''ChainAddress.address may only be set once''
      else let c1 = c\<lparr>ca_address := address, ca_addressSet := True\<rparr> in
        if ca_chainSet c1 then ca_updateCasing c1 else Ok c1)"

definition GQLSetChainFromResolver :: "Chain \<Rightarrow> ChainAddress \<Rightarrow> (string, ChainAddress) outcome" where
  "GQLSetChainFromResolver chain c =
     (if ca_chainSet c then Err ''ChainAddress.chain may only be set once''
      else let c1 = c\<lparr>ca_chain := chain, ca_chainSet := True\<rparr> in
        if ca_addressSet c1 then ca_updateCasing c1 else Ok c1)"

definition ChainAddress_String :: "ChainAddress \<Rightarrow> string" where
  "ChainAddress_String c = itoa (ca_chain c) @ '':'' @ ca_address c"

definition ChainAddress_MarshalJSON :: "ChainAddress \<Rightarrow> json" where
  "ChainAddress_MarshalJSON c = JObject [(''address'', JString (ca_address c)), (''chain'', JNum (ca_chain c))]"

text \<open>
  \<open>json.Unmarshal\<close> into \<open>map[string]any\<close>: \<open>null\<close> gives the nil map; a number in it is a \<open>float64\<close>,
  never an \<open>int\<close> or \<open>int32\<close>, so that the test on the chain's type is false for every JSON value.
\<close>

fun any_map :: "json \<Rightarrow> (string, (string \<times> json) list) outcome" where
  "any_map JNull = Ok []"
| "any_map (JObject fs) = Ok fs"
| "any_map _ = Err ''json: cannot unmarshal into map''"

fun present :: "json option \<Rightarrow> bool" where
  "present (Some JNull) = False"
| "present None = False"
| "present (Some v) = True"

definition is_go_int :: "json \<Rightarrow> bool" where
  "is_go_int v = False"

fun set_address :: "json option \<Rightarrow> ChainAddress \<Rightarrow> (string, ChainAddress) outcome" where
  "set_address (Some (JString s)) c = Ok (c\<lparr>ca_address := s, ca_addressSet := True\<rparr>)"
| "set_address v c = (if present v then Panic ''interface conversion: not string'' else Ok c)"

definition ChainAddress_UnmarshalJSON :: "json \<Rightarrow> ChainAddress \<Rightarrow> (string, ChainAddress) outcome" where
  "ChainAddress_UnmarshalJSON data c =
     bind_o (any_map data) (\<lambda>v.
     bind_o (set_address (json_field ''address'' v) c) (\<lambda>c1.
     case json_field ''chain'' v of
       Some (JNum i) \<Rightarrow> Ok (if is_go_int (JNum i) then c1\<lparr>ca_chain := i, ca_chainSet := True\<rparr> else c1)
     | _ \<Rightarrow> Ok c1))"

record L1ChainAddress =
  l1_addressSet :: bool
  l1_chainSet :: bool
  l1_address :: Address
  l1_l1Chain :: L1Chain

definition l1_updateCasing :: "L1ChainAddress \<Rightarrow> L1ChainAddress" where
  "l1_updateCasing c = (if l1_l1Chain c = ChainETH then c\<lparr>l1_address := to_lower (l1_address c)\<rparr> else c)"

definition NewL1ChainAddress :: "Address \<Rightarrow> Chain \<Rightarrow> (string, L1ChainAddress) outcome" where
  "NewL1ChainAddress address chain =
     map_o (\<lambda>l1. l1_updateCasing \<lparr>l1_addressSet = True, l1_chainSet = True, l1_address = address, l1_l1Chain = l1\<rparr>)
       (to_l1 chain)"

definition ToL1ChainAddress :: "ChainAddress \<Rightarrow> (string, L1ChainAddress) outcome" where
  "ToL1ChainAddress c = NewL1ChainAddress (ca_address c) (ca_chain c)"

definition L1ChainAddress_String :: "L1ChainAddress \<Rightarrow> string" where
  "L1ChainAddress_String c = itoa (l1_l1Chain c) @ '':'' @ l1_address c"

record ChainPubKey =
  pk_pubKeySet :: bool
  pk_chainSet :: bool
  pk_pubKey :: PubKey
  pk_chain :: Chain

definition pk_updateCasing :: "ChainPubKey \<Rightarrow> ChainPubKey" where
  "pk_updateCasing c = (if pk_chain c = ChainETH then c\<lparr>pk_pubKey := to_lower (pk_pubKey c)\<rparr> else c)"

definition NewChainPubKey :: "PubKey \<Rightarrow> Chain \<Rightarrow> ChainPubKey" where
  "NewChainPubKey pubKey chain =
     pk_updateCasing \<lparr>pk_pubKeySet = True, pk_chainSet = True, pk_pubKey = pubKey, pk_chain = chain\<rparr>"

definition GQLSetPubKeyFromResolver :: "PubKey \<Rightarrow> ChainPubKey \<Rightarrow> (string, ChainPubKey) outcome" where
  "GQLSetPubKeyFromResolver pubKey c =
     (if pk_pubKeySet c then Err ''ChainAddress.address may only be set once''
      else let c1 = c\<lparr>pk_pubKey := pubKey, pk_pubKeySet := True\<rparr> in
        Ok (if pk_chainSet c1 then pk_updateCasing c1 else c1))"

definition pk_GQLSetChainFromResolver :: "Chain \<Rightarrow> ChainPubKey \<Rightarrow> (string, ChainPubKey) outcome" where
  "pk_GQLSetChainFromResolver chain c =
     (if pk_chainSet c then Err ''ChainAddress.chain may only be set once''
      else let c1 = c\<lparr>pk_chain := chain, pk_chainSet := True\<rparr> in
        Ok (if pk_pubKeySet c1 then pk_updateCasing c1 else c1))"

definition ToChainAddress :: "ChainPubKey \<Rightarrow> (string, ChainAddress) outcome" where
  "ToChainAddress c = NewChainAddress (pk_pubKey c) (pk_chain c)"

definition pk_ToL1ChainAddress :: "ChainPubKey \<Rightarrow> (string, L1ChainAddress) outcome" where
  "pk_ToL1ChainAddress c = bind_o (ToChainAddress c) ToL1ChainAddress"

section \<open>Wallet types and database forms\<close>

definition WalletTypeEOA :: int where "WalletTypeEOA = 0"
definition WalletTypeGnosis :: int where "WalletTypeGnosis = 1"

fun WalletType_UnmarshalGQL :: "any \<Rightarrow> (string, int) outcome" where
  "WalletType_UnmarshalGQL (String_v n) =
     (if n = ''EOA'' then Ok WalletTypeEOA
      else if n = ''GnosisSafe'' then Ok WalletTypeGnosis
      else Err (''unknown WalletType: '' @ n))"
| "WalletType_UnmarshalGQL _ = Err ''wrong type for WalletType''"

definition WalletType_MarshalGQL :: "int \<Rightarrow> string" where
  "WalletType_MarshalGQL wa =
     (if wa = WalletTypeEOA then quoted ''EOA''
      else if wa = WalletTypeGnosis then quoted ''GnosisSafe''
      else [])"

fun Address_Scan :: "any \<Rightarrow> (string, Address) outcome" where
  "Address_Scan Nil_v = Ok []"
| "Address_Scan (String_v s) = Ok s"
| "Address_Scan (Bytes_v s) = Ok s"
| "Address_Scan _ = Err ''Address must be a string or []uint8''"

text \<open>\<open>strings.ToValidUTF8\<close> with an empty replacement leaves an ASCII string as it is.\<close>

definition Address_Value :: "Address \<Rightarrow> any" where
  "Address_Value n = String_v (if n = [] then [] else replace_all n [CHR 0x5C, CHR ''u'', CHR ''0'', CHR ''0'', CHR ''0'', CHR ''0''] [])"

section \<open>Lemmas\<close>

lemma chain_names_lower:
  "to_lower ''Ethereum'' = ''ethereum''" "to_lower ''Arbitrum'' = ''arbitrum''" "to_lower ''Polygon'' = ''polygon''"
  "to_lower ''Optimism'' = ''optimism''" "to_lower ''Base'' = ''base''"
  by code_simp+

lemma to_l1_supported: "L1Chains c \<noteq> None \<Longrightarrow> to_l1 c = Ok ChainETH"
  by (auto simp: to_l1_def L1Chains_def split: if_splits)

lemma NewChainAddress_supported:
  "L1Chains c \<noteq> None \<Longrightarrow> NewChainAddress a c =
     Ok \<lparr>ca_addressSet = True, ca_chainSet = True, ca_address = to_lower a, ca_chain = c\<rparr>"
  by (simp add: NewChainAddress_def ca_updateCasing_def to_l1_supported)

lemma NewChainAddress_panics: "is_panic (NewChainAddress a c) \<longleftrightarrow> L1Chains c = None"
  by (auto simp: NewChainAddress_def ca_updateCasing_def to_l1_def split: option.splits)

lemma plus_not_in_itoa: "CHR ''+'' \<notin> set (itoa i)"
  by (rule itoa_no_char) auto

lemma split_at_plus: "CHR ''+'' \<notin> set a \<Longrightarrow> str_split (a @ ''+'' @ itoa i) ''+'' = [a, itoa i]"
  using str_split_pair [of "CHR ''+''" a "itoa i"] plus_not_in_itoa by simp

lemma chain_gql_name: "Chain_MarshalGQL c = quoted n \<and> chain_named n old = c \<Longrightarrow>
    \<exists>n. Chain_MarshalGQL c = quoted n \<and> Chain_UnmarshalGQL (String_v n) old = Ok c"
  by auto

lemma to_lower_no_plus: "CHR ''+'' \<notin> set s \<Longrightarrow> CHR ''+'' \<notin> set (to_lower s)"
proof
  assume s: "CHR ''+'' \<notin> set s" and "CHR ''+'' \<in> set (to_lower s)"
  then obtain c where c: "c \<in> set s" "char_lower c = CHR ''+''" by (auto simp: to_lower_def)
  have "\<not> is_upper c"
  proof
    assume u: "is_upper c"
    then have "(of_char (char_lower c) :: nat) = of_char c + 32"
      by (simp add: char_lower_def is_upper_def of_char_char_of_nat)
    with c(2) u show False by (simp add: is_upper_def)
  qed
  with c s show False by (simp add: char_lower_def)
qed

section \<open>Properties\<close>

text \<open>The constructor, the two setters that GraphQL calls in either order, and the conversion
  from a public key all give the same chain address, with the address in lower case and both
  flags set; on every chain but Sepolia they agree on its Ethereum form too.\<close>

theorem chain_address_builders_agree:
  assumes "L1Chains c \<noteq> None"
  shows "\<exists>ca. NewChainAddress a c = Ok ca \<and> ca_address ca = to_lower a \<and> ca_chain ca = c
    \<and> bind_o (GQLSetAddressFromResolver a zero_ChainAddress) (GQLSetChainFromResolver c) = Ok ca
    \<and> bind_o (GQLSetChainFromResolver c zero_ChainAddress) (GQLSetAddressFromResolver a) = Ok ca
    \<and> ToChainAddress (NewChainPubKey a c) = Ok ca
    \<and> ToL1ChainAddress ca = NewL1ChainAddress a ChainETH
    \<and> (\<exists>e. GQLSetAddressFromResolver b ca = Err e) \<and> (\<exists>e. GQLSetChainFromResolver d ca = Err e)"
  using assms
  by (auto simp: NewChainAddress_supported GQLSetAddressFromResolver_def GQLSetChainFromResolver_def
      zero_ChainAddress_def ca_updateCasing_def to_l1_supported ToChainAddress_def NewChainPubKey_def
      pk_updateCasing_def ToL1ChainAddress_def NewL1ChainAddress_def l1_updateCasing_def)
     (simp add: L1Chains_def to_l1_def)

theorem chain_address_builders_agree_witness:
  "\<exists>ca. NewChainAddress ''0xAB'' ChainBase = Ok ca \<and> ca_address ca = to_lower ''0xAB''
    \<and> ToChainAddress (NewChainPubKey ''0xAB'' ChainBase) = Ok ca"
proof -
  have "L1Chains ChainBase \<noteq> None" by (simp add: L1Chains_def)
  from chain_address_builders_agree [OF this, of "''0xAB''"] show ?thesis by blast
qed

text \<open>A token address whose text has no plus sign is read back from its JSON key and from its
  string, there with the address normalised; each of the supported chains is read back from its
  GraphQL name.\<close>

theorem token_chain_address_round_trip:
  assumes "CHR ''+'' \<notin> set (tca_address t)" "- (2 ^ 63) \<le> tca_chain t" "tca_chain t < 2 ^ 63"
  shows "FromJSONKey (AsJSONKey t) = Ok t
    \<and> TokenChainAddressFromString (TokenChainAddress_String t) =
        Ok (t\<lparr>tca_address := NormalizeAddress (tca_chain t) (tca_address t)\<rparr>)
    \<and> list_all (\<lambda>c. \<exists>n. Chain_MarshalGQL c = quoted n \<and> Chain_UnmarshalGQL (String_v n) old = Ok c) AllChains"
proof -
  have at: "atoi (itoa (tca_chain t)) = Some (tca_chain t)" using assms by (intro atoi_itoa)
  have gql: "Chain_MarshalGQL ChainETH = quoted ''Ethereum'' \<and> chain_named ''Ethereum'' old = ChainETH"
    "Chain_MarshalGQL ChainArbitrum = quoted ''Arbitrum'' \<and> chain_named ''Arbitrum'' old = ChainArbitrum"
    "Chain_MarshalGQL ChainPolygon = quoted ''Polygon'' \<and> chain_named ''Polygon'' old = ChainPolygon"
    "Chain_MarshalGQL ChainOptimism = quoted ''Optimism'' \<and> chain_named ''Optimism'' old = ChainOptimism"
    "Chain_MarshalGQL ChainBase = quoted ''Base'' \<and> chain_named ''Base'' old = ChainBase"
    by (simp_all add: Chain_MarshalGQL_def chain_named_def chain_defs chain_names_lower)
  have "list_all (\<lambda>c. \<exists>n. Chain_MarshalGQL c = quoted n \<and> Chain_UnmarshalGQL (String_v n) old = Ok c) AllChains"
    using gql [THEN chain_gql_name] by (simp add: AllChains_def)
  moreover have "CHR ''+'' \<notin> set (NormalizeAddress (tca_chain t) (tca_address t))"
    using assms(1) to_lower_no_plus by (simp add: NormalizeAddress_def)
  ultimately show ?thesis using assms(1) at
    by (simp add: FromJSONKey_def AsJSONKey_def TokenChainAddressFromString_def TokenChainAddress_String_def
        split_at_plus [simplified] NewTokenChainAddress_def)
qed

theorem token_chain_address_round_trip_witness:
  "FromJSONKey (AsJSONKey \<lparr>tca_address = ''0xAB'', tca_chain = 4\<rparr>) = Ok \<lparr>tca_address = ''0xAB'', tca_chain = 4\<rparr>"
  using token_chain_address_round_trip [of "\<lparr>tca_address = ''0xAB'', tca_chain = 4\<rparr>"] by simp

text \<open>No stored token address can be read: \<open>Scan\<close> fails or panics on every string, the one
  \<open>Value\<close> writes included. And a chain address read from its own JSON has lost its chain.\<close>

theorem stored_addresses_unreadable:
  "\<not> is_ok (TokenChainAddress_Scan (TokenChainAddress_Value t)) \<and> \<not> is_ok (TokenChainAddress_Scan (String_v s))
   \<and> ChainAddress_UnmarshalJSON (ChainAddress_MarshalJSON ca) zero_ChainAddress =
       Ok (zero_ChainAddress\<lparr>ca_address := ca_address ca, ca_addressSet := True\<rparr>)"
  by (simp add: TokenChainAddress_Scan_def TokenChainAddress_Value_def ChainAddress_UnmarshalJSON_def
      ChainAddress_MarshalJSON_def is_go_int_def Let_def)

end
