(* ===== verification/Token_Uris.thy ===== *)
theory Token_Uris
  imports Token_Ids
begin

text \<open>
  Token URIs and media types of service/persist/token.go, with \<open>util.GetURIPath\<close>: how a URI is
  classified by its text, what media type its class stands for, and how media types are ranked.
\<close>

section \<open>Media types\<close>

type_synonym MediaType = string

abbreviation MediaTypeVideo :: MediaType where "MediaTypeVideo \<equiv> ''video''"
abbreviation MediaTypeImage :: MediaType where "MediaTypeImage \<equiv> ''image''"
abbreviation MediaTypeGIF :: MediaType where "MediaTypeGIF \<equiv> ''gif''"
abbreviation MediaTypeSVG :: MediaType where "MediaTypeSVG \<equiv> ''svg''"
abbreviation MediaTypeText :: MediaType where "MediaTypeText \<equiv> ''text''"
abbreviation MediaTypeHTML :: MediaType where "MediaTypeHTML \<equiv> ''html''"
abbreviation MediaTypeAudio :: MediaType where "MediaTypeAudio \<equiv> ''audio''"
abbreviation MediaTypeJSON :: MediaType where "MediaTypeJSON \<equiv> ''json''"
abbreviation MediaTypeAnimation :: MediaType where "MediaTypeAnimation \<equiv> ''animation''"
abbreviation MediaTypePDF :: MediaType where "MediaTypePDF \<equiv> ''pdf''"
abbreviation MediaTypeInvalid :: MediaType where "MediaTypeInvalid \<equiv> ''invalid''"
abbreviation MediaTypeUnknown :: MediaType where "MediaTypeUnknown \<equiv> ''unknown''"
abbreviation MediaTypeSyncing :: MediaType where "MediaTypeSyncing \<equiv> ''syncing''"
abbreviation MediaTypeFallback :: MediaType where "MediaTypeFallback \<equiv> ''fallback''"

definition mediaTypePriorities :: "MediaType list" where
  "mediaTypePriorities = [MediaTypeHTML, MediaTypeAudio, MediaTypeAnimation, MediaTypeVideo, MediaTypeGIF,
     MediaTypeSVG, MediaTypeImage, MediaTypeJSON, MediaTypeText, MediaTypeSyncing, MediaTypeUnknown, MediaTypeInvalid]"

definition ToContentType :: "MediaType \<Rightarrow> string" where
  "ToContentType m =
     (if m = MediaTypeVideo then ''video/mp4''
      else if m = MediaTypeImage then ''image/jpeg''
      else if m = MediaTypeGIF then ''image/gif''
      else if m = MediaTypeSVG then ''image/svg+xml''
      else if m = MediaTypeText then ''text/plain''
      else if m = MediaTypeHTML then ''text/html''
      else if m = MediaTypeAudio then ''audio/mpeg''
      else if m = MediaTypeJSON then ''application/json''
      else if m = MediaTypeAnimation then ''model/gltf-binary''
      else if m = MediaTypePDF then ''application/pdf''
      else [])"

definition MediaType_IsValid :: "MediaType \<Rightarrow> bool" where
  "MediaType_IsValid m = (m \<noteq> MediaTypeUnknown \<and> m \<noteq> MediaTypeInvalid \<and> m \<noteq> MediaTypeSyncing \<and> m \<noteq> [])"

definition IsImageLike :: "MediaType \<Rightarrow> bool" where
  "IsImageLike m = (m = MediaTypeImage \<or> m = MediaTypeGIF \<or> m = MediaTypeSVG)"

definition IsAnimationLike :: "MediaType \<Rightarrow> bool" where
  "IsAnimationLike m = (m = MediaTypeVideo \<or> m = MediaTypeHTML \<or> m = MediaTypeAudio \<or> m = MediaTypeAnimation)"

text \<open>The loop over the priorities, which answers at the first of the two types it meets.\<close>

fun more_priority_in :: "MediaType list \<Rightarrow> MediaType \<Rightarrow> MediaType \<Rightarrow> bool" where
  "more_priority_in [] m other = True"
| "more_priority_in (t # ts) m other =
     (if t = m then True else if t = other then False else more_priority_in ts m other)"

definition IsMorePriorityThan :: "MediaType \<Rightarrow> MediaType \<Rightarrow> bool" where
  "IsMorePriorityThan m other = more_priority_in mediaTypePriorities m other"

definition MediaType_Scan :: "any \<Rightarrow> MediaType \<Rightarrow> (string, MediaType) outcome" where
  "MediaType_Scan src old = (if src = Nil_v then Ok old else assert_string src)"

section \<open>URI types\<close>

datatype URIType =
    URITypeIPFS | URITypeArweave | URITypeHTTP | URITypeIPFSAPI | URITypeIPFSGateway | URITypeArweaveGateway
  | URITypeBase64JSON | URITypeBase64HTML | URITypeJSON | URITypeBase64SVG | URITypeBase64BMP | URITypeBase64PNG
  | URITypeBase64JPEG | URITypeBase64GIF | URITypeBase64WAV | URITypeBase64MP3 | URITypeSVG | URITypeENS
  | URITypeUnknown | URITypeInvalid | URITypeNone

fun IsRaw :: "URIType \<Rightarrow> bool" where
  "IsRaw u = (u \<in> {URITypeBase64JSON, URITypeBase64HTML, URITypeBase64SVG, URITypeBase64BMP, URITypeBase64PNG,
     URITypeBase64JPEG, URITypeBase64GIF, URITypeBase64WAV, URITypeBase64MP3, URITypeJSON, URITypeSVG, URITypeENS})"

fun ToMediaType :: "URIType \<Rightarrow> MediaType" where
  "ToMediaType URITypeBase64JSON = MediaTypeJSON"
| "ToMediaType URITypeJSON = MediaTypeJSON"
| "ToMediaType URITypeBase64SVG = MediaTypeSVG"
| "ToMediaType URITypeSVG = MediaTypeSVG"
| "ToMediaType URITypeBase64BMP = MediaTypeImage"
| "ToMediaType URITypeBase64PNG = MediaTypeImage"
| "ToMediaType URITypeBase64HTML = MediaTypeHTML"
| "ToMediaType URITypeBase64JPEG = MediaTypeImage"
| "ToMediaType URITypeBase64GIF = MediaTypeGIF"
| "ToMediaType URITypeBase64MP3 = MediaTypeAudio"
| "ToMediaType URITypeBase64WAV = MediaTypeAudio"
| "ToMediaType _ = MediaTypeUnknown"

type_synonym TokenURI = string

definition InvalidTokenURI :: TokenURI where "InvalidTokenURI = ''INVALID''"

text \<open>The three alternatives of a base64 case: \<open>data:<mime>\<close> in the two usual spellings or any other.\<close>

definition base64_data :: "string \<Rightarrow> string \<Rightarrow> bool" where
  "base64_data mime s =
     (has_prefix s (''data:'' @ mime @ '';base64,'')
      \<or> has_prefix s (''data:'' @ mime @ '';charset=utf-8;base64,'')
      \<or> has_prefix s (''data:'' @ mime) \<and> str_contains s '';base64,'')"

definition base64_svg :: "string \<Rightarrow> bool" where
  "base64_svg s =
     (has_prefix s ''data:image/svg+xml;base64,'' \<or> has_prefix s ''data:image/svg xml;base64,''
      \<or> has_prefix s ''data:image/svg+xml'' \<and> str_contains s '';base64,''
      \<or> has_prefix s ''data:image/svg xml'' \<and> str_contains s '';base64,'')"

definition TokenURI_Type :: "TokenURI \<Rightarrow> URIType" where
  "TokenURI_Type uri =
     (let s = trim_space uri in
      if has_prefix s ''ipfs'' \<or> has_prefix s ''Qm'' then URITypeIPFS
      else if has_prefix s ''ar://'' \<or> has_prefix s ''arweave://'' then URITypeArweave
      else if base64_data ''text/html'' s then URITypeBase64HTML
      else if base64_data ''application/json'' s then URITypeBase64JSON
      else if base64_svg s then URITypeBase64SVG
      else if base64_data ''image/bmp'' s then URITypeBase64BMP
      else if base64_data ''image/png'' s then URITypeBase64PNG
      else if base64_data ''image/jpeg'' s then URITypeBase64JPEG
      else if base64_data ''image/gif'' s then URITypeBase64GIF
      else if base64_data ''audio/wav'' s then URITypeBase64WAV
      else if base64_data ''audio/mpeg'' s then URITypeBase64MP3
      else if str_contains s ''ipfs.io/api'' then URITypeIPFSAPI
      else if str_contains s ''/ipfs/'' then URITypeIPFSGateway
      else if has_prefix s ''https://arweave.net/'' then URITypeArweaveGateway
      else if has_prefix s ''http'' \<or> has_prefix s ''https'' then URITypeHTTP
      else if has_prefix s ''{'' \<or> has_prefix s ''['' \<or> has_prefix s ''data:application/json''
        \<or> has_prefix s ''data:text/plain,{'' then URITypeJSON
      else if has_prefix s ''<svg'' \<or> has_prefix s ''data:image/svg+xml'' \<or> has_prefix s ''data:image/svg xml'' then URITypeSVG
      else if has_suffix s ''.ens'' then URITypeENS
      else if s = InvalidTokenURI then URITypeInvalid
      else if s = [] then URITypeNone
      else URITypeUnknown)"

definition IsHTTP :: "TokenURI \<Rightarrow> bool" where
  "IsHTTP uri = has_prefix (trim_space uri) ''http''"

definition IsRenderable :: "TokenURI \<Rightarrow> bool" where
  "IsRenderable uri = IsHTTP uri"

definition ReplaceID :: "TokenURI \<Rightarrow> HexTokenID \<Rightarrow> TokenURI" where
  "ReplaceID uri i = trim_space (replace_all uri ''{id}'' (ToUint256String i))"

definition TokenURI_Scan :: "any \<Rightarrow> (string, TokenURI) outcome" where
  "TokenURI_Scan src = (if src = Nil_v then Ok [] else assert_string src)"

section \<open>Paths\<close>

definition GetURIPath :: "string \<Rightarrow> bool \<Rightarrow> string" where
  "GetURIPath initial withoutQuery =
     (let path0 = trim_space initial;
          path1 =
            (if has_prefix initial ''http'' then
               let p = trim_prefix (trim_prefix path0 ''https://'') ''http://'' in
               (case str_index p ''/'' of
                  Some i \<Rightarrow> if 0 < i then drop i p else p
                | None \<Rightarrow> p)
             else if has_prefix initial ''ipfs://'' then replace_all initial ''ipfs://'' []
             else if has_prefix initial ''arweave://'' \<or> has_prefix initial ''ar://'' then
               replace_all (replace_all initial ''arweave://'' []) ''ar://'' []
             else path0);
          path2 = trim_prefix (replace_all path1 ''ipfs/'' []) ''/''
      in if withoutQuery then trim_suffix (hd (str_split path2 ''?'')) ''/'' else path2)"

section \<open>Lemmas\<close>

text \<open>The position of a type in the priorities, past the end for a type that is not listed.\<close>

definition media_rank :: "MediaType \<Rightarrow> nat" where
  "media_rank m = (case find_index (\<lambda>t. t = m) mediaTypePriorities of
     Some i \<Rightarrow> i | None \<Rightarrow> length mediaTypePriorities)"

lemma more_priority_in_iff:
  "more_priority_in ts m other \<longleftrightarrow>
     (case find_index (\<lambda>t. t = m) ts of Some i \<Rightarrow> i | None \<Rightarrow> length ts)
     \<le> (case find_index (\<lambda>t. t = other) ts of Some i \<Rightarrow> i | None \<Rightarrow> length ts)"
  by (induction ts) (auto split: option.splits dest: find_index_Some)

lemma has_prefix_trans: "has_prefix s p \<Longrightarrow> has_prefix p q \<Longrightarrow> has_prefix s q"
  by (auto simp: has_prefix_iff)

lemma has_prefix_hd: "has_prefix s (c # cs) \<Longrightarrow> \<exists>t. s = c # t"
  by (auto simp: has_prefix_iff)

lemma split_on_nonempty [simp]: "split_on sep cur s \<noteq> []"
  by (induction sep cur s rule: split_on.induct) (subst split_on.simps, auto)

lemma trim_space_prefix:
  assumes "p \<noteq> []" "\<not> is_space (hd p)" "\<not> is_space (last p)"
  shows "\<exists>t. trim_space (p @ s) = p @ t"
proof -
  have "dropWhile is_space (p @ s) = p @ s" using assms by (cases p) auto
  moreover have "\<exists>t. dropWhile is_space (rev s @ rev p) = t @ rev p"
  proof -
    have "dropWhile is_space (rev p) = rev p" using assms by (simp add: dropWhile_hd hd_rev)
    then show ?thesis
      using dropWhile_append2 [of "rev s" is_space "rev p"]
      by (cases "\<forall>x\<in>set s. is_space x") (auto simp: dropWhile_append1 intro: exI [of _ "[]"])
  qed
  ultimately show ?thesis by (auto simp: trim_space_def)
qed

lemma trim_space_braces: "trim_space (''{'' @ u @ ''}'') = ''{'' @ u @ ''}''"
  by (rule trim_space_id) (simp add: is_space_def)

section \<open>Properties\<close>

text \<open>The loop over \<open>mediaTypePriorities\<close> is the comparison of ranks: a type has priority over
  another exactly when it is not ranked after it, where every type that the list leaves out, PDF
  and fallback among them, ranks last.\<close>

theorem media_priority_is_rank_order:
  "IsMorePriorityThan m other \<longleftrightarrow> media_rank m \<le> media_rank other"
  by (simp add: IsMorePriorityThan_def media_rank_def more_priority_in_iff)

end
