(* ===== verification/Retrying.thy ===== *)
theory Retrying
  imports Prelude
begin

text \<open>
  The retry policies of util/retry/retry.go: the backoff \<open>WaitTime\<close>, the loops \<open>RetryFunc\<close> and
  \<open>RetryRequestWithRetry\<close>, and the \<open>Retryer\<close>, which passes every request through a rate limiter.
  What the HTTP client, the retried function and the limiter answer are arguments: a function
  of the attempt, or the list of the limiter's replies. Each run also returns its log, the
  calls it made and the time it slept. \<open>intn\<close> is the random source: \<open>intn k n\<close> is what
  \<open>rand.Intn(n)\<close> returns at the \<open>k\<close>-th wait.
\<close>

section \<open>Backoff\<close>

record retry_config =
  MinWait :: int
  MaxWait :: int
  MaxRetries :: int

definition DefaultRetry :: retry_config where
  "DefaultRetry = \<lparr>MinWait = 0, MaxWait = 64, MaxRetries = 8\<rparr>"

datatype retry_error = ErrOutOfRetries | RequestError string | LimiterFailed string

text \<open>\<open>r *= 2\<close>, \<open>n\<close> times, on a 64-bit \<open>int\<close>.\<close>

fun doubled :: "nat \<Rightarrow> int \<Rightarrow> int" where
  "doubled 0 r = r"
| "doubled (Suc n) r = doubled n (int64_of (r * 2))"

text \<open>
  Seconds to sleep, in nanoseconds. \<open>int(float64(maxWait)*0.1)\<close> is the quotient by 10 up to
  \<open>2^50\<close> seconds; \<open>rand.Intn\<close> panics unless its argument is positive.
\<close>

definition WaitTime :: "(int \<Rightarrow> int) \<Rightarrow> int \<Rightarrow> int \<Rightarrow> int \<Rightarrow> (retry_error, int) outcome" where
  "WaitTime intn minWait maxWait tryIteration =
     (if tryIteration \<le> 0 then Ok 0
      else
        let r = doubled (nat tryIteration) 1;
            bound = 1 + go_quot maxWait 10
        in if bound \<le> 0 then Panic ''invalid argument to Intn''
           else
             let iterWait = int64_of (minWait + r + intn bound);
                 wait = (if iterWait < maxWait then iterWait else maxWait)
             in Ok (int64_of (wait * 1000000000)))"

section \<open>Loops\<close>

datatype 'r http_result = Failed string | Responded int 'r

text \<open>The loop body for \<open>i\<close>, with \<open>n\<close> iterations left; the log holds the sleeps.\<close>

fun request_loop ::
  "(nat \<Rightarrow> int \<Rightarrow> int) \<Rightarrow> (nat \<Rightarrow> 'r http_result) \<Rightarrow> retry_config \<Rightarrow> nat \<Rightarrow> nat \<Rightarrow>
   (retry_error, 'r) outcome \<times> nat \<times> int list" where
  "request_loop intn client c i 0 = (Err ErrOutOfRetries, 0, [])"
| "request_loop intn client c i (Suc n) =
     (case client i of
        Failed e \<Rightarrow> (Err (RequestError e), 1, [])
      | Responded status resp \<Rightarrow>
          if status \<noteq> 429 then (Ok resp, 1, [])
          else case WaitTime (intn i) (MinWait c) (MaxWait c) (int i) of
              Ok d \<Rightarrow> (let (res, calls, waits) = request_loop intn client c (Suc i) n in (res, Suc calls, d # waits))
            | Err e \<Rightarrow> (Err e, 1, [])
            | Panic p \<Rightarrow> (Panic p, 1, []))"

definition RetryRequestWithRetry ::
  "(nat \<Rightarrow> int \<Rightarrow> int) \<Rightarrow> (nat \<Rightarrow> 'r http_result) \<Rightarrow> retry_config \<Rightarrow> (retry_error, 'r) outcome \<times> nat \<times> int list" where
  "RetryRequestWithRetry intn client c = request_loop intn client c 0 (nat (MaxRetries c))"

definition RetryRequest ::
  "(nat \<Rightarrow> int \<Rightarrow> int) \<Rightarrow> (nat \<Rightarrow> 'r http_result) \<Rightarrow> (retry_error, 'r) outcome \<times> nat \<times> int list" where
  "RetryRequest intn client = RetryRequestWithRetry intn client DefaultRetry"

text \<open>\<open>f i\<close> is the error of the \<open>i\<close>-th call, \<open>None\<close> when it succeeds.\<close>

fun retry_loop ::
  "(nat \<Rightarrow> int \<Rightarrow> int) \<Rightarrow> (nat \<Rightarrow> string option) \<Rightarrow> (string \<Rightarrow> bool) \<Rightarrow> retry_config \<Rightarrow> nat \<Rightarrow> nat \<Rightarrow>
   (retry_error, unit) outcome \<times> nat \<times> int list" where
  "retry_loop intn f shouldRetry c i 0 = (Err ErrOutOfRetries, 0, [])"
| "retry_loop intn f shouldRetry c i (Suc n) =
     (case f i of
        None \<Rightarrow> (Ok (), 1, [])
      | Some err \<Rightarrow>
          if \<not> shouldRetry err then (Err (RequestError err), 1, [])
          else if int i = MaxRetries c - 1 then
            (let (res, calls, waits) = retry_loop intn f shouldRetry c (Suc i) n in (res, Suc calls, waits))
          else case WaitTime (intn i) (MinWait c) (MinWait c) (int i) of
              Ok d \<Rightarrow> (let (res, calls, waits) = retry_loop intn f shouldRetry c (Suc i) n in (res, Suc calls, d # waits))
            | Err e \<Rightarrow> (Err e, 1, [])
            | Panic p \<Rightarrow> (Panic p, 1, []))"

definition RetryFunc ::
  "(nat \<Rightarrow> int \<Rightarrow> int) \<Rightarrow> (nat \<Rightarrow> string option) \<Rightarrow> (string \<Rightarrow> bool) \<Rightarrow> retry_config \<Rightarrow>
   (retry_error, unit) outcome \<times> nat \<times> int list" where
  "RetryFunc intn f shouldRetry c = retry_loop intn f shouldRetry c 0 (nat (MaxRetries c))"

section \<open>The Retryer\<close>

text \<open>
  One reply of the \<open>select\<close> in \<open>enqueue\<close>'s inner loop: the request's context is done, or the
  limiter fails or says how long to wait for a token.
\<close>

datatype poll = CtxDone string | LimiterError string | Tokens int

text \<open>
  Serving one pending request: the error sent on \<open>pending.done\<close> (none when it is closed without
  one), the time waited and the replies left. \<open>None\<close> means that it is still waiting after these
  replies.
\<close>

fun msgLoop :: "int \<Rightarrow> poll list \<Rightarrow> (string option \<times> int \<times> poll list) option" where
  "msgLoop waited [] = None"
| "msgLoop waited (CtxDone e # ps) = Some (Some e, waited, ps)"
| "msgLoop waited (LimiterError e # ps) = Some (Some e, waited, ps)"
| "msgLoop waited (Tokens w # ps) = (if w \<le> 0 then Some (None, waited, ps) else msgLoop (waited + w) ps)"

definition Retryer_wait :: "poll list \<Rightarrow> (string option \<times> int \<times> poll list) option" where
  "Retryer_wait ps = msgLoop 0 ps"

text \<open>\<open>do\<close> drops what the second and later \<open>wait\<close> return. The number is the calls to the client.\<close>

function Retryer_do ::
  "(nat \<Rightarrow> int \<Rightarrow> int) \<Rightarrow> (nat \<Rightarrow> 'r http_result) \<Rightarrow> retry_config \<Rightarrow> nat \<Rightarrow> poll list \<Rightarrow>
   ((retry_error, 'r) outcome \<times> nat) option" where
  "Retryer_do intn client c retryCount ps =
     (case client retryCount of
        Failed e \<Rightarrow> Some (Err (RequestError e), 1)
      | Responded status resp \<Rightarrow>
          if status \<noteq> 429 then Some (Ok resp, 1)
          else if MaxRetries c \<le> int retryCount then Some (Err ErrOutOfRetries, 1)
          else case WaitTime (intn retryCount) (MinWait c) (MaxWait c) (int (Suc retryCount)) of
              Ok d \<Rightarrow> (case Retryer_wait ps of
                  None \<Rightarrow> None
                | Some (ignored, waited, ps') \<Rightarrow>
                    map_option (\<lambda>(res, calls). (res, Suc calls)) (Retryer_do intn client c (Suc retryCount) ps'))
            | Err e \<Rightarrow> Some (Err e, 1)
            | Panic p \<Rightarrow> Some (Panic p, 1))"
  by pat_completeness auto
termination
  by (relation "measure (\<lambda>(intn, client, c, retryCount, ps). nat (MaxRetries c - int retryCount))") auto

declare Retryer_do.simps [simp del]

definition DoRetry ::
  "(nat \<Rightarrow> int \<Rightarrow> int) \<Rightarrow> (nat \<Rightarrow> 'r http_result) \<Rightarrow> retry_config \<Rightarrow> poll list \<Rightarrow>
   ((retry_error, 'r) outcome \<times> nat) option" where
  "DoRetry intn client c ps =
     (case Retryer_wait ps of
        None \<Rightarrow> None
      | Some (Some err, waited, ps') \<Rightarrow> Some (Err (LimiterFailed err), 0)
      | Some (None, waited, ps') \<Rightarrow> Retryer_do intn client c 0 ps')"

definition Retryer_Do ::
  "(nat \<Rightarrow> int \<Rightarrow> int) \<Rightarrow> (nat \<Rightarrow> 'r http_result) \<Rightarrow> poll list \<Rightarrow> ((retry_error, 'r) outcome \<times> nat) option" where
  "Retryer_Do intn client ps = DoRetry intn client DefaultRetry ps"

section \<open>Lemmas\<close>

lemma int64_of_double: "0 \<le> r \<Longrightarrow> r < 2 ^ 62 \<Longrightarrow> int64_of (r * 2) = r * 2"
  by (rule int64_of_id) auto

lemma doubled_power: "0 \<le> r \<Longrightarrow> r * 2 ^ n < 2 ^ 62 \<Longrightarrow> doubled n r = r * 2 ^ n"
proof (induction n arbitrary: r)
  case (Suc n)
  have "r * 2 * 2 ^ n < 2 ^ 62" using Suc.prems(2) by (simp add: mult.assoc)
  moreover have "r * 1 \<le> r * 2 ^ Suc n" using Suc.prems(1) by (intro mult_left_mono one_le_power) auto
  then have "int64_of (r * 2) = r * 2"
    using Suc.prems by (intro int64_of_double) linarith+
  ultimately show ?case using Suc by simp
qed simp

definition fair_intn :: "(int \<Rightarrow> int) \<Rightarrow> bool" where
  "fair_intn intn \<longleftrightarrow> (\<forall>n>0. 0 \<le> intn n \<and> intn n < n)"

definition fair_random :: "(nat \<Rightarrow> int \<Rightarrow> int) \<Rightarrow> bool" where
  "fair_random intn \<longleftrightarrow> (\<forall>k. fair_intn (intn k))"

lemma fair_randomD: "fair_random intn \<Longrightarrow> fair_intn (intn k)"
  by (simp add: fair_random_def)

lemma go_quot_nonneg: "0 \<le> a \<Longrightarrow> go_quot a 10 = a div 10"
  by (cases "a = 0") (auto simp: go_quot_def sgn_if)

lemma WaitTime_eq:
  assumes "fair_intn intn" "0 \<le> minWait" "minWait \<le> maxWait" "maxWait < 2 ^ 32" "0 < i" "i < 62"
  shows "\<exists>d. WaitTime intn minWait maxWait i = Ok (d * 1000000000) \<and> d \<le> maxWait
    \<and> min maxWait (minWait + 2 ^ nat i) \<le> d"
proof -
  let ?j = "intn (1 + maxWait div 10)"
  have j: "0 \<le> ?j" "?j < 1 + maxWait div 10" using assms by (auto simp: fair_intn_def)
  have "(2 :: int) ^ nat i < 2 ^ 62" using assms(5,6) by (intro power_strict_increasing) auto
  then have r: "doubled (nat i) 1 = 2 ^ nat i" "(2 :: int) ^ nat i < 2 ^ 62" by (simp_all add: doubled_power)
  have it: "int64_of (minWait + 2 ^ nat i + ?j) = minWait + 2 ^ nat i + ?j"
  proof (rule int64_of_id)
    have p: "(0 :: int) \<le> 2 ^ nat i" "maxWait div 10 \<le> maxWait" using assms by auto
    have "0 \<le> minWait + 2 ^ nat i + ?j" using p j assms(2) by linarith
    then show "- (2 ^ 63) \<le> minWait + 2 ^ nat i + ?j" by simp
    show "minWait + 2 ^ nat i + ?j < 2 ^ 63" using p r(2) j assms by simp
  qed
  let ?d = "if minWait + 2 ^ nat i + ?j < maxWait then minWait + 2 ^ nat i + ?j else maxWait"
  have d: "0 \<le> ?d" "?d \<le> maxWait" using j assms by auto
  then have "int64_of (?d * 1000000000) = ?d * 1000000000"
    using assms(4) by (intro int64_of_id) auto
  moreover have "WaitTime intn minWait maxWait i = Ok (int64_of (?d * 1000000000))"
    using assms r(1) it by (simp add: WaitTime_def go_quot_nonneg Let_def)
  moreover have "min maxWait (minWait + 2 ^ nat i) \<le> ?d" using j by auto
  ultimately show ?thesis using d(2) by metis
qed

text \<open>What an attempt gives the caller, when it was not rate limited.\<close>

fun limited :: "'r http_result \<Rightarrow> bool" where
  "limited (Failed e) = False"
| "limited (Responded status resp) = (status = 429)"

fun answer :: "'r http_result \<Rightarrow> (retry_error, 'r) outcome" where
  "answer (Failed e) = Err (RequestError e)"
| "answer (Responded status resp) = Ok resp"

definition sane_config :: "retry_config \<Rightarrow> bool" where
  "sane_config c \<longleftrightarrow> 0 \<le> MinWait c \<and> MinWait c \<le> MaxWait c \<and> MaxWait c < 2 ^ 32 \<and> MaxRetries c \<le> 61"

lemma WaitTime_sane:
  assumes "sane_config c" "fair_intn intn" "i \<le> MaxRetries c"
  shows "\<exists>d. WaitTime intn (MinWait c) (MaxWait c) i = Ok d \<and> 0 \<le> d \<and> d \<le> MaxWait c * 1000000000"
proof (cases "0 < i")
  case True
  then obtain d where "WaitTime intn (MinWait c) (MaxWait c) i = Ok (d * 1000000000)" "d \<le> MaxWait c"
    "min (MaxWait c) (MinWait c + 2 ^ nat i) \<le> d"
    using WaitTime_eq [of intn "MinWait c" "MaxWait c" i] assms by (auto simp: sane_config_def)
  moreover have "0 \<le> min (MaxWait c) (MinWait c + 2 ^ nat i)" using assms by (auto simp: sane_config_def)
  ultimately show ?thesis by auto
next
  case False
  with assms show ?thesis by (simp add: WaitTime_def sane_config_def)
qed

definition waits_ok :: "retry_config \<Rightarrow> int list \<Rightarrow> bool" where
  "waits_ok c waits \<longleftrightarrow> (\<forall>d\<in>set waits. 0 \<le> d \<and> d \<le> MaxWait c * 1000000000)"

lemma request_loop_spec:
  assumes "sane_config c" "fair_random intn" "int (i + n) \<le> MaxRetries c"
  shows "\<exists>waits. request_loop intn client c i n =
      (case find_index (\<lambda>k. \<not> limited (client k)) [i..<i + n] of
         None \<Rightarrow> (Err ErrOutOfRetries, n, waits)
       | Some k \<Rightarrow> (answer (client (i + k)), Suc k, waits))
    \<and> waits_ok c waits"
  using assms(3)
proof (induction n arbitrary: i)
  case (Suc n)
  have up: "[i..<i + Suc n] = i # [Suc i..<Suc i + n]" by (simp add: upt_conv_Cons del: upt_Suc)
  show ?case
  proof (cases "client i")
    case (Responded status resp)
    obtain d where d: "WaitTime (intn i) (MinWait c) (MaxWait c) (int i) = Ok d" "0 \<le> d" "d \<le> MaxWait c * 1000000000"
      using WaitTime_sane [OF assms(1) fair_randomD [OF assms(2)], of "int i" i] Suc.prems by auto
    obtain waits where "request_loop intn client c (Suc i) n =
      (case find_index (\<lambda>k. \<not> limited (client k)) [Suc i..<Suc i + n] of
         None \<Rightarrow> (Err ErrOutOfRetries, n, waits)
       | Some k \<Rightarrow> (answer (client (Suc i + k)), Suc k, waits))" "waits_ok c waits"
      using Suc.IH [of "Suc i"] Suc.prems by auto
    with d Responded show ?thesis unfolding up
      by (intro exI [of _ "if status = 429 then d # waits else []"])
        (auto simp: waits_ok_def simp del: upt_Suc split: option.splits)
  next
    case (Failed e)
    then show ?thesis unfolding up by (intro exI [of _ "[]"]) (simp add: waits_ok_def)
  qed
qed (simp add: waits_ok_def)

lemma find_index_upt:
  "find_index p [0..<n] = (if \<exists>k<n. p k then Some (LEAST k. p k) else None)"
proof (cases "\<exists>k<n. p k")
  case True
  then obtain j where j: "find_index p [0..<n] = Some j"
    using find_index_None [of p "[0..<n]"] by (cases "find_index p [0..<n]") auto
  have "j < n" "p j" "\<forall>i<j. \<not> p i" using find_index_Some [OF j] by auto
  then have "(LEAST k. p k) = j" by (metis Least_equality leI)
  with j True show ?thesis by simp
next
  case False
  then show ?thesis using find_index_None [of p "[0..<n]"] by auto
qed

section \<open>Properties\<close>

text \<open>\<open>RetryRequestWithRetry\<close> answers with the first of its attempts that is not rate limited,
  whatever that answer is, and makes no further call; when all \<open>MaxRetries\<close> are, it fails with
  \<open>ErrOutOfRetries\<close>. No sleep is longer than \<open>MaxWait\<close>.\<close>

theorem retry_request_first_answer:
  assumes "sane_config c" and "fair_random intn"
  shows "\<exists>waits. waits_ok c waits \<and>
    RetryRequestWithRetry intn client c =
      (if \<exists>k<nat (MaxRetries c). \<not> limited (client k)
       then (let k = LEAST k. \<not> limited (client k) in (answer (client k), Suc k, waits))
       else (Err ErrOutOfRetries, nat (MaxRetries c), waits))"
proof (cases "0 \<le> MaxRetries c")
  case True
  then show ?thesis
    using request_loop_spec [OF assms, where client = client and i = 0 and n = "nat (MaxRetries c)"]
    by (auto simp: RetryRequestWithRetry_def find_index_upt Let_def simp del: upt_Suc split: if_splits)
next
  case False
  then show ?thesis by (auto simp: RetryRequestWithRetry_def waits_ok_def intro!: exI [of _ "[]"])
qed

theorem retry_request_first_answer_witness:
  "\<exists>waits. RetryRequest (\<lambda>k n. 0) (\<lambda>k. Responded (if k < 2 then 429 else 200) k) = (Ok 2, 3, waits)"
proof -
  have c: "sane_config DefaultRetry" "fair_random (\<lambda>k n. 0)"
    by (auto simp: sane_config_def fair_random_def fair_intn_def DefaultRetry_def)
  have l: "(LEAST k. \<not> limited (Responded (if k < 2 then 429 else 200) k)) = (2 :: nat)"
    by (rule Least_equality) (auto split: if_splits)
  show ?thesis
    using retry_request_first_answer [OF c, of "\<lambda>k. Responded (if k < 2 then 429 else 200) k"]
    by (auto simp: RetryRequest_def l simp del: limited.simps) (auto simp: DefaultRetry_def intro!: exI [of _ 2])
qed

text \<open>C40: \<open>DoRetry\<close> returns as soon as the limiter has let it go \<open>MaxRetries + 1\<close> times, with a
  token or an error, and it never calls the client more than \<open>MaxRetries + 1\<close> times.\<close>

fun lets_go :: "poll \<Rightarrow> bool" where
  "lets_go (Tokens w) = (w \<le> 0)"
| "lets_go _ = True"

lemma msgLoop_lets_go:
  "0 < length (filter lets_go ps) \<Longrightarrow>
   \<exists>e w ps'. msgLoop waited ps = Some (e, w, ps') \<and> length (filter lets_go ps) = Suc (length (filter lets_go ps'))"
  by (induction waited ps rule: msgLoop.induct) auto

lemma Retryer_do_returns:
  assumes "sane_config c" "fair_random intn"
  shows "int retryCount \<le> MaxRetries c \<Longrightarrow> nat (MaxRetries c) - retryCount \<le> length (filter lets_go ps) \<Longrightarrow>
    \<exists>res calls. Retryer_do intn client c retryCount ps = Some (res, calls) \<and> calls \<le> Suc (nat (MaxRetries c) - retryCount)"
proof (induction "nat (MaxRetries c) - retryCount" arbitrary: retryCount ps)
  case 0
  then show ?case by (subst Retryer_do.simps) (auto split: http_result.splits)
next
  case (Suc n)
  have less: "int (Suc retryCount) \<le> MaxRetries c" using Suc(2) by (simp add: le_nat_iff)
  obtain d where d: "WaitTime (intn retryCount) (MinWait c) (MaxWait c) (int (Suc retryCount)) = Ok d"
    using WaitTime_sane [OF assms(1) fair_randomD [OF assms(2), of retryCount], of "int (Suc retryCount)"] Suc(2) less by auto
  obtain e w ps' where ps': "msgLoop 0 ps = Some (e, w, ps')" "length (filter lets_go ps) = Suc (length (filter lets_go ps'))"
    using msgLoop_lets_go [of ps 0] Suc(2,4) by fastforce
  obtain res calls where "Retryer_do intn client c (Suc retryCount) ps' = Some (res, calls)"
    "calls \<le> Suc (nat (MaxRetries c) - Suc retryCount)"
  proof -
    have "n = nat (MaxRetries c) - Suc retryCount" using Suc(2) by linarith
    moreover have "nat (MaxRetries c) - Suc retryCount \<le> length (filter lets_go ps')"
      using Suc(4) ps'(2) by linarith
    ultimately show ?thesis using Suc(1) [OF _ less, of ps'] that by blast
  qed
  with d ps'(1) Suc(2) show ?case
    by (subst Retryer_do.simps) (auto simp: Retryer_wait_def split: http_result.splits)
qed

theorem retryer_returns:
  assumes "sane_config c" and "fair_random intn" and "0 \<le> MaxRetries c"
    and "nat (MaxRetries c) < length (filter lets_go ps)"
  shows "\<exists>res calls. DoRetry intn client c ps = Some (res, calls) \<and> int calls \<le> MaxRetries c + 1"
proof -
  obtain e w ps' where ps': "msgLoop 0 ps = Some (e, w, ps')" "length (filter lets_go ps) = Suc (length (filter lets_go ps'))"
    using msgLoop_lets_go [of ps 0] assms(4) by fastforce
  obtain res calls where "Retryer_do intn client c 0 ps' = Some (res, calls)" "calls \<le> Suc (nat (MaxRetries c))"
    using Retryer_do_returns [OF assms(1,2), where retryCount = 0 and ps = ps' and client = client] ps'(2) assms(3,4) by auto
  then show ?thesis using ps'(1) assms(3)
    by (cases e) (auto simp: DoRetry_def Retryer_wait_def)
qed

theorem retryer_returns_witness:
  "\<exists>res calls. Retryer_Do (\<lambda>k n. 0) (\<lambda>k. Responded 429 ()) (replicate 9 (Tokens 0)) = Some (res, calls) \<and> int calls \<le> 9"
proof -
  have "sane_config DefaultRetry" "fair_random (\<lambda>k n. 0)"
    by (auto simp: sane_config_def fair_random_def fair_intn_def DefaultRetry_def)
  from retryer_returns [OF this, of "replicate 9 (Tokens 0)" "\<lambda>k. Responded 429 ()"] show ?thesis
    by (simp add: DefaultRetry_def Retryer_Do_def eval_nat_numeral)
qed

text \<open>After a rate-limited response the \<open>Retryer\<close> sends the request again even when its
  second wait failed, because the limiter was down or the caller gave up: \<open>do\<close> drops that error.\<close>

theorem retryer_drops_limiter_errors:
  assumes "sane_config c" "fair_intn (intn 0)" "1 \<le> MaxRetries c"
    and "client 0 = Responded 429 r0" and "client 1 = Responded 200 r1"
    and "p = CtxDone e \<or> p = LimiterError e"
  shows "DoRetry intn client c (Tokens 0 # p # ps) = Some (Ok r1, 2)
    \<and> DoRetry intn client c (p # ps) = Some (Err (LimiterFailed e), 0)"
proof -
  obtain d where "WaitTime (intn 0) (MinWait c) (MaxWait c) 1 = Ok d"
    using WaitTime_sane [OF assms(1,2), of 1] assms(3) by auto
  then show ?thesis using assms(3-6)
    by (auto simp: DoRetry_def Retryer_wait_def Retryer_do.simps [of intn client c 0]
        Retryer_do.simps [of intn client c "Suc 0"])
qed

theorem retryer_drops_limiter_errors_witness:
  "Retryer_Do (\<lambda>k n. 0) (\<lambda>k. Responded (if k = 0 then 429 else 200) k) [Tokens 0, CtxDone ''canceled''] = Some (Ok 1, 2)"
  using retryer_drops_limiter_errors [of DefaultRetry "\<lambda>k n. 0" "\<lambda>k. Responded (if k = 0 then 429 else 200) k"
      0 1 "CtxDone ''canceled''" "''canceled''" "[]"]
  by (simp add: sane_config_def fair_intn_def DefaultRetry_def Retryer_Do_def)

text \<open>\<open>RetryFunc\<close> passes \<open>MinWait\<close> for the longest wait too, so with \<open>DefaultRetry\<close> a rate
  limited call is repeated eight times without a pause, where \<open>RetryRequest\<close> backs off.\<close>

lemma WaitTime_default: "fair_intn intn \<Longrightarrow> i < 62 \<Longrightarrow> WaitTime intn 0 0 i = Ok 0"
  using WaitTime_eq [of intn 0 0 i] by (cases "0 < i") (auto simp: WaitTime_def)

lemma retry_loop_default:
  assumes "fair_random intn" "\<And>k. f k = Some e" "shouldRetry e"
  shows "i + n = 8 \<Longrightarrow> retry_loop intn f shouldRetry DefaultRetry i n = (Err ErrOutOfRetries, n, replicate (n - 1) 0)"
proof (induction n arbitrary: i)
  case (Suc n)
  then have IH: "retry_loop intn f shouldRetry DefaultRetry (Suc i) n = (Err ErrOutOfRetries, n, replicate (n - 1) 0)"
    by (intro Suc.IH) simp
  have last: "int i = MaxRetries DefaultRetry - 1 \<longleftrightarrow> n = 0" using Suc.prems by (auto simp: DefaultRetry_def)
  have wait: "WaitTime (intn i) (MinWait DefaultRetry) (MinWait DefaultRetry) (int i) = Ok 0"
    using WaitTime_default [OF fair_randomD [OF assms(1)], of "int i" i] Suc.prems by (simp add: DefaultRetry_def)
  show ?case
    unfolding retry_loop.simps(2) [of intn f shouldRetry DefaultRetry i n] IH last wait
    by (cases n) (simp_all only: assms(2), simp_all add: assms(3))
qed simp

theorem retry_func_never_waits:
  assumes "fair_random intn" and "\<And>k. f k = Some e" and "shouldRetry e"
  shows "RetryFunc intn f shouldRetry DefaultRetry = (Err ErrOutOfRetries, 8, replicate 7 0)"
  using retry_loop_default [of intn f e shouldRetry 0 8] assms by (simp add: RetryFunc_def DefaultRetry_def)

theorem retry_func_never_waits_witness:
  "RetryFunc (\<lambda>k n. 0) (\<lambda>k. Some ''429'') (\<lambda>e. e = ''429'') DefaultRetry = (Err ErrOutOfRetries, 8, replicate 7 0)"
  by (rule retry_func_never_waits) (auto simp: fair_random_def fair_intn_def)

end
