(* ===== verification/Gateways.thy ===== *)
theory Gateways
  imports Go_Values
begin

text \<open>
  Gateway addresses: service/rpc/ipfs/ipfs.go and service/rpc/arweave/arweave.go rewrite \<open>ipfs://\<close>
  and \<open>ar://\<close> URIs to URLs of HTTP gateways, and ask several IPFS nodes at once for a path.
  \<open>parse\<close> stands for \<open>net/url.Parse\<close>: the scheme and path of a URL, or an error. What a node
  answers is an argument; answers of racing requests come in the order of their arrival.
\<close>

section \<open>IPFS addresses\<close>

definition standardizeQueryParams :: "string \<Rightarrow> string" where
  "standardizeQueryParams uri =
     (case str_index uri ''?'' of
        Some paramIdx \<Rightarrow>
          if \<not> str_contains uri ''/?'' then take paramIdx uri @ ''/?'' @ drop (paramIdx + 1) uri else uri
      | None \<Rightarrow> uri)"

definition ipfs_pathURL :: "string \<Rightarrow> string \<Rightarrow> string" where
  "ipfs_pathURL host uri = host @ ''/ipfs/'' @ standardizeQueryParams uri"

definition ipfs_uriFrom :: "string \<Rightarrow> string" where
  "ipfs_uriFrom u =
     (let u1 = trim_prefix (trim_prefix (trim_space u) ''ipfs://'') ''https://'' in
      case str_index u1 ''/ipfs/'' of Some pathIdx \<Rightarrow> drop (pathIdx + 6) u1 | None \<Rightarrow> u1)"

definition PathGatewayFrom :: "string \<Rightarrow> string \<Rightarrow> string" where
  "PathGatewayFrom gatewayHost ipfsURL = ipfs_pathURL gatewayHost (ipfs_uriFrom ipfsURL)"

definition nodeIpfsIO :: string where "nodeIpfsIO = ''https://ipfs.io''"
definition nodeFxHash :: string where "nodeFxHash = ''https://gateway.fxhash.xyz''"

definition DefaultGatewayFrom :: "string \<Rightarrow> string" where
  "DefaultGatewayFrom ipfsURL = PathGatewayFrom nodeIpfsIO ipfsURL"

definition IsIpfsProtoURL :: "string \<Rightarrow> bool" where
  "IsIpfsProtoURL ipfsURL = has_prefix ipfsURL ''ipfs://''"

definition IsIpfsGatewayURL :: "(string \<Rightarrow> (string \<times> string) option) \<Rightarrow> string \<Rightarrow> bool" where
  "IsIpfsGatewayURL parse ipfsURL =
     (case parse ipfsURL of
        None \<Rightarrow> False
      | Some (scheme, path) \<Rightarrow> if scheme \<noteq> ''https'' then False else has_prefix path ''/ipfs'')"

definition IsIpfsURL :: "(string \<Rightarrow> (string \<times> string) option) \<Rightarrow> string \<Rightarrow> bool" where
  "IsIpfsURL parse ipfsURL = (IsIpfsProtoURL ipfsURL \<or> IsIpfsGatewayURL parse ipfsURL)"

definition BestGatewayNodeFrom :: "(string \<Rightarrow> (string \<times> string) option) \<Rightarrow> string \<Rightarrow> bool \<Rightarrow> string" where
  "BestGatewayNodeFrom parse ipfsURL isFxHash =
     (if \<not> IsIpfsURL parse ipfsURL then ipfsURL
      else if isFxHash then PathGatewayFrom nodeFxHash ipfsURL
      else if has_prefix ipfsURL ''https://gallery.infura-ipfs.io'' then DefaultGatewayFrom ipfsURL
      else if IsIpfsGatewayURL parse ipfsURL then ipfsURL
      else DefaultGatewayFrom ipfsURL)"

definition isInfura :: "string \<Rightarrow> bool" where
  "isInfura gateway = str_contains gateway ''infura''"

section \<open>Arweave addresses\<close>

definition ArweaveHost :: string where "ArweaveHost = ''https://arweave.net''"

definition IsArweaveURL :: "string \<Rightarrow> bool" where
  "IsArweaveURL u = (has_prefix u ''ar://'' \<or> has_prefix u ''arweave://'')"

definition arweave_uriFrom :: "string \<Rightarrow> string" where
  "arweave_uriFrom u = trim_prefix (trim_prefix (trim_space u) ''arweave://'') ''ar://''"

definition arweave_pathURL :: "string \<Rightarrow> string \<Rightarrow> string" where
  "arweave_pathURL host uri = host @ ''/'' @ uri"

definition arweave_DefaultGatewayFrom :: "string \<Rightarrow> string" where
  "arweave_DefaultGatewayFrom u = arweave_pathURL ArweaveHost (arweave_uriFrom u)"

definition arweave_BestGatewayNodeFrom :: "string \<Rightarrow> string" where
  "arweave_BestGatewayNodeFrom u = (if \<not> IsArweaveURL u then u else arweave_DefaultGatewayFrom u)"

section \<open>Racing requests\<close>

text \<open>What an HTTP request gives: a transport error, or a status and a body.\<close>

datatype 'b http_reply = NoReply string | Reply int 'b

text \<open>
  An infura node's 429 is wrapped with the nil error of the request that succeeded, so that
  reading the message of \<open>ErrInfuraQuotaExceeded\<close> dereferences nil.
\<close>

datatype node_error = NodeError string | ErrHTTP int string | ErrInfuraQuotaExceeded "string option"

definition HTTPReader_Do ::
  "(string \<Rightarrow> 'b http_reply) \<Rightarrow> string \<Rightarrow> string \<Rightarrow> (node_error, 'b) outcome" where
  "HTTPReader_Do get host path =
     (let url = ipfs_pathURL host path in
      case get url of
        NoReply e \<Rightarrow> Err (NodeError e)
      | Reply status body \<Rightarrow>
          if isInfura url \<and> status = 429 then Err (ErrInfuraQuotaExceeded None)
          else if status \<noteq> 200 then Err (ErrHTTP status url)
          else Ok body)"

definition IPFSReader_Do ::
  "(string \<Rightarrow> (string, 'b) outcome) \<Rightarrow> string \<Rightarrow> (node_error, 'b) outcome" where
  "IPFSReader_Do cat path =
     (case cat path of
        Ok r \<Rightarrow> Ok r
      | Err e \<Rightarrow>
          if isInfura path \<and> str_contains e ''transfer quota reached'' then Err (ErrInfuraQuotaExceeded (Some e))
          else Err (NodeError e)
      | Panic p \<Rightarrow> Panic p)"

fun node_error_text :: "node_error \<Rightarrow> (string, string) outcome" where
  "node_error_text (NodeError e) = Ok e"
| "node_error_text (ErrHTTP status url) = Ok (''HTTP Error Status - '' @ itoa status @ '' | URL - '' @ url)"
| "node_error_text (ErrInfuraQuotaExceeded (Some e)) = Ok (''quota exceeded: '' @ e)"
| "node_error_text (ErrInfuraQuotaExceeded None) = Panic ''nil pointer dereference''"

text \<open>
  \<open>util.FirstNonErrorWithValue\<close> on the answers in their order of arrival, or the end of the
  context before the next one. With no run at all it gives the zero value. The errors of a failed
  group are joined; here they are listed. \<open>None\<close>: still waiting.
\<close>

datatype ('e, 'a) arrival = Answer "('e, 'a) outcome" | Cancelled 'e

fun first_value ::
  "nat \<Rightarrow> ('e \<Rightarrow> bool) \<Rightarrow> 'e list \<Rightarrow> ('e, 'a) arrival list \<Rightarrow> ('e list, 'a) outcome option" where
  "first_value runs returnOnError errs [] = (if runs \<le> length errs then Some (Err errs) else None)"
| "first_value runs returnOnError errs (Cancelled e # as) = Some (Err [e])"
| "first_value runs returnOnError errs (Answer (Ok v) # as) = Some (Ok v)"
| "first_value runs returnOnError errs (Answer (Err e) # as) =
     (if returnOnError e then Some (Err [e]) else first_value runs returnOnError (errs @ [e]) as)"
| "first_value runs returnOnError errs (Answer (Panic p) # as) = Some (Panic p)"

definition FirstNonErrorWithValue ::
  "'a \<Rightarrow> ('e \<Rightarrow> bool) option \<Rightarrow> nat \<Rightarrow> ('e, 'a) arrival list \<Rightarrow> ('e list, 'a) outcome option" where
  "FirstNonErrorWithValue zero returnOnError runs arrivals =
     (if runs = 0 then Some (Ok zero)
      else first_value runs (case returnOnError of None \<Rightarrow> (\<lambda>e. False) | Some f \<Rightarrow> f) [] arrivals)"

text \<open>\<open>ipfs.GetResponse\<close> asks six nodes.\<close>

definition ipfs_GetResponse :: "'b \<Rightarrow> (node_error, 'b) arrival list \<Rightarrow> (node_error list, 'b) outcome option" where
  "ipfs_GetResponse zero arrivals = FirstNonErrorWithValue zero None 6 arrivals"

text \<open>
  \<open>firstNonError\<close> of service/rpc/rpc.go: its loop counts every answer twice, once in the \<open>for\<close>
  clause and once in the body.
\<close>

fun firstNonError_loop ::
  "nat \<Rightarrow> nat \<Rightarrow> ('e, 'a) outcome option \<Rightarrow> ('e, 'a) outcome list \<Rightarrow> ('e, 'a) outcome option option" where
  "firstNonError_loop n i lastError [] = (if n \<le> i then Some lastError else None)"
| "firstNonError_loop n i lastError (r # rs) =
     (if n \<le> i then Some lastError
      else if is_ok r then Some (Some r)
      else firstNonError_loop n (i + 1 + 1) (Some r) rs)"

definition firstNonError :: "nat \<Rightarrow> ('e, 'a) outcome list \<Rightarrow> ('e, 'a) outcome option option" where
  "firstNonError n answers = firstNonError_loop n 0 None answers"

section \<open>Content headers\<close>

definition parseContentLength :: "string \<Rightarrow> (string, int) outcome" where
  "parseContentLength contentLength =
     (if contentLength \<noteq> [] then
        (case atoi contentLength of None \<Rightarrow> Err ''strconv.Atoi: invalid syntax'' | Some i \<Rightarrow> Ok i)
      else Ok 0)"

definition parseContentType :: "string \<Rightarrow> string" where
  "parseContentType contentType =
     (let t = trim_space contentType in
      case str_index t '';'' of Some whereCharset \<Rightarrow> take whereCharset t | None \<Rightarrow> t)"

text \<open>A reply's headers are its Content-Type and its Content-Length.\<close>

definition getHeaders :: "string \<Rightarrow> (string \<times> string) http_reply \<Rightarrow> (string, string \<times> string) outcome" where
  "getHeaders url reply =
     (case reply of
        NoReply e \<Rightarrow> Err e
      | Reply status headers \<Rightarrow>
          if 399 < status \<or> status < 200 then Err (''HTTP Error Status - '' @ itoa status @ '' | URL - '' @ url) else Ok headers)"

definition content_header :: "string \<Rightarrow> (string \<times> string) http_reply \<Rightarrow> (string, string \<times> int) outcome" where
  "content_header url reply =
     bind_o (getHeaders url reply) (\<lambda>(contentType, contentLength).
       map_o (\<lambda>n. (parseContentType contentType, n)) (parseContentLength contentLength))"

text \<open>The HEAD and GET requests for the headers, in the order in which their replies arrive.\<close>

definition getContentHeaders ::
  "string \<Rightarrow> (string \<times> string) http_reply list \<Rightarrow> (string, string \<times> int) outcome option option" where
  "getContentHeaders url replies = firstNonError 2 (map (content_header url) replies)"

section \<open>Lemmas\<close>

lemma str_index_None: "str_index s sub = None \<longleftrightarrow> \<not> str_contains s sub"
  by (simp add: str_contains_def)

lemma str_index_append_none:
  assumes "sub = c # cs" "c \<notin> set a"
  shows "str_index (a @ s) sub = map_option ((+) (length a)) (str_index s sub)"
  using assms(2)
proof (induction a)
  case Nil
  then show ?case by (simp add: option.map_ident)
next
  case (Cons b a)
  then have "\<not> has_prefix (b # a @ s) sub" using assms(1) by (auto simp: has_prefix_iff)
  with Cons show ?case by (simp add: option.map_comp comp_def)
qed

lemma str_index_self: "str_index (sub @ s) sub = Some 0"
  using has_prefix_self [of sub s] by (cases "sub @ s") auto

lemma firstNonError_loop_spec:
  "n \<le> i + 2 * length rs \<Longrightarrow>
   firstNonError_loop n i last_err rs =
     (case filter is_ok (take ((n - i + 1) div 2) rs) of
        r # _ \<Rightarrow> Some (Some r)
      | [] \<Rightarrow> Some (if n \<le> i then last_err else Some (rs ! ((n - i + 1) div 2 - 1))))"
proof (induction n i last_err rs rule: firstNonError_loop.induct)
  case (2 n i lastError r rs)
  show ?case
  proof (cases "n \<le> i \<or> is_ok r")
    case True
    then show ?thesis by (auto simp: take_Cons' split: if_splits)
  next
    case False
    define k where "k = (n - (i + 2) + 1) div 2"
    consider "n = i + 1" | "n = i + 2" | j where "n = i + 2 + Suc j"
      using False by (metis Suc_eq_plus1 add_2_eq_Suc' le_neq_implies_less less_imp_Suc_add linorder_not_le
          add_Suc_right not_less_eq nat_less_le)
    then have k: "(n - i + 1) div 2 = Suc k \<and> (n \<le> i + 2 \<longleftrightarrow> k = 0)"
      by cases (simp_all add: k_def)
    moreover have "firstNonError_loop n (i + 2) (Some r) rs =
      (case filter is_ok (take k rs) of r # _ \<Rightarrow> Some (Some r)
       | [] \<Rightarrow> Some (if n \<le> i + 2 then Some r else Some (rs ! (k - 1))))"
    proof -
      have e: "i + 1 + 1 = i + 2" by simp
      show ?thesis using "2.IH" [unfolded e] "2.prems" False unfolding k_def by simp
    qed
    ultimately show ?thesis using False
      by (cases k) (auto simp: k split: list.splits)
  qed
qed simp

lemma firstNonError_spec:
  "length answers = n \<Longrightarrow>
   firstNonError n answers =
     (case filter is_ok (take ((n + 1) div 2) answers) of
        r # _ \<Rightarrow> Some (Some r)
      | [] \<Rightarrow> Some (if n = 0 then None else Some (answers ! ((n + 1) div 2 - 1))))"
  using firstNonError_loop_spec [of n 0 answers None]
  by (simp add: firstNonError_def split: list.splits)

lemma first_value_spec:
  "length errs + length answers = runs \<Longrightarrow> (\<And>a. a \<in> set answers \<Longrightarrow> \<not> is_panic a) \<Longrightarrow>
   first_value runs (\<lambda>e. False) errs (map Answer answers) =
     (case filter is_ok answers of
        r # _ \<Rightarrow> Some (map_err (\<lambda>e. []) r)
      | [] \<Rightarrow> Some (Err (errs @ map (\<lambda>a. case a of Err e \<Rightarrow> e) answers)))"
proof (induction answers arbitrary: errs)
  case (Cons a answers)
  show ?case
  proof (cases a)
    case (Err e)
    then show ?thesis using Cons.IH [of "errs @ [e]"] Cons.prems by (auto split: list.splits elim!: is_ok.elims)
  next
    case (Panic p)
    then show ?thesis using Cons.prems(2) [of a] by simp
  qed simp
qed simp

section \<open>Properties\<close>

text \<open>\<open>firstNonError\<close> looks at only half of the answers: of \<open>n\<close> it returns the first success
  among the first \<open>(n + 1) div 2\<close> to arrive and an error when these all failed, even if a later
  one succeeds, so that a failed HEAD hides the headers of a successful GET.
  \<open>FirstNonErrorWithValue\<close> returns the first success of all.\<close>

theorem first_non_error_gives_up_early:
  assumes "length answers = n" and "\<And>a. a \<in> set answers \<Longrightarrow> \<not> is_panic a" and "0 < n"
  shows "(firstNonError n answers = Some (Some (Ok v)) \<longleftrightarrow>
      (\<exists>as. filter is_ok (take ((n + 1) div 2) answers) = Ok v # as))
    \<and> (FirstNonErrorWithValue zero None n (map Answer answers) = Some (Ok v) \<longleftrightarrow>
      (\<exists>as. filter is_ok answers = Ok v # as))
    \<and> (content_header url r1 = Err e \<longrightarrow> getContentHeaders url [r1, r2] = Some (Some (Err e)))"
proof -
  have "\<not> is_ok (answers ! ((n + 1) div 2 - 1))" if "filter is_ok (take ((n + 1) div 2) answers) = []"
  proof -
    have "(n + 1) div 2 - 1 < (n + 1) div 2" "(n + 1) div 2 - 1 < length answers" using assms by auto
    then have "answers ! ((n + 1) div 2 - 1) \<in> set (take ((n + 1) div 2) answers)"
      by (auto simp: in_set_conv_nth intro!: exI [of _ "(n + 1) div 2 - 1"])
    with that show ?thesis by (metis filter_empty_conv)
  qed
  then have "firstNonError n answers = Some (Some (Ok v)) \<longleftrightarrow> (\<exists>as. filter is_ok (take ((n + 1) div 2) answers) = Ok v # as)"
    using assms(3) by (auto simp: firstNonError_spec [OF assms(1)] split: list.splits)
  moreover have "FirstNonErrorWithValue zero None n (map Answer answers) = Some (Ok v) \<longleftrightarrow> (\<exists>as. filter is_ok answers = Ok v # as)"
    using first_value_spec [of "[]" answers n] assms
    by (auto simp: FirstNonErrorWithValue_def map_err_eq_Ok split: list.splits)
  moreover have "content_header url r1 = Err e \<longrightarrow> getContentHeaders url [r1, r2] = Some (Some (Err e))"
    by (simp add: getContentHeaders_def firstNonError_def)
  ultimately show ?thesis by blast
qed

theorem first_non_error_gives_up_early_witness:
  "getContentHeaders ''u'' [Reply 405 ([], []), Reply 200 (''image/png'', ''7'')] \<noteq> Some (Some (Ok (''image/png'', 7)))
   \<and> FirstNonErrorWithValue ([], 0) None 2 [Answer (Err ''405''), Answer (Ok (''image/png'', 7 :: int))]
     = Some (Ok (''image/png'', 7))"
proof -
  let ?answers = "[Err ''405'', Ok (''image/png'', 7 :: int)]"
  have e: "\<exists>e. content_header ''u'' (Reply 405 ([], [])) = Err e"
    by (simp add: content_header_def getHeaders_def)
  note T = first_non_error_gives_up_early [of ?answers 2 "(''image/png'', 7)" "([], 0)" "''u''" "Reply 405 ([], [])"]
  have a: "length ?answers = 2" "\<And>a. a \<in> set ?answers \<Longrightarrow> \<not> is_panic a" by auto
  show ?thesis using T [OF a] e by auto
qed

text \<open>However an IPFS path is written, with the protocol or as the URL of any gateway, a
  gateway asks for it under the same URL; and putting a slash before the query is idempotent.\<close>

theorem gateway_paths_agree:
  assumes "\<not> str_contains p ''/ipfs/''" and "trim_space (''ipfs://'' @ p) = ''ipfs://'' @ p"
    and "trim_space (''https://'' @ h @ ''/ipfs/'' @ p) = ''https://'' @ h @ ''/ipfs/'' @ p"
    and "CHR ''/'' \<notin> set h" and "\<not> has_prefix p ''https://''"
  shows "PathGatewayFrom gw (''ipfs://'' @ p) = gw @ ''/ipfs/'' @ standardizeQueryParams p
    \<and> PathGatewayFrom gw (''https://'' @ h @ ''/ipfs/'' @ p) = gw @ ''/ipfs/'' @ standardizeQueryParams p
    \<and> standardizeQueryParams (standardizeQueryParams p) = standardizeQueryParams p"
proof -
  have "str_index p ''/ipfs/'' = None" using assms(1) by (simp add: str_index_None)
  moreover have "trim_prefix (''ipfs://'' @ p) ''ipfs://'' = p" by (rule trim_prefix_append)
  ultimately have "ipfs_uriFrom (''ipfs://'' @ p) = p"
    using assms(5) by (simp only: ipfs_uriFrom_def assms(2) Let_def) (simp add: trim_prefix_def)
  moreover have "\<not> has_prefix (''https://'' @ h @ ''/ipfs/'' @ p) ''ipfs://''" by simp
  then have "trim_prefix (''https://'' @ h @ ''/ipfs/'' @ p) ''ipfs://'' = ''https://'' @ h @ ''/ipfs/'' @ p"
    by (simp only: trim_prefix_def if_False)
  then have "ipfs_uriFrom (''https://'' @ h @ ''/ipfs/'' @ p) = p"
    using str_index_append_none [of "''/ipfs/''" "CHR ''/''" "''ipfs/''" h "''/ipfs/'' @ p"] assms(4)
    by (simp only: ipfs_uriFrom_def assms(3) Let_def trim_prefix_append) (simp add: str_index_self [of "''/ipfs/''" p, simplified])
  moreover have "standardizeQueryParams (standardizeQueryParams p) = standardizeQueryParams p"
  proof (cases "str_index p ''?'' \<noteq> None \<and> \<not> str_contains p ''/?''")
    case True
    then obtain i where "standardizeQueryParams p = take i p @ ''/?'' @ drop (i + 1) p"
      by (auto simp: standardizeQueryParams_def)
    then have "str_contains (standardizeQueryParams p) ''/?''" by (metis str_contains_iff)
    then show ?thesis by (simp add: standardizeQueryParams_def [of "standardizeQueryParams p"] split: option.splits)
  next
    case False
    then have "standardizeQueryParams p = p" by (auto simp: standardizeQueryParams_def split: option.splits)
    then show ?thesis by simp
  qed
  ultimately show ?thesis by (simp add: PathGatewayFrom_def ipfs_pathURL_def)
qed

theorem gateway_paths_agree_witness:
  "PathGatewayFrom nodeIpfsIO ''ipfs://Qm1?a=b'' = ''https://ipfs.io/ipfs/Qm1/?a=b''
   \<and> PathGatewayFrom nodeIpfsIO ''https://w3s.link/ipfs/Qm1?a=b'' = ''https://ipfs.io/ipfs/Qm1/?a=b''"
proof -
  have "\<not> str_contains ''Qm1?a=b'' ''/ipfs/''"
    "trim_space (''ipfs://'' @ ''Qm1?a=b'') = ''ipfs://'' @ ''Qm1?a=b''"
    "trim_space (''https://'' @ ''w3s.link'' @ ''/ipfs/'' @ ''Qm1?a=b'') = ''https://'' @ ''w3s.link'' @ ''/ipfs/'' @ ''Qm1?a=b''"
    "CHR ''/'' \<notin> set ''w3s.link''" "\<not> has_prefix ''Qm1?a=b'' ''https://''"
    by code_simp+
  moreover have "standardizeQueryParams ''Qm1?a=b'' = ''Qm1/?a=b''" by code_simp
  ultimately show ?thesis
    using gateway_paths_agree [of "''Qm1?a=b''" "''w3s.link''" nodeIpfsIO] by (simp add: nodeIpfsIO_def)
qed

end
