(* ===== verification/Uri_Data.thy ===== *)
theory Uri_Data
  imports Token_Uris Gateways Cursor
begin

text \<open>
  Reading what a token URI stands for: \<open>GetDataFromURIAsReader\<close> of service/rpc/rpc.go, with
  \<open>util.Base64Decode\<close> and \<open>util.RemoveBOM\<close>, the walk through an Arweave manifest, and the loops
  that repeat a rate-limited RPC call. The network, the image codecs and \<open>net/url\<close>'s query parser
  are the fields of an environment; base64 and percent decoding are defined.
\<close>

section \<open>Decoding\<close>

text \<open>\<open>base64.RawStdEncoding\<close>, \<open>StdEncoding\<close>, \<open>RawURLEncoding\<close> and \<open>URLEncoding\<close>.\<close>

definition raw_std_decode :: "string \<Rightarrow> byte list option" where
  "raw_std_decode s = (case b64_decode s of Ok bs \<Rightarrow> Some bs | _ \<Rightarrow> None)"

definition strip_padding :: "string \<Rightarrow> string" where
  "strip_padding s =
     (if has_suffix s ''=='' then take (length s - 2) s
      else if has_suffix s ''='' then take (length s - 1) s else s)"

definition std_decode :: "string \<Rightarrow> byte list option" where
  "std_decode s =
     (let t = filter (\<lambda>c. c \<noteq> CHR 0x0A \<and> c \<noteq> CHR 0x0D) s in
      if length t mod 4 = 0 then raw_std_decode (strip_padding t) else None)"

definition url_to_std :: "string \<Rightarrow> string option" where
  "url_to_std s =
     (if CHR ''+'' \<in> set s \<or> CHR ''/'' \<in> set s then None
      else Some (map (\<lambda>c. if c = CHR ''-'' then CHR ''+'' else if c = CHR ''_'' then CHR ''/'' else c) s))"

definition raw_url_decode :: "string \<Rightarrow> byte list option" where
  "raw_url_decode s = Option.bind (url_to_std s) raw_std_decode"

definition url_decode :: "string \<Rightarrow> byte list option" where
  "url_decode s = Option.bind (url_to_std s) std_decode"

fun Base64Decode :: "string \<Rightarrow> (string \<Rightarrow> byte list option) list \<Rightarrow> (string, byte list) outcome" where
  "Base64Decode s [] = Err ''illegal base64 data''"
| "Base64Decode s (dec # decs) = (case dec s of Some bs \<Rightarrow> Ok bs | None \<Rightarrow> Base64Decode s decs)"

definition RemoveBOM :: "byte list \<Rightarrow> byte list" where
  "RemoveBOM bs = (if 3 < length bs \<and> take 3 bs = [0xEF, 0xBB, 0xBF] then drop 3 bs else bs)"

text \<open>\<open>asString[strings.IndexByte(asString, ',')+1:]\<close>: the whole text when there is no comma.\<close>

definition after_comma :: "string \<Rightarrow> string" where
  "after_comma s = (case str_index s '','' of Some i \<Rightarrow> drop (i + 1) s | None \<Rightarrow> s)"

fun is_hex_digit :: "char \<Rightarrow> bool" where
  "is_hex_digit c = (char_digit 16 c \<noteq> None)"

fun needsUnescape :: "string \<Rightarrow> bool" where
  "needsUnescape (c # x # y # s) =
     (c = CHR 0x25 \<and> is_hex_digit x \<and> is_hex_digit y \<or> needsUnescape (x # y # s))"
| "needsUnescape _ = False"

text \<open>\<open>url.QueryUnescape\<close>.\<close>

fun QueryUnescape :: "string \<Rightarrow> string option" where
  "QueryUnescape [] = Some []"
| "QueryUnescape (c # s) =
     (if c = CHR 0x25 then
        (case s of
           x # y # t \<Rightarrow>
             (case (char_digit 16 x, char_digit 16 y) of
                (Some a, Some b) \<Rightarrow> map_option ((#) (char_of (16 * a + b))) (QueryUnescape t)
              | _ \<Rightarrow> None)
         | _ \<Rightarrow> None)
      else map_option ((#) (if c = CHR ''+'' then CHR '' '' else c)) (QueryUnescape s))"

section \<open>Reading a URI\<close>

text \<open>
  The environment: an HTTP GET, \<open>ipfs.GetResponse\<close>, \<open>https://arweave.net/<id>\<close>, decoding and
  re-encoding an image, the query parameter \<open>arg\<close> of a URL, and whether the context or the
  timeout ended the first read or the nested one before their data came.
\<close>

record uri_env =
  ue_get :: "string \<Rightarrow> string http_reply"
  ue_ipfs :: "string \<Rightarrow> (string, string) outcome"
  ue_arweave :: "string \<Rightarrow> (string, string) outcome"
  ue_image :: "URIType \<Rightarrow> byte list \<Rightarrow> (string, string) outcome"
  ue_arg :: "string \<Rightarrow> (string, string) outcome"
  ue_ended :: "bool \<Rightarrow> string option"

definition decode_base64_uri :: "string \<Rightarrow> string \<Rightarrow> (string, byte list) outcome" where
  "decode_base64_uri format s =
     map_err (\<lambda>e. ''error decoding base64 '' @ format @ ''data: '' @ e @ '' '' @ [CHR 0x0A, CHR 0x0A] @ after_comma s)
       (Base64Decode (after_comma s) [raw_std_decode, std_decode, raw_url_decode, url_decode])"

definition http_read :: "uri_env \<Rightarrow> string \<Rightarrow> (string, string) outcome" where
  "http_read env s =
     (case ue_get env s of
        NoReply e \<Rightarrow> Err e
      | Reply status body \<Rightarrow>
          if 399 < status \<or> status < 200 then Err (''HTTP Error Status - '' @ itoa status @ '' | URL - '' @ s)
          else Ok body)"

definition inline_data :: "string \<Rightarrow> string" where
  "inline_data s =
     (let t = (if needsUnescape s then (case QueryUnescape s of Some u \<Rightarrow> u | None \<Rightarrow> s) else s) in
      if has_prefix t ''data:'' \<and> str_contains t '','' then bytes_str (RemoveBOM (str_bytes (after_comma t)))
      else bytes_str (RemoveBOM (str_bytes t)))"

text \<open>The switch of the goroutine, which ends in an error or the data.\<close>

definition read_uri :: "uri_env \<Rightarrow> TokenURI \<Rightarrow> (string, string) outcome" where
  "read_uri env turi =
     (case TokenURI_Type turi of
        URITypeBase64JSON \<Rightarrow> map_o (\<lambda>bs. bytes_str (RemoveBOM bs)) (decode_base64_uri [] turi)
      | URITypeBase64SVG \<Rightarrow> map_o (\<lambda>bs. bytes_str (RemoveBOM bs)) (decode_base64_uri [] turi)
      | URITypeBase64HTML \<Rightarrow> map_o (\<lambda>bs. bytes_str (RemoveBOM bs)) (decode_base64_uri [] turi)
      | URITypeBase64WAV \<Rightarrow> map_o (\<lambda>bs. bytes_str (RemoveBOM bs)) (decode_base64_uri [] turi)
      | URITypeBase64MP3 \<Rightarrow> map_o (\<lambda>bs. bytes_str (RemoveBOM bs)) (decode_base64_uri [] turi)
      | URITypeBase64BMP \<Rightarrow> bind_o (decode_base64_uri ''bmp '' turi) (ue_image env URITypeBase64BMP)
      | URITypeBase64PNG \<Rightarrow> bind_o (decode_base64_uri ''png '' turi) (ue_image env URITypeBase64PNG)
      | URITypeBase64JPEG \<Rightarrow> bind_o (decode_base64_uri ''jpeg '' turi) (ue_image env URITypeBase64JPEG)
      | URITypeBase64GIF \<Rightarrow> bind_o (decode_base64_uri ''gif '' turi) (ue_image env URITypeBase64GIF)
      | URITypeArweave \<Rightarrow> ue_arweave env (GetURIPath turi True)
      | URITypeArweaveGateway \<Rightarrow> ue_arweave env (GetURIPath turi True)
      | URITypeIPFS \<Rightarrow> ue_ipfs env (GetURIPath turi True)
      | URITypeIPFSGateway \<Rightarrow>
          (case ue_ipfs env (GetURIPath turi False) of Ok r \<Rightarrow> Ok r | Panic p \<Rightarrow> Panic p | Err e \<Rightarrow> http_read env turi)
      | URITypeHTTP \<Rightarrow> http_read env turi
      | URITypeIPFSAPI \<Rightarrow> bind_o (ue_arg env turi) (ue_ipfs env)
      | URITypeJSON \<Rightarrow> Ok (inline_data turi)
      | URITypeSVG \<Rightarrow> Ok (inline_data turi)
      | _ \<Rightarrow> Ok turi)"

text \<open>
  \<open>FileHeaderReader.Headers\<close> peeks 512 bytes, or what fits the buffer, whose size is at least 16.
  A reader that turns out to hold another raw URI is read again, once. \<open>nested\<close> says which of the
  two reads this is.
\<close>

definition peek_header :: "nat \<Rightarrow> string \<Rightarrow> string" where
  "peek_header bufSize body = take (min 512 (max 16 bufSize)) body"

definition read_once :: "uri_env \<Rightarrow> bool \<Rightarrow> TokenURI \<Rightarrow> (string, string) outcome" where
  "read_once env nested turi = (case ue_ended env nested of Some e \<Rightarrow> Err e | None \<Rightarrow> read_uri env turi)"

definition GetDataFromURIAsReader ::
  "uri_env \<Rightarrow> TokenURI \<Rightarrow> MediaType \<Rightarrow> nat \<Rightarrow> bool \<Rightarrow> (string, string) outcome \<times> MediaType" where
  "GetDataFromURIAsReader env turi mediaType bufSize recurseRawReturns =
     (case read_once env False turi of
        Ok body \<Rightarrow>
          let uriType = TokenURI_Type (peek_header bufSize body) in
          if recurseRawReturns \<and> IsRaw uriType
          then (read_once env True body, ToMediaType uriType)
          else (Ok body, mediaType)
      | Err e \<Rightarrow> (Err e, mediaType)
      | Panic p \<Rightarrow> (Panic p, mediaType))"

section \<open>Arweave manifests\<close>

text \<open>
  \<open>GetArweaveData\<close> up to the last transaction of a path: \<open>tx i\<close> is the data of a transaction and
  \<open>manifest d\<close> the paths of a manifest. A path the manifest does not list has the empty ID.
\<close>

fun arweave_walk ::
  "(string \<Rightarrow> (string, string) outcome) \<Rightarrow> (string \<Rightarrow> (string, string \<rightharpoonup> string) outcome) \<Rightarrow> string \<Rightarrow> string list \<Rightarrow>
   (string, string \<times> string) outcome" where
  "arweave_walk tx manifest currentID [] = map_o (\<lambda>d. (currentID, d)) (tx currentID)"
| "arweave_walk tx manifest currentID (p # ps) =
     bind_o (tx currentID) (\<lambda>d.
     bind_o (manifest d) (\<lambda>paths.
       arweave_walk tx manifest (case paths p of Some i \<Rightarrow> i | None \<Rightarrow> []) ps))"

definition GetArweaveData ::
  "(string \<Rightarrow> (string, string) outcome) \<Rightarrow> (string \<Rightarrow> (string, string \<rightharpoonup> string) outcome) \<Rightarrow> string \<Rightarrow>
   (string, string \<times> string) outcome" where
  "GetArweaveData tx manifest i =
     (let splitPath = str_split i ''/'' in arweave_walk tx manifest (hd splitPath) (tl splitPath))"

section \<open>Repeated RPC calls\<close>

definition isRateLimitedError :: "string option \<Rightarrow> bool" where
  "isRateLimitedError err = (case err of Some e \<Rightarrow> str_contains e ''429 Too Many Requests'' | None \<Rightarrow> False)"

text \<open>
  \<open>RetryGetBlockNumber\<close>, \<open>RetryGetLogs\<close>, \<open>RetryGetTransaction\<close> and \<open>RetryGetBalanceOfERC20Token\<close>
  have one loop: \<open>call i\<close> is the \<open>i\<close>-th result and its error; the result is the last value and
  error, and the calls made. None of them sleeps.
\<close>

fun rpc_retry :: "(nat \<Rightarrow> 'a \<times> string option) \<Rightarrow> 'a \<times> string option \<Rightarrow> nat \<Rightarrow> nat \<Rightarrow> ('a \<times> string option) \<times> nat" where
  "rpc_retry call current i 0 = (current, i)"
| "rpc_retry call current i (Suc n) =
     (if \<not> isRateLimitedError (snd (call i)) then (call i, Suc i) else rpc_retry call (call i) (Suc i) n)"

definition RetryGetBlockNumber :: "(nat \<Rightarrow> int \<times> string option) \<Rightarrow> (int \<times> string option) \<times> nat" where
  "RetryGetBlockNumber call = rpc_retry call (0, None) 0 8"

definition RetryGetLogs :: "(nat \<Rightarrow> 'l list \<times> string option) \<Rightarrow> ('l list \<times> string option) \<times> nat" where
  "RetryGetLogs call = rpc_retry call ([], None) 0 8"

definition RetryGetTransaction :: "'t \<Rightarrow> int \<Rightarrow> (nat \<Rightarrow> 't \<times> string option) \<Rightarrow> ('t \<times> string option) \<times> nat" where
  "RetryGetTransaction zero maxRetries call = rpc_retry call (zero, None) 0 (nat maxRetries)"

fun padHex_n :: "string \<Rightarrow> nat \<Rightarrow> string" where
  "padHex_n h 0 = h"
| "padHex_n h (Suc k) = padHex_n (CHR ''0'' # h) k"

definition padHex :: "string \<Rightarrow> nat \<Rightarrow> string" where
  "padHex pHex pLength = padHex_n pHex (pLength - length pHex)"

text \<open>The value after the first match of the key: a key in the last place, or equal to a value, is
  taken for one too.\<close>

fun valFromSlice :: "string list \<Rightarrow> string \<Rightarrow> (string, string option) outcome" where
  "valFromSlice [] keyName = Ok None"
| "valFromSlice (key # s) keyName =
     (if key = keyName then (case s of v # _ \<Rightarrow> Ok (Some v) | [] \<Rightarrow> Panic ''index out of range'')
      else valFromSlice s keyName)"

section \<open>Lemmas\<close>

lemma json_data_uri_type: "TokenURI_Type (''data:application/json;base64,'' @ s) = URITypeBase64JSON"
proof -
  obtain t where "trim_space (''data:application/json;base64,'' @ s) = ''data:application/json;base64,'' @ t"
    using trim_space_prefix [of "''data:application/json;base64,''" s] by (auto simp: is_space_def)
  then show ?thesis by (simp only: TokenURI_Type_def Let_def) (simp add: base64_data_def)
qed

lemma inline_object_type:
  "TokenURI_Type (''{'' @ u @ ''}'') =
     (if str_contains (''{'' @ u @ ''}'') ''ipfs.io/api'' then URITypeIPFSAPI
      else if str_contains (''{'' @ u @ ''}'') ''/ipfs/'' then URITypeIPFSGateway
      else URITypeJSON)"
  by (simp only: TokenURI_Type_def Let_def trim_space_braces) (simp add: base64_data_def base64_svg_def)

lemma json_data_uri_bytes: "read_uri env (''data:application/json;base64,'' @ b64_encode bs) = Ok (bytes_str (RemoveBOM bs))"
proof -
  have "after_comma (''data:application/json;base64,'' @ b64_encode bs) = b64_encode bs"
    by (simp add: after_comma_def)
  moreover have "raw_std_decode (b64_encode bs) = Some bs" by (simp add: raw_std_decode_def b64_decode_encode)
  ultimately have "decode_base64_uri [] (''data:application/json;base64,'' @ b64_encode bs) = Ok bs"
    by (simp add: decode_base64_uri_def)
  then show ?thesis by (simp only: read_uri_def json_data_uri_type URIType.case map_o.simps)
qed

section \<open>Properties\<close>

text \<open>Reading a base64 JSON data URI gives back the bytes that were encoded, less a byte order
  mark, and keeps the media type it was asked for.\<close>

theorem base64_uri_round_trip:
  assumes "ue_ended env False = None"
  shows "GetDataFromURIAsReader env (''data:application/json;base64,'' @ b64_encode bs) mediaType bufSize False
    = (Ok (bytes_str (RemoveBOM bs)), mediaType)"
proof -
  have "read_once env False (''data:application/json;base64,'' @ b64_encode bs) = Ok (bytes_str (RemoveBOM bs))"
    by (simp only: read_once_def assms option.case json_data_uri_bytes)
  then show ?thesis by (simp only: GetDataFromURIAsReader_def outcome.case Let_def) simp
qed

definition offline_env :: uri_env where
  "offline_env = \<lparr>ue_get = (\<lambda>u. NoReply ''unsupported protocol scheme''), ue_ipfs = (\<lambda>p. Err ''invalid path''),
     ue_arweave = (\<lambda>p. Err ''down''), ue_image = (\<lambda>t bs. Err ''no codec''), ue_arg = (\<lambda>u. Ok []), ue_ended = (\<lambda>n. None)\<rparr>"

theorem base64_uri_round_trip_witness:
  "GetDataFromURIAsReader offline_env (''data:application/json;base64,'' @ b64_encode [0xEF, 0xBB, 0xBF, 0x7B, 0x7D])
     MediaTypeJSON 1024 False = (Ok (bytes_str [0x7B, 0x7D]), MediaTypeJSON)"
  using base64_uri_round_trip [of offline_env "[0xEF, 0xBB, 0xBF, 0x7B, 0x7D]" MediaTypeJSON 1024]
  by (simp add: offline_env_def RemoveBOM_def)

text \<open>Inline JSON metadata is returned as it is, unless it mentions an IPFS gateway anywhere, as
  in its image link: then the JSON text itself is asked for as an IPFS path and, when that fails,
  as a URL, whose error is the result.\<close>

theorem inline_json_with_gateway_link_lost:
  assumes "uri = ''{'' @ u @ ''}''" and "\<not> str_contains uri ''ipfs.io/api''" and "ue_ended env False = None"
    and "ue_ipfs env (GetURIPath uri False) = Err e1" and "ue_get env uri = NoReply e2"
  shows "GetDataFromURIAsReader env uri mediaType bufSize False =
    (if str_contains uri ''/ipfs/'' then Err e2 else Ok (inline_data uri), mediaType)"
  using assms(2-5) unfolding assms(1)
  by (simp only: GetDataFromURIAsReader_def read_once_def read_uri_def inline_object_type if_False option.case)
     (simp add: http_read_def)

theorem inline_json_with_gateway_link_lost_witness:
  "GetDataFromURIAsReader offline_env ''{image: https://w3s.link/ipfs/Qm1}'' MediaTypeJSON 1024 False
     = (Err ''unsupported protocol scheme'', MediaTypeJSON)
   \<and> GetDataFromURIAsReader offline_env ''{image: https://w3s.link/Qm1}'' MediaTypeJSON 1024 False
     = (Ok ''{image: https://w3s.link/Qm1}'', MediaTypeJSON)"
proof -
  have eqs: "''{image: https://w3s.link/ipfs/Qm1}'' = ''{'' @ ''image: https://w3s.link/ipfs/Qm1'' @ ''}''"
    "''{image: https://w3s.link/Qm1}'' = ''{'' @ ''image: https://w3s.link/Qm1'' @ ''}''" by simp_all
  have facts: "\<not> str_contains ''{image: https://w3s.link/ipfs/Qm1}'' ''ipfs.io/api''"
    "\<not> str_contains ''{image: https://w3s.link/Qm1}'' ''ipfs.io/api''"
    "str_contains ''{image: https://w3s.link/ipfs/Qm1}'' ''/ipfs/''"
    "\<not> str_contains ''{image: https://w3s.link/Qm1}'' ''/ipfs/''"
    "inline_data ''{image: https://w3s.link/Qm1}'' = ''{image: https://w3s.link/Qm1}''"
    by code_simp+
  have env: "ue_ended offline_env n = None" "ue_ipfs offline_env p = Err ''invalid path''"
    "ue_get offline_env s = NoReply ''unsupported protocol scheme''" for n p s
    by (simp_all add: offline_env_def)
  show ?thesis
    using inline_json_with_gateway_link_lost [OF eqs(1) facts(1) env]
      inline_json_with_gateway_link_lost [OF eqs(2) facts(2) env]
    by (simp only: facts if_True if_False simp_thms)
qed

end
