(* ===== verification/Validate.thy ===== *)
theory Validate
  imports Chains
begin

text \<open>
  The custom validators of validate/validate.go and the errors they are collected into. The
  validator library runs the tags: \<open>check v tag\<close> is the message of the failure it reports, if any.
  Field validators read their field as a string or an integer. \<open>parse_request\<close> and \<open>parse\<close> are
  \<open>net/url\<close>'s parsers, the second with the scheme and host it finds.
\<close>

section \<open>Usernames\<close>

definition bannedUsernames :: "string list" where
  "bannedUsernames =
    [''about'', ''account'', ''analytics'', ''artist'', ''artists'', ''auth'', ''blog'',
     ''bookmarks'', ''careers'', ''chain'', ''changelog'', ''collection'', ''collections'',
     ''community'', ''contact'', ''edit'', ''explore'', ''faq'', ''featured'', ''feed'', ''feeds'',
     ''gallery'', ''guestbook'', ''help'', ''home'', ''info'', ''investors'', ''latest'',
     ''maintenance'', ''members'', ''membership'', ''messages'', ''nft'', ''nfts'',
     ''notifications'', ''nuke'', ''password'', ''privacy'', ''profile'', ''search'', ''settings'',
     ''shop'', ''support'', ''team'', ''terms'', ''trending'', ''universal'', ''unsubscribe'',
     ''verify'', ''welcome'', ''zora'', ''404'']"

text \<open>\<open>^[\w.]*$\<close>: ASCII letters, digits, underscores and periods.\<close>

definition word_or_period :: "char \<Rightarrow> bool" where
  "word_or_period c =
     (let n = (of_char c :: nat) in
      48 \<le> n \<and> n \<le> 57 \<or> 65 \<le> n \<and> n \<le> 90 \<or> 97 \<le> n \<and> n \<le> 122 \<or> c = CHR ''_'' \<or> c = CHR ''.'')"

definition alphanumericUnderscoresPeriodsRegex :: "string \<Rightarrow> bool" where
  "alphanumericUnderscoresPeriodsRegex s = list_all word_or_period s"

definition is_separator :: "char \<Rightarrow> bool" where
  "is_separator r = (r = CHR ''.'' \<or> r = CHR ''_'')"

definition consecutivePeriodsOrUnderscores :: "string \<Rightarrow> bool" where
  "consecutivePeriodsOrUnderscores s =
     list_ex (\<lambda>i. is_separator (s ! i) \<and>
        (0 < i \<and> is_separator (s ! (i - 1)) \<or> i < length s - 1 \<and> is_separator (s ! (i + 1)))) [0..<length s]"

definition UsernameValidator :: "string \<Rightarrow> bool" where
  "UsernameValidator s =
     (if s = [] then True
      else if s \<in> set bannedUsernames then False
      else 2 \<le> length s \<and> length s \<le> 50 \<and> alphanumericUnderscoresPeriodsRegex s
        \<and> \<not> consecutivePeriodsOrUnderscores s)"

section \<open>Other fields\<close>

definition EthValidator :: "string \<Rightarrow> bool" where
  "EthValidator addr = (if addr = [] then True else length addr = 42 \<and> has_prefix addr ''0x'')"

definition SignatureValidator :: "string \<Rightarrow> bool" where
  "SignatureValidator sig = (if sig = [] then True else 80 \<le> length sig \<and> length sig \<le> 200)"

definition NonceValidator :: "string \<Rightarrow> bool" where
  "NonceValidator nonce = (if nonce = [] then True else 10 \<le> length nonce \<and> length nonce \<le> 150)"

definition HTTPValidator :: "(string \<Rightarrow> bool) \<Rightarrow> (string \<Rightarrow> (string \<times> string) option) \<Rightarrow> string \<Rightarrow> bool" where
  "HTTPValidator parse_request parse s =
     (if s = [] then True
      else if \<not> parse_request s then False
      else case parse s of None \<Rightarrow> False | Some (scheme, host) \<Rightarrow> scheme \<noteq> [] \<and> host \<noteq> [])"

definition SortedAscValidator :: "int list option \<Rightarrow> bool" where
  "SortedAscValidator field = (case field of Some s \<Rightarrow> sorted s | None \<Rightarrow> False)"

definition ChainValidator :: "int \<Rightarrow> bool" where
  "ChainValidator chain = (0 \<le> chain \<and> chain \<le> MaxChainValue)"

definition IsOptInRole :: "string \<Rightarrow> bool" where
  "IsOptInRole role = (role = ''BETA_TESTER'')"

definition IsValidPersona :: "string \<Rightarrow> bool" where
  "IsValidPersona persona =
     (persona = ''none'' \<or> persona = ''collector'' \<or> persona = ''creator'' \<or> persona = ''both'')"

text \<open>A reported field and the tag it failed.\<close>

definition ChainAddressValidator :: "ChainAddress \<Rightarrow> (string \<times> string) list" where
  "ChainAddressValidator chainAddress =
     (if length (ca_address chainAddress) = 0 then [(''Address'', ''required'')] else [])
     @ (if ca_chain chainAddress < 0 \<or> MaxChainValue < ca_chain chainAddress
        then [(''Chain'', ''valid_chain_type'')] else [])"

definition EventValidator :: "string \<Rightarrow> (string \<times> string) list" where
  "EventValidator action = (if action = [] then [(''Action'', ''required'')] else [])"

section \<open>Collected errors\<close>

record invalid_input =
  err_Parameters :: "string list"
  err_Reasons :: "string list"

definition err_Append :: "string \<Rightarrow> string \<Rightarrow> invalid_input \<Rightarrow> invalid_input" where
  "err_Append parameter reason e =
     e\<lparr>err_Parameters := err_Parameters e @ [parameter], err_Reasons := err_Reasons e @ [reason]\<rparr>"

text \<open>The fields come in the iteration order of the map.\<close>

fun validate_loop :: "('v \<Rightarrow> string \<Rightarrow> string option) \<Rightarrow> (string \<times> 'v \<times> string) list \<Rightarrow> invalid_input \<Rightarrow> bool \<Rightarrow>
   invalid_input \<times> bool" where
  "validate_loop check [] e found = (e, found)"
| "validate_loop check ((k, v, tag) # inputs) e found =
     (case check v tag of
        None \<Rightarrow> validate_loop check inputs e found
      | Some reason \<Rightarrow> validate_loop check inputs (err_Append k reason e) True)"

definition ValidateFields ::
  "('v \<Rightarrow> string \<Rightarrow> string option) \<Rightarrow> (string \<times> 'v \<times> string) list \<Rightarrow> invalid_input option" where
  "ValidateFields check inputs =
     (case validate_loop check inputs \<lparr>err_Parameters = [], err_Reasons = []\<rparr> False of
        (e, foundErrors) \<Rightarrow> if foundErrors then Some e else None)"

fun error_lines :: "string list \<Rightarrow> string list \<Rightarrow> string" where
  "error_lines (p # ps) (r # rs) = ''    parameter: '' @ p @ '', reason: '' @ r @ [CHR 0x0A] @ error_lines ps rs"
| "error_lines _ _ = []"

definition ErrInvalidInput_Error :: "invalid_input \<Rightarrow> (string, string) outcome" where
  "ErrInvalidInput_Error e =
     (if length (err_Reasons e) < length (err_Parameters e) then Panic ''index out of range''
      else Ok (''invalid input:'' @ [CHR 0x0A] @ error_lines (err_Parameters e) (err_Reasons e)))"

section \<open>Lemmas\<close>

lemma consecutive_iff:
  "consecutivePeriodsOrUnderscores s \<longleftrightarrow> (\<exists>i. Suc i < length s \<and> is_separator (s ! i) \<and> is_separator (s ! Suc i))"
proof
  assume "consecutivePeriodsOrUnderscores s"
  then obtain i where i: "i < length s" "is_separator (s ! i)"
    "0 < i \<and> is_separator (s ! (i - 1)) \<or> i < length s - 1 \<and> is_separator (s ! (i + 1))"
    by (auto simp: consecutivePeriodsOrUnderscores_def list_ex_iff)
  from i(3) show "\<exists>i. Suc i < length s \<and> is_separator (s ! i) \<and> is_separator (s ! Suc i)"
  proof
    assume "0 < i \<and> is_separator (s ! (i - 1))"
    with i show ?thesis by (intro exI [of _ "i - 1"]) simp
  next
    assume "i < length s - 1 \<and> is_separator (s ! (i + 1))"
    with i show ?thesis by (intro exI [of _ i]) auto
  qed
next
  assume "\<exists>i. Suc i < length s \<and> is_separator (s ! i) \<and> is_separator (s ! Suc i)"
  then obtain i where "Suc i < length s" "is_separator (s ! i)" "is_separator (s ! Suc i)" by blast
  then show "consecutivePeriodsOrUnderscores s"
    unfolding consecutivePeriodsOrUnderscores_def list_ex_iff by (intro bexI [of _ i]) auto
qed

lemma validate_loop_spec:
  "validate_loop check inputs e found =
     (let bad = filter (\<lambda>(k, v, tag). check v tag \<noteq> None) inputs in
      (\<lparr>err_Parameters = err_Parameters e @ map fst bad,
        err_Reasons = err_Reasons e @ map (\<lambda>(k, v, tag). the (check v tag)) bad\<rparr>, found \<or> bad \<noteq> []))"
  by (induction check inputs e found rule: validate_loop.induct) (auto simp: err_Append_def Let_def split: option.splits)

text \<open>The collected error always has a reason for every parameter, so that its message can be read.\<close>

lemma ValidateFields_error_text: "ValidateFields check inputs = Some e \<Longrightarrow> \<exists>t. ErrInvalidInput_Error e = Ok t"
  by (auto simp: ValidateFields_def validate_loop_spec ErrInvalidInput_Error_def Let_def split: if_splits)

lemma ValidateFields_reject: "(k, v, tag) \<in> set inputs \<Longrightarrow> check v tag \<noteq> None \<Longrightarrow> ValidateFields check inputs \<noteq> None"
  by (force simp: ValidateFields_def validate_loop_spec Let_def filter_empty_conv)

section \<open>Properties\<close>

text \<open>A non-empty username is accepted exactly when it is not reserved, has 2 to 50 characters,
  all of them letters, digits, underscores or periods, and no two of the last kinds in a row.\<close>

theorem username_rules:
  assumes "s \<noteq> []"
  shows "UsernameValidator s \<longleftrightarrow>
    s \<notin> set bannedUsernames \<and> 2 \<le> length s \<and> length s \<le> 50 \<and> list_all word_or_period s
    \<and> \<not> (\<exists>i. Suc i < length s \<and> s ! i \<in> {CHR ''.'', CHR ''_''} \<and> s ! Suc i \<in> {CHR ''.'', CHR ''_''})"
  using assms
  by (auto simp: UsernameValidator_def alphanumericUnderscoresPeriodsRegex_def consecutive_iff is_separator_def)

theorem username_rules_witness:
  "\<not> UsernameValidator ''a._b'' \<and> \<not> UsernameValidator ''team'' \<and> UsernameValidator ''a.b_c''"
proof -
  have "Suc 1 < length ''a._b'' \<and> ''a._b'' ! 1 \<in> {CHR ''.'', CHR ''_''} \<and> ''a._b'' ! Suc 1 \<in> {CHR ''.'', CHR ''_''}"
    by simp
  then have "\<not> UsernameValidator ''a._b''" using username_rules [of "''a._b''"] by blast
  moreover have "\<not> UsernameValidator ''team'' \<and> UsernameValidator ''a.b_c''" by code_simp
  ultimately show ?thesis by simp
qed

text \<open>The chain validator accepts Sepolia, and no other chain it accepts makes the server panic:
  a chain address is built for each of them, but for Sepolia the constructor panics.\<close>

theorem accepted_chain_panics:
  assumes "ChainValidator c" and "a \<noteq> []"
  shows "(is_panic (NewChainAddress a c) \<longleftrightarrow> c = ChainSepolia)
    \<and> ChainAddressValidator \<lparr>ca_addressSet = True, ca_chainSet = True, ca_address = a, ca_chain = c\<rparr> = []"
  using assms by (auto simp: NewChainAddress_panics L1Chains_def ChainValidator_def chain_defs ChainAddressValidator_def)

theorem accepted_chain_panics_witness:
  "ChainValidator ChainSepolia \<and> is_panic (NewChainAddress ''0xab'' ChainSepolia)"
proof -
  have "ChainValidator ChainSepolia" by (simp add: ChainValidator_def chain_defs)
  with accepted_chain_panics [OF this, of "''0xab''"] show ?thesis by simp
qed

end
