(* ===== verification/Sessions.thy ===== *)
theory Sessions
  imports Go_Values
begin

text \<open>
  Login sessions: service/auth/auth.go with the tokens of service/auth/jwt.go, the two session
  queries of db/gen/coredb/query.sql.go, and the forced-refresh times that service/redis/redis.go
  keeps. Times are nanoseconds; a JWT and redis keep whole seconds. A token is its claims: that
  only the server can make one, which the signature guarantees, is the guard of a request step.
  The errors that the libraries and the database may return are the fields of \<open>faults\<close>.
\<close>

type_synonym DBID = string
type_synonym Role = string

definition second :: int where "second = 1000000000"

definition unix :: "int \<Rightarrow> int" where "unix t = t div second"

definition minute :: int where "minute = 60 * second"

datatype auth_error =
    ErrNoCookie | ErrInvalidJWT | ErrSessionInvalidated | ErrMissingValues
  | ErrUserNotFound string | ErrAuthenticationFailed string | ErrOther string

section \<open>Tokens\<close>

record auth_claims =
  ac_user :: DBID
  ac_session :: DBID
  ac_refresh :: DBID
  ac_roles :: "Role list"
  ac_issued :: "int option"
  ac_expires :: int

record refresh_claims =
  rc_id :: DBID
  rc_parent :: DBID
  rc_user :: DBID
  rc_session :: DBID
  rc_issued :: "int option"
  rc_expires :: int

text \<open>\<open>AUTH_JWT_TTL\<close> and \<open>REFRESH_JWT_TTL\<close>, in seconds.\<close>

record auth_config =
  cfg_auth_ttl :: int
  cfg_refresh_ttl :: int

definition GenerateAuthToken ::
  "auth_config \<Rightarrow> int \<Rightarrow> DBID \<Rightarrow> DBID \<Rightarrow> DBID \<Rightarrow> Role list \<Rightarrow> auth_claims" where
  "GenerateAuthToken cfg now userID sessionID refreshID roles =
     \<lparr>ac_user = userID, ac_session = sessionID, ac_refresh = refreshID, ac_roles = roles,
      ac_issued = Some (unix now), ac_expires = unix (now + cfg_auth_ttl cfg * second)\<rparr>"

definition GenerateRefreshToken ::
  "auth_config \<Rightarrow> int \<Rightarrow> DBID \<Rightarrow> DBID \<Rightarrow> DBID \<Rightarrow> DBID \<Rightarrow> refresh_claims \<times> int" where
  "GenerateRefreshToken cfg now ID parentID userID sessionID =
     (\<lparr>rc_id = ID, rc_parent = parentID, rc_user = userID, rc_session = sessionID,
       rc_issued = Some (unix now), rc_expires = unix (now + cfg_refresh_ttl cfg * second)\<rparr>,
      now + cfg_refresh_ttl cfg * second)"

text \<open>A cookie of a request: missing or empty, no valid JWT, or a JWT with its claims.\<close>

datatype 'c cookie = NoCookie | BadToken | Token 'c

text \<open>\<open>jwt.ParseWithClaims\<close>: the signature holds, and now is before \<open>exp\<close> and not before \<open>iat\<close>.\<close>

definition live :: "int \<Rightarrow> int \<Rightarrow> int option \<Rightarrow> bool" where
  "live now expires issued = (now < expires * second \<and> (\<forall>i\<in>set_option issued. i * second \<le> now))"

fun getAndParseAuthToken :: "int \<Rightarrow> auth_claims cookie \<Rightarrow> (auth_error, auth_claims) outcome" where
  "getAndParseAuthToken now NoCookie = Err ErrNoCookie"
| "getAndParseAuthToken now BadToken = Err ErrInvalidJWT"
| "getAndParseAuthToken now (Token c) = (if live now (ac_expires c) (ac_issued c) then Ok c else Err ErrInvalidJWT)"

fun getAndParseRefreshToken :: "int \<Rightarrow> refresh_claims cookie \<Rightarrow> (auth_error, refresh_claims) outcome" where
  "getAndParseRefreshToken now NoCookie = Err ErrNoCookie"
| "getAndParseRefreshToken now BadToken = Err ErrInvalidJWT"
| "getAndParseRefreshToken now (Token c) = (if live now (rc_expires c) (rc_issued c) then Ok c else Err ErrInvalidJWT)"

section \<open>The session table and the refresh cache\<close>

text \<open>User agent, platform and operating system of a request.\<close>

type_synonym client = "string \<times> string \<times> string"

record session_row =
  ss_user_id :: DBID
  ss_created_at :: int
  ss_created_with :: client
  ss_last_refreshed :: int
  ss_last_client :: client
  ss_current_refresh_id :: DBID
  ss_active_until :: int
  ss_invalidated :: bool
  ss_last_updated :: int

text \<open>The rows with \<open>deleted = false\<close>: no query sets \<open>deleted\<close>.\<close>

type_synonym sessions = "DBID \<rightharpoonup> session_row"

definition UpsertSession ::
  "int \<Rightarrow> DBID \<Rightarrow> DBID \<Rightarrow> client \<Rightarrow> DBID \<Rightarrow> int \<Rightarrow> sessions \<Rightarrow> session_row \<times> sessions" where
  "UpsertSession now ID userID cl currentRefreshID activeUntil ss =
     (case ss ID of
        None \<Rightarrow>
          let r = \<lparr>ss_user_id = userID, ss_created_at = now, ss_created_with = cl, ss_last_refreshed = now,
                   ss_last_client = cl, ss_current_refresh_id = currentRefreshID, ss_active_until = activeUntil,
                   ss_invalidated = False, ss_last_updated = now\<rparr>
          in (r, ss(ID \<mapsto> r))
      | Some s \<Rightarrow>
          let r = (if ss_invalidated s then s
                   else s\<lparr>ss_last_refreshed := now, ss_last_client := cl, ss_current_refresh_id := currentRefreshID,
                          ss_last_updated := now, ss_active_until := max (ss_active_until s) activeUntil\<rparr>)
          in (r, ss(ID \<mapsto> r)))"

definition InvalidateSession :: "int \<Rightarrow> DBID \<Rightarrow> sessions \<Rightarrow> sessions" where
  "InvalidateSession now ID ss =
     (case ss ID of
        None \<Rightarrow> ss
      | Some s \<Rightarrow>
          if ss_invalidated s then ss
          else ss(ID \<mapsto> s\<lparr>ss_invalidated := True, ss_active_until := min (ss_active_until s) now, ss_last_updated := now\<rparr>))"

text \<open>A redis key: its Unix timestamp and the second at which it expires.\<close>

type_synonym refresh_cache = "DBID \<rightharpoonup> int \<times> int"

definition cache_get :: "int \<Rightarrow> refresh_cache \<Rightarrow> DBID \<Rightarrow> int option" where
  "cache_get now cache key =
     (case cache key of Some (ts, expires) \<Rightarrow> if now < expires * second then Some ts else None | None \<Rightarrow> None)"

definition SetTime :: "int \<Rightarrow> DBID \<Rightarrow> int \<Rightarrow> int \<Rightarrow> bool \<Rightarrow> refresh_cache \<Rightarrow> refresh_cache" where
  "SetTime now key value expiration onlyIfLater cache =
     (let entry = (unix value, unix (now + expiration)) in
      if \<not> onlyIfLater then cache(key \<mapsto> entry)
      else case cache_get now cache key of
          None \<Rightarrow> cache(key \<mapsto> entry)
        | Some current \<Rightarrow> if current < unix value then cache(key \<mapsto> entry) else cache)"

text \<open>The instant, in nanoseconds, that \<open>GetTime\<close> makes of the key.\<close>

definition GetTime :: "int \<Rightarrow> DBID \<Rightarrow> refresh_cache \<Rightarrow> int option" where
  "GetTime now key cache = map_option (\<lambda>ts. ts * second) (cache_get now cache key)"

section \<open>The request context\<close>

text \<open>
  The values under the context keys. \<open>clearSessionStateForCtx\<close> stores the untyped constant \<open>""\<close>,
  a \<open>string\<close> and not a \<open>persist.DBID\<close>, which the getters' type assertions do not accept.
\<close>

datatype id_value = AsDBID DBID | AsString string

record gin_ctx =
  cx_user :: "id_value option"
  cx_session :: "id_value option"
  cx_auth_error :: "auth_error option option"
  cx_authed :: bool
  cx_roles :: "Role list option"

definition new_ctx :: gin_ctx where
  "new_ctx = \<lparr>cx_user = None, cx_session = None, cx_auth_error = None, cx_authed = False, cx_roles = None\<rparr>"

fun must_get_id :: "id_value option \<Rightarrow> (auth_error, DBID) outcome" where
  "must_get_id None = Panic ''key does not exist''"
| "must_get_id (Some (AsDBID i)) = Ok i"
| "must_get_id (Some (AsString s)) = Panic ''interface conversion: not persist.DBID''"

definition GetUserIDFromCtx :: "gin_ctx \<Rightarrow> (auth_error, DBID) outcome" where
  "GetUserIDFromCtx c = must_get_id (cx_user c)"

definition GetSessionIDFromCtx :: "gin_ctx \<Rightarrow> (auth_error, DBID) outcome" where
  "GetSessionIDFromCtx c = must_get_id (cx_session c)"

definition GetUserAuthedFromCtx :: "gin_ctx \<Rightarrow> bool" where
  "GetUserAuthedFromCtx c = cx_authed c"

definition GetAuthErrorFromCtx :: "gin_ctx \<Rightarrow> (auth_error, auth_error option) outcome" where
  "GetAuthErrorFromCtx c = (case cx_auth_error c of None \<Rightarrow> Panic ''key does not exist'' | Some e \<Rightarrow> Ok e)"

definition getAuthenticatedUserID :: "gin_ctx \<Rightarrow> (auth_error, DBID) outcome" where
  "getAuthenticatedUserID c = bind_o (GetAuthErrorFromCtx c) (\<lambda>authError.
     case authError of Some e \<Rightarrow> Err e | None \<Rightarrow> GetUserIDFromCtx c)"

text \<open>The cookies that the response sets; an empty value deletes a cookie.\<close>

datatype 'c set_cookie = Unset | Cleared | NewCookie 'c

record response =
  rs_ctx :: gin_ctx
  rs_auth :: "auth_claims set_cookie"
  rs_refresh :: "refresh_claims set_cookie"

definition clearSessionStateForCtx :: "auth_error option \<Rightarrow> response \<Rightarrow> response" where
  "clearSessionStateForCtx err r = r\<lparr>rs_ctx :=
     \<lparr>cx_user = Some (AsString []), cx_session = Some (AsString []), cx_auth_error = Some err,
      cx_authed = False, cx_roles = Some []\<rparr>\<rparr>"

definition clearSessionCookies :: "response \<Rightarrow> response" where
  "clearSessionCookies r = r\<lparr>rs_auth := Cleared, rs_refresh := Cleared\<rparr>"

definition setSessionCookies :: "auth_claims \<Rightarrow> refresh_claims \<Rightarrow> response \<Rightarrow> response" where
  "setSessionCookies a f r = r\<lparr>rs_auth := NewCookie a, rs_refresh := NewCookie f\<rparr>"

definition setSessionStateForCtx :: "DBID \<Rightarrow> DBID \<Rightarrow> Role list \<Rightarrow> response \<Rightarrow> response" where
  "setSessionStateForCtx userID sessionID roles r =
     (if userID = [] \<or> sessionID = []
      then clearSessionCookies (clearSessionStateForCtx (Some ErrMissingValues) r)
      else r\<lparr>rs_ctx := \<lparr>cx_user = Some (AsDBID userID), cx_session = Some (AsDBID sessionID),
               cx_auth_error = Some None, cx_authed = True, cx_roles = Some roles\<rparr>\<rparr>)"

section \<open>Sessions\<close>

record store =
  st_sessions :: sessions
  st_cache :: refresh_cache
  st_roles :: "DBID \<Rightarrow> Role list"

record faults =
  f_sign_refresh :: "auth_error option"
  f_roles :: "auth_error option"
  f_sign_auth :: "auth_error option"
  f_upsert :: "auth_error option"
  f_invalidate :: bool
  f_redis_get :: bool
  f_redis_set :: bool

text \<open>The fixed facts of a request: configuration, time, client and the faults it meets.\<close>

record request =
  rq_cfg :: auth_config
  rq_now :: int
  rq_client :: client
  rq_faults :: faults

definition issueSessionTokens ::
  "request \<Rightarrow> DBID \<Rightarrow> DBID \<Rightarrow> DBID \<Rightarrow> DBID \<Rightarrow> store \<Rightarrow> response \<Rightarrow> auth_error option \<times> store \<times> response" where
  "issueSessionTokens rq newRefreshID userID sessionID parentRefreshID st r =
     (let now = rq_now rq; f = rq_faults rq;
          (newRefreshToken, refreshExpiresAt) =
            GenerateRefreshToken (rq_cfg rq) now newRefreshID parentRefreshID userID sessionID in
      case f_sign_refresh f of Some e \<Rightarrow> (Some e, st, r) | None \<Rightarrow>
      case f_roles f of Some e \<Rightarrow> (Some e, st, r) | None \<Rightarrow>
      let roles = st_roles st userID;
          newAuthToken = GenerateAuthToken (rq_cfg rq) now userID sessionID parentRefreshID roles in
      case f_sign_auth f of Some e \<Rightarrow> (Some e, st, r) | None \<Rightarrow>
      case f_upsert f of Some e \<Rightarrow> (Some e, st, r) | None \<Rightarrow>
      let (session, ss) = UpsertSession now sessionID userID (rq_client rq) newRefreshID refreshExpiresAt (st_sessions st);
          st1 = st\<lparr>st_sessions := ss\<rparr> in
      if ss_invalidated session then (Some ErrSessionInvalidated, st1, r)
      else (None, st1, setSessionCookies newAuthToken newRefreshToken (setSessionStateForCtx userID sessionID roles r)))"

definition StartSession ::
  "request \<Rightarrow> DBID \<Rightarrow> DBID \<Rightarrow> DBID \<Rightarrow> store \<Rightarrow> response \<Rightarrow> auth_error option \<times> store \<times> response" where
  "StartSession rq sessionID newRefreshID userID st r =
     (case issueSessionTokens rq newRefreshID userID sessionID [] st r of
        (Some err, st1, r1) \<Rightarrow> (Some err, st1, clearSessionCookies (clearSessionStateForCtx (Some err) r1))
      | (None, st1, r1) \<Rightarrow> (None, st1, r1))"

definition ForceAuthTokenRefresh :: "request \<Rightarrow> DBID \<Rightarrow> store \<Rightarrow> store" where
  "ForceAuthTokenRefresh rq userID st =
     (if f_redis_set (rq_faults rq) then st
      else st\<lparr>st_cache := SetTime (rq_now rq) userID (rq_now rq)
                (cfg_auth_ttl (rq_cfg rq) * second + minute) True (st_cache st)\<rparr>)"

definition mustRefreshAuthToken :: "request \<Rightarrow> DBID \<Rightarrow> int \<Rightarrow> store \<Rightarrow> bool" where
  "mustRefreshAuthToken rq userID issuedAt st =
     (if f_redis_get (rq_faults rq) then True
      else case GetTime (rq_now rq) userID (st_cache st) of
          None \<Rightarrow> False
        | Some forceRefreshBefore \<Rightarrow> issuedAt * second < forceRefreshBefore)"

text \<open>\<open>ContinueSession\<close> after the auth cookie turned out not to be enough; its error is \<open>authErr\<close>.\<close>

definition continue_with_refresh ::
  "request \<Rightarrow> DBID \<Rightarrow> auth_error option \<Rightarrow> refresh_claims cookie \<Rightarrow> store \<Rightarrow> response \<Rightarrow>
   auth_error option \<times> store \<times> response" where
  "continue_with_refresh rq newRefreshID authErr refreshCookie st r =
     (case getAndParseRefreshToken (rq_now rq) refreshCookie of
        Ok c \<Rightarrow>
          (case issueSessionTokens rq newRefreshID (rc_user c) (rc_session c) (rc_id c) st r of
             (Some err, st1, r1) \<Rightarrow>
               let r2 = clearSessionStateForCtx (Some err) r1 in
               (Some err, st1, if err = ErrSessionInvalidated then clearSessionCookies r2 else r2)
           | (None, st1, r1) \<Rightarrow> (None, st1, r1))
      | Err e \<Rightarrow>
          let r1 = clearSessionStateForCtx (Some e) r in
          (Some e, st, if authErr \<noteq> Some ErrNoCookie \<or> e \<noteq> ErrNoCookie then clearSessionCookies r1 else r1)
      | Panic p \<Rightarrow> (None, st, r))"

definition ContinueSession ::
  "request \<Rightarrow> DBID \<Rightarrow> DBID \<Rightarrow> auth_claims cookie \<Rightarrow> refresh_claims cookie \<Rightarrow> store \<Rightarrow> response \<Rightarrow>
   auth_error option \<times> store \<times> response" where
  "ContinueSession rq sessionID newRefreshID authCookie refreshCookie st r =
     (case getAndParseAuthToken (rq_now rq) authCookie of
        Ok c \<Rightarrow>
          (case (ac_session c = [], ac_issued c) of
             (False, Some issued) \<Rightarrow>
               if \<not> mustRefreshAuthToken rq (ac_user c) issued st
               then (None, st, setSessionStateForCtx (ac_user c) (ac_session c) (ac_roles c) r)
               else continue_with_refresh rq newRefreshID None refreshCookie st r
           | _ \<Rightarrow> StartSession rq sessionID newRefreshID (ac_user c) st r)
      | Err e \<Rightarrow> continue_with_refresh rq newRefreshID (Some e) refreshCookie st r
      | Panic p \<Rightarrow> (None, st, r))"

definition EndSession :: "request \<Rightarrow> store \<Rightarrow> response \<Rightarrow> (auth_error, store \<times> response) outcome" where
  "EndSession rq st r =
     bind_o
       (if GetUserAuthedFromCtx (rs_ctx r) then
          bind_o (GetSessionIDFromCtx (rs_ctx r)) (\<lambda>sessionID.
          let st1 = (if sessionID \<noteq> [] \<and> \<not> f_invalidate (rq_faults rq)
                     then st\<lparr>st_sessions := InvalidateSession (rq_now rq) sessionID (st_sessions st)\<rparr> else st) in
          bind_o (GetUserIDFromCtx (rs_ctx r)) (\<lambda>userID. Ok (ForceAuthTokenRefresh rq userID st1)))
        else Ok st)
       (\<lambda>st2. Ok (st2, clearSessionCookies (clearSessionStateForCtx (Some ErrNoCookie) r)))"

text \<open>
  \<open>Login\<close> with what its authenticator returned: an error, or the user it found with the flag
  \<open>universal\<close>. \<open>description\<close> is the authenticator's.
\<close>

definition Login ::
  "request \<Rightarrow> DBID \<Rightarrow> DBID \<Rightarrow> string \<Rightarrow> (string, (DBID \<times> bool) option) outcome \<Rightarrow> store \<Rightarrow> response \<Rightarrow>
   (auth_error, DBID) outcome \<times> store \<times> response" where
  "Login rq sessionID newRefreshID description auth st r =
     (case auth of
        Err e \<Rightarrow> (Err (ErrAuthenticationFailed e), st, r)
      | Panic p \<Rightarrow> (Panic p, st, r)
      | Ok None \<Rightarrow> (Err (ErrUserNotFound description), st, r)
      | Ok (Some (userID, universal)) \<Rightarrow>
          if universal then (Err (ErrUserNotFound description), st, r)
          else if \<not> GetUserAuthedFromCtx (rs_ctx r) \<or> GetUserIDFromCtx (rs_ctx r) \<noteq> Ok userID
          then (case StartSession rq sessionID newRefreshID userID st r of
                  (Some err, st1, r1) \<Rightarrow> (Err err, st1, r1)
                | (None, st1, r1) \<Rightarrow> (Ok userID, st1, r1))
          else (Ok userID, st, r))"

end
