(* ===== verification/Session_Runs.thy ===== *)
theory Session_Runs
  imports Sessions
begin

text \<open>
  The requests of the server as a step relation: each runs the middleware
  \<open>middleware.ContinueSession\<close> and then one operation of the API. The world keeps the tables, the
  clock, the tokens that were ever sent to a client, and as a ghost the sessions that a login
  started with their users. A client presents no token that the server did not send, because it
  cannot sign one.
\<close>

section \<open>The middleware and the operations\<close>

definition no_response :: response where
  "no_response = \<lparr>rs_ctx = new_ctx, rs_auth = Unset, rs_refresh = Unset\<rparr>"

text \<open>\<open>middleware.ContinueSession\<close>: the two getters feed the logger.\<close>

definition middleware_ContinueSession ::
  "request \<Rightarrow> DBID \<Rightarrow> DBID \<Rightarrow> auth_claims cookie \<Rightarrow> refresh_claims cookie \<Rightarrow> store \<Rightarrow>
   (auth_error, store \<times> response) outcome" where
  "middleware_ContinueSession rq sessionID refreshID authCookie refreshCookie st =
     (case ContinueSession rq sessionID refreshID authCookie refreshCookie st no_response of
        (None, st1, r) \<Rightarrow>
          bind_o (GetUserIDFromCtx (rs_ctx r)) (\<lambda>_. bind_o (GetSessionIDFromCtx (rs_ctx r)) (\<lambda>_. Ok (st1, r)))
      | (Some err, st1, r) \<Rightarrow> Ok (st1, r))"

text \<open>
  An operation: one that leaves the session alone, the login of a user that an authenticator
  vouched for, the logout, and a forced refresh, which a change of a user's roles calls for.
\<close>

datatype api_call = Browse | LoginAs DBID | LogOut | RefreshUser DBID

record event =
  ev_now :: int
  ev_client :: client
  ev_faults :: faults
  ev_roles :: "DBID \<Rightarrow> Role list"
  ev_auth :: "auth_claims cookie"
  ev_refresh :: "refresh_claims cookie"
  ev_continue_ids :: "DBID \<times> DBID"
  ev_login_ids :: "DBID \<times> DBID"
  ev_call :: api_call

definition event_request :: "auth_config \<Rightarrow> event \<Rightarrow> request" where
  "event_request cfg e = \<lparr>rq_cfg = cfg, rq_now = ev_now e, rq_client = ev_client e, rq_faults = ev_faults e\<rparr>"

definition run_call :: "auth_config \<Rightarrow> event \<Rightarrow> store \<Rightarrow> response \<Rightarrow> (auth_error, store \<times> response) outcome" where
  "run_call cfg e st r =
     (let rq = event_request cfg e in
      case ev_call e of
        Browse \<Rightarrow> Ok (st, r)
      | LoginAs u \<Rightarrow> Ok (snd (Login rq (fst (ev_login_ids e)) (snd (ev_login_ids e)) [] (Ok (Some (u, False))) st r))
      | LogOut \<Rightarrow> EndSession rq st r
      | RefreshUser u \<Rightarrow> Ok (ForceAuthTokenRefresh rq u st, r))"

section \<open>The world\<close>

record world =
  w_clock :: int
  w_store :: store
  w_auth :: "auth_claims list"
  w_refresh :: "refresh_claims list"
  w_started :: "(DBID \<times> DBID) list"

definition init_world :: "int \<Rightarrow> (DBID \<Rightarrow> Role list) \<Rightarrow> world" where
  "init_world now roles =
     \<lparr>w_clock = now, w_store = \<lparr>st_sessions = Map.empty, st_cache = Map.empty, st_roles = roles\<rparr>,
      w_auth = [], w_refresh = [], w_started = []\<rparr>"

fun presented :: "'c list \<Rightarrow> 'c cookie \<Rightarrow> bool" where
  "presented sent (Token c) = (c \<in> set sent)"
| "presented sent _ = True"

fun sent :: "'c set_cookie \<Rightarrow> 'c list" where
  "sent (NewCookie c) = [c]"
| "sent _ = []"

definition keep_sent :: "response \<Rightarrow> store \<Rightarrow> world \<Rightarrow> world" where
  "keep_sent r st w = w\<lparr>w_store := st, w_auth := sent (rs_auth r) @ w_auth w, w_refresh := sent (rs_refresh r) @ w_refresh w\<rparr>"

definition arrive :: "event \<Rightarrow> world \<Rightarrow> world" where
  "arrive e w = w\<lparr>w_clock := ev_now e, w_store := (w_store w)\<lparr>st_roles := ev_roles e\<rparr>\<rparr>"

definition vouch :: "event \<Rightarrow> world \<Rightarrow> world" where
  "vouch e w = (case ev_call e of LoginAs u \<Rightarrow> w\<lparr>w_started := (fst (ev_login_ids e), u) # w_started w\<rparr> | _ \<Rightarrow> w)"

text \<open>Time passes, tokens were sent, generated IDs are new, and a user's ID is not empty.\<close>

definition enabled :: "world \<Rightarrow> event \<Rightarrow> bool" where
  "enabled w e =
     (w_clock w \<le> ev_now e \<and> presented (w_auth w) (ev_auth e) \<and> presented (w_refresh w) (ev_refresh e) \<and>
      fst (ev_login_ids e) \<noteq> [] \<and> fst (ev_login_ids e) \<notin> fst ` set (w_started w) \<and>
      (case ev_call e of LoginAs u \<Rightarrow> u \<noteq> [] | _ \<Rightarrow> True))"

definition continued :: "auth_config \<Rightarrow> world \<Rightarrow> event \<Rightarrow> (auth_error, store \<times> response) outcome" where
  "continued cfg w e =
     middleware_ContinueSession (event_request cfg e) (fst (ev_continue_ids e)) (snd (ev_continue_ids e))
       (ev_auth e) (ev_refresh e) (w_store (arrive e w))"

text \<open>\<open>r\<close> is the response, with the context, that the middleware hands to the operation.\<close>

inductive wstep :: "auth_config \<Rightarrow> world \<Rightarrow> event \<Rightarrow> response \<Rightarrow> world \<Rightarrow> bool" for cfg where
  request: "\<lbrakk>enabled w e; continued cfg w e = Ok (st1, r); run_call cfg e st1 r = Ok (st2, r2)\<rbrakk> \<Longrightarrow>
    wstep cfg w e r (keep_sent r2 st2 (vouch e (keep_sent r st1 (arrive e w))))"

inductive_cases wstepE: "wstep cfg w e r w'"

inductive reach :: "auth_config \<Rightarrow> world \<Rightarrow> bool" for cfg where
  init: "reach cfg (init_world now roles)"
| step: "reach cfg w \<Longrightarrow> wstep cfg w e r w' \<Longrightarrow> reach cfg w'"

inductive wsteps :: "auth_config \<Rightarrow> world \<Rightarrow> world \<Rightarrow> bool" for cfg where
  here: "wsteps cfg w w"
| more: "wsteps cfg w w' \<Longrightarrow> wstep cfg w' e r w'' \<Longrightarrow> wsteps cfg w w''"

section \<open>Times\<close>

lemma unix_add_seconds: "unix (t + n * second) = unix t + n"
  by (simp add: unix_def second_def)

lemma unix_mono: "s \<le> t \<Longrightarrow> unix s \<le> unix t"
  by (simp add: unix_def second_def zdiv_mono1)

lemma less_seconds: "t < n * second \<longleftrightarrow> unix t < n"
  by (simp add: unix_def second_def) linarith

lemma seconds_le: "n * second \<le> t \<longleftrightarrow> n \<le> unix t"
  using less_seconds [of t n] by linarith

lemma unix_force_ttl: "unix (t + (n * second + minute)) = unix t + n + 60"
  using unix_add_seconds [of t "n + 60"] by (simp add: minute_def algebra_simps)

section \<open>What a request does to the tables\<close>

text \<open>Sending tokens of a session \<open>s\<close> of \<open>u\<close>: the row is there and not invalidated.\<close>

definition fresh_auth :: "auth_config \<Rightarrow> int \<Rightarrow> DBID \<Rightarrow> DBID \<Rightarrow> auth_claims \<Rightarrow> bool" where
  "fresh_auth cfg now u s c =
     (ac_user c = u \<and> ac_session c = s \<and> ac_issued c = Some (unix now) \<and> ac_expires c = unix now + cfg_auth_ttl cfg)"

definition upserted :: "request \<Rightarrow> DBID \<Rightarrow> DBID \<Rightarrow> store \<Rightarrow> store \<Rightarrow> bool" where
  "upserted rq u s st st' =
     (\<exists>i until. st' = st\<lparr>st_sessions := snd (UpsertSession (rq_now rq) s u (rq_client rq) i until (st_sessions st))\<rparr>)"

lemma dom_UpsertSession: "dom (snd (UpsertSession now s u c i t ss)) = insert s (dom ss)"
  by (cases "ss s") (auto simp: UpsertSession_def Let_def)

lemma UpsertSession_keeps_invalidated:
  "\<lbrakk>ss x = Some row; ss_invalidated row\<rbrakk> \<Longrightarrow>
   \<exists>row'. snd (UpsertSession now s u c i t ss) x = Some row' \<and> ss_invalidated row'"
  by (cases "ss s") (auto simp: UpsertSession_def Let_def)

lemma UpsertSession_valid:
  "\<lbrakk>\<not> ss_invalidated (fst (UpsertSession now s u c i t ss)); ss s = Some row\<rbrakk> \<Longrightarrow> \<not> ss_invalidated row"
  by (auto simp: UpsertSession_def Let_def split: if_splits)

lemma upserted_sessions:
  assumes "upserted rq u s st st'"
  shows "dom (st_sessions st') = insert s (dom (st_sessions st))" "st_cache st' = st_cache st"
    "st_sessions st x = Some row \<Longrightarrow> ss_invalidated row \<Longrightarrow> \<exists>row'. st_sessions st' x = Some row' \<and> ss_invalidated row'"
proof -
  obtain i until where st': "st' = st\<lparr>st_sessions := snd (UpsertSession (rq_now rq) s u (rq_client rq) i until (st_sessions st))\<rparr>"
    using assms unfolding upserted_def by blast
  show "dom (st_sessions st') = insert s (dom (st_sessions st))" "st_cache st' = st_cache st"
    by (simp_all add: st' dom_UpsertSession)
  show "st_sessions st x = Some row \<Longrightarrow> ss_invalidated row \<Longrightarrow> \<exists>row'. st_sessions st' x = Some row' \<and> ss_invalidated row'"
    by (simp add: st' UpsertSession_keeps_invalidated)
qed

text \<open>
  The two ways \<open>issueSessionTokens\<close> ends: an error, with cookies and context as they were, or the
  tokens of a session that is not invalidated.
\<close>

definition issue_failed ::
  "request \<Rightarrow> DBID \<Rightarrow> DBID \<Rightarrow> store \<Rightarrow> response \<Rightarrow> auth_error option \<Rightarrow> store \<Rightarrow> response \<Rightarrow> bool" where
  "issue_failed rq u s st r res st' r' = (res \<noteq> None \<and> r' = r \<and> (st' = st \<or> upserted rq u s st st'))"

definition issue_done ::
  "request \<Rightarrow> DBID \<Rightarrow> DBID \<Rightarrow> store \<Rightarrow> response \<Rightarrow> auth_error option \<Rightarrow> store \<Rightarrow> response \<Rightarrow> bool" where
  "issue_done rq u s st r res st' r' =
     (res = None \<and> upserted rq u s st st' \<and> \<not> (\<exists>row. st_sessions st s = Some row \<and> ss_invalidated row) \<and>
      (\<exists>a f. fresh_auth (rq_cfg rq) (rq_now rq) u s a \<and> ac_roles a = st_roles st u \<and> rc_user f = u \<and> rc_session f = s \<and>
         r' = setSessionCookies a f (setSessionStateForCtx u s (ac_roles a) r)))"

lemma issueSessionTokens_cases:
  assumes "issueSessionTokens rq i u s p st r = (res, st', r')"
  shows "issue_failed rq u s st r res st' r' \<or> issue_done rq u s st r res st' r'"
proof -
  let ?until = "rq_now rq + cfg_refresh_ttl (rq_cfg rq) * second"
  let ?a = "GenerateAuthToken (rq_cfg rq) (rq_now rq) u s p (st_roles st u)"
  let ?f = "\<lparr>rc_id = i, rc_parent = p, rc_user = u, rc_session = s, rc_issued = Some (unix (rq_now rq)),
    rc_expires = unix ?until\<rparr>"
  let ?up = "UpsertSession (rq_now rq) s u (rq_client rq) i ?until (st_sessions st)"
  let ?st = "st\<lparr>st_sessions := snd ?up\<rparr>"
  have up: "upserted rq u s st ?st" unfolding upserted_def by blast
  have a: "fresh_auth (rq_cfg rq) (rq_now rq) u s ?a" "ac_roles ?a = st_roles st u"
    by (simp_all add: fresh_auth_def GenerateAuthToken_def unix_add_seconds)
  have f: "rc_user ?f = u" "rc_session ?f = s" by simp_all
  have gen: "GenerateRefreshToken (rq_cfg rq) (rq_now rq) i p u s = (?f, ?until)"
    by (simp add: GenerateRefreshToken_def)
  have eq: "issueSessionTokens rq i u s p st r =
      (case f_sign_refresh (rq_faults rq) of Some e \<Rightarrow> (Some e, st, r) | None \<Rightarrow>
       case f_roles (rq_faults rq) of Some e \<Rightarrow> (Some e, st, r) | None \<Rightarrow>
       case f_sign_auth (rq_faults rq) of Some e \<Rightarrow> (Some e, st, r) | None \<Rightarrow>
       case f_upsert (rq_faults rq) of Some e \<Rightarrow> (Some e, st, r) | None \<Rightarrow>
       if ss_invalidated (fst ?up) then (Some ErrSessionInvalidated, ?st, r)
       else (None, ?st, setSessionCookies ?a ?f (setSessionStateForCtx u s (st_roles st u) r)))"
    unfolding issueSessionTokens_def gen Let_def prod.case case_prod_beta[of _ ?up] ..
  have "(res \<noteq> None \<and> st' = st \<and> r' = r) \<or> (res \<noteq> None \<and> st' = ?st \<and> r' = r) \<or>
      (res = None \<and> st' = ?st \<and> \<not> ss_invalidated (fst ?up) \<and>
       r' = setSessionCookies ?a ?f (setSessionStateForCtx u s (st_roles st u) r))"
    using assms unfolding eq by (simp only: prod.inject split: option.splits if_splits) auto
  then consider (early) "res \<noteq> None" "st' = st" "r' = r"
    | (dead) "res \<noteq> None" "st' = ?st" "r' = r"
    | (ok) "res = None" "st' = ?st" "\<not> ss_invalidated (fst ?up)"
        "r' = setSessionCookies ?a ?f (setSessionStateForCtx u s (st_roles st u) r)"
    by blast
  then show ?thesis
  proof cases
    case early then show ?thesis by (simp add: issue_failed_def)
  next
    case dead then show ?thesis using up by (simp add: issue_failed_def)
  next
    case ok
    then have "issue_done rq u s st r res st' r'"
      unfolding issue_done_def using up a f UpsertSession_valid by metis
    then show ?thesis by simp
  qed
qed


section \<open>What the server keeps\<close>

text \<open>
  Every token sent belongs to a session that a login started, with its user; the tables hold only
  such sessions; a forced-refresh time lies in the past and outlives the tokens older than itself.
\<close>

definition auth_ok :: "auth_config \<Rightarrow> world \<Rightarrow> auth_claims \<Rightarrow> bool" where
  "auth_ok cfg w c =
     ((ac_session c, ac_user c) \<in> set (w_started w) \<and> ac_session c \<in> dom (st_sessions (w_store w)) \<and>
      (\<exists>i. ac_issued c = Some i \<and> i \<le> unix (w_clock w) \<and> ac_expires c = i + cfg_auth_ttl cfg))"

definition refresh_ok :: "world \<Rightarrow> refresh_claims \<Rightarrow> bool" where
  "refresh_ok w f = ((rc_session f, rc_user f) \<in> set (w_started w) \<and> rc_session f \<in> dom (st_sessions (w_store w)))"

definition cache_ok :: "auth_config \<Rightarrow> int \<Rightarrow> refresh_cache \<Rightarrow> bool" where
  "cache_ok cfg now cache =
     (\<forall>u t x. cache u = Some (t, x) \<longrightarrow> t \<le> unix now \<and> x = t + cfg_auth_ttl cfg + 60)"

definition started_ok :: "(DBID \<times> DBID) list \<Rightarrow> bool" where
  "started_ok l = (distinct (map fst l) \<and> (\<forall>(s, u)\<in>set l. s \<noteq> [] \<and> u \<noteq> []))"

definition sess_inv :: "auth_config \<Rightarrow> world \<Rightarrow> bool" where
  "sess_inv cfg w =
     (started_ok (w_started w) \<and> dom (st_sessions (w_store w)) \<subseteq> fst ` set (w_started w) \<and>
      (\<forall>c\<in>set (w_auth w). auth_ok cfg w c) \<and> (\<forall>f\<in>set (w_refresh w). refresh_ok w f) \<and>
      cache_ok cfg (w_clock w) (st_cache (w_store w)))"

definition invalid :: "sessions \<Rightarrow> DBID \<Rightarrow> bool" where
  "invalid ss s = (\<exists>row. ss s = Some row \<and> ss_invalidated row)"

text \<open>What happens to the store in one half of a request.\<close>

definition cache_le :: "auth_config \<Rightarrow> int \<Rightarrow> refresh_cache \<Rightarrow> refresh_cache \<Rightarrow> bool" where
  "cache_le cfg now c c' =
     ((\<forall>u t x. c u = Some (t, x) \<longrightarrow> (\<exists>t' x'. c' u = Some (t', x') \<and> t \<le> t')) \<and>
      (\<forall>u t x. c' u = Some (t, x) \<longrightarrow> c u = Some (t, x) \<or> t = unix now \<and> x = unix now + cfg_auth_ttl cfg + 60))"

definition store_le :: "auth_config \<Rightarrow> world \<Rightarrow> store \<Rightarrow> bool" where
  "store_le cfg w st' =
     (dom (st_sessions (w_store w)) \<subseteq> dom (st_sessions st') \<and>
      dom (st_sessions st') \<subseteq> fst ` set (w_started w) \<and>
      (\<forall>s. invalid (st_sessions (w_store w)) s \<longrightarrow> invalid (st_sessions st') s) \<and>
      cache_le cfg (w_clock w) (st_cache (w_store w)) (st_cache st'))"

definition good_auth :: "auth_config \<Rightarrow> world \<Rightarrow> store \<Rightarrow> auth_claims \<Rightarrow> bool" where
  "good_auth cfg w st' c =
     (\<exists>s u. (s, u) \<in> set (w_started w) \<and> s \<in> dom (st_sessions st') \<and> \<not> invalid (st_sessions (w_store w)) s \<and>
        fresh_auth cfg (w_clock w) u s c)"

definition good_refresh :: "world \<Rightarrow> store \<Rightarrow> refresh_claims \<Rightarrow> bool" where
  "good_refresh w st' f = ((rc_session f, rc_user f) \<in> set (w_started w) \<and> rc_session f \<in> dom (st_sessions st'))"

definition half :: "auth_config \<Rightarrow> world \<Rightarrow> store \<Rightarrow> response \<Rightarrow> bool" where
  "half cfg w st' r =
     (store_le cfg w st' \<and> (\<forall>c\<in>set (sent (rs_auth r)). c \<in> set (w_auth w) \<or> good_auth cfg w st' c) \<and>
      (\<forall>f\<in>set (sent (rs_refresh r)). f \<in> set (w_refresh w) \<or> good_refresh w st' f))"

lemma cache_le_refl [simp]: "cache_le cfg now c c"
  by (simp add: cache_le_def)

lemma half_inv:
  assumes "sess_inv cfg w" "half cfg w st' r"
  shows "sess_inv cfg (keep_sent r st' w)"
proof -
  note inv = assms(1)[unfolded sess_inv_def] and h = assms(2)[unfolded half_def store_le_def]
  let ?w = "keep_sent r st' w"
  have auth: "auth_ok cfg ?w c" if "auth_ok cfg w c" for c
    using that h by (auto simp: auth_ok_def keep_sent_def)
  have refr: "refresh_ok ?w f" if "refresh_ok w f" for f
    using that h by (auto simp: refresh_ok_def keep_sent_def)
  have new_auth: "auth_ok cfg ?w c" if "good_auth cfg w st' c" for c
    using that by (auto simp: good_auth_def fresh_auth_def auth_ok_def keep_sent_def)
  have new_refresh: "refresh_ok ?w f" if "good_refresh w st' f" for f
    using that by (simp add: good_refresh_def refresh_ok_def keep_sent_def)
  have "cache_ok cfg (w_clock w) (st_cache st')"
    unfolding cache_ok_def
  proof (intro allI impI)
    fix u t x assume "st_cache st' u = Some (t, x)"
    then have "st_cache (w_store w) u = Some (t, x) \<or> t = unix (w_clock w) \<and> x = unix (w_clock w) + cfg_auth_ttl cfg + 60"
      using h unfolding cache_le_def by blast
    then show "t \<le> unix (w_clock w) \<and> x = t + cfg_auth_ttl cfg + 60"
      using inv unfolding cache_ok_def by auto
  qed
  moreover have "started_ok (w_started w)" "dom (st_sessions st') \<subseteq> fst ` set (w_started w)"
    using inv h by blast+
  moreover have "\<forall>c\<in>set (w_auth ?w). auth_ok cfg ?w c"
  proof
    fix c assume "c \<in> set (w_auth ?w)"
    then have "c \<in> set (w_auth w) \<or> good_auth cfg w st' c" using h by (auto simp: keep_sent_def)
    then show "auth_ok cfg ?w c" using inv auth new_auth by blast
  qed
  moreover have "\<forall>f\<in>set (w_refresh ?w). refresh_ok ?w f"
  proof
    fix f assume "f \<in> set (w_refresh ?w)"
    then have "f \<in> set (w_refresh w) \<or> good_refresh w st' f" using h by (auto simp: keep_sent_def)
    then show "refresh_ok ?w f" using inv refr new_refresh by blast
  qed
  ultimately show ?thesis by (simp add: sess_inv_def keep_sent_def)
qed

text \<open>
  What the two writes of a logout at \<open>t\<close> leave. The invalidated row of a session \<open>s\<close>: no later token
  of \<open>s\<close> was sent. The forced-refresh time of the user \<open>u\<close>: it is not before \<open>t\<close>.
\<close>

definition revoked :: "DBID \<Rightarrow> int \<Rightarrow> world \<Rightarrow> bool" where
  "revoked s t w =
     (s \<in> fst ` set (w_started w) \<and> invalid (st_sessions (w_store w)) s \<and>
      (\<forall>c\<in>set (w_auth w). ac_session c = s \<longrightarrow> (\<forall>i. ac_issued c = Some i \<longrightarrow> i \<le> unix t)))"

definition forced :: "DBID \<Rightarrow> int \<Rightarrow> world \<Rightarrow> bool" where
  "forced u t w = (\<exists>t' x. st_cache (w_store w) u = Some (t', x) \<and> unix t \<le> t')"

lemma half_revoked:
  assumes "revoked s t w" "half cfg w st' r"
  shows "revoked s t (keep_sent r st' w)"
proof -
  note out = assms(1)[unfolded revoked_def] and h = assms(2)[unfolded half_def store_le_def]
  have "\<forall>i. ac_issued c = Some i \<longrightarrow> i \<le> unix t"
    if "c \<in> set (sent (rs_auth r) @ w_auth w)" "ac_session c = s" for c
  proof -
    have "\<not> good_auth cfg w st' c" using that out by (auto simp: good_auth_def fresh_auth_def)
    then have "c \<in> set (w_auth w)" using that h by auto
    then show ?thesis using that out by blast
  qed
  then show ?thesis
    using out h unfolding revoked_def keep_sent_def by simp
qed

lemma half_forced:
  assumes "forced u t w" "half cfg w st' r"
  shows "forced u t (keep_sent r st' w)"
proof -
  obtain t' x where c: "st_cache (w_store w) u = Some (t', x)" "unix t \<le> t'" using assms(1) by (auto simp: forced_def)
  obtain t'' x' where "st_cache st' u = Some (t'', x')" "t' \<le> t''"
    using assms(2) c unfolding half_def store_le_def cache_le_def by meson
  then show ?thesis using c by (auto simp: forced_def keep_sent_def)
qed

lemma started_unique: "started_ok l \<Longrightarrow> (s, u) \<in> set l \<Longrightarrow> (s, u') \<in> set l \<Longrightarrow> u = u'"
  using eq_key_imp_eq_value [of l s u u'] by (simp add: started_ok_def)

section \<open>The two halves of a request\<close>

definition ctx_is :: "DBID \<Rightarrow> DBID \<Rightarrow> gin_ctx \<Rightarrow> bool" where
  "ctx_is s u c = (cx_authed c \<and> cx_session c = Some (AsDBID s) \<and> cx_user c = Some (AsDBID u) \<and> cx_auth_error c = Some None)"

definition ctx_out :: "auth_error \<Rightarrow> gin_ctx \<Rightarrow> bool" where
  "ctx_out err c =
     (\<not> cx_authed c \<and> cx_session c = Some (AsString []) \<and> cx_user c = Some (AsString []) \<and> cx_auth_error c = Some (Some err) \<and>
     cx_roles c = Some [])"

lemma sent_simps [simp]:
  "sent (rs_auth (clearSessionCookies r)) = []" "sent (rs_refresh (clearSessionCookies r)) = []"
  "rs_ctx (clearSessionCookies r) = rs_ctx r" "rs_ctx (setSessionCookies a f r) = rs_ctx r"
  "sent (rs_auth (setSessionCookies a f r)) = [a]" "sent (rs_refresh (setSessionCookies a f r)) = [f]"
  "rs_auth (clearSessionStateForCtx e r) = rs_auth r" "rs_refresh (clearSessionStateForCtx e r) = rs_refresh r"
  "sent (rs_auth no_response) = []" "sent (rs_refresh no_response) = []"
  by (simp_all add: clearSessionCookies_def setSessionCookies_def clearSessionStateForCtx_def no_response_def)

lemma ctx_out_clear [simp]: "ctx_out err (rs_ctx (clearSessionStateForCtx (Some err) r))"
  by (simp add: ctx_out_def clearSessionStateForCtx_def)

lemma setSessionState_simps:
  assumes "s \<noteq> []" "u \<noteq> []"
  shows "ctx_is s u (rs_ctx (setSessionStateForCtx u s roles r))"
    "rs_auth (setSessionStateForCtx u s roles r) = rs_auth r"
    "rs_refresh (setSessionStateForCtx u s roles r) = rs_refresh r"
    "cx_roles (rs_ctx (setSessionStateForCtx u s roles r)) = Some roles"
  using assms by (simp_all add: setSessionStateForCtx_def ctx_is_def)

lemma ctx_not_both: "ctx_is s u c \<Longrightarrow> \<not> ctx_out err c"
  by (simp add: ctx_is_def ctx_out_def)

lemma upserted_le:
  assumes "upserted rq u s (w_store w) st'" "(s, u) \<in> set (w_started w)"
    "dom (st_sessions (w_store w)) \<subseteq> fst ` set (w_started w)"
  shows "store_le cfg w st'"
proof -
  have "s \<in> fst ` set (w_started w)" using assms(2) by (metis fst_conv imageI)
  then show ?thesis
    using upserted_sessions [OF assms(1)] assms(3) unfolding store_le_def invalid_def by auto
qed

lemma store_le_refl: "dom (st_sessions (w_store w)) \<subseteq> fst ` set (w_started w) \<Longrightarrow> store_le cfg w (w_store w)"
  by (simp add: store_le_def)

lemma issue_done_half:
  assumes "issue_done rq u s (w_store w) r res st' r'" "(s, u) \<in> set (w_started w)"
    "dom (st_sessions (w_store w)) \<subseteq> fst ` set (w_started w)" "rq_cfg rq = cfg" "rq_now rq = w_clock w"
  shows "half cfg w st' r'"
proof -
  obtain a f where af: "fresh_auth cfg (w_clock w) u s a" "rc_user f = u" "rc_session f = s"
      "r' = setSessionCookies a f (setSessionStateForCtx u s (ac_roles a) r)"
    and up: "upserted rq u s (w_store w) st'" and v: "\<not> invalid (st_sessions (w_store w)) s"
    using assms by (auto simp: issue_done_def invalid_def)
  have "s \<in> dom (st_sessions st')" using upserted_sessions(1) [OF up] by blast
  then show ?thesis
    using af v assms(2) upserted_le [OF up assms(2,3)]
    by (auto simp: half_def good_auth_def good_refresh_def)
qed

definition kept_by_token :: "auth_config \<Rightarrow> world \<Rightarrow> event \<Rightarrow> auth_claims \<Rightarrow> auth_error option \<Rightarrow> store \<Rightarrow> response \<Rightarrow> bool" where
  "kept_by_token cfg w e c res st' r =
     (res = None \<and> st' = w_store w \<and> sent (rs_auth r) = [] \<and> sent (rs_refresh r) = [] \<and>
      ctx_is (ac_session c) (ac_user c) (rs_ctx r) \<and> cx_roles (rs_ctx r) = Some (ac_roles c) \<and> c \<in> set (w_auth w) \<and> ev_auth e = Token c \<and>
      live (ev_now e) (ac_expires c) (ac_issued c) \<and>
      (\<exists>i. ac_issued c = Some i \<and> \<not> mustRefreshAuthToken (event_request cfg e) (ac_user c) i (w_store w)))"

text \<open>The refresh token \<open>f\<close> was presented in time, and new tokens of its session were issued.\<close>

definition kept_by_refresh :: "auth_config \<Rightarrow> world \<Rightarrow> event \<Rightarrow> refresh_claims \<Rightarrow> auth_error option \<Rightarrow> store \<Rightarrow> response \<Rightarrow> bool" where
  "kept_by_refresh cfg w e f res st' r =
     (ev_refresh e = Token f \<and> f \<in> set (w_refresh w) \<and> live (ev_now e) (rc_expires f) (rc_issued f) \<and>
      issue_done (event_request cfg e) (rc_user f) (rc_session f) (w_store w) no_response res st' r)"

definition turned_away :: "auth_config \<Rightarrow> world \<Rightarrow> event \<Rightarrow> auth_error option \<Rightarrow> store \<Rightarrow> response \<Rightarrow> bool" where
  "turned_away cfg w e res st' r =
     (\<exists>err. res = Some err \<and> ctx_out err (rs_ctx r) \<and> sent (rs_auth r) = [] \<and> sent (rs_refresh r) = [] \<and>
       (st' = w_store w \<or>
        (\<exists>s u. (s, u) \<in> set (w_started w) \<and> upserted (event_request cfg e) u s (w_store w) st')))"

lemma event_request_simps [simp]: "rq_cfg (event_request cfg e) = cfg" "rq_now (event_request cfg e) = ev_now e"
  by (simp_all add: event_request_def)

lemma continue_with_refresh_cases:
  assumes "sess_inv cfg w" "presented (w_refresh w) (ev_refresh e)"
    "continue_with_refresh (event_request cfg e) j authErr (ev_refresh e) (w_store w) no_response = (res, st', r)"
  shows "turned_away cfg w e res st' r \<or>
    (\<exists>f. kept_by_refresh cfg w e f res st' r)"
proof (cases "getAndParseRefreshToken (ev_now e) (ev_refresh e)")
  case (Ok f)
  then have t: "ev_refresh e = Token f" "live (ev_now e) (rc_expires f) (rc_issued f)"
    by (cases "ev_refresh e"; simp split: if_splits)+
  then have f: "f \<in> set (w_refresh w)" using assms(2) by simp
  then have st: "(rc_session f, rc_user f) \<in> set (w_started w)" using assms(1) by (simp add: sess_inv_def refresh_ok_def)
  obtain res1 st1 r1 where iss: "issueSessionTokens (event_request cfg e) j (rc_user f) (rc_session f) (rc_id f) (w_store w) no_response = (res1, st1, r1)"
    by (metis prod_cases3)
  from issueSessionTokens_cases [OF iss] show ?thesis
  proof
    assume h: "issue_failed (event_request cfg e) (rc_user f) (rc_session f) (w_store w) no_response res1 st1 r1"
    then obtain err where err: "res1 = Some err" by (auto simp: issue_failed_def)
    have "turned_away cfg w e res st' r"
      using assms(3) h st by (auto simp: turned_away_def continue_with_refresh_def Ok iss err issue_failed_def Let_def split: if_splits)
    then show ?thesis by simp
  next
    assume h: "issue_done (event_request cfg e) (rc_user f) (rc_session f) (w_store w) no_response res1 st1 r1"
    then have "res1 = None" by (simp add: issue_done_def)
    then have "kept_by_refresh cfg w e f res st' r"
      using assms(3) h f t by (simp add: kept_by_refresh_def continue_with_refresh_def Ok iss)
    then show ?thesis by blast
  qed
next
  case (Err x)
  then show ?thesis
    using assms(3) by (auto simp: turned_away_def continue_with_refresh_def Let_def split: if_splits)
next
  case (Panic p)
  then show ?thesis by (cases "ev_refresh e") (simp_all split: if_splits)
qed

lemma ContinueSession_cases:
  assumes inv: "sess_inv cfg w" and p: "presented (w_auth w) (ev_auth e)" "presented (w_refresh w) (ev_refresh e)"
    and c: "ContinueSession (event_request cfg e) i j (ev_auth e) (ev_refresh e) (w_store w) no_response = (res, st', r)"
  shows "(\<exists>c. kept_by_token cfg w e c res st' r) \<or> turned_away cfg w e res st' r \<or>
    (\<exists>f. kept_by_refresh cfg w e f res st' r)"
proof (cases "getAndParseAuthToken (ev_now e) (ev_auth e)")
  case (Ok a)
  then have ea: "ev_auth e = Token a" and l: "live (ev_now e) (ac_expires a) (ac_issued a)"
    by (cases "ev_auth e"; simp split: if_splits)+
  then have a: "a \<in> set (w_auth w)" using p by simp
  then obtain k where k: "ac_issued a = Some k" and st: "(ac_session a, ac_user a) \<in> set (w_started w)"
    using inv by (auto simp: sess_inv_def auth_ok_def)
  then have ne: "ac_session a \<noteq> []" "ac_user a \<noteq> []" using inv by (auto simp: sess_inv_def started_ok_def)
  show ?thesis
  proof (cases "mustRefreshAuthToken (event_request cfg e) (ac_user a) k (w_store w)")
    case True
    then have "continue_with_refresh (event_request cfg e) j None (ev_refresh e) (w_store w) no_response = (res, st', r)"
      using c Ok k ne by (simp add: ContinueSession_def)
    then show ?thesis using continue_with_refresh_cases [OF inv p(2)] by blast
  next
    case False
    then have r: "(res, st', r) = (None, w_store w, setSessionStateForCtx (ac_user a) (ac_session a) (ac_roles a) no_response)"
      using c Ok k ne by (simp add: ContinueSession_def)
    then have "kept_by_token cfg w e a res st' r"
      using ea l a k False by (simp add: kept_by_token_def setSessionState_simps [OF ne])
    then show ?thesis by blast
  qed
next
  case (Err x)
  then have "continue_with_refresh (event_request cfg e) j (Some x) (ev_refresh e) (w_store w) no_response = (res, st', r)"
    using c by (simp add: ContinueSession_def)
  then show ?thesis using continue_with_refresh_cases [OF inv p(2)] by blast
next
  case (Panic q)
  then show ?thesis by (cases "ev_auth e") (simp_all split: if_splits)
qed

lemma inv_dom: "sess_inv cfg w \<Longrightarrow> dom (st_sessions (w_store w)) \<subseteq> fst ` set (w_started w)"
  by (simp add: sess_inv_def)

lemma inv_refresh: "sess_inv cfg w \<Longrightarrow> f \<in> set (w_refresh w) \<Longrightarrow> (rc_session f, rc_user f) \<in> set (w_started w)"
  by (simp add: sess_inv_def refresh_ok_def)

lemma inv_auth: "sess_inv cfg w \<Longrightarrow> c \<in> set (w_auth w) \<Longrightarrow> (ac_session c, ac_user c) \<in> set (w_started w)"
  by (simp add: sess_inv_def auth_ok_def)

lemma inv_nonempty: "sess_inv cfg w \<Longrightarrow> (s, u) \<in> set (w_started w) \<Longrightarrow> s \<noteq> [] \<and> u \<noteq> []"
  by (auto simp: sess_inv_def started_ok_def)

text \<open>
  The middleware always answers; the context it leaves is that of a session of the ghost list or
  carries an error; and its effect on the store is allowed.
\<close>

lemma continued_ok:
  assumes "sess_inv cfg (arrive e w)" "enabled w e"
  obtains st' r where "continued cfg w e = Ok (st', r)" "half cfg (arrive e w) st' r"
    "(\<exists>s u. (s, u) \<in> set (w_started w) \<and> ctx_is s u (rs_ctx r)) \<or> (\<exists>err. ctx_out err (rs_ctx r))"
    "\<And>s u. ctx_is s u (rs_ctx r) \<Longrightarrow>
       (\<exists>c. kept_by_token cfg (arrive e w) e c None st' r \<and> ac_session c = s \<and> ac_user c = u) \<or>
       (\<exists>f. kept_by_refresh cfg (arrive e w) e f None st' r \<and> rc_session f = s \<and> rc_user f = u)"
proof -
  let ?w = "arrive e w"
  have p: "presented (w_auth ?w) (ev_auth e)" "presented (w_refresh ?w) (ev_refresh e)" "w_clock ?w = ev_now e"
    "w_started ?w = w_started w"
    using assms(2) by (simp_all add: enabled_def arrive_def)
  obtain res st' r where c: "ContinueSession (event_request cfg e) (fst (ev_continue_ids e)) (snd (ev_continue_ids e))
      (ev_auth e) (ev_refresh e) (w_store ?w) no_response = (res, st', r)"
    by (metis prod_cases3)
  from ContinueSession_cases [OF assms(1) p(1,2) c]
  consider (token) a where "kept_by_token cfg ?w e a res st' r"
    | (away) "turned_away cfg ?w e res st' r"
    | (issued) f where "kept_by_refresh cfg ?w e f res st' r" "f \<in> set (w_refresh ?w)"
        "issue_done (event_request cfg e) (rc_user f) (rc_session f) (w_store ?w) no_response res st' r"
    unfolding kept_by_refresh_def by blast
  then show thesis
  proof cases
    case token
    then have "half cfg ?w st' r" by (simp add: half_def kept_by_token_def store_le_refl inv_dom [OF assms(1)])
    moreover have "continued cfg w e = Ok (st', r)"
      using token c by (simp add: continued_def middleware_ContinueSession_def kept_by_token_def ctx_is_def
          GetUserIDFromCtx_def GetSessionIDFromCtx_def)
    moreover have "(ac_session a, ac_user a) \<in> set (w_started w) \<and> ctx_is (ac_session a) (ac_user a) (rs_ctx r)"
      using token inv_auth [OF assms(1)] p by (simp add: kept_by_token_def)
    ultimately show thesis
      using token that unfolding kept_by_token_def ctx_is_def by (metis id_value.inject(1) option.inject)
  next
    case away
    then obtain err where err: "res = Some err" "ctx_out err (rs_ctx r)" by (auto simp: turned_away_def)
    have "half cfg ?w st' r"
      using away upserted_le inv_dom [OF assms(1)] store_le_refl by (auto simp: half_def turned_away_def)
    moreover have "continued cfg w e = Ok (st', r)"
      using err c by (simp add: continued_def middleware_ContinueSession_def)
    ultimately show thesis using that err ctx_not_both by blast
  next
    case issued
    let ?s = "rc_session f" and ?u = "rc_user f"
    have su: "(?s, ?u) \<in> set (w_started ?w)" using inv_refresh [OF assms(1) issued(2)] by simp
    then have ne: "?s \<noteq> []" "?u \<noteq> []" using inv_nonempty [OF assms(1)] by auto
    have ctx: "ctx_is ?s ?u (rs_ctx r)" "res = None"
      using issued ne by (auto simp: issue_done_def setSessionState_simps)
    have "half cfg ?w st' r"
      using issue_done_half [OF issued(3) su inv_dom [OF assms(1)]] p by simp
    moreover have "continued cfg w e = Ok (st', r)"
      using ctx c by (simp add: continued_def middleware_ContinueSession_def ctx_is_def
          GetUserIDFromCtx_def GetSessionIDFromCtx_def)
    moreover have "s = ?s \<and> u = ?u" if "ctx_is s u (rs_ctx r)" for s u
      using that ctx by (simp add: ctx_is_def)
    ultimately show thesis using that su ctx issued p by metis
  qed
qed

section \<open>The operations\<close>

lemma cache_le_SetTime:
  assumes "cache_ok cfg now cache"
  shows "cache_le cfg now cache (SetTime now u now (cfg_auth_ttl cfg * second + minute) True cache)"
    "\<exists>t' x. SetTime now u now (cfg_auth_ttl cfg * second + minute) True cache u = Some (t', x) \<and> unix now \<le> t'"
  using assms
  by (auto simp: cache_le_def cache_ok_def SetTime_def cache_get_def Let_def unix_force_ttl split: option.splits if_splits)

lemma invalid_InvalidateSession: "invalid ss x \<Longrightarrow> invalid (InvalidateSession now s ss) x"
  by (auto simp: invalid_def InvalidateSession_def split: option.splits)

lemma InvalidateSession_invalid: "s \<in> dom ss \<Longrightarrow> invalid (InvalidateSession now s ss) s"
  by (auto simp: invalid_def InvalidateSession_def split: option.splits)

lemma dom_InvalidateSession: "dom (InvalidateSession now s ss) = dom ss"
  by (auto simp: InvalidateSession_def split: option.splits if_splits)

lemma half_same_store:
  assumes "sess_inv cfg w" "set (sent (rs_auth r)) \<subseteq> set (w_auth w)" "set (sent (rs_refresh r)) \<subseteq> set (w_refresh w)"
  shows "half cfg w (w_store w) r"
  using assms by (auto simp: half_def store_le_refl inv_dom)

lemma half_force:
  assumes "sess_inv cfg w" "ev_now e = w_clock w"
    "set (sent (rs_auth r)) \<subseteq> set (w_auth w)" "set (sent (rs_refresh r)) \<subseteq> set (w_refresh w)"
    "st = w_store w \<or> st = (w_store w)\<lparr>st_sessions := InvalidateSession now s (st_sessions (w_store w))\<rparr>"
  shows "half cfg w (ForceAuthTokenRefresh (event_request cfg e) u st) r"
proof -
  have c: "cache_ok cfg (w_clock w) (st_cache (w_store w))" using assms(1) by (simp add: sess_inv_def)
  have "st_cache st = st_cache (w_store w)" "dom (st_sessions st) = dom (st_sessions (w_store w))"
      "\<And>x. invalid (st_sessions (w_store w)) x \<Longrightarrow> invalid (st_sessions st) x"
    using assms(5) by (elim disjE; simp only: store.simps dom_InvalidateSession invalid_InvalidateSession; simp)+
  then have "store_le cfg w (ForceAuthTokenRefresh (event_request cfg e) u st)"
    using cache_le_SetTime(1) [OF c] assms(2) inv_dom [OF assms(1)]
    by (simp add: store_le_def ForceAuthTokenRefresh_def)
  then show ?thesis using assms(3,4) by (auto simp: half_def)
qed

lemma run_call_half:
  assumes inv: "sess_inv cfg w" and now: "ev_now e = w_clock w"
    and r: "set (sent (rs_auth r)) \<subseteq> set (w_auth w)" "set (sent (rs_refresh r)) \<subseteq> set (w_refresh w)"
    and ctx: "(\<exists>s u. (s, u) \<in> set (w_started w) \<and> ctx_is s u (rs_ctx r)) \<or> (\<exists>err. ctx_out err (rs_ctx r))"
    and v: "\<And>u. ev_call e = LoginAs u \<Longrightarrow> (fst (ev_login_ids e), u) \<in> set (w_started w)"
  obtains st2 r2 where "run_call cfg e (w_store w) r = Ok (st2, r2)" "half cfg w st2 r2"
proof (cases "ev_call e")
  case Browse
  then show thesis using that half_same_store [OF inv r] by (simp add: run_call_def)
next
  case (RefreshUser u)
  then show thesis using that half_force [OF inv now r] by (simp add: run_call_def)
next
  case LogOut
  let ?r = "clearSessionCookies (clearSessionStateForCtx (Some ErrNoCookie) r)"
  consider (signed) s u where "(s, u) \<in> set (w_started w)" "ctx_is s u (rs_ctx r)" | (anon) err where "ctx_out err (rs_ctx r)"
    using ctx by blast
  then show thesis
  proof cases
    case signed
    have c: "set (sent (rs_auth ?r)) \<subseteq> set (w_auth w)" "set (sent (rs_refresh ?r)) \<subseteq> set (w_refresh w)" by simp_all
    note h = half_force [OF inv now c, of _ "rq_now (event_request cfg e)" s u]
    show thesis
      using LogOut signed that [OF _ h] by (auto simp: run_call_def EndSession_def ctx_is_def GetUserAuthedFromCtx_def
          GetSessionIDFromCtx_def GetUserIDFromCtx_def Let_def split: if_splits)
  next
    case anon
    then show thesis
      using LogOut that half_same_store [OF inv, of ?r]
      by (simp add: run_call_def EndSession_def ctx_out_def GetUserAuthedFromCtx_def)
  qed
next
  case (LoginAs u)
  let ?rq = "event_request cfg e" and ?s = "fst (ev_login_ids e)"
  have su: "(?s, u) \<in> set (w_started w)" using v LoginAs by blast
  obtain res st1 r1 where iss: "issueSessionTokens ?rq (snd (ev_login_ids e)) u ?s [] (w_store w) r = (res, st1, r1)"
    by (metis prod_cases3)
  have start: "\<exists>r2. run_call cfg e (w_store w) r = Ok (st1, r2) \<and> half cfg w st1 r2"
    if new: "\<not> GetUserAuthedFromCtx (rs_ctx r) \<or> GetUserIDFromCtx (rs_ctx r) \<noteq> Ok u"
  proof -
    from issueSessionTokens_cases [OF iss] show ?thesis
    proof
      assume h: "issue_failed ?rq u ?s (w_store w) r res st1 r1"
      let ?r = "clearSessionCookies (clearSessionStateForCtx res r1)"
      from h have "store_le cfg w st1"
        using upserted_le [OF _ su inv_dom [OF inv]] store_le_refl [OF inv_dom [OF inv]] by (auto simp: issue_failed_def)
      then have "half cfg w st1 ?r" by (simp add: half_def)
      moreover have "run_call cfg e (w_store w) r = Ok (st1, ?r)"
        using h new iss LoginAs by (auto simp: run_call_def Login_def StartSession_def Let_def issue_failed_def)
      ultimately show ?thesis by blast
    next
      assume h: "issue_done ?rq u ?s (w_store w) r res st1 r1"
      then have "run_call cfg e (w_store w) r = Ok (st1, r1)"
        using new iss LoginAs by (auto simp: run_call_def Login_def StartSession_def Let_def issue_done_def)
      then show ?thesis using issue_done_half [OF h su inv_dom [OF inv]] now by simp
    qed
  qed
  show thesis
  proof (cases "\<not> GetUserAuthedFromCtx (rs_ctx r) \<or> GetUserIDFromCtx (rs_ctx r) \<noteq> Ok u")
    case True
    then show thesis using start that by blast
  next
    case False
    then have "run_call cfg e (w_store w) r = Ok (w_store w, r)"
      using LoginAs by (simp add: run_call_def Login_def Let_def)
    then show thesis using that half_same_store [OF inv r] by blast
  qed
qed

section \<open>Every request\<close>

lemma sess_inv_arrive: "sess_inv cfg w \<Longrightarrow> w_clock w \<le> ev_now e \<Longrightarrow> sess_inv cfg (arrive e w)"
  using unix_mono [of "w_clock w" "ev_now e"]
  by (fastforce simp: sess_inv_def arrive_def auth_ok_def refresh_ok_def cache_ok_def)

lemma logout_arrive: "revoked s t w \<Longrightarrow> revoked s t (arrive e w)" "forced u t w \<Longrightarrow> forced u t (arrive e w)"
  by (simp_all add: revoked_def forced_def arrive_def)

lemma vouch_simps [simp]:
  "w_clock (vouch e w) = w_clock w" "w_store (vouch e w) = w_store w" "w_auth (vouch e w) = w_auth w"
  "w_refresh (vouch e w) = w_refresh w" "set (w_started w) \<subseteq> set (w_started (vouch e w))"
  by (auto simp: vouch_def split: api_call.splits)

lemma keep_sent_simps [simp]:
  "w_clock (keep_sent r st w) = w_clock w" "w_store (keep_sent r st w) = st"
  "w_auth (keep_sent r st w) = sent (rs_auth r) @ w_auth w" "w_refresh (keep_sent r st w) = sent (rs_refresh r) @ w_refresh w"
  "w_started (keep_sent r st w) = w_started w"
  by (simp_all add: keep_sent_def)

lemma arrive_simps [simp]:
  "w_clock (arrive e w) = ev_now e" "w_started (arrive e w) = w_started w" "w_auth (arrive e w) = w_auth w"
  "w_refresh (arrive e w) = w_refresh w" "w_store (arrive e w) = (w_store w)\<lparr>st_roles := ev_roles e\<rparr>"
  by (simp_all add: arrive_def)

lemma sess_inv_vouch:
  assumes "sess_inv cfg w" "fst (ev_login_ids e) \<noteq> []" "fst (ev_login_ids e) \<notin> fst ` set (w_started w)"
    "\<And>u. ev_call e = LoginAs u \<Longrightarrow> u \<noteq> []"
  shows "sess_inv cfg (vouch e w)"
proof -
  have "started_ok (w_started (vouch e w))"
    using assms by (auto simp: vouch_def sess_inv_def started_ok_def split: api_call.splits)
  moreover have "auth_ok cfg (vouch e w) c" if "auth_ok cfg w c" for c
    using that vouch_simps(5) [of w e] unfolding auth_ok_def vouch_simps by blast
  moreover have "refresh_ok (vouch e w) f" if "refresh_ok w f" for f
    using that vouch_simps(5) [of w e] unfolding refresh_ok_def vouch_simps by blast
  moreover have "fst ` set (w_started w) \<subseteq> fst ` set (w_started (vouch e w))"
    using vouch_simps(5) by (rule image_mono)
  ultimately show ?thesis using assms(1) unfolding sess_inv_def vouch_simps by blast
qed

lemma logout_vouch: "revoked s t w \<Longrightarrow> revoked s t (vouch e w)" "forced u t w \<Longrightarrow> forced u t (vouch e w)"
  using image_mono [OF vouch_simps(5), of fst w e] unfolding revoked_def forced_def vouch_simps by blast+

text \<open>A request is always answered, and its two halves are allowed.\<close>

lemma request_halves:
  assumes "sess_inv cfg w" "enabled w e"
  obtains st1 r st2 r2 where "continued cfg w e = Ok (st1, r)" "run_call cfg e st1 r = Ok (st2, r2)"
    "half cfg (arrive e w) st1 r" "half cfg (vouch e (keep_sent r st1 (arrive e w))) st2 r2"
    "sess_inv cfg (vouch e (keep_sent r st1 (arrive e w)))"
proof -
  have a: "sess_inv cfg (arrive e w)" using sess_inv_arrive assms by (simp add: enabled_def)
  from continued_ok [OF a assms(2)] obtain st1 r where c: "continued cfg w e = Ok (st1, r)" "half cfg (arrive e w) st1 r"
    "(\<exists>s u. (s, u) \<in> set (w_started w) \<and> ctx_is s u (rs_ctx r)) \<or> (\<exists>err. ctx_out err (rs_ctx r))"
    by metis
  let ?w = "vouch e (keep_sent r st1 (arrive e w))"
  have inv: "sess_inv cfg ?w"
    using assms(2) half_inv [OF a c(2)] by (intro sess_inv_vouch) (auto simp: enabled_def)
  have ctx: "(\<exists>s u. (s, u) \<in> set (w_started ?w) \<and> ctx_is s u (rs_ctx r)) \<or> (\<exists>err. ctx_out err (rs_ctx r))"
    using c(3) vouch_simps(5) [of "keep_sent r st1 (arrive e w)" e] unfolding keep_sent_simps arrive_simps by blast
  have v: "(fst (ev_login_ids e), u) \<in> set (w_started ?w)" if "ev_call e = LoginAs u" for u
    using that by (simp add: vouch_def)
  obtain st2 r2 where "run_call cfg e (w_store ?w) r = Ok (st2, r2)" "half cfg ?w st2 r2"
    by (rule run_call_half [OF inv _ _ _ ctx v]) simp_all
  then show thesis using that c inv by simp
qed

end
