(* ===== verification/Session_Props.thy ===== *)
theory Session_Props
  imports Session_Runs
begin

text \<open>What sessions promise, over every run of requests.\<close>

lemma sess_inv_init: "sess_inv cfg (init_world now roles)"
  by (simp add: sess_inv_def init_world_def started_ok_def cache_ok_def)

lemma wstep_halves:
  assumes "sess_inv cfg w" "wstep cfg w e r w'"
  obtains st1 st2 r2 where "enabled w e" "continued cfg w e = Ok (st1, r)" "run_call cfg e st1 r = Ok (st2, r2)"
    "half cfg (arrive e w) st1 r" "half cfg (vouch e (keep_sent r st1 (arrive e w))) st2 r2"
    "sess_inv cfg (vouch e (keep_sent r st1 (arrive e w)))"
    "w' = keep_sent r2 st2 (vouch e (keep_sent r st1 (arrive e w)))"
proof -
  obtain st1 st2 r2 where h: "enabled w e" "continued cfg w e = Ok (st1, r)" "run_call cfg e st1 r = Ok (st2, r2)"
      "w' = keep_sent r2 st2 (vouch e (keep_sent r st1 (arrive e w)))"
    using assms(2) by (rule wstepE) blast
  obtain st1' r' st2' r2' where g: "continued cfg w e = Ok (st1', r')" "run_call cfg e st1' r' = Ok (st2', r2')"
      "half cfg (arrive e w) st1' r'" "half cfg (vouch e (keep_sent r' st1' (arrive e w))) st2' r2'"
      "sess_inv cfg (vouch e (keep_sent r' st1' (arrive e w)))"
    by (rule request_halves [OF assms(1) h(1)])
  then have "st1' = st1" "r' = r" "st2' = st2" "r2' = r2" using h by auto
  then show thesis using that h g by blast
qed

lemma sess_inv_step: "sess_inv cfg w \<Longrightarrow> wstep cfg w e r w' \<Longrightarrow> sess_inv cfg w'"
  by (metis wstep_halves half_inv)

lemma reach_sess_inv: "reach cfg w \<Longrightarrow> sess_inv cfg w"
  by (induction rule: reach.induct) (auto intro: sess_inv_init sess_inv_step)

lemma wsteps_sess_inv: "wsteps cfg w w' \<Longrightarrow> sess_inv cfg w \<Longrightarrow> sess_inv cfg w'"
  by (induction rule: wsteps.induct) (auto intro: sess_inv_step)

lemma revoked_step:
  assumes "sess_inv cfg w" "wstep cfg w e r w'" "revoked s t w"
  shows "revoked s t w'"
  by (rule wstep_halves [OF assms(1,2)])
    (use assms(3) in \<open>blast intro: half_revoked logout_vouch logout_arrive\<close>)

lemma forced_step:
  assumes "sess_inv cfg w" "wstep cfg w e r w'" "forced u t w"
  shows "forced u t w'"
  by (rule wstep_halves [OF assms(1,2)])
    (use assms(3) in \<open>blast intro: half_forced logout_vouch logout_arrive\<close>)

lemma revoked_steps: "wsteps cfg w w' \<Longrightarrow> sess_inv cfg w \<Longrightarrow> revoked s t w \<Longrightarrow> revoked s t w'"
  by (induction rule: wsteps.induct) (auto intro: revoked_step wsteps_sess_inv)

lemma forced_steps: "wsteps cfg w w' \<Longrightarrow> sess_inv cfg w \<Longrightarrow> forced u t w \<Longrightarrow> forced u t w'"
  by (induction rule: wsteps.induct) (auto intro: forced_step wsteps_sess_inv)

lemma started_steps: "wsteps cfg w w' \<Longrightarrow> set (w_started w) \<subseteq> set (w_started w')"
proof (induction rule: wsteps.induct)
  case (more w w' e r w'')
  have "set (w_started w') \<subseteq> set (w_started w'')"
    using more.hyps(2) by (rule wstepE) (auto simp: vouch_def split: api_call.splits)
  then show ?case using more.IH by blast
qed simp

lemma ctx_is_getters:
  "GetSessionIDFromCtx c = Ok s \<Longrightarrow> GetUserIDFromCtx c = Ok u \<Longrightarrow>
   (\<exists>s u. ctx_is s u c) \<or> (\<exists>err. ctx_out err c) \<Longrightarrow> ctx_is s u c"
  by (auto simp: ctx_is_def ctx_out_def GetSessionIDFromCtx_def GetUserIDFromCtx_def)

lemma step_ctx:
  assumes "sess_inv cfg w" "wstep cfg w e r w'"
  shows "(\<exists>s u. (s, u) \<in> set (w_started w) \<and> ctx_is s u (rs_ctx r)) \<or> (\<exists>err. ctx_out err (rs_ctx r))"
proof (rule wstep_halves [OF assms])
  fix st1 assume "enabled w e" and c: "continued cfg w e = Ok (st1, r)"
  then have "sess_inv cfg (arrive e w)" using sess_inv_arrive assms(1) by (simp add: enabled_def)
  from continued_ok [OF this \<open>enabled w e\<close>] c show ?thesis by (metis outcome.inject(1) prod.inject)
qed

text \<open>How a request comes to run in a session.\<close>

definition by_auth_token :: "auth_config \<Rightarrow> event \<Rightarrow> response \<Rightarrow> DBID \<Rightarrow> DBID \<Rightarrow> auth_claims \<Rightarrow> bool" where
  "by_auth_token cfg e r s u c =
     (ev_auth e = Token c \<and> ac_session c = s \<and> ac_user c = u \<and> live (ev_now e) (ac_expires c) (ac_issued c) \<and>
      (\<exists>i. ac_issued c = Some i \<and> ac_expires c = i + cfg_auth_ttl cfg) \<and>
      cx_roles (rs_ctx r) = Some (ac_roles c) \<and> sent (rs_auth r) = [] \<and> sent (rs_refresh r) = [])"

definition by_refresh_token :: "world \<Rightarrow> event \<Rightarrow> response \<Rightarrow> DBID \<Rightarrow> DBID \<Rightarrow> refresh_claims \<Rightarrow> bool" where
  "by_refresh_token w e r s u f =
     (ev_refresh e = Token f \<and> rc_session f = s \<and> rc_user f = u \<and> live (ev_now e) (rc_expires f) (rc_issued f) \<and>
      \<not> invalid (st_sessions (w_store w)) s \<and> cx_roles (rs_ctx r) = Some (ev_roles e u) \<and>
      (\<exists>a f'. rs_auth r = NewCookie a \<and> rs_refresh r = NewCookie f' \<and> ac_session a = s \<and> ac_user a = u \<and>
         ac_roles a = ev_roles e u \<and> rc_session f' = s \<and> rc_user f' = u))"

lemma continued_by:
  assumes "sess_inv cfg (arrive e w)" "enabled w e" "continued cfg w e = Ok (st1, r)" "ctx_is s u (rs_ctx r)"
  shows "(\<exists>c. kept_by_token cfg (arrive e w) e c None st1 r \<and> ac_session c = s \<and> ac_user c = u) \<or>
    (\<exists>f. kept_by_refresh cfg (arrive e w) e f None st1 r \<and> rc_session f = s \<and> rc_user f = u)"
proof (rule continued_ok [OF assms(1,2)])
  fix st2 r2
  assume c: "continued cfg w e = Ok (st2, r2)" and by_tokens: "\<And>s u. ctx_is s u (rs_ctx r2) \<Longrightarrow>
       (\<exists>c. kept_by_token cfg (arrive e w) e c None st2 r2 \<and> ac_session c = s \<and> ac_user c = u) \<or>
       (\<exists>f. kept_by_refresh cfg (arrive e w) e f None st2 r2 \<and> rc_session f = s \<and> rc_user f = u)"
  have "st2 = st1" "r2 = r" using c assms(3) by simp_all
  then show ?thesis using by_tokens assms(4) by simp
qed

lemma step_by_token:
  assumes inv: "sess_inv cfg w" and st: "wstep cfg w e r w'" and ctx: "ctx_is s u (rs_ctx r)"
  shows "(\<exists>c. by_auth_token cfg e r s u c \<and> c \<in> set (w_auth w) \<and>
       (\<forall>i. ac_issued c = Some i \<longrightarrow> \<not> mustRefreshAuthToken (event_request cfg e) u i (w_store (arrive e w)))) \<or>
    (\<exists>f. by_refresh_token w e r s u f \<and> f \<in> set (w_refresh w))"
proof (rule wstep_halves [OF inv st])
  fix st1 assume en: "enabled w e" and c: "continued cfg w e = Ok (st1, r)"
  let ?w = "arrive e w"
  have a: "sess_inv cfg ?w" using sess_inv_arrive inv en by (simp add: enabled_def)
  from continued_by [OF a en c ctx]
  consider (token) k where "kept_by_token cfg ?w e k None st1 r" "ac_session k = s" "ac_user k = u"
    | (refresh) f where "kept_by_refresh cfg ?w e f None st1 r" "rc_session f = s" "rc_user f = u"
    by blast
  then show ?thesis
  proof cases
    case token
    then have k: "k \<in> set (w_auth ?w)" "k \<in> set (w_auth w)" by (simp_all add: kept_by_token_def)
    then obtain i where "ac_issued k = Some i" "ac_expires k = i + cfg_auth_ttl cfg"
      using a by (auto simp: sess_inv_def auth_ok_def)
    then show ?thesis using token k unfolding kept_by_token_def by_auth_token_def by auto
  next
    case refresh
    then have s: "(s, u) \<in> set (w_started ?w)" using inv_refresh [OF a, of f] by (simp add: kept_by_refresh_def)
    then have ne: "s \<noteq> []" "u \<noteq> []" using inv_nonempty [OF a] by blast+
    have "by_refresh_token w e r s u f"
      using refresh setSessionState_simps(4) [OF ne]
      by (auto simp: kept_by_refresh_def issue_done_def by_refresh_token_def fresh_auth_def invalid_def setSessionCookies_def)
    then show ?thesis using refresh(1) by (auto simp: kept_by_refresh_def)
  qed
qed

lemma revoked_no_refresh: "revoked s t w \<Longrightarrow> \<not> by_refresh_token w e r s u f"
  by (simp add: revoked_def by_refresh_token_def)

lemma forced_token:
  assumes inv: "sess_inv cfg w" and t: "forced u t w" and now: "w_clock w \<le> ev_now e"
    and c: "by_auth_token cfg e r s u c" "ac_issued c = Some i"
    and ok: "\<not> mustRefreshAuthToken (event_request cfg e) u i (w_store (arrive e w))"
  shows "unix t \<le> i"
proof (rule ccontr)
  assume le: "\<not> unix t \<le> i"
  obtain t' x where cu: "st_cache (w_store w) u = Some (t', x)" "unix t \<le> t'" using t by (auto simp: forced_def)
  have x: "x = t' + cfg_auth_ttl cfg + 60" using inv cu by (auto simp: sess_inv_def cache_ok_def)
  have "unix (ev_now e) < i + cfg_auth_ttl cfg" using c by (auto simp: by_auth_token_def live_def less_seconds)
  then have "unix (ev_now e) < x" using x cu(2) le by linarith
  then have "cache_get (ev_now e) (st_cache (w_store w)) u = Some t'" using cu by (simp add: cache_get_def less_seconds)
  then have "\<not> i * second < t' * second"
    using ok by (auto simp: mustRefreshAuthToken_def GetTime_def split: if_splits)
  then show False using cu(2) le by (simp add: second_def)
qed

text \<open>What a logout writes; an error of either write is only logged.\<close>

lemma logout_writes:
  assumes inv: "sess_inv cfg w" and st: "wstep cfg w e r w'" and call: "ev_call e = LogOut"
    and ctx: "ctx_is s u (rs_ctx r)"
  shows "\<not> f_invalidate (ev_faults e) \<Longrightarrow> revoked s (ev_now e) w'" "\<not> f_redis_set (ev_faults e) \<Longrightarrow> forced u (ev_now e) w'"
proof -
  obtain st1 st2 r2 where en: "enabled w e" and c: "continued cfg w e = Ok (st1, r)" and rc: "run_call cfg e st1 r = Ok (st2, r2)"
    and w: "sess_inv cfg (vouch e (keep_sent r st1 (arrive e w)))" "w' = keep_sent r2 st2 (vouch e (keep_sent r st1 (arrive e w)))"
    by (rule wstep_halves [OF inv st]) blast
  let ?w = "vouch e (keep_sent r st1 (arrive e w))"
  have started: "w_started ?w = w_started w" using call by (simp add: vouch_def)
  have a: "sess_inv cfg (arrive e w)" using sess_inv_arrive inv en by (simp add: enabled_def)
  have su: "(s, u) \<in> set (w_started w)" using step_ctx [OF inv st] ctx ctx_not_both by (auto simp: ctx_is_def)
  then have s: "s \<noteq> []" "s \<in> fst ` set (w_started w)" using inv_nonempty [OF inv] by (blast, force)
  from continued_by [OF a en c ctx]
  consider (token) k where "kept_by_token cfg (arrive e w) e k None st1 r" "ac_session k = s"
    | (refresh) f where "kept_by_refresh cfg (arrive e w) e f None st1 r" "rc_session f = s"
    by blast
  then have dom: "s \<in> dom (st_sessions st1)"
  proof cases
    case token
    then show ?thesis using a by (auto simp: kept_by_token_def sess_inv_def auth_ok_def)
  next
    case refresh
    then have "upserted (event_request cfg e) (rc_user f) s (w_store (arrive e w)) st1"
      by (simp add: kept_by_refresh_def issue_done_def)
    then show ?thesis using upserted_sessions(1) by blast
  qed
  have st2: "st2 = ForceAuthTokenRefresh (event_request cfg e) u
      (if f_invalidate (ev_faults e) then st1 else st1\<lparr>st_sessions := InvalidateSession (ev_now e) s (st_sessions st1)\<rparr>)"
    "r2 = clearSessionCookies (clearSessionStateForCtx (Some ErrNoCookie) r)"
    using rc ctx call s
    by (auto simp: run_call_def EndSession_def ctx_is_def GetUserAuthedFromCtx_def GetSessionIDFromCtx_def
        GetUserIDFromCtx_def event_request_def Let_def)
  have old: "i \<le> unix (ev_now e)" if "k \<in> set (w_auth ?w)" "ac_issued k = Some i" for k i
    using that w(1) unfolding sess_inv_def auth_ok_def by fastforce
  show "revoked s (ev_now e) w'" if "\<not> f_invalidate (ev_faults e)"
  proof -
    have "invalid (st_sessions st2) s"
      using that st2 InvalidateSession_invalid [OF dom] by (simp add: ForceAuthTokenRefresh_def)
    then show ?thesis using s(2) started old st2(2) w(2) by (simp add: revoked_def)
  qed
  show "forced u (ev_now e) w'" if "\<not> f_redis_set (ev_faults e)"
  proof -
    have "cache_ok cfg (ev_now e) (st_cache st1)" using w(1) by (simp add: sess_inv_def)
    from cache_le_SetTime(2) [OF this, of u] show ?thesis
      using that st2(1) w(2) by (simp add: forced_def ForceAuthTokenRefresh_def event_request_def)
  qed
qed

section \<open>Properties\<close>


text \<open>C2: Whatever errors a logout meets, which it only logs, a request enters that session again only
  with one of its auth tokens, before that expires, or with one of its refresh tokens. If the session was
  invalidated, no refresh token and no auth token from a later second than the logout gets in; if the
  forced refresh was noted, no auth token from an earlier second. So after a logout without errors only
  an auth token issued in the second of the logout still works, until it expires.\<close>

theorem logout_ends_session:
  assumes "reach cfg w" "wstep cfg w e r w1" "ev_call e = LogOut"
    and "GetUserAuthedFromCtx (rs_ctx r)" "GetSessionIDFromCtx (rs_ctx r) = Ok s"
    and "wsteps cfg w1 w2" "wstep cfg w2 e2 r2 w3"
    and "GetUserAuthedFromCtx (rs_ctx r2)" "GetSessionIDFromCtx (rs_ctx r2) = Ok s"
  shows "\<exists>u. GetUserIDFromCtx (rs_ctx r) = Ok u \<and> GetUserIDFromCtx (rs_ctx r2) = Ok u \<and>
    ((\<exists>c i. by_auth_token cfg e2 r2 s u c \<and> ac_issued c = Some i \<and>
        (f_invalidate (ev_faults e) \<or> i \<le> unix (ev_now e)) \<and> (f_redis_set (ev_faults e) \<or> unix (ev_now e) \<le> i)) \<or>
     (\<exists>f. by_refresh_token w2 e2 r2 s u f \<and> f_invalidate (ev_faults e)))"
proof -
  note inv = reach_sess_inv [OF assms(1)]
  note inv1 = sess_inv_step [OF inv assms(2)]
  note inv2 = wsteps_sess_inv [OF assms(6) inv1]
  obtain u where u: "ctx_is s u (rs_ctx r)" "(s, u) \<in> set (w_started w)"
    using step_ctx [OF inv assms(2)] assms(4,5) by (auto simp: ctx_is_def ctx_out_def GetUserAuthedFromCtx_def GetSessionIDFromCtx_def)
  obtain u' where u': "ctx_is s u' (rs_ctx r2)" "(s, u') \<in> set (w_started w2)"
    using step_ctx [OF inv2 assms(7)] assms(8,9) by (auto simp: ctx_is_def ctx_out_def GetUserAuthedFromCtx_def GetSessionIDFromCtx_def)
  have "(s, u) \<in> set (w_started w2)"
    using u(2) started_steps [OF assms(6)] started_steps [OF wsteps.more [OF wsteps.here assms(2)]] by blast
  then have "u' = u" using started_unique u'(2) inv2 by (auto simp: sess_inv_def)
  then have ids: "GetUserIDFromCtx (rs_ctx r) = Ok u" "GetUserIDFromCtx (rs_ctx r2) = Ok u"
    using u(1) u'(1) by (simp_all add: ctx_is_def GetUserIDFromCtx_def)
  note writes = logout_writes [OF inv assms(2,3) u(1)]
  have dead: "revoked s (ev_now e) w2" if "\<not> f_invalidate (ev_faults e)"
    using revoked_steps [OF assms(6) inv1 writes(1) [OF that]] .
  have forced: "forced u (ev_now e) w2" if "\<not> f_redis_set (ev_faults e)"
    using forced_steps [OF assms(6) inv1 writes(2) [OF that]] .
  have now: "w_clock w2 \<le> ev_now e2" using assms(7) by (auto elim!: wstepE simp: enabled_def)
  consider (token) c where "by_auth_token cfg e2 r2 s u c" "c \<in> set (w_auth w2)"
      "\<forall>i. ac_issued c = Some i \<longrightarrow> \<not> mustRefreshAuthToken (event_request cfg e2) u i (w_store (arrive e2 w2))"
    | (refresh) f where "by_refresh_token w2 e2 r2 s u f"
    using step_by_token [OF inv2 assms(7) u'(1)] \<open>u' = u\<close> by blast
  then show ?thesis
  proof cases
    case token
    then obtain i where i: "ac_issued c = Some i" by (auto simp: by_auth_token_def)
    have "i \<le> unix (ev_now e)" if "\<not> f_invalidate (ev_faults e)"
      using dead [OF that] token(1,2) i by (auto simp: revoked_def by_auth_token_def)
    moreover have "unix (ev_now e) \<le> i" if "\<not> f_redis_set (ev_faults e)"
      using forced_token [OF inv2 forced [OF that] now token(1) i] token(3) i by blast
    ultimately show ?thesis using ids token(1) i by blast
  next
    case refresh
    then show ?thesis using ids dead revoked_no_refresh by blast
  qed
qed

text \<open>C27: Every enabled request is answered without a panic, and the context the middleware leaves
  has a value under each of its five keys: the IDs of user and session as \<open>persist.DBID\<close>, the nil
  error, the flag and the roles, those of the auth token or of the tables, when the request is
  authenticated; two empty \<open>string\<close>s, an error, no flag and no roles otherwise. On the second kind
  \<open>getAuthenticatedUserID\<close> returns the error and the unguarded getters of the IDs panic.\<close>

theorem request_context_complete:
  assumes "reach cfg w" "enabled w e"
  shows "\<exists>r w'. wstep cfg w e r w' \<and>
    ((\<exists>s u roles. u \<noteq> [] \<and> s \<noteq> [] \<and>
        rs_ctx r = \<lparr>cx_user = Some (AsDBID u), cx_session = Some (AsDBID s), cx_auth_error = Some None,
          cx_authed = True, cx_roles = Some roles\<rparr> \<and>
        ((\<exists>c. ev_auth e = Token c \<and> roles = ac_roles c) \<or> roles = ev_roles e u) \<and>
        getAuthenticatedUserID (rs_ctx r) = Ok u \<and> GetUserIDFromCtx (rs_ctx r) = Ok u \<and> GetSessionIDFromCtx (rs_ctx r) = Ok s) \<or>
     (\<exists>err. rs_ctx r = \<lparr>cx_user = Some (AsString []), cx_session = Some (AsString []), cx_auth_error = Some (Some err),
          cx_authed = False, cx_roles = Some []\<rparr> \<and>
        getAuthenticatedUserID (rs_ctx r) = Err err \<and> is_panic (GetUserIDFromCtx (rs_ctx r)) \<and>
        is_panic (GetSessionIDFromCtx (rs_ctx r))))"
proof -
  note inv = reach_sess_inv [OF assms(1)]
  obtain st1 r st2 r2 where "continued cfg w e = Ok (st1, r)" "run_call cfg e st1 r = Ok (st2, r2)"
    by (rule request_halves [OF inv assms(2)])
  then have st: "wstep cfg w e r (keep_sent r2 st2 (vouch e (keep_sent r st1 (arrive e w))))"
    using assms(2) by (intro wstep.request)
  from step_ctx [OF inv st]
  consider (in_session) s u where "(s, u) \<in> set (w_started w)" "ctx_is s u (rs_ctx r)" | (out) err where "ctx_out err (rs_ctx r)"
    by blast
  then show ?thesis
  proof cases
    case in_session
    then have ne: "s \<noteq> []" "u \<noteq> []" using inv_nonempty [OF inv] by blast+
    obtain roles where roles: "cx_roles (rs_ctx r) = Some roles"
        "(\<exists>c. ev_auth e = Token c \<and> roles = ac_roles c) \<or> roles = ev_roles e u"
      using step_by_token [OF inv st in_session(2)] unfolding by_auth_token_def by_refresh_token_def by blast
    have "rs_ctx r = \<lparr>cx_user = Some (AsDBID u), cx_session = Some (AsDBID s), cx_auth_error = Some None,
          cx_authed = True, cx_roles = Some roles\<rparr>"
      using in_session(2) roles(1) by (simp add: ctx_is_def)
    then show ?thesis
      using st ne roles(2) unfolding getAuthenticatedUserID_def GetAuthErrorFromCtx_def GetUserIDFromCtx_def GetSessionIDFromCtx_def
      by auto
  next
    case out
    then have "rs_ctx r = \<lparr>cx_user = Some (AsString []), cx_session = Some (AsString []), cx_auth_error = Some (Some err),
          cx_authed = False, cx_roles = Some []\<rparr>"
      by (simp add: ctx_out_def)
    then show ?thesis
      using st unfolding getAuthenticatedUserID_def GetAuthErrorFromCtx_def GetUserIDFromCtx_def GetSessionIDFromCtx_def by auto
  qed
qed

section \<open>A run with a logout\<close>

text \<open>Login at second 100, logout with the token it gave in the same second, a request a minute later.\<close>

definition sample_cfg :: auth_config where
  "sample_cfg = \<lparr>cfg_auth_ttl = 3600, cfg_refresh_ttl = 86400\<rparr>"

definition no_faults :: faults where
  "no_faults = \<lparr>f_sign_refresh = None, f_roles = None, f_sign_auth = None, f_upsert = None, f_invalidate = False,
     f_redis_get = False, f_redis_set = False\<rparr>"

definition sample_event :: "int \<Rightarrow> auth_claims cookie \<Rightarrow> api_call \<Rightarrow> string \<Rightarrow> event" where
  "sample_event now tok call sid =
     \<lparr>ev_now = now * second, ev_client = ([], [], []), ev_faults = no_faults, ev_roles = (\<lambda>_. []), ev_auth = tok,
      ev_refresh = NoCookie, ev_continue_ids = (''c'', ''d''), ev_login_ids = (sid, ''r''), ev_call = call\<rparr>"

definition sample_token :: auth_claims where
  "sample_token = \<lparr>ac_user = ''u'', ac_session = ''s'', ac_refresh = [], ac_roles = [], ac_issued = Some 100, ac_expires = 3700\<rparr>"

definition wexec :: "auth_config \<Rightarrow> world \<Rightarrow> event \<Rightarrow> (response \<times> world) option" where
  "wexec cfg w e =
     (if \<not> enabled w e then None else
      case continued cfg w e of
        Ok (st1, r) \<Rightarrow>
          (case run_call cfg e st1 r of
             Ok (st2, r2) \<Rightarrow> Some (r, keep_sent r2 st2 (vouch e (keep_sent r st1 (arrive e w))))
           | _ \<Rightarrow> None)
      | _ \<Rightarrow> None)"

lemma wexec_step: "wexec cfg w e = Some (r, w') \<Longrightarrow> wstep cfg w e r w'"
  by (auto simp: wexec_def split: if_splits outcome.splits prod.splits intro: wstep.request)

definition sample_login :: event where "sample_login = sample_event 100 NoCookie (LoginAs ''u'') ''s''"
definition sample_logout :: event where "sample_logout = sample_event 100 (Token sample_token) LogOut ''t''"
definition sample_later :: event where "sample_later = sample_event 160 (Token sample_token) Browse ''t''"

definition sample_world :: "nat \<Rightarrow> response \<times> world" where
  "sample_world n =
     (let w0 = init_world 0 (\<lambda>_. []); x1 = the (wexec sample_cfg w0 sample_login);
          x2 = the (wexec sample_cfg (snd x1) sample_logout) in
      if n = 0 then (no_response, w0) else if n = 1 then x1 else if n = 2 then x2
      else the (wexec sample_cfg (snd x2) sample_later))"

lemma sample_wexec:
  "wexec sample_cfg (snd (sample_world 0)) sample_login \<noteq> None"
  "wexec sample_cfg (snd (sample_world 1)) sample_logout \<noteq> None"
  "wexec sample_cfg (snd (sample_world 2)) sample_later \<noteq> None"
  by code_simp+

lemma sample_steps:
  "wstep sample_cfg (snd (sample_world 0)) sample_login (fst (sample_world 1)) (snd (sample_world 1))"
  "wstep sample_cfg (snd (sample_world 1)) sample_logout (fst (sample_world 2)) (snd (sample_world 2))"
  "wstep sample_cfg (snd (sample_world 2)) sample_later (fst (sample_world 3)) (snd (sample_world 3))"
  using sample_wexec by (auto intro!: wexec_step simp: sample_world_def Let_def)

lemma sample_reach: "reach sample_cfg (snd (sample_world 0))" "reach sample_cfg (snd (sample_world 1))"
proof -
  show 0: "reach sample_cfg (snd (sample_world 0))" by (simp add: sample_world_def Let_def reach.init)
  show "reach sample_cfg (snd (sample_world 1))" by (rule reach.step [OF 0 sample_steps(1)])
qed

lemma sample_contexts:
  "GetUserAuthedFromCtx (rs_ctx (fst (sample_world 2)))" "GetSessionIDFromCtx (rs_ctx (fst (sample_world 2))) = Ok ''s''"
  "GetUserAuthedFromCtx (rs_ctx (fst (sample_world 3)))" "GetSessionIDFromCtx (rs_ctx (fst (sample_world 3))) = Ok ''s''"
  "enabled (snd (sample_world 1)) sample_logout"
  by code_simp+


theorem logout_ends_session_witness:
  "\<exists>u c. by_auth_token sample_cfg sample_later (fst (sample_world 3)) ''s'' u c \<and>
     ac_issued c = Some (unix (ev_now sample_logout))"
proof -
  have f: "\<not> f_invalidate (ev_faults sample_logout)" "\<not> f_redis_set (ev_faults sample_logout)" "ev_call sample_logout = LogOut"
    by (simp_all add: sample_logout_def sample_event_def no_faults_def)
  show ?thesis
    using logout_ends_session [OF sample_reach(2) sample_steps(2) f(3) sample_contexts(1,2) wsteps.here
        sample_steps(3) sample_contexts(3,4)] f(1,2) by (metis order_antisym)
qed

theorem request_context_complete_witness:
  "\<exists>r w'. wstep sample_cfg (snd (sample_world 1)) sample_logout r w'"
  using request_context_complete [OF sample_reach(2) sample_contexts(5)] by blast

end
