(* ===== verification/User_Store.thy ===== *)
theory User_Store
  imports Chains
begin

text \<open>
  The tables of users, wallets and email addresses with the queries of db/gen/coredb/query.sql.go
  and of service/persist/postgres/user.go on them, and the connection they run on. Of the constraints
  in db/migrations/core the primary keys, the foreign key on users and the unique indexes are
  modelled; a statement that breaks one fails and, inside a transaction, aborts it. The NULL array of
  a user without wallets behaves in every query like the empty list that stands for it here.
\<close>

type_synonym UserID = string
type_synonym WalletID = string

record wallet_row =
  wl_id :: WalletID
  wl_address :: Address
  wl_chain :: Chain
  wl_l1_chain :: L1Chain
  wl_type :: int
  wl_deleted :: bool

record user_row =
  us_id :: UserID
  us_deleted :: bool
  us_username :: "string option"
  us_idempotent :: "string option"
  us_wallets :: "WalletID list"
  us_universal :: bool
  us_primary :: "WalletID option"

record pii_row =
  pi_user :: UserID
  pi_unverified :: "string option"
  pi_verified :: "string option"

record tables =
  tb_users :: "user_row list"
  tb_wallets :: "wallet_row list"
  tb_pii :: "pii_row list"

section \<open>Statements on a connection\<close>

datatype user_error =
    NoRows | Violation string | TxAborted | TxCommitRollback
  | ErrUserNotFoundBy string | ErrUsernameNotAvailable string
  | ErrAddressOwnedByUser ChainAddress UserID | ErrAddressNotOwnedByUser ChainAddress UserID
  | ErrWalletCreateFailed ChainAddress WalletID user_error | ErrWalletNotFoundByAddress L1ChainAddress
  | UserErr string

text \<open>A connection: inside a transaction it keeps the tables at its begin, for the rollback.\<close>

record conn =
  cn_db :: tables
  cn_begin :: "tables option"
  cn_aborted :: bool

type_synonym 'a db_io = "conn \<Rightarrow> (user_error, 'a) outcome \<times> conn"

definition ret_io :: "'a \<Rightarrow> 'a db_io" where "ret_io a c = (Ok a, c)"

definition fail_io :: "user_error \<Rightarrow> 'a db_io" where "fail_io e c = (Err e, c)"

definition then_io :: "'a db_io \<Rightarrow> ('a \<Rightarrow> 'b db_io) \<Rightarrow> 'b db_io" where
  "then_io m f c = (case m c of (Ok a, c') \<Rightarrow> f a c' | (Err e, c') \<Rightarrow> (Err e, c') | (Panic p, c') \<Rightarrow> (Panic p, c'))"

definition lift_io :: "(user_error, 'a) outcome \<Rightarrow> 'a db_io" where "lift_io r c = (r, c)"

text \<open>Go code that goes on after an error looks at it: \<open>attempt\<close> never fails.\<close>

definition attempt :: "'a db_io \<Rightarrow> (user_error, 'a) outcome db_io" where
  "attempt m c = (case m c of (Panic p, c') \<Rightarrow> (Panic p, c') | (r, c') \<Rightarrow> (Ok r, c'))"

definition db_query :: "(tables \<Rightarrow> 'a option) \<Rightarrow> 'a db_io" where
  "db_query f c =
     (if cn_aborted c then (Err TxAborted, c)
      else (case f (cn_db c) of Some a \<Rightarrow> Ok a | None \<Rightarrow> Err NoRows, c))"

definition db_exec :: "(tables \<Rightarrow> (string, 'a \<times> tables) outcome) \<Rightarrow> 'a db_io" where
  "db_exec f c =
     (if cn_aborted c then (Err TxAborted, c)
      else case f (cn_db c) of
          Ok (a, db) \<Rightarrow> (Ok a, c\<lparr>cn_db := db\<rparr>)
        | Err e \<Rightarrow> (Err (Violation e), c\<lparr>cn_aborted := (cn_begin c \<noteq> None)\<rparr>)
        | Panic p \<Rightarrow> (Panic p, c))"

definition db_update :: "(tables \<Rightarrow> tables) \<Rightarrow> unit db_io" where
  "db_update f = db_exec (\<lambda>db. Ok ((), f db))"

definition begin_tx :: "conn \<Rightarrow> conn" where
  "begin_tx c = c\<lparr>cn_begin := Some (cn_db c), cn_aborted := False\<rparr>"

definition rollback_tx :: "conn \<Rightarrow> conn" where
  "rollback_tx c =
     (case cn_begin c of None \<Rightarrow> c | Some db \<Rightarrow> \<lparr>cn_db = db, cn_begin = None, cn_aborted = False\<rparr>)"

text \<open>A commit of an aborted transaction rolls back and reports it; with none open it does nothing.\<close>

definition commit_tx :: "unit db_io" where
  "commit_tx c =
     (if cn_begin c = None then (Err (UserErr ''tx is closed''), c)
      else if cn_aborted c then (Err TxCommitRollback, rollback_tx c)
      else (Ok (), c\<lparr>cn_begin := None\<rparr>))"

section \<open>Queries\<close>

definition live_user :: "tables \<Rightarrow> (user_row \<Rightarrow> bool) \<Rightarrow> user_row option" where
  "live_user db P = find (\<lambda>u. \<not> us_deleted u \<and> P u) (tb_users db)"

definition live_wallet :: "tables \<Rightarrow> (wallet_row \<Rightarrow> bool) \<Rightarrow> wallet_row option" where
  "live_wallet db P = find (\<lambda>w. \<not> wl_deleted w \<and> P w) (tb_wallets db)"

definition GetUserById :: "UserID \<Rightarrow> tables \<Rightarrow> user_row option" where
  "GetUserById i db = live_user db (\<lambda>u. us_id u = i)"

definition GetUserByUsername :: "string \<Rightarrow> tables \<Rightarrow> user_row option" where
  "GetUserByUsername name db = live_user db (\<lambda>u. us_idempotent u = Some (to_lower name))"

definition GetUserByWalletID :: "WalletID \<Rightarrow> tables \<Rightarrow> user_row option" where
  "GetUserByWalletID w db = live_user db (\<lambda>u. w \<in> set (us_wallets u))"

definition GetWalletByAddressAndL1Chain :: "Address \<Rightarrow> L1Chain \<Rightarrow> tables \<Rightarrow> wallet_row option" where
  "GetWalletByAddressAndL1Chain a l db = live_wallet db (\<lambda>w. wl_address w = a \<and> wl_l1_chain w = l)"

text \<open>\<open>getWalletIDStmt\<close> of the repository compares the column \<open>CHAIN\<close>.\<close>

definition getWalletIDStmt :: "Address \<Rightarrow> Chain \<Rightarrow> tables \<Rightarrow> WalletID option" where
  "getWalletIDStmt a ch db = map_option wl_id (live_wallet db (\<lambda>w. wl_address w = a \<and> wl_chain w = ch))"

definition getWalletStmt :: "WalletID \<Rightarrow> tables \<Rightarrow> wallet_row option" where
  "getWalletStmt i db = live_wallet db (\<lambda>w. wl_id w = i)"

definition GetUserByAddressAndL1 :: "Address \<Rightarrow> L1Chain \<Rightarrow> tables \<Rightarrow> user_row option" where
  "GetUserByAddressAndL1 a l db =
     live_user db (\<lambda>u. list_ex (\<lambda>w. \<not> wl_deleted w \<and> wl_address w = a \<and> wl_l1_chain w = l \<and> wl_id w \<in> set (us_wallets u))
       (tb_wallets db))"

definition GetUserByVerifiedEmailAddress :: "string \<Rightarrow> tables \<Rightarrow> user_row option" where
  "GetUserByVerifiedEmailAddress e db =
     live_user db (\<lambda>u. list_ex (\<lambda>p. pi_user p = us_id u \<and> pi_verified p = Some (to_lower e)) (tb_pii db))"

section \<open>Changes\<close>

definition on_user :: "UserID \<Rightarrow> (user_row \<Rightarrow> user_row) \<Rightarrow> tables \<Rightarrow> tables" where
  "on_user i f db = db\<lparr>tb_users := map (\<lambda>u. if us_id u = i then f u else u) (tb_users db)\<rparr>"

definition DeleteUserByID :: "UserID \<Rightarrow> tables \<Rightarrow> tables" where
  "DeleteUserByID i = on_user i (\<lambda>u. u\<lparr>us_deleted := True\<rparr>)"

definition DeleteWalletByID :: "WalletID \<Rightarrow> tables \<Rightarrow> tables" where
  "DeleteWalletByID i db =
     db\<lparr>tb_wallets := map (\<lambda>w. if wl_id w = i then w\<lparr>wl_deleted := True\<rparr> else w) (tb_wallets db)\<rparr>"

definition InsertUser :: "UserID \<Rightarrow> string option \<Rightarrow> string option \<Rightarrow> bool \<Rightarrow> tables \<Rightarrow> (string, UserID \<times> tables) outcome" where
  "InsertUser i username idempotent universal db =
     (if i \<in> us_id ` set (tb_users db) then Err ''users_pkey''
      else Ok (i, db\<lparr>tb_users := tb_users db @
        [\<lparr>us_id = i, us_deleted = False, us_username = username, us_idempotent = idempotent, us_wallets = [],
          us_universal = universal, us_primary = None\<rparr>]\<rparr>))"

text \<open>The new wallet goes to its user, as the primary one if there is none; a deleted user gets nothing.\<close>

definition give_wallet :: "WalletID \<Rightarrow> user_row \<Rightarrow> user_row" where
  "give_wallet w u =
     (if us_deleted u then u
      else u\<lparr>us_primary := Some (case us_primary u of Some p \<Rightarrow> p | None \<Rightarrow> w), us_wallets := us_wallets u @ [w]\<rparr>)"

definition InsertWallet ::
  "WalletID \<Rightarrow> Address \<Rightarrow> Chain \<Rightarrow> L1Chain \<Rightarrow> int \<Rightarrow> UserID \<Rightarrow> tables \<Rightarrow> (string, unit \<times> tables) outcome" where
  "InsertWallet i a ch l ty userID db =
     (if i \<in> wl_id ` set (tb_wallets db) then Err ''wallets_pkey''
      else if live_wallet db (\<lambda>w. wl_address w = a \<and> wl_chain w = ch) \<noteq> None then Err ''wallet_address_chain_idx''
      else if live_wallet db (\<lambda>w. wl_address w = a \<and> wl_l1_chain w = l) \<noteq> None then Err ''wallets_l1_chain_unique_idx''
      else Ok ((), on_user userID (give_wallet i) (db\<lparr>tb_wallets := tb_wallets db @
        [\<lparr>wl_id = i, wl_address = a, wl_chain = ch, wl_l1_chain = l, wl_type = ty, wl_deleted = False\<rparr>]\<rparr>)))"

definition UpdateUserPrimaryWallet :: "WalletID \<Rightarrow> UserID \<Rightarrow> tables \<Rightarrow> tables" where
  "UpdateUserPrimaryWallet w userID db =
     (if getWalletStmt w db = None then db
      else on_user userID (\<lambda>u. if w \<in> set (us_wallets u) then u\<lparr>us_primary := Some w\<rparr> else u) db)"

text \<open>
  \<open>removeWalletFromUserStmt\<close>: the rows affected and the tables after it. \<open>NOT $1 = PRIMARY_WALLET_ID\<close>
  is unknown, so not true, for a user whose primary wallet is NULL.
\<close>

definition removable :: "WalletID \<Rightarrow> UserID \<Rightarrow> user_row \<Rightarrow> bool" where
  "removable w userID u =
     (us_id u = userID \<and> (case us_primary u of Some p \<Rightarrow> w \<noteq> p | None \<Rightarrow> False) \<and> w \<in> set (us_wallets u))"

definition removeWalletFromUserStmt :: "WalletID \<Rightarrow> UserID \<Rightarrow> tables \<Rightarrow> nat \<times> tables" where
  "removeWalletFromUserStmt w userID db =
     (length (filter (removable w userID) (tb_users db)),
      db\<lparr>tb_users := map (\<lambda>u. if removable w userID u then u\<lparr>us_wallets := removeAll w (us_wallets u)\<rparr> else u) (tb_users db)\<rparr>)"

definition updateInfoStmt :: "UserID \<Rightarrow> string \<Rightarrow> string \<Rightarrow> tables \<Rightarrow> nat \<times> tables" where
  "updateInfoStmt i username idempotent db =
     (length (filter (\<lambda>u. us_id u = i) (tb_users db)),
      on_user i (\<lambda>u. u\<lparr>us_username := Some username, us_idempotent := Some idempotent\<rparr>) db)"

definition set_email :: "UserID \<Rightarrow> string option \<Rightarrow> string option \<Rightarrow> tables \<Rightarrow> (string, unit \<times> tables) outcome" where
  "set_email i unverified verified db =
     (if i \<notin> us_id ` set (tb_users db) then Err ''for_users_user_id_fkey''
      else if verified \<noteq> None \<and> list_ex (\<lambda>p. pi_user p \<noteq> i \<and> pi_verified p = verified) (tb_pii db)
      then Err ''pii_for_users_pii_verified_email_address_idx''
      else Ok ((), db\<lparr>tb_pii := filter (\<lambda>p. pi_user p \<noteq> i) (tb_pii db) @
        [\<lparr>pi_user = i, pi_unverified = unverified, pi_verified = verified\<rparr>]\<rparr>))"

text \<open>\<open>persist.Email\<close> reaches the database in lower case.\<close>

definition Email_Value :: "string \<Rightarrow> string" where "Email_Value e = to_lower e"

definition UpdateUserVerifiedEmail :: "UserID \<Rightarrow> string \<Rightarrow> tables \<Rightarrow> (string, unit \<times> tables) outcome" where
  "UpdateUserVerifiedEmail i e = set_email i None (Some (Email_Value e))"

definition UpdateUserUnverifiedEmail :: "UserID \<Rightarrow> string \<Rightarrow> tables \<Rightarrow> (string, unit \<times> tables) outcome" where
  "UpdateUserUnverifiedEmail i e = set_email i (Some (Email_Value e)) None"

section \<open>Running statements\<close>

named_theorems io_simps \<open>what a sequence of statements does\<close>

lemma ret_io_simp [io_simps]: "ret_io a c = (Ok a, c)" by (simp add: ret_io_def)
lemma fail_io_simp [io_simps]: "fail_io e c = (Err e, c)" by (simp add: fail_io_def)
lemma lift_io_simp [io_simps]: "lift_io r c = (r, c)" by (simp add: lift_io_def)

lemma then_io_simps [io_simps]:
  "m c = (Ok a, c') \<Longrightarrow> then_io m f c = f a c'"
  "m c = (Err e, c') \<Longrightarrow> then_io m f c = (Err e, c')"
  "m c = (Panic p, c') \<Longrightarrow> then_io m f c = (Panic p, c')"
  by (simp_all add: then_io_def)

lemma attempt_simps [io_simps]:
  "m c = (Ok a, c') \<Longrightarrow> attempt m c = (Ok (Ok a), c')"
  "m c = (Err e, c') \<Longrightarrow> attempt m c = (Ok (Err e), c')"
  "m c = (Panic p, c') \<Longrightarrow> attempt m c = (Panic p, c')"
  by (simp_all add: attempt_def)

lemma live_user_SomeD: "live_user db P = Some u \<Longrightarrow> u \<in> set (tb_users db) \<and> \<not> us_deleted u \<and> P u"
  unfolding live_user_def by (auto simp: find_Some_iff)

lemma live_user_NoneD: "live_user db P = None \<Longrightarrow> u \<in> set (tb_users db) \<Longrightarrow> \<not> us_deleted u \<Longrightarrow> \<not> P u"
  unfolding live_user_def by (auto simp: find_None_iff)

lemma live_wallet_SomeD: "live_wallet db P = Some w \<Longrightarrow> w \<in> set (tb_wallets db) \<and> \<not> wl_deleted w \<and> P w"
  unfolding live_wallet_def by (auto simp: find_Some_iff)

lemma live_wallet_NoneD: "live_wallet db P = None \<Longrightarrow> w \<in> set (tb_wallets db) \<Longrightarrow> \<not> wl_deleted w \<Longrightarrow> \<not> P w"
  unfolding live_wallet_def by (auto simp: find_None_iff)

end
