(* ===== verification/Users.thy ===== *)
theory Users
  imports User_Store Validate
begin

text \<open>
  The user repository of service/persist/postgres/user.go and the operations of
  service/user/user.go on it. Generated IDs are arguments. Each operation runs on a connection;
  it is the pool, without a transaction, unless the code begins one or was given one.
\<close>

section \<open>Reading users\<close>

text \<open>
  A user with its wallets, in the order of the column \<open>WALLETS\<close>: \<open>None\<close> is the zero \<open>Wallet\<close> that
  stands for a row that was not found.
\<close>

definition user_wallets :: "tables \<Rightarrow> user_row \<Rightarrow> wallet_row option list" where
  "user_wallets db u = map (\<lambda>i. getWalletStmt i db) (us_wallets u)"

definition not_found_as :: "user_error \<Rightarrow> 'a db_io \<Rightarrow> 'a db_io" where
  "not_found_as e m = then_io (attempt m) (\<lambda>r. case r of Err NoRows \<Rightarrow> fail_io e | _ \<Rightarrow> lift_io r)"

definition GetByID :: "UserID \<Rightarrow> (user_row \<times> wallet_row option list) db_io" where
  "GetByID pID =
     not_found_as (ErrUserNotFoundBy pID)
       (db_query (\<lambda>db. map_option (\<lambda>u. (u, user_wallets db u)) (GetUserById pID db)))"

definition GetByWalletID :: "WalletID \<Rightarrow> (user_row \<times> wallet_row option list) db_io" where
  "GetByWalletID w =
     not_found_as (ErrUserNotFoundBy w)
       (db_query (\<lambda>db. map_option (\<lambda>u. (u, user_wallets db u)) (GetUserByWalletID w db)))"

definition GetByChainAddress :: "L1ChainAddress \<Rightarrow> (user_row \<times> wallet_row option list) db_io" where
  "GetByChainAddress a =
     then_io (not_found_as (ErrWalletNotFoundByAddress a) (db_query (getWalletIDStmt (l1_address a) (l1_l1Chain a))))
       GetByWalletID"

definition GetByUsername :: "string \<Rightarrow> user_row db_io" where
  "GetByUsername name = not_found_as (ErrUserNotFoundBy name) (db_query (GetUserByUsername (to_lower name)))"

text \<open>\<open>pii.user_view\<close> joins the email addresses; the statement compares them as they are.\<close>

definition GetByVerifiedEmail :: "string \<Rightarrow> user_row db_io" where
  "GetByVerifiedEmail e =
     not_found_as (ErrUserNotFoundBy e)
       (db_query (\<lambda>db. live_user db (\<lambda>u. list_ex (\<lambda>p. pi_user p = us_id u \<and> pi_verified p = Some (Email_Value e)) (tb_pii db))))"

section \<open>Changing users\<close>

text \<open>The statement that sets a username, after the lookup whether another user has it.\<close>

definition set_username :: "UserID \<Rightarrow> string \<Rightarrow> string \<Rightarrow> unit db_io" where
  "set_username pID username idempotent =
     then_io (db_exec (\<lambda>db. Ok (updateInfoStmt pID username (to_lower idempotent) db))) (\<lambda>rows.
       if rows = 0 then fail_io (ErrUserNotFoundBy pID) else ret_io ())"

definition UpdateByID_info :: "UserID \<Rightarrow> string \<Rightarrow> string \<Rightarrow> unit db_io" where
  "UpdateByID_info pID username idempotent =
     then_io (attempt (GetByUsername username)) (\<lambda>r.
     then_io
       (case r of
          Ok u \<Rightarrow> if us_id u \<noteq> [] \<and> us_id u \<noteq> pID then fail_io (ErrUsernameNotAvailable username) else ret_io ()
        | Err (ErrUserNotFoundBy _) \<Rightarrow> ret_io ()
        | Err e \<Rightarrow> fail_io e
        | Panic p \<Rightarrow> lift_io (Panic p)) (\<lambda>_.
     set_username pID username idempotent))"

definition insert_wallet :: "WalletID \<Rightarrow> ChainAddress \<Rightarrow> int \<Rightarrow> UserID \<Rightarrow> WalletID \<Rightarrow> WalletID db_io" where
  "insert_wallet newWalletID ca walletType userID oldWalletID =
     then_io (attempt (db_exec (InsertWallet newWalletID (ca_address ca) (ca_chain ca) 0 walletType userID))) (\<lambda>r.
       case r of
         Ok _ \<Rightarrow> ret_io newWalletID
       | Err e \<Rightarrow> fail_io (ErrWalletCreateFailed ca oldWalletID e)
       | Panic p \<Rightarrow> lift_io (Panic p))"

text \<open>
  \<open>createWalletWithTx\<close>; \<open>InsertWallet\<close> gets no \<open>L1Chain\<close>, so the zero one. The wallet that has
  the address already is dropped, unless it is the user's or that of a user who is not universal.
\<close>

definition replace_wallet :: "WalletID \<Rightarrow> ChainAddress \<Rightarrow> int \<Rightarrow> UserID \<Rightarrow> wallet_row \<Rightarrow> WalletID db_io" where
  "replace_wallet newWalletID ca walletType userID w =
     then_io (db_update (DeleteWalletByID (wl_id w))) (\<lambda>_. insert_wallet newWalletID ca walletType userID (wl_id w))"

definition claim_wallet :: "WalletID \<Rightarrow> ChainAddress \<Rightarrow> int \<Rightarrow> UserID \<Rightarrow> wallet_row \<Rightarrow> WalletID db_io" where
  "claim_wallet newWalletID ca walletType userID w =
     then_io (attempt (db_query (GetUserByWalletID (wl_id w)))) (\<lambda>owner.
       case owner of
         Panic p \<Rightarrow> lift_io (Panic p)
       | Err e \<Rightarrow> if e = NoRows then replace_wallet newWalletID ca walletType userID w else fail_io e
       | Ok u \<Rightarrow>
           if us_id u = userID then ret_io (wl_id w)
           else if us_universal u
           then then_io (db_update (DeleteUserByID (us_id u))) (\<lambda>_. replace_wallet newWalletID ca walletType userID w)
           else fail_io (ErrAddressOwnedByUser ca (us_id u)))"

definition createWalletWithTx :: "WalletID \<Rightarrow> ChainAddress \<Rightarrow> int \<Rightarrow> UserID \<Rightarrow> WalletID db_io" where
  "createWalletWithTx newWalletID ca walletType userID =
     then_io (lift_io (map_err UserErr (to_l1 (ca_chain ca)))) (\<lambda>l1.
     then_io (attempt (db_query (GetWalletByAddressAndL1Chain (ca_address ca) l1))) (\<lambda>wallet.
       case wallet of
         Panic p \<Rightarrow> lift_io (Panic p)
       | Err e \<Rightarrow> if e = NoRows then insert_wallet newWalletID ca walletType userID [] else fail_io e
       | Ok w \<Rightarrow> claim_wallet newWalletID ca walletType userID w))"

datatype EmailVerificationStatus =
    EmailVerificationStatusUnverified | EmailVerificationStatusVerified | EmailVerificationStatusFailed
  | EmailVerificationStatusAdmin

record CreateUserInput =
  cu_username :: string
  cu_email :: "string option"
  cu_status :: EmailVerificationStatus
  cu_chainAddress :: ChainAddress
  cu_walletType :: int
  cu_universal :: bool

definition ToNullString :: "string \<Rightarrow> string option" where
  "ToNullString s = (if s = [] then None else Some s)"

definition check_username :: "string \<Rightarrow> unit db_io" where
  "check_username name =
     (if name = [] then ret_io ()
      else then_io (attempt (db_query (GetUserByUsername (to_lower name)))) (\<lambda>r.
        case r of
          Ok u \<Rightarrow> if us_id u \<noteq> [] then fail_io (ErrUsernameNotAvailable name) else ret_io ()
        | Err e \<Rightarrow> if e = NoRows then ret_io () else fail_io e
        | Panic p \<Rightarrow> lift_io (Panic p)))"

text \<open>The email is written on a best effort: an error is logged and dropped.\<close>

definition store_email :: "UserID \<Rightarrow> string option \<Rightarrow> EmailVerificationStatus \<Rightarrow> unit db_io" where
  "store_email userID email status =
     (case email of
        None \<Rightarrow> ret_io ()
      | Some e \<Rightarrow>
          if status = EmailVerificationStatusVerified
          then then_io (attempt (db_exec (UpdateUserVerifiedEmail userID e))) (\<lambda>_. ret_io ())
          else if status = EmailVerificationStatusUnverified
          then then_io (attempt (db_exec (UpdateUserUnverifiedEmail userID e))) (\<lambda>_. ret_io ())
          else ret_io ())"

text \<open>The statements of \<open>Create\<close> after the lookup whether the username is taken.\<close>

definition Create_rows :: "UserID \<Rightarrow> WalletID \<Rightarrow> CreateUserInput \<Rightarrow> UserID db_io" where
  "Create_rows newUserID newWalletID pUser =
     then_io (db_exec (InsertUser newUserID (ToNullString (cu_username pUser))
       (ToNullString (to_lower (cu_username pUser))) (cu_universal pUser))) (\<lambda>userID.
     then_io
       (if ca_address (cu_chainAddress pUser) \<noteq> []
        then then_io (createWalletWithTx newWalletID (cu_chainAddress pUser) (cu_walletType pUser) userID) (\<lambda>_. ret_io ())
        else ret_io ()) (\<lambda>_.
     then_io (store_email userID (cu_email pUser) (cu_status pUser)) (\<lambda>_.
     ret_io userID)))"

definition Create_with :: "UserID \<Rightarrow> WalletID \<Rightarrow> CreateUserInput \<Rightarrow> UserID db_io" where
  "Create_with newUserID newWalletID pUser =
     then_io (check_username (cu_username pUser)) (\<lambda>_. Create_rows newUserID newWalletID pUser)"

text \<open>
  \<open>Create\<close> without the caller's queries begins a transaction of its own and defers the rollback
  and then the commit, which therefore runs first, whatever the result.
\<close>

definition Create :: "bool \<Rightarrow> UserID \<Rightarrow> WalletID \<Rightarrow> CreateUserInput \<Rightarrow> UserID db_io" where
  "Create own_queries newUserID newWalletID pUser c =
     (if own_queries then Create_with newUserID newWalletID pUser c
      else
        let (r, c1) = Create_with newUserID newWalletID pUser (begin_tx c) in
        let (_, c2) = commit_tx c1 in
        (r, rollback_tx c2))"

definition AddWallet :: "WalletID \<Rightarrow> UserID \<Rightarrow> ChainAddress \<Rightarrow> int \<Rightarrow> unit db_io" where
  "AddWallet newWalletID pUserID ca walletType =
     then_io (createWalletWithTx newWalletID ca walletType pUserID) (\<lambda>_. ret_io ())"

definition RemoveWallet :: "UserID \<Rightarrow> WalletID \<Rightarrow> bool db_io" where
  "RemoveWallet pUserID pWalletID c =
     (let (r, c1) =
        then_io (db_exec (\<lambda>db. Ok (removeWalletFromUserStmt pWalletID pUserID db))) (\<lambda>rows.
          if rows = 0 then ret_io False
          else then_io (db_update (DeleteWalletByID pWalletID)) (\<lambda>_. then_io commit_tx (\<lambda>_. ret_io True))) (begin_tx c)
      in (r, rollback_tx c1))"

definition Delete :: "UserID \<Rightarrow> unit db_io" where
  "Delete pID =
     then_io (db_exec (\<lambda>db. Ok (length (filter (\<lambda>u. us_id u = pID) (tb_users db)), DeleteUserByID pID db))) (\<lambda>rows.
       if rows = 0 then fail_io (ErrUserNotFoundBy pID) else ret_io ())"

text \<open>\<open>MergeUsers\<close> scans the ten columns of \<open>getByIDStmt\<close> into nine variables, which \<open>Scan\<close> refuses.\<close>

definition MergeUsers :: "UserID \<Rightarrow> UserID \<Rightarrow> unit db_io" where
  "MergeUsers pInitialUser pSecondUser =
     then_io (db_query (GetUserById pInitialUser)) (\<lambda>_.
       fail_io (UserErr ''sql: expected 10 destination arguments in Scan, not 9''))"

section \<open>The operations of service/user\<close>

fun remove_each :: "UserID \<Rightarrow> WalletID list \<Rightarrow> WalletID list \<Rightarrow> conn \<Rightarrow> (WalletID list \<times> user_error option) \<times> conn" where
  "remove_each userID removed [] c = ((removed, None), c)"
| "remove_each userID removed (w # ws) c =
     (case RemoveWallet userID w c of
        (Ok b, c') \<Rightarrow> remove_each userID (if b then removed @ [w] else removed) ws c'
      | (Err e, c') \<Rightarrow> ((removed, Some e), c')
      | (Panic p, c') \<Rightarrow> ((removed, Some (UserErr p)), c'))"

text \<open>The IDs that were removed and the error: the IDs are valid with an error too.\<close>

definition RemoveWalletsFromUser ::
  "UserID \<Rightarrow> WalletID list \<Rightarrow> conn \<Rightarrow> (WalletID list \<times> user_error option) \<times> conn" where
  "RemoveWalletsFromUser userID walletIDs c =
     (case GetByID userID c of
        (Ok (u, wallets), c1) \<Rightarrow>
          if list_ex (\<lambda>w. (case us_primary u of Some p \<Rightarrow> p | None \<Rightarrow> []) = w) walletIDs
          then (([], Some (UserErr ''cannot remove primary wallet address'')), c1)
          else if length wallets \<le> length walletIDs
          then (([], Some (UserErr ''user does not have enough wallets to remove'')), c1)
          else remove_each userID [] walletIDs c1
      | (Err e, c1) \<Rightarrow> (([], Some e), c1)
      | (Panic p, c1) \<Rightarrow> (([], Some (UserErr p)), c1))"

text \<open>\<open>auth.AuthResult\<close>, with the user as its row.\<close>

record auth_result =
  ar_user :: "user_row option"
  ar_addresses :: "(ChainAddress \<times> int) list"
  ar_email :: "string option"

definition GetAuthenticatedAddress :: "auth_result \<Rightarrow> ChainAddress \<Rightarrow> (ChainAddress \<times> int) option" where
  "GetAuthenticatedAddress a ca = find (\<lambda>x. fst x = ca) (ar_addresses a)"

definition AddWalletToUser ::
  "WalletID \<Rightarrow> UserID \<Rightarrow> ChainAddress \<Rightarrow> auth_result db_io \<Rightarrow> unit db_io" where
  "AddWalletToUser newWalletID pUserID ca authenticate =
     then_io authenticate (\<lambda>a.
       case ar_user a of
         Some u \<Rightarrow>
           if \<not> us_universal u then fail_io (ErrAddressOwnedByUser ca (us_id u))
           else (case GetAuthenticatedAddress a ca of
               None \<Rightarrow> fail_io (ErrAddressNotOwnedByUser ca (us_id u))
             | Some (x, ty) \<Rightarrow> AddWallet newWalletID pUserID x ty)
       | None \<Rightarrow>
           (case GetAuthenticatedAddress a ca of
               None \<Rightarrow> lift_io (Panic ''nil pointer dereference'')
             | Some (x, ty) \<Rightarrow> AddWallet newWalletID pUserID x ty))"

definition UpdateUserInfo :: "(string \<Rightarrow> Address \<Rightarrow> bool) \<Rightarrow> UserID \<Rightarrow> string \<Rightarrow> unit db_io" where
  "UpdateUserInfo resolvesENS userID username =
     then_io
       (if has_suffix (to_lower username) ''.eth''
        then then_io (GetByID userID) (\<lambda>(u, ws).
          if list_ex (\<lambda>w. resolvesENS username (case w of Some x \<Rightarrow> wl_address x | None \<Rightarrow> [])) ws then ret_io ()
          else fail_io (UserErr ''ENS username must resolve to owner address''))
        else ret_io ()) (\<lambda>_.
     UpdateByID_info userID username (to_lower username))"

definition DoesUserOwnWallets :: "UserID \<Rightarrow> WalletID list \<Rightarrow> bool db_io" where
  "DoesUserOwnWallets userID walletAddresses =
     then_io (GetByID userID) (\<lambda>(u, ws).
       ret_io (\<not> list_ex (\<lambda>w. w \<notin> set walletAddresses) walletAddresses))"

text \<open>\<open>GetUser\<close> by ID, else by username, else by address.\<close>

definition GetUser :: "UserID \<Rightarrow> string \<Rightarrow> Address \<Rightarrow> Chain \<Rightarrow> (UserID \<times> string option \<times> wallet_row option list) db_io" where
  "GetUser userID username address chain =
     then_io (lift_io (map_err UserErr (NewL1ChainAddress address chain))) (\<lambda>a.
     then_io
       (if userID \<noteq> [] then then_io (GetByID userID) (\<lambda>x. ret_io (Some x))
        else if username \<noteq> [] then then_io (GetByUsername username) (\<lambda>u. ret_io (Some (u, map (\<lambda>_. None) (us_wallets u))))
        else if address \<noteq> [] then then_io (GetByChainAddress a) (\<lambda>x. ret_io (Some x))
        else ret_io None) (\<lambda>r.
       case r of
         None \<Rightarrow> fail_io (ErrUserNotFoundBy userID)
       | Some (u, ws) \<Rightarrow>
           if us_id u = [] then fail_io (ErrUserNotFoundBy userID) else ret_io (us_id u, us_username u, ws)))"

end
