(* ===== verification/User_Inv.thy ===== *)
theory User_Inv
  imports Users
begin

text \<open>
  The invariant of the user tables, that every change preserves it, and a small calculus of
  statements on a connection that carries it through the repository's operations.
\<close>

section \<open>The invariant\<close>

definition live_users :: "tables \<Rightarrow> user_row set" where
  "live_users db = {u \<in> set (tb_users db). \<not> us_deleted u}"

definition live_wallets :: "tables \<Rightarrow> wallet_row set" where
  "live_wallets db = {w \<in> set (tb_wallets db). \<not> wl_deleted w}"

text \<open>
  IDs are unique, and no user's is empty; a live address stands for one wallet on its L1 chain; a live user's wallets are
  live, listed once, and nobody else's; one of them is the primary wallet; and a live username has
  one user.
\<close>

definition ids_ok :: "tables \<Rightarrow> bool" where
  "ids_ok db =
     (distinct (map us_id (tb_users db)) \<and> distinct (map wl_id (tb_wallets db)) \<and> [] \<notin> set (map us_id (tb_users db)))"

definition addresses_ok :: "tables \<Rightarrow> bool" where
  "addresses_ok db =
     (\<forall>w\<in>live_wallets db. \<forall>w'\<in>live_wallets db.
        wl_address w = wl_address w' \<longrightarrow> wl_l1_chain w = wl_l1_chain w' \<longrightarrow> wl_id w = wl_id w')"

definition user_ok :: "tables \<Rightarrow> user_row \<Rightarrow> bool" where
  "user_ok db u =
     (distinct (us_wallets u) \<and> set (us_wallets u) \<subseteq> wl_id ` live_wallets db \<and>
      (case us_primary u of None \<Rightarrow> us_wallets u = [] | Some p \<Rightarrow> p \<in> set (us_wallets u)))"

text \<open>\<open>nm\<close> says whether usernames are kept apart too, for which no index of the table provides.\<close>

definition apart :: "bool \<Rightarrow> user_row \<Rightarrow> user_row \<Rightarrow> bool" where
  "apart nm u u' =
     (set (us_wallets u) \<inter> set (us_wallets u') = {} \<and>
      (nm \<longrightarrow> us_idempotent u \<noteq> None \<longrightarrow> us_idempotent u \<noteq> us_idempotent u'))"

definition kept_inv :: "bool \<Rightarrow> tables \<Rightarrow> bool" where
  "kept_inv nm db =
     (ids_ok db \<and> addresses_ok db \<and> (\<forall>u\<in>live_users db. user_ok db u) \<and>
      (\<forall>u\<in>live_users db. \<forall>u'\<in>live_users db. us_id u \<noteq> us_id u' \<longrightarrow> apart nm u u'))"

abbreviation users_inv :: "tables \<Rightarrow> bool" where "users_inv \<equiv> kept_inv True"

lemma live_userI: "live_user db P = Some u \<Longrightarrow> u \<in> live_users db"
  using live_user_SomeD [of db P u] by (simp add: live_users_def)

lemma live_user_None: "live_user db P = None \<Longrightarrow> u \<in> live_users db \<Longrightarrow> \<not> P u"
  using live_user_NoneD [of db P u] by (simp add: live_users_def)

lemma live_wallet_None: "live_wallet db P = None \<Longrightarrow> w \<in> live_wallets db \<Longrightarrow> \<not> P w"
  using live_wallet_NoneD [of db P w] by (simp add: live_wallets_def)

lemma same_user:
  assumes "ids_ok db" "u \<in> live_users db" "u' \<in> live_users db" "us_id u = us_id u'"
  shows "u = u'"
  using assms unfolding ids_ok_def live_users_def distinct_map inj_on_def by blast

lemma inv_user: "kept_inv nm db \<Longrightarrow> u \<in> live_users db \<Longrightarrow> user_ok db u"
  by (simp add: kept_inv_def)

lemma inv_apart:
  "kept_inv nm db \<Longrightarrow> u \<in> live_users db \<Longrightarrow> u' \<in> live_users db \<Longrightarrow> us_id u \<noteq> us_id u' \<Longrightarrow> apart nm u u'"
  by (simp add: kept_inv_def)

lemma inv_addresses: "kept_inv nm db \<Longrightarrow> addresses_ok db"
  by (simp add: kept_inv_def)

lemma inv_ids: "kept_inv nm db \<Longrightarrow> ids_ok db"
  by (simp add: kept_inv_def)

lemma addresses_ok_cong: "live_wallets db' = live_wallets db \<Longrightarrow> addresses_ok db' = addresses_ok db"
  by (simp only: addresses_ok_def)

lemma users_invI:
  "\<lbrakk>ids_ok db; addresses_ok db; \<And>u. u \<in> live_users db \<Longrightarrow> user_ok db u;
    \<And>u u'. u \<in> live_users db \<Longrightarrow> u' \<in> live_users db \<Longrightarrow> us_id u \<noteq> us_id u' \<Longrightarrow> apart nm u u'\<rbrakk> \<Longrightarrow> kept_inv nm db"
  by (simp add: kept_inv_def)

section \<open>Changing one user\<close>

lemma live_users_on_user:
  assumes "\<And>u. us_id u = i \<Longrightarrow> us_deleted u \<Longrightarrow> us_deleted (f u)"
  shows "v \<in> live_users (on_user i f db) \<Longrightarrow>
    (v \<in> live_users db \<and> us_id v \<noteq> i) \<or> (\<exists>u\<in>live_users db. us_id u = i \<and> v = f u)"
  using assms by (auto simp: live_users_def on_user_def split: if_splits)

lemma ids_ok_on_user:
  assumes "\<And>u. us_id (f u) = us_id u"
  shows "ids_ok (on_user i f db) = ids_ok db"
proof -
  have "map us_id (tb_users (on_user i f db)) = map us_id (tb_users db)" using assms by (simp add: on_user_def)
  then show ?thesis unfolding ids_ok_def by (simp only:) (simp add: on_user_def)
qed

lemma live_wallets_on_user [simp]: "live_wallets (on_user i f db) = live_wallets db"
  by (simp add: live_wallets_def on_user_def)

lemma users_inv_on_user:
  assumes inv: "kept_inv nm db" and f: "\<And>u. us_id (f u) = us_id u" "\<And>u. us_id u = i \<Longrightarrow> us_deleted u \<Longrightarrow> us_deleted (f u)"
    and ok: "\<And>u. u \<in> live_users db \<Longrightarrow> us_id u = i \<Longrightarrow> \<not> us_deleted (f u) \<Longrightarrow> user_ok db (f u)"
    and ap: "\<And>u u'. u \<in> live_users db \<Longrightarrow> us_id u = i \<Longrightarrow> \<not> us_deleted (f u) \<Longrightarrow> u' \<in> live_users db \<Longrightarrow> us_id u' \<noteq> i \<Longrightarrow>
      apart nm (f u) u' \<and> apart nm u' (f u)"
  shows "kept_inv nm (on_user i f db)"
proof -
  let ?db = "on_user i f db"
  have live: "(v \<in> live_users db \<and> us_id v \<noteq> i) \<or> (us_id v = i \<and> (\<exists>u\<in>live_users db. us_id u = i \<and> v = f u \<and> \<not> us_deleted (f u)))"
    if "v \<in> live_users ?db" for v
    using live_users_on_user [of i f v db] f that by (auto simp: live_users_def)
  have same: "user_ok ?db u = user_ok db u" for u by (simp add: user_ok_def)
  show ?thesis
  proof (rule users_invI)
    show "ids_ok ?db" using inv_ids [OF inv] ids_ok_on_user [of f, OF f(1)] by simp
    show "addresses_ok ?db" using inv_addresses [OF inv] addresses_ok_cong [OF live_wallets_on_user] by simp
    show "user_ok ?db v" if "v \<in> live_users ?db" for v
      using live [OF that] inv_user [OF inv] ok unfolding same by blast
    show "apart nm v v'" if "v \<in> live_users ?db" "v' \<in> live_users ?db" "us_id v \<noteq> us_id v'" for v v'
    proof -
      have old: "x \<in> live_users db" if "x \<in> live_users ?db" "us_id x \<noteq> i" for x
        using live [OF that(1)] that(2) by blast
      have new: "\<exists>u\<in>live_users db. us_id u = i \<and> x = f u \<and> \<not> us_deleted (f u)" if "x \<in> live_users ?db" "us_id x = i" for x
        using live [OF that(1)] that(2) by blast
      consider (one) "us_id v = i" "us_id v' \<noteq> i" | (two) "us_id v \<noteq> i" "us_id v' = i" | (none) "us_id v \<noteq> i" "us_id v' \<noteq> i"
        using \<open>us_id v \<noteq> us_id v'\<close> by metis
      then show ?thesis
      proof cases
        case one
        then show ?thesis using new [OF \<open>v \<in> live_users ?db\<close>] old [OF \<open>v' \<in> live_users ?db\<close>] one ap by blast
      next
        case two
        then show ?thesis using new [OF \<open>v' \<in> live_users ?db\<close>] old [OF \<open>v \<in> live_users ?db\<close>] two ap by blast
      next
        case none
        then show ?thesis using old that inv_apart [OF inv] by blast
      qed
    qed
  qed
qed

lemma users_inv_DeleteUser: "kept_inv nm db \<Longrightarrow> kept_inv nm (DeleteUserByID i db)"
  unfolding DeleteUserByID_def by (rule users_inv_on_user) auto

lemma users_inv_primary:
  assumes "kept_inv nm db"
  shows "kept_inv nm (UpdateUserPrimaryWallet w i db)"
proof (cases "getWalletStmt w db")
  case None
  then show ?thesis using assms by (simp add: UpdateUserPrimaryWallet_def)
next
  case (Some x)
  show ?thesis
    unfolding UpdateUserPrimaryWallet_def Some if_not_P [OF option.distinct(2)]
  proof (rule users_inv_on_user [OF assms])
    fix u assume u: "u \<in> live_users db" "us_id u = i"
    let ?f = "\<lambda>u. if w \<in> set (us_wallets u) then u\<lparr>us_primary := Some w\<rparr> else u"
    show "user_ok db (?f u)" using inv_user [OF assms u(1)] by (simp add: user_ok_def)
    show "apart nm (?f u) u' \<and> apart nm u' (?f u)" if "u' \<in> live_users db" "us_id u' \<noteq> i" for u'
      using inv_apart [OF assms u(1) that(1)] inv_apart [OF assms that(1) u(1)] u(2) that(2) by (simp add: apart_def)
  qed auto
qed

lemma users_inv_info:
  assumes inv: "kept_inv nm db" and free: "\<And>u. nm \<Longrightarrow> u \<in> live_users db \<Longrightarrow> us_id u \<noteq> i \<Longrightarrow> us_idempotent u \<noteq> Some idem"
  shows "kept_inv nm (snd (updateInfoStmt i username idem db))"
  unfolding updateInfoStmt_def snd_conv
proof (rule users_inv_on_user [OF inv])
  fix u assume u: "u \<in> live_users db" "us_id u = i"
  let ?f = "\<lambda>u. u\<lparr>us_username := Some username, us_idempotent := Some idem\<rparr>"
  show "user_ok db (?f u)" using inv_user [OF inv u(1)] by (simp add: user_ok_def split: option.splits)
  show "apart nm (?f u) u' \<and> apart nm u' (?f u)" if "u' \<in> live_users db" "us_id u' \<noteq> i" for u'
    using inv_apart [OF inv u(1) that(1)] inv_apart [OF inv that(1) u(1)] u(2) that(2) free [OF _ that]
    by (auto simp: apart_def)
qed auto

section \<open>Changing the rows of wallets and users\<close>

lemma users_inv_DeleteWallet:
  assumes inv: "kept_inv nm db" and free: "\<And>u. u \<in> live_users db \<Longrightarrow> w \<notin> set (us_wallets u)"
  shows "kept_inv nm (DeleteWalletByID w db)"
proof -
  let ?db = "DeleteWalletByID w db"
  have lu: "live_users ?db = live_users db" by (simp add: live_users_def DeleteWalletByID_def)
  have lw: "live_wallets ?db = {x \<in> live_wallets db. wl_id x \<noteq> w}"
    by (auto simp: live_wallets_def DeleteWalletByID_def split: if_splits)
  have "map wl_id (tb_wallets ?db) = map wl_id (tb_wallets db)" by (simp add: DeleteWalletByID_def)
  moreover have "tb_users ?db = tb_users db" by (simp add: DeleteWalletByID_def)
  ultimately have "ids_ok ?db" using inv_ids [OF inv] unfolding ids_ok_def by simp
  moreover have "addresses_ok ?db" using inv by (simp add: kept_inv_def addresses_ok_def lw)
  moreover have "user_ok ?db u" if "u \<in> live_users db" for u
  proof -
    have "set (us_wallets u) \<subseteq> wl_id ` live_wallets db" using inv_user [OF inv that] by (simp add: user_ok_def)
    then have "set (us_wallets u) \<subseteq> wl_id ` live_wallets ?db" using free [OF that] unfolding lw by blast
    then show ?thesis using inv_user [OF inv that] by (simp add: user_ok_def)
  qed
  ultimately show ?thesis using inv unfolding kept_inv_def lu by blast
qed

lemma users_inv_InsertUser:
  assumes inv: "kept_inv nm db" and ins: "InsertUser i name idem universal db = Ok (j, db')" and ne: "i \<noteq> []"
    and free: "\<And>u. nm \<Longrightarrow> idem \<noteq> None \<Longrightarrow> u \<in> live_users db \<Longrightarrow> us_idempotent u \<noteq> idem"
  shows "kept_inv nm db'"
proof -
  let ?u = "\<lparr>us_id = i, us_deleted = False, us_username = name, us_idempotent = idem, us_wallets = [],
          us_universal = universal, us_primary = None\<rparr>"
  have db': "db' = db\<lparr>tb_users := tb_users db @ [?u]\<rparr>" and new: "i \<notin> us_id ` set (tb_users db)"
    using ins by (auto simp: InsertUser_def split: if_splits)
  have lu: "live_users db' = insert ?u (live_users db)" by (auto simp: live_users_def db')
  have lw: "live_wallets db' = live_wallets db" by (simp add: live_wallets_def db')
  show ?thesis
  proof (rule users_invI)
    show "ids_ok db'" using inv_ids [OF inv] new ne by (simp add: ids_ok_def db')
    show "addresses_ok db'" using inv_addresses [OF inv] addresses_ok_cong [OF lw] by simp
    show "user_ok db' v" if "v \<in> live_users db'" for v
    proof (cases "v = ?u")
      case False
      then show ?thesis using inv_user [OF inv, of v] that by (simp add: user_ok_def lu lw)
    qed (simp add: user_ok_def)
    show "apart nm v v'" if "v \<in> live_users db'" "v' \<in> live_users db'" "us_id v \<noteq> us_id v'" for v v'
    proof -
      have ap: "apart nm ?u x \<and> apart nm x ?u" if "x \<in> live_users db" for x
        using free [OF _ _ that] by (cases idem) (auto simp: apart_def)
      have "v \<in> live_users db \<or> v = ?u" "v' \<in> live_users db \<or> v' = ?u" using that(1,2) unfolding lu by blast+
      then show ?thesis using inv_apart [OF inv _ _ that(3)] ap that(3) by blast
    qed
  qed
qed

lemma users_inv_InsertWallet:
  assumes inv: "kept_inv nm db" and ins: "InsertWallet i a ch l ty j db = Ok (x, db')"
  shows "kept_inv nm db'"
proof -
  let ?w = "\<lparr>wl_id = i, wl_address = a, wl_chain = ch, wl_l1_chain = l, wl_type = ty, wl_deleted = False\<rparr>"
  let ?db = "db\<lparr>tb_wallets := tb_wallets db @ [?w]\<rparr>"
  have db': "db' = on_user j (give_wallet i) ?db" and new: "i \<notin> wl_id ` set (tb_wallets db)"
    and free: "live_wallet db (\<lambda>w. wl_address w = a \<and> wl_l1_chain w = l) = None"
    using ins by (auto simp: InsertWallet_def split: if_splits)
  have lu: "live_users ?db = live_users db" by (simp add: live_users_def)
  have lw: "live_wallets ?db = insert ?w (live_wallets db)" by (auto simp: live_wallets_def)
  have no: "\<not> (wl_address w = a \<and> wl_l1_chain w = l)" if "w \<in> live_wallets db" for w
    using live_wallet_None [OF free that] .
  have fresh: "i \<notin> set (us_wallets u)" if "u \<in> live_users db" for u
    using inv_user [OF inv that] new by (auto simp: user_ok_def live_wallets_def)
  have ok: "user_ok ?db u" if "u \<in> live_users db" for u
    using inv_user [OF inv that] unfolding user_ok_def lw by (simp split: option.splits) blast
  have base: "kept_inv nm ?db"
  proof (rule users_invI)
    show "ids_ok ?db" using inv_ids [OF inv] new by (simp add: ids_ok_def)
    show "addresses_ok ?db"
      using inv_addresses [OF inv] no unfolding addresses_ok_def lw ball_simps wallet_row.simps by metis
    show "user_ok ?db u" if "u \<in> live_users ?db" for u using ok that unfolding lu .
    show "apart nm u u'" if "u \<in> live_users ?db" "u' \<in> live_users ?db" "us_id u \<noteq> us_id u'" for u u'
      using inv_apart [OF inv] that unfolding lu .
  qed
  show ?thesis unfolding db'
  proof (rule users_inv_on_user [OF base], unfold lu)
    fix u assume u: "u \<in> live_users db" "us_id u = j"
    then have g: "give_wallet i u = u\<lparr>us_primary := Some (case us_primary u of Some p \<Rightarrow> p | None \<Rightarrow> i), us_wallets := us_wallets u @ [i]\<rparr>"
      by (simp add: give_wallet_def live_users_def)
    have sub: "insert i (set (us_wallets u)) \<subseteq> wl_id ` live_wallets ?db"
      using inv_user [OF inv u(1)] unfolding user_ok_def lw by auto
    show "user_ok ?db (give_wallet i u)"
      using inv_user [OF inv u(1)] fresh [OF u(1)] sub unfolding g user_ok_def by (simp split: option.splits)
    show "apart nm (give_wallet i u) u' \<and> apart nm u' (give_wallet i u)" if "u' \<in> live_users db" "us_id u' \<noteq> j" for u'
      using inv_apart [OF inv u(1) that(1)] inv_apart [OF inv that(1) u(1)] u(2) that(2) fresh [OF that(1)]
      unfolding g by (simp add: apart_def)
  qed (simp_all add: give_wallet_def)
qed

text \<open>Taking a wallet from its user, and then deleting it.\<close>

lemma removeWallet_on_user:
  "snd (removeWalletFromUserStmt w i db) =
   on_user i (\<lambda>u. if removable w i u then u\<lparr>us_wallets := removeAll w (us_wallets u)\<rparr> else u) db"
  by (auto simp: removeWalletFromUserStmt_def on_user_def removable_def)

lemma users_inv_removeWallet:
  assumes inv: "kept_inv nm db"
  shows "kept_inv nm (snd (removeWalletFromUserStmt w i db))"
  unfolding removeWallet_on_user
proof (rule users_inv_on_user [OF inv])
  fix u assume u: "u \<in> live_users db" "us_id u = i"
  let ?f = "\<lambda>u. if removable w i u then u\<lparr>us_wallets := removeAll w (us_wallets u)\<rparr> else u"
  note ok = inv_user [OF inv u(1), unfolded user_ok_def]
  show "user_ok db (?f u)"
  proof (cases "removable w i u")
    case True
    then obtain p where p: "us_primary u = Some p" "w \<noteq> p" by (auto simp: removable_def split: option.splits)
    have "set (removeAll w (us_wallets u)) \<subseteq> wl_id ` live_wallets db" using ok by auto
    then show ?thesis using ok p True by (simp add: user_ok_def distinct_removeAll)
  qed (use ok in \<open>simp add: user_ok_def\<close>)
  show "apart nm (?f u) u' \<and> apart nm u' (?f u)" if "u' \<in> live_users db" "us_id u' \<noteq> i" for u'
    using inv_apart [OF inv u(1) that(1)] inv_apart [OF inv that(1) u(1)] u(2) that(2) by (auto simp: apart_def)
qed auto

lemma users_inv_remove_and_delete:
  assumes inv: "kept_inv nm db" and rows: "fst (removeWalletFromUserStmt w i db) \<noteq> 0"
    and live: "\<And>u. u \<in> set (tb_users db) \<Longrightarrow> us_id u = i \<Longrightarrow> \<not> us_deleted u"
  shows "kept_inv nm (DeleteWalletByID w (snd (removeWalletFromUserStmt w i db)))"
proof (rule users_inv_DeleteWallet [OF users_inv_removeWallet [OF inv]])
  let ?f = "\<lambda>u. if removable w i u then u\<lparr>us_wallets := removeAll w (us_wallets u)\<rparr> else u"
  have "filter (removable w i) (tb_users db) \<noteq> []" using rows by (auto simp: removeWalletFromUserStmt_def)
  then obtain o' where o': "o' \<in> set (tb_users db)" "removable w i o'" by (auto simp: filter_empty_conv)
  then have lo: "o' \<in> live_users db" using live by (simp add: live_users_def removable_def)
  fix v assume "v \<in> live_users (snd (removeWalletFromUserStmt w i db))"
  then have "(v \<in> live_users db \<and> us_id v \<noteq> i) \<or> (\<exists>u\<in>live_users db. us_id u = i \<and> v = ?f u)"
    unfolding removeWallet_on_user by (rule live_users_on_user [rotated]) simp
  then show "w \<notin> set (us_wallets v)"
  proof (elim disjE conjE bexE)
    assume v: "v \<in> live_users db" "us_id v \<noteq> i"
    then have "apart nm o' v" using inv_apart [OF inv lo v(1)] o'(2) by (auto simp: removable_def)
    then show ?thesis using o'(2) by (auto simp: removable_def apart_def)
  next
    fix u assume u: "u \<in> live_users db" "us_id u = i" "v = ?f u"
    then have "u = o'" using same_user [OF inv_ids [OF inv] u(1) lo] o'(2) by (simp add: removable_def)
    then show ?thesis using u o'(2) by simp
  qed
qed

lemma users_inv_cong:
  assumes "tb_users db' = tb_users db" "tb_wallets db' = tb_wallets db"
  shows "kept_inv nm db' = kept_inv nm db"
proof -
  have "live_users db' = live_users db" "live_wallets db' = live_wallets db"
    using assms by (simp_all only: live_users_def live_wallets_def)
  then show ?thesis using assms by (simp only: kept_inv_def ids_ok_def addresses_ok_def user_ok_def)
qed

lemma users_inv_set_email: "kept_inv nm db \<Longrightarrow> set_email i x y db = Ok (z, db') \<Longrightarrow> kept_inv nm db'"
  using users_inv_cong [of db' db] by (auto simp: set_email_def split: if_splits)

end
