(* ===== verification/User_Triples.thy ===== *)
theory User_Triples
  imports User_Inv
begin

text \<open>
  The operations on users, carried out on a connection, keep the invariant of the tables. A triple
  says what holds after a statement that succeeds; after an error or a panic the invariant holds.
\<close>

section \<open>Triples\<close>

definition conn_inv :: "bool \<Rightarrow> conn \<Rightarrow> bool" where
  "conn_inv nm c = (kept_inv nm (cn_db c) \<and> (\<forall>db. cn_begin c = Some db \<longrightarrow> kept_inv nm db))"

fun post :: "bool \<Rightarrow> ('a \<Rightarrow> conn \<Rightarrow> bool) \<Rightarrow> (user_error, 'a) outcome \<Rightarrow> conn \<Rightarrow> bool" where
  "post nm Q (Ok a) c = Q a c"
| "post nm Q (Err e) c = conn_inv nm c"
| "post nm Q (Panic p) c = conn_inv nm c"

definition triple :: "bool \<Rightarrow> (conn \<Rightarrow> bool) \<Rightarrow> 'a db_io \<Rightarrow> ('a \<Rightarrow> conn \<Rightarrow> bool) \<Rightarrow> bool" where
  "triple nm P m Q = (\<forall>c. P c \<longrightarrow> post nm Q (fst (m c)) (snd (m c)))"

lemma tripleI: "(\<And>c. P c \<Longrightarrow> post nm Q (fst (m c)) (snd (m c))) \<Longrightarrow> triple nm P m Q"
  by (simp add: triple_def)

lemma tripleD: "triple nm P m Q \<Longrightarrow> P c \<Longrightarrow> m c = (x, c') \<Longrightarrow> post nm Q x c'"
  unfolding triple_def by (metis fst_conv snd_conv)

lemma triple_ret: "(\<And>c. P c \<Longrightarrow> Q a c) \<Longrightarrow> triple nm P (ret_io a) Q"
  by (simp add: triple_def ret_io_def)

lemma triple_fail: "(\<And>c. P c \<Longrightarrow> conn_inv nm c) \<Longrightarrow> triple nm P (fail_io e) Q"
  by (simp add: triple_def fail_io_def)

lemma triple_lift:
  "(\<And>c. P c \<Longrightarrow> conn_inv nm c) \<Longrightarrow> (\<And>c a. P c \<Longrightarrow> r = Ok a \<Longrightarrow> Q a c) \<Longrightarrow> triple nm P (lift_io r) Q"
  by (cases r) (simp_all add: triple_def lift_io_def)

lemma triple_then:
  assumes "triple nm P m R" "\<And>a. triple nm (R a) (f a) Q"
  shows "triple nm P (then_io m f) Q"
proof (rule tripleI)
  fix c assume "P c"
  obtain x c' where x: "m c = (x, c')" by (rule prod.exhaust)
  have p: "post nm R x c'" by (rule tripleD [OF assms(1) \<open>P c\<close> x])
  show "post nm Q (fst (then_io m f c)) (snd (then_io m f c))"
  proof (cases x)
    case (Ok a)
    then have "R a c'" using p by simp
    then show ?thesis using assms(2) [of a] x Ok by (simp add: then_io_def triple_def)
  qed (use p x in \<open>simp_all add: then_io_def\<close>)
qed

lemma triple_post:
  assumes "triple nm P m R" "\<And>a c. R a c \<Longrightarrow> Q a c"
  shows "triple nm P m Q"
proof (rule tripleI)
  fix c assume "P c"
  then have "post nm R (fst (m c)) (snd (m c))" using assms(1) by (simp add: triple_def)
  then show "post nm Q (fst (m c)) (snd (m c))" by (cases "fst (m c)") (simp_all add: assms(2))
qed

lemma triple_pre: "triple nm P m Q \<Longrightarrow> (\<And>c. P' c \<Longrightarrow> P c) \<Longrightarrow> triple nm P' m Q"
  unfolding triple_def by blast

lemma triple_query:
  assumes "\<And>c. P c \<Longrightarrow> conn_inv nm c" "\<And>c a. P c \<Longrightarrow> f (cn_db c) = Some a \<Longrightarrow> Q a c"
  shows "triple nm P (db_query f) Q"
proof (rule tripleI)
  fix c assume "P c"
  then show "post nm Q (fst (db_query f c)) (snd (db_query f c))"
    using assms by (cases "f (cn_db c)") (simp_all add: db_query_def)
qed

lemma triple_attempt:
  assumes "\<And>c e. P c \<Longrightarrow> fst (m c) = Err e \<Longrightarrow> Q (Err e) (snd (m c))"
    "\<And>c a. P c \<Longrightarrow> fst (m c) = Ok a \<Longrightarrow> Q (Ok a) (snd (m c))"
    "\<And>c p. P c \<Longrightarrow> fst (m c) = Panic p \<Longrightarrow> (conn_inv nm) (snd (m c))"
  shows "triple nm P (attempt m) Q"
proof (rule tripleI)
  fix c assume P: "P c"
  obtain x c' where x: "m c = (x, c')" by (rule prod.exhaust)
  then show "post nm Q (fst (attempt m c)) (snd (attempt m c))"
    using assms [OF P] by (cases x) (simp_all add: attempt_def)
qed

lemma triple_attempt_query:
  assumes "\<And>c. P c \<Longrightarrow> cn_aborted c \<Longrightarrow> Q (Err TxAborted) c" "\<And>c. P c \<Longrightarrow> f (cn_db c) = None \<Longrightarrow> Q (Err NoRows) c"
    "\<And>c a. P c \<Longrightarrow> f (cn_db c) = Some a \<Longrightarrow> Q (Ok a) c"
  shows "triple nm P (attempt (db_query f)) Q"
proof (rule tripleI)
  fix c assume P: "P c"
  then show "post nm Q (fst (attempt (db_query f) c)) (snd (attempt (db_query f) c))"
    using assms [OF P] by (cases "cn_aborted c"; cases "f (cn_db c)") (simp_all add: attempt_def db_query_def)
qed

lemma conn_inv_db: "conn_inv nm c \<Longrightarrow> kept_inv nm db \<Longrightarrow> (conn_inv nm) (c\<lparr>cn_db := db\<rparr>)"
  by (simp add: conn_inv_def)

lemma conn_inv_users: "conn_inv nm c \<Longrightarrow> kept_inv nm (cn_db c)"
  by (simp add: conn_inv_def)

lemma conn_inv_aborted [simp]: "conn_inv nm (c\<lparr>cn_aborted := b\<rparr>) = conn_inv nm c"
  by (simp add: conn_inv_def)

lemma triple_exec:
  assumes "\<And>c. P c \<Longrightarrow> conn_inv nm c" "\<And>c a db. P c \<Longrightarrow> f (cn_db c) = Ok (a, db) \<Longrightarrow> Q a (c\<lparr>cn_db := db\<rparr>)"
  shows "triple nm P (db_exec f) Q"
proof (rule tripleI)
  fix c assume P: "P c"
  show "post nm Q (fst (db_exec f c)) (snd (db_exec f c))"
  proof (cases "f (cn_db c)")
    case (Ok x)
    obtain a db where "x = (a, db)" by (rule prod.exhaust)
    then show ?thesis using assms [OF P] Ok by (simp add: db_exec_def)
  qed (use assms(1) [OF P] in \<open>simp_all add: db_exec_def\<close>)
qed

lemma triple_attempt_exec:
  assumes "\<And>c. P c \<Longrightarrow> conn_inv nm c" "\<And>c. P c \<Longrightarrow> Q (Err TxAborted) c"
    "\<And>c e. P c \<Longrightarrow> Q (Err (Violation e)) (c\<lparr>cn_aborted := (cn_begin c \<noteq> None)\<rparr>)"
    "\<And>c a db. P c \<Longrightarrow> f (cn_db c) = Ok (a, db) \<Longrightarrow> Q (Ok a) (c\<lparr>cn_db := db\<rparr>)"
  shows "triple nm P (attempt (db_exec f)) Q"
proof (rule tripleI)
  fix c assume P: "P c"
  show "post nm Q (fst (attempt (db_exec f) c)) (snd (attempt (db_exec f) c))"
  proof (cases "f (cn_db c)")
    case (Ok x)
    obtain a db where "x = (a, db)" by (rule prod.exhaust)
    then show ?thesis using assms [OF P] Ok by (simp add: attempt_def db_exec_def)
  qed (use assms(1-3) [OF P] in \<open>simp_all add: attempt_def db_exec_def\<close>)
qed

lemma triple_update:
  assumes "\<And>c. P c \<Longrightarrow> conn_inv nm c" "\<And>c. P c \<Longrightarrow> Q () (c\<lparr>cn_db := f (cn_db c)\<rparr>)"
  shows "triple nm P (db_update f) Q"
  unfolding db_update_def by (rule triple_exec) (simp add: assms(1), use assms(2) in \<open>force\<close>)

lemma triple_not_found:
  assumes "triple nm P m Q"
  shows "triple nm P (not_found_as e m) Q"
proof (rule tripleI)
  fix c assume "P c"
  obtain x c' where x: "m c = (x, c')" by (rule prod.exhaust)
  have p: "post nm Q x c'" by (rule tripleD [OF assms \<open>P c\<close> x])
  show "post nm Q (fst (not_found_as e m c)) (snd (not_found_as e m c))"
  proof (cases x)
    case (Err f)
    then show ?thesis using p x
      by (cases f) (simp_all add: not_found_as_def then_io_def attempt_def fail_io_def lift_io_def)
  qed (use p x in \<open>simp_all add: not_found_as_def then_io_def attempt_def lift_io_def\<close>)
qed

section \<open>The repository keeps the invariant\<close>

definition has_user :: "UserID \<Rightarrow> tables \<Rightarrow> bool" where
  "has_user i db = (\<exists>u\<in>live_users db. us_id u = i)"

text \<open>The user \<open>i\<close> owns a wallet with the address \<open>a\<close> on the L1 chain \<open>l\<close>.\<close>

definition owns :: "UserID \<Rightarrow> Address \<Rightarrow> L1Chain \<Rightarrow> tables \<Rightarrow> bool" where
  "owns i a l db =
     (\<exists>u\<in>live_users db. us_id u = i \<and>
       (\<exists>w\<in>live_wallets db. wl_address w = a \<and> wl_l1_chain w = l \<and> wl_id w \<in> set (us_wallets u)))"

lemma has_user_delete: "has_user i db \<Longrightarrow> j \<noteq> i \<Longrightarrow> has_user i (DeleteUserByID j db)"
  by (auto simp: has_user_def live_users_def DeleteUserByID_def on_user_def)

lemma has_user_delete_wallet [simp]: "has_user i (DeleteWalletByID w db) = has_user i db"
  by (simp add: has_user_def live_users_def DeleteWalletByID_def)

lemma to_l1_zero: "to_l1 ch = Ok l \<Longrightarrow> l = 0"
  by (auto simp: to_l1_def L1Chains_def chain_defs split: if_splits)

lemma insert_wallet_owns:
  assumes "InsertWallet i a ch l ty j db = Ok (x, db')" "has_user j db"
  shows "owns j a l db'"
proof -
  let ?w = "\<lparr>wl_id = i, wl_address = a, wl_chain = ch, wl_l1_chain = l, wl_type = ty, wl_deleted = False\<rparr>"
  obtain u where u: "u \<in> live_users db" "us_id u = j" using assms(2) by (auto simp: has_user_def)
  have db': "db' = on_user j (give_wallet i) (db\<lparr>tb_wallets := tb_wallets db @ [?w]\<rparr>)"
    using assms(1) by (auto simp: InsertWallet_def split: if_splits)
  have "give_wallet i u \<in> live_users db'" "us_id (give_wallet i u) = j" "i \<in> set (us_wallets (give_wallet i u))"
    using u by (auto simp: db' live_users_def on_user_def give_wallet_def)
  moreover have "?w \<in> live_wallets db'" by (simp add: db' live_wallets_def on_user_def)
  ultimately show ?thesis unfolding owns_def by force
qed

lemma insert_wallet_triple:
  "triple nm (\<lambda>c. conn_inv nm c \<and> (b \<longrightarrow> has_user j (cn_db c))) (insert_wallet i ca ty j k)
     (\<lambda>_ c. conn_inv nm c \<and> (b \<longrightarrow> owns j (ca_address ca) 0 (cn_db c)))"
  unfolding insert_wallet_def
proof (rule triple_then, rule triple_attempt_exec)
  let ?R = "\<lambda>r c. conn_inv nm c \<and> (\<forall>x. r = Ok x \<longrightarrow> (b \<longrightarrow> owns j (ca_address ca) 0 (cn_db c)))"
  show "?R (Ok a) (c\<lparr>cn_db := db\<rparr>)" if "conn_inv nm c \<and> (b \<longrightarrow> has_user j (cn_db c))"
    "InsertWallet i (ca_address ca) (ca_chain ca) 0 ty j (cn_db c) = Ok (a, db)" for c a db
    using that insert_wallet_owns users_inv_InsertWallet [OF _ that(2)] by (auto simp: conn_inv_def)
  show "triple nm (?R r) (case r of Ok x \<Rightarrow> ret_io i | Err e \<Rightarrow> fail_io (ErrWalletCreateFailed ca k e) | Panic p \<Rightarrow> lift_io (Panic p))
      (\<lambda>_ c. conn_inv nm c \<and> (b \<longrightarrow> owns j (ca_address ca) 0 (cn_db c)))" for r
    by (cases r) (auto intro: triple_ret triple_fail triple_lift)
qed auto

lemma replace_wallet_triple:
  "triple nm (\<lambda>c. conn_inv nm c \<and> (b \<longrightarrow> has_user j (cn_db c)) \<and> (\<forall>u\<in>live_users (cn_db c). wl_id w \<notin> set (us_wallets u)))
     (replace_wallet i ca ty j w)
     (\<lambda>_ c. conn_inv nm c \<and> (b \<longrightarrow> owns j (ca_address ca) 0 (cn_db c)))"
  unfolding replace_wallet_def
proof (rule triple_then, rule triple_update)
  fix c
  assume "conn_inv nm c \<and> (b \<longrightarrow> has_user j (cn_db c)) \<and> (\<forall>u\<in>live_users (cn_db c). wl_id w \<notin> set (us_wallets u))"
  then show "conn_inv nm (c\<lparr>cn_db := DeleteWalletByID (wl_id w) (cn_db c)\<rparr>) \<and> (b \<longrightarrow> has_user j (cn_db (c\<lparr>cn_db := DeleteWalletByID (wl_id w) (cn_db c)\<rparr>)))"
    using conn_inv_db users_inv_DeleteWallet conn_inv_users by simp
qed (simp, rule insert_wallet_triple)

lemma not_owned_after_delete:
  assumes "kept_inv nm db" "GetUserByWalletID w db = Some u" "v \<in> live_users (DeleteUserByID (us_id u) db)"
  shows "w \<notin> set (us_wallets v)"
proof -
  have u: "u \<in> live_users db" "w \<in> set (us_wallets u)"
    using live_userI live_user_SomeD assms(2) unfolding GetUserByWalletID_def by blast+
  have v: "v \<in> live_users db" "us_id u \<noteq> us_id v"
    using assms(3) by (auto simp: DeleteUserByID_def on_user_def live_users_def split: if_splits)
  show ?thesis using inv_apart [OF assms(1) u(1) v] u(2) by (auto simp: apart_def)
qed

lemma owned_wallet:
  assumes "GetWalletByAddressAndL1Chain a l db = Some w" "GetUserByWalletID (wl_id w) db = Some u"
  shows "owns (us_id u) a l db"
proof -
  have "u \<in> live_users db" "wl_id w \<in> set (us_wallets u)"
    using assms(2) live_userI live_user_SomeD unfolding GetUserByWalletID_def by blast+
  moreover have "w \<in> live_wallets db" "wl_address w = a" "wl_l1_chain w = l"
    using assms(1) live_wallet_SomeD unfolding GetWalletByAddressAndL1Chain_def live_wallets_def by blast+
  ultimately show ?thesis unfolding owns_def by blast
qed

lemma take_from_universal:
  assumes "us_id u \<noteq> j"
  shows "triple nm (\<lambda>c. conn_inv nm c \<and> (b \<longrightarrow> has_user j (cn_db c)) \<and> GetUserByWalletID (wl_id w) (cn_db c) = Some u)
    (then_io (db_update (DeleteUserByID (us_id u))) (\<lambda>_. replace_wallet i ca ty j w))
    (\<lambda>_ c. conn_inv nm c \<and> (b \<longrightarrow> owns j (ca_address ca) 0 (cn_db c)))"
proof (rule triple_then, rule triple_update)
  fix c assume c: "conn_inv nm c \<and> (b \<longrightarrow> has_user j (cn_db c)) \<and> GetUserByWalletID (wl_id w) (cn_db c) = Some u"
  then have inv: "kept_inv nm (cn_db c)" using conn_inv_users by blast
  let ?c = "c\<lparr>cn_db := DeleteUserByID (us_id u) (cn_db c)\<rparr>"
  show "conn_inv nm ?c \<and> (b \<longrightarrow> has_user j (cn_db ?c)) \<and> (\<forall>v\<in>live_users (cn_db ?c). wl_id w \<notin> set (us_wallets v))"
    using conn_inv_db [OF _ users_inv_DeleteUser [OF inv]] c not_owned_after_delete [OF inv] has_user_delete assms by simp
qed (simp, rule replace_wallet_triple)

lemma claim_wallet_triple:
  "triple nm (\<lambda>c. conn_inv nm c \<and> (b \<longrightarrow> has_user j (cn_db c)) \<and> GetWalletByAddressAndL1Chain (ca_address ca) 0 (cn_db c) = Some w)
     (claim_wallet i ca ty j w) (\<lambda>_ c. conn_inv nm c \<and> (b \<longrightarrow> owns j (ca_address ca) 0 (cn_db c)))"
  (is "triple nm ?P _ ?Q")
  unfolding claim_wallet_def
proof (rule triple_then, rule triple_attempt_query)
  let ?S = "\<lambda>r c. ?P c \<and> (r = Err NoRows \<longrightarrow> GetUserByWalletID (wl_id w) (cn_db c) = None) \<and>
    (\<forall>u. r = Ok u \<longrightarrow> GetUserByWalletID (wl_id w) (cn_db c) = Some u)"
  show "?P c \<Longrightarrow> ?S (Err TxAborted) c" "?P c \<Longrightarrow> GetUserByWalletID (wl_id w) (cn_db c) = None \<Longrightarrow> ?S (Err NoRows) c"
    "?P c \<Longrightarrow> GetUserByWalletID (wl_id w) (cn_db c) = Some u \<Longrightarrow> ?S (Ok u) c" for c u by auto
  fix owner
  show "triple nm (?S owner) (case owner of
         Panic p \<Rightarrow> lift_io (Panic p)
       | Err e \<Rightarrow> if e = NoRows then replace_wallet i ca ty j w else fail_io e
       | Ok u \<Rightarrow>
           if us_id u = j then ret_io (wl_id w)
           else if us_universal u then then_io (db_update (DeleteUserByID (us_id u))) (\<lambda>_. replace_wallet i ca ty j w)
           else fail_io (ErrAddressOwnedByUser ca (us_id u))) ?Q"
  proof (cases owner)
    case (Err e)
    have "triple nm (?S owner) (replace_wallet i ca ty j w) ?Q" if "e = NoRows"
      by (rule triple_pre [OF replace_wallet_triple])
        (use Err that live_user_None in \<open>auto simp: GetUserByWalletID_def\<close>)
    then show ?thesis unfolding Err by (auto intro: triple_fail)
  next
    case (Panic p)
    then show ?thesis by (auto intro: triple_lift)
  next
    case owner: (Ok u)
    have own: "?Q x c" if "?S owner c" "us_id u = j" for x c
      using that owner owned_wallet by auto
    have "triple nm (?S owner) (then_io (db_update (DeleteUserByID (us_id u))) (\<lambda>_. replace_wallet i ca ty j w)) ?Q"
      if "us_id u \<noteq> j"
      by (rule triple_pre [OF take_from_universal [OF that]]) (use owner in auto)
    then show ?thesis unfolding owner outcome.case using own owner by (auto intro: triple_ret triple_fail)
  qed
qed

lemma createWalletWithTx_triple:
  "triple nm (\<lambda>c. conn_inv nm c \<and> (b \<longrightarrow> has_user j (cn_db c))) (createWalletWithTx i ca ty j)
     (\<lambda>_ c. conn_inv nm c \<and> (b \<longrightarrow> owns j (ca_address ca) 0 (cn_db c)))"
  (is "triple nm ?P _ ?Q")
  unfolding createWalletWithTx_def
proof (rule triple_then, rule triple_lift)
  show "?P c \<Longrightarrow> conn_inv nm c" for c by simp
  show "?P c \<Longrightarrow> map_err UserErr (to_l1 (ca_chain ca)) = Ok l \<Longrightarrow> ?P c \<and> l = 0" for c l
    using to_l1_zero by (cases "to_l1 (ca_chain ca)") auto
  fix l :: L1Chain
  let ?R = "\<lambda>r c. ?P c \<and> l = 0 \<and> (\<forall>w. r = Ok w \<longrightarrow> GetWalletByAddressAndL1Chain (ca_address ca) 0 (cn_db c) = Some w)"
  have "triple nm (?R r) (case r of Panic p \<Rightarrow> lift_io (Panic p)
      | Err e \<Rightarrow> if e = NoRows then insert_wallet i ca ty j [] else fail_io e
      | Ok w \<Rightarrow> claim_wallet i ca ty j w) ?Q" for r
    by (cases r) (auto intro: triple_fail triple_lift triple_pre [OF insert_wallet_triple] triple_pre [OF claim_wallet_triple])
  note rest = this
  show "triple nm (\<lambda>c. ?P c \<and> l = 0)
     (then_io (attempt (db_query (GetWalletByAddressAndL1Chain (ca_address ca) l))) (\<lambda>r. case r of
         Panic p \<Rightarrow> lift_io (Panic p)
       | Err e \<Rightarrow> if e = NoRows then insert_wallet i ca ty j [] else fail_io e
       | Ok w \<Rightarrow> claim_wallet i ca ty j w)) ?Q"
    by (rule triple_then [OF _ rest], rule triple_attempt_query) auto
qed

end
