(* ===== verification/User_Runs.thy ===== *)
theory User_Runs
  imports User_Triples
begin

text \<open>
  The operations of the user repository and of service/user as triples, the steps a database can
  take by them, and what holds in every reachable database.
\<close>

section \<open>Creating a user\<close>

lemma to_lower_ToNull: "ToNullString (to_lower s) = (if s = [] then None else Some (to_lower s))"
  by (simp add: ToNullString_def)

definition name_free :: "string \<Rightarrow> tables \<Rightarrow> bool" where
  "name_free name db = (name \<noteq> [] \<longrightarrow> GetUserByUsername name db = None)"

lemma name_freeD: "name_free name db \<Longrightarrow> name \<noteq> [] \<Longrightarrow> u \<in> live_users db \<Longrightarrow> us_idempotent u \<noteq> Some (to_lower name)"
  unfolding name_free_def GetUserByUsername_def using live_user_None by blast

lemma GetUserByUsername_lower [simp]: "GetUserByUsername (to_lower name) = GetUserByUsername name"
  by (simp add: GetUserByUsername_def fun_eq_iff)

lemma no_empty_id: "kept_inv nm db \<Longrightarrow> live_user db P = Some u \<Longrightarrow> us_id u \<noteq> []"
  using live_user_SomeD [of db P u] inv_ids [of nm db] by (force simp: ids_ok_def)

lemma check_username_triple:
  "triple nm (conn_inv nm) (check_username name) (\<lambda>_ c. conn_inv nm c \<and> name_free name (cn_db c))"
proof (cases "name = []")
  case True
  then show ?thesis by (auto simp: check_username_def name_free_def intro: triple_ret)
next
  case False
  let ?R = "\<lambda>r c. conn_inv nm c \<and> (r = Err NoRows \<longrightarrow> name_free name (cn_db c)) \<and> (\<forall>u. r = Ok u \<longrightarrow> us_id u \<noteq> [])"
  have rest: "triple nm (?R r) (case r of
          Ok u \<Rightarrow> if us_id u \<noteq> [] then fail_io (ErrUsernameNotAvailable name) else ret_io ()
        | Err e \<Rightarrow> if e = NoRows then ret_io () else fail_io e
        | Panic p \<Rightarrow> lift_io (Panic p)) (\<lambda>_ c. conn_inv nm c \<and> name_free name (cn_db c))" for r
    by (cases r) (auto intro: triple_ret triple_fail triple_lift)
  have "triple nm (conn_inv nm) (attempt (db_query (GetUserByUsername (to_lower name)))) ?R"
  proof (rule triple_attempt_query)
    show "?R (Err TxAborted) c" if "conn_inv nm c" for c using that by simp
    show "?R (Err NoRows) c" if "conn_inv nm c" "GetUserByUsername (to_lower name) (cn_db c) = None" for c
      using that by (simp add: name_free_def)
    show "?R (Ok u) c" if "conn_inv nm c" "GetUserByUsername (to_lower name) (cn_db c) = Some u" for c u
      using that no_empty_id [OF conn_inv_users] by (auto simp: GetUserByUsername_def)
  qed
  then show ?thesis using triple_then [OF _ rest] False by (simp add: check_username_def)
qed

lemma has_user_InsertUser:
  assumes "InsertUser i name idem b db = Ok (j, db')"
  shows "j = i \<and> has_user i db'"
  using assms by (auto simp: InsertUser_def has_user_def live_users_def split: if_splits)

lemma insert_user_triple:
  assumes "i \<noteq> []"
  shows "triple nm (\<lambda>c. conn_inv nm c \<and> (nm \<longrightarrow> name_free name (cn_db c)))
    (db_exec (InsertUser i (ToNullString name) (ToNullString (to_lower name)) universal))
    (\<lambda>j c. conn_inv nm c \<and> j = i \<and> has_user i (cn_db c))"
proof (rule triple_exec)
  fix c j db
  assume c: "conn_inv nm c \<and> (nm \<longrightarrow> name_free name (cn_db c))"
    and ins: "InsertUser i (ToNullString name) (ToNullString (to_lower name)) universal (cn_db c) = Ok (j, db)"
  have "kept_inv nm db"
  proof (rule users_inv_InsertUser [OF _ ins assms])
    show "kept_inv nm (cn_db c)" using c conn_inv_users by blast
    show "us_idempotent u \<noteq> ToNullString (to_lower name)"
      if nm "ToNullString (to_lower name) \<noteq> None" "u \<in> live_users (cn_db c)" for u
      using that name_freeD c by (auto simp: to_lower_ToNull split: if_splits)
  qed
  then show "conn_inv nm (c\<lparr>cn_db := db\<rparr>) \<and> j = i \<and> has_user i (cn_db (c\<lparr>cn_db := db\<rparr>))"
    using c conn_inv_db has_user_InsertUser [OF ins] by simp
qed simp

text \<open>Email addresses are in a table of their own.\<close>

definition holds :: "(tables \<Rightarrow> bool) \<Rightarrow> bool" where
  "holds P = (\<forall>db db'. tb_users db' = tb_users db \<longrightarrow> tb_wallets db' = tb_wallets db \<longrightarrow> P db = P db')"

lemma holds_has_user: "holds (has_user i)"
  by (simp add: holds_def has_user_def live_users_def)

lemma holds_owns: "holds (owns i a l)"
  by (simp add: holds_def owns_def live_users_def live_wallets_def)

lemma holds_conj: "holds P \<Longrightarrow> holds Q \<Longrightarrow> holds (\<lambda>db. P db \<and> (b \<longrightarrow> Q db))"
  unfolding holds_def by blast

lemma holdsD: "holds P \<Longrightarrow> tb_users db' = tb_users db \<Longrightarrow> tb_wallets db' = tb_wallets db \<Longrightarrow> P db' = P db"
  unfolding holds_def by blast

lemma set_email_tables:
  "set_email i x y db = Ok (z, db') \<Longrightarrow> tb_users db' = tb_users db \<and> tb_wallets db' = tb_wallets db"
  by (auto simp: set_email_def split: if_splits)

lemma set_email_holds: "holds P \<Longrightarrow> set_email i x y db = Ok (z, db') \<Longrightarrow> P db' = P db"
  using holdsD set_email_tables by blast

lemma store_email_triple:
  assumes P: "holds P"
  shows "triple nm (\<lambda>c. conn_inv nm c \<and> P (cn_db c)) (store_email i email status) (\<lambda>_ c. conn_inv nm c \<and> P (cn_db c))"
    (is "triple nm ?C _ (\<lambda>_. ?C)")
proof -
  have step: "triple nm ?C (then_io (attempt (db_exec (set_email i x y))) (\<lambda>_. ret_io ())) (\<lambda>_. ?C)" for x y
  proof (rule triple_then)
    show "triple nm ?C (attempt (db_exec (set_email i x y))) (\<lambda>_. ?C)"
    proof (rule triple_attempt_exec)
      show "?C (c\<lparr>cn_db := db\<rparr>)" if "?C c" "set_email i x y (cn_db c) = Ok (a, db)" for c a db
        using that conn_inv_db users_inv_set_email [OF conn_inv_users that(2)] set_email_holds [OF P that(2)] by simp
    qed auto
    show "triple nm ?C (ret_io ()) (\<lambda>_. ?C)" for a :: "(user_error, unit) outcome" by (rule triple_ret)
  qed
  show ?thesis
    by (auto simp: store_email_def UpdateUserVerifiedEmail_def UpdateUserUnverifiedEmail_def step
        intro: triple_ret split: option.splits)
qed

section \<open>What stays inside a transaction\<close>

definition keeps :: "'a db_io \<Rightarrow> bool" where
  "keeps m = (\<forall>c. cn_begin (snd (m c)) = cn_begin c)"

named_theorems keeps_intros \<open>statements that neither begin nor end a transaction\<close>

lemma keeps_basic [keeps_intros]:
  "keeps (ret_io a)" "keeps (fail_io e)" "keeps (lift_io r)" "keeps (db_query f)"
  by (simp_all add: keeps_def ret_io_def fail_io_def lift_io_def db_query_def)

lemma keeps_exec [keeps_intros]: "keeps (db_exec f)"
  by (simp add: keeps_def db_exec_def split: outcome.splits prod.splits)

lemma keeps_update [keeps_intros]: "keeps (db_update f)"
  unfolding db_update_def by (rule keeps_exec)

lemma keeps_attempt [keeps_intros]: "keeps m \<Longrightarrow> keeps (attempt m)"
  unfolding keeps_def attempt_def by (metis (mono_tags, lifting) case_prod_beta outcome.exhaust outcome.simps(10-12) snd_conv)

lemma keeps_then [keeps_intros]:
  assumes m: "keeps m" and f: "\<And>a. keeps (f a)"
  shows "keeps (then_io m f)"
  unfolding keeps_def
proof
  fix c
  obtain x c' where x: "m c = (x, c')" by (rule prod.exhaust)
  then have "cn_begin c' = cn_begin c" using m by (metis keeps_def snd_conv)
  then show "cn_begin (snd (then_io m f c)) = cn_begin c"
    using x f by (cases x) (simp_all add: then_io_def keeps_def)
qed

lemma keeps_replace_wallet [keeps_intros]: "keeps (replace_wallet w ca ty i x)"
  by (auto simp: replace_wallet_def insert_wallet_def intro!: keeps_intros split: outcome.splits)

lemma keeps_claim_wallet [keeps_intros]: "keeps (claim_wallet w ca ty i x)"
  unfolding claim_wallet_def by (rule keeps_then) (auto intro!: keeps_intros split: outcome.splits)

lemma keeps_createWalletWithTx [keeps_intros]: "keeps (createWalletWithTx w ca ty i)"
  unfolding createWalletWithTx_def
  by (intro keeps_then) (auto simp: insert_wallet_def intro!: keeps_intros split: outcome.splits)

lemma keeps_check_username [keeps_intros]: "keeps (check_username name)"
  unfolding check_username_def by (auto intro!: keeps_intros split: outcome.splits)

lemma keeps_store_email [keeps_intros]: "keeps (store_email i e st)"
  unfolding store_email_def by (auto intro!: keeps_intros split: option.splits)

lemma triple_keeps:
  assumes "triple nm P m Q" "keeps m"
  shows "triple nm (\<lambda>c. P c \<and> cn_begin c = b) m (\<lambda>a c. Q a c \<and> cn_begin c = b)"
proof (rule tripleI)
  fix c assume c: "P c \<and> cn_begin c = b"
  then have "post nm Q (fst (m c)) (snd (m c))" "cn_begin (snd (m c)) = b" using assms by (simp_all add: triple_def keeps_def)
  then show "post nm (\<lambda>a c. Q a c \<and> cn_begin c = b) (fst (m c)) (snd (m c))" by (cases "fst (m c)") simp_all
qed

definition email_stored :: "UserID \<Rightarrow> string option \<Rightarrow> EmailVerificationStatus \<Rightarrow> tables \<Rightarrow> bool" where
  "email_stored i email status db =
     (case email of
        None \<Rightarrow> True
      | Some e \<Rightarrow>
          (status = EmailVerificationStatusVerified \<longrightarrow> list_ex (\<lambda>p. pi_user p = i \<and> pi_verified p = Some (to_lower e)) (tb_pii db)) \<and>
          (status = EmailVerificationStatusUnverified \<longrightarrow> list_ex (\<lambda>p. pi_user p = i \<and> pi_unverified p = Some (to_lower e)) (tb_pii db)))"

lemma set_email_row:
  "set_email i x y db = Ok (z, db') \<Longrightarrow> list_ex (\<lambda>p. pi_user p = i \<and> pi_unverified p = x \<and> pi_verified p = y) (tb_pii db')"
  by (auto simp: set_email_def split: if_splits)

text \<open>Inside a transaction that is not aborted in the end, the email was written.\<close>

lemma set_email_stored:
  assumes "\<And>p. pi_unverified p = x \<Longrightarrow> pi_verified p = y \<Longrightarrow> pi_user p = i \<Longrightarrow> R p"
  shows "triple nm (\<lambda>c. conn_inv nm c \<and> b \<noteq> None \<and> cn_begin c = b) (then_io (attempt (db_exec (set_email i x y))) (\<lambda>_. ret_io ()))
     (\<lambda>_ c. \<not> cn_aborted c \<longrightarrow> list_ex R (tb_pii (cn_db c)))"
proof (rule tripleI)
  fix c assume c: "conn_inv nm c \<and> b \<noteq> None \<and> cn_begin c = b"
  let ?Q = "\<lambda>_ c. \<not> cn_aborted c \<longrightarrow> list_ex R (tb_pii (cn_db c))"
  let ?m = "then_io (attempt (db_exec (set_email i x y))) (\<lambda>_. ret_io ())"
  show "post nm ?Q (fst (?m c)) (snd (?m c))"
  proof (cases "cn_aborted c")
    case False
    show ?thesis
    proof (cases "set_email i x y (cn_db c)")
      case (Ok z)
      obtain a db where z: "z = (a, db)" by (rule prod.exhaust)
      have "list_ex R (tb_pii db)" using set_email_row [OF Ok [unfolded z]] assms by (auto simp: list_ex_iff)
      then show ?thesis using Ok z False by (simp add: then_io_def attempt_def db_exec_def ret_io_def)
    next
      case (Err e)
      then show ?thesis using c False by (auto simp: then_io_def attempt_def db_exec_def ret_io_def)
    next
      case (Panic p)
      then show ?thesis by (simp add: set_email_def split: if_splits)
    qed
  qed (simp add: then_io_def attempt_def db_exec_def ret_io_def)
qed

lemma store_email_stored:
  "triple nm (\<lambda>c. conn_inv nm c \<and> b \<noteq> None \<and> cn_begin c = b) (store_email i email status)
     (\<lambda>_ c. \<not> cn_aborted c \<longrightarrow> email_stored i email status (cn_db c))"
proof (cases email)
  case None
  then show ?thesis by (auto simp: store_email_def email_stored_def intro: triple_ret)
next
  case (Some e)
  show ?thesis
    by (cases status)
      (auto simp: Some store_email_def email_stored_def UpdateUserVerifiedEmail_def UpdateUserUnverifiedEmail_def Email_Value_def
        simp del: not_None_eq intro!: triple_ret set_email_stored)
qed

lemma triple_conj:
  assumes "triple nm P m Q" "triple nm P' m Q'"
  shows "triple nm (\<lambda>c. P c \<and> P' c) m (\<lambda>a c. Q a c \<and> Q' a c)"
proof (rule tripleI)
  fix c assume "P c \<and> P' c"
  then have "post nm Q (fst (m c)) (snd (m c))" "post nm Q' (fst (m c)) (snd (m c))" using assms by (simp_all add: triple_def)
  then show "post nm (\<lambda>a c. Q a c \<and> Q' a c) (fst (m c)) (snd (m c))" by (cases "fst (m c)") simp_all
qed

text \<open>What a successful creation leaves behind.\<close>

definition created_user :: "UserID \<Rightarrow> CreateUserInput \<Rightarrow> tables \<Rightarrow> bool" where
  "created_user i pUser db =
     (has_user i db \<and> (ca_address (cu_chainAddress pUser) \<noteq> [] \<longrightarrow> owns i (ca_address (cu_chainAddress pUser)) 0 db))"

lemma holds_created: "holds (created_user i pUser)"
  unfolding created_user_def by (rule holds_conj [OF holds_has_user holds_owns])

lemma wallet_part:
  "triple nm (\<lambda>c. conn_inv nm c \<and> j = i \<and> has_user i (cn_db c))
      (if ca_address (cu_chainAddress pUser) \<noteq> []
       then then_io (createWalletWithTx w (cu_chainAddress pUser) (cu_walletType pUser) j) (\<lambda>_. ret_io ()) else ret_io ())
      (\<lambda>_ c. conn_inv nm c \<and> j = i \<and> created_user i pUser (cn_db c))"
proof (cases "ca_address (cu_chainAddress pUser) = []")
  case False
  let ?ca = "cu_chainAddress pUser"
  have owner: "owns i a l db \<Longrightarrow> has_user i db" for a db and l :: L1Chain by (auto simp: owns_def has_user_def)
  have "triple nm (\<lambda>c. conn_inv nm c \<and> j = i \<and> has_user i (cn_db c)) (createWalletWithTx w ?ca (cu_walletType pUser) j)
    (\<lambda>_ c. conn_inv nm c \<and> j = i \<and> created_user i pUser (cn_db c))"
  proof (cases "j = i")
    case True
    show ?thesis
      by (rule triple_post [OF triple_pre [OF createWalletWithTx_triple [where b = True]]])
        (use True owner in \<open>auto simp: created_user_def\<close>)
  qed (simp add: triple_def)
  then show ?thesis using False by (auto intro: triple_then triple_ret)
qed (auto simp: created_user_def intro: triple_ret)

lemma email_part:
  "triple nm (\<lambda>c. (conn_inv nm c \<and> j = i \<and> created_user i pUser (cn_db c)) \<and> cn_begin c = b)
      (then_io (store_email j (cu_email pUser) (cu_status pUser)) (\<lambda>_. ret_io j))
      (\<lambda>j c. conn_inv nm c \<and> j = i \<and> created_user i pUser (cn_db c) \<and> cn_begin c = b \<and>
        (b \<noteq> None \<longrightarrow> \<not> cn_aborted c \<longrightarrow> email_stored i (cu_email pUser) (cu_status pUser) (cn_db c)))"
proof (cases "j = i")
  case True
  let ?e = "store_email j (cu_email pUser) (cu_status pUser)"
  note keep = triple_keeps [OF store_email_triple [OF holds_created, where i1 = i and pUser1 = pUser and i = j and email = "cu_email pUser" and status = "cu_status pUser" and nm = nm] keeps_store_email, where b = b]
  have "triple nm (\<lambda>c. (conn_inv nm c \<and> j = i \<and> created_user i pUser (cn_db c)) \<and> cn_begin c = b) ?e
     (\<lambda>_ c. conn_inv nm c \<and> created_user i pUser (cn_db c) \<and> cn_begin c = b \<and>
        (b \<noteq> None \<longrightarrow> \<not> cn_aborted c \<longrightarrow> email_stored i (cu_email pUser) (cu_status pUser) (cn_db c)))"
  proof (cases "b = None")
    case True
    then show ?thesis by (intro triple_post [OF triple_pre [OF keep]]) auto
  next
    case False
    show ?thesis
      by (rule triple_post [OF triple_pre [OF triple_conj [OF keep store_email_stored [where b = b]]]])
        (use False \<open>j = i\<close> in auto)
  qed
  then show ?thesis using True by (auto intro: triple_then triple_ret)
qed (simp add: triple_def)

lemma Create_rows_triple:
  assumes "i \<noteq> []"
  shows "triple nm (\<lambda>c. (conn_inv nm c \<and> (nm \<longrightarrow> name_free (cu_username pUser) (cn_db c))) \<and> cn_begin c = b) (Create_rows i w pUser)
    (\<lambda>j c. conn_inv nm c \<and> j = i \<and> created_user i pUser (cn_db c) \<and> cn_begin c = b \<and>
      (b \<noteq> None \<longrightarrow> \<not> cn_aborted c \<longrightarrow> email_stored i (cu_email pUser) (cu_status pUser) (cn_db c)))"
proof -
  have k: "keeps (if ca_address (cu_chainAddress pUser) \<noteq> []
       then then_io (createWalletWithTx w (cu_chainAddress pUser) (cu_walletType pUser) j) (\<lambda>_. ret_io ()) else ret_io ())" for j
    by (auto intro!: keeps_intros)
  show ?thesis
    unfolding Create_rows_def
    by (rule triple_then [OF triple_keeps [OF insert_user_triple [OF assms] keeps_exec]
        triple_then [OF triple_keeps [OF wallet_part k] email_part]])
qed

text \<open>The creation, with the lookup of its username or, where no names are kept, without.\<close>

definition creates :: "bool \<Rightarrow> UserID \<Rightarrow> WalletID \<Rightarrow> CreateUserInput \<Rightarrow> UserID db_io \<Rightarrow> bool" where
  "creates nm i w pUser m = (m = Create_with i w pUser \<or> \<not> nm \<and> m = Create_rows i w pUser)"

lemma keeps_creates: "creates nm i w pUser m \<Longrightarrow> keeps m"
  by (auto simp: creates_def Create_with_def Create_rows_def intro!: keeps_intros)

lemma creates_triple:
  assumes "i \<noteq> []" "creates nm i w pUser m"
  shows "triple nm (\<lambda>c. conn_inv nm c \<and> cn_begin c = b) m
    (\<lambda>j c. conn_inv nm c \<and> j = i \<and> created_user i pUser (cn_db c) \<and> cn_begin c = b \<and>
      (b \<noteq> None \<longrightarrow> \<not> cn_aborted c \<longrightarrow> email_stored i (cu_email pUser) (cu_status pUser) (cn_db c)))"
proof (cases "m = Create_with i w pUser")
  case True
  have rows: "triple nm (\<lambda>c. (conn_inv nm c \<and> name_free (cu_username pUser) (cn_db c)) \<and> cn_begin c = b) (Create_rows i w pUser)
    (\<lambda>j c. conn_inv nm c \<and> j = i \<and> created_user i pUser (cn_db c) \<and> cn_begin c = b \<and>
      (b \<noteq> None \<longrightarrow> \<not> cn_aborted c \<longrightarrow> email_stored i (cu_email pUser) (cu_status pUser) (cn_db c)))"
    by (rule triple_pre [OF Create_rows_triple [OF assms(1)]]) blast
  show ?thesis
    unfolding True Create_with_def
    by (rule triple_then [OF triple_keeps [OF check_username_triple keeps_check_username] rows])
next
  case False
  then have m: "\<not> nm" "m = Create_rows i w pUser" using assms(2) by (simp_all add: creates_def)
  show ?thesis
    unfolding m(2) by (rule triple_pre [OF Create_rows_triple [OF assms(1)]]) (simp add: m(1))
qed

lemma Create_with_triple:
  assumes "i \<noteq> []"
  shows "triple nm (\<lambda>c. conn_inv nm c \<and> cn_begin c = b) (Create_with i w pUser)
    (\<lambda>j c. conn_inv nm c \<and> j = i \<and> created_user i pUser (cn_db c) \<and> cn_begin c = b \<and>
      (b \<noteq> None \<longrightarrow> \<not> cn_aborted c \<longrightarrow> email_stored i (cu_email pUser) (cu_status pUser) (cn_db c)))"
  by (rule creates_triple [where w = w, OF assms]) (simp add: creates_def)

section \<open>Operations on the pool\<close>

text \<open>A call outside every transaction.\<close>

definition pool :: "tables \<Rightarrow> conn" where
  "pool db = \<lparr>cn_db = db, cn_begin = None, cn_aborted = False\<rparr>"

lemma pool_simps [simp]: "cn_db (pool db) = db" "cn_begin (pool db) = None" "cn_aborted (pool db) = False"
  by (simp_all add: pool_def)

lemma conn_inv_pool [simp]: "conn_inv nm (pool db) = kept_inv nm db"
  by (simp add: conn_inv_def)

lemma conn_inv_begin: "conn_inv nm c \<Longrightarrow> (conn_inv nm) (begin_tx c)"
  by (simp add: conn_inv_def begin_tx_def)

lemma conn_inv_rollback: "conn_inv nm c \<Longrightarrow> (conn_inv nm) (rollback_tx c)"
  by (auto simp: conn_inv_def rollback_tx_def split: option.splits)

lemma conn_inv_commit: "conn_inv nm c \<Longrightarrow> (conn_inv nm) (snd (commit_tx c))"
  by (auto simp: commit_tx_def intro: conn_inv_rollback) (auto simp: conn_inv_def)

lemma post_conn_inv: "post nm Q x c \<Longrightarrow> (\<And>a. Q a c \<Longrightarrow> conn_inv nm c) \<Longrightarrow> conn_inv nm c"
  by (cases x) auto

lemma triple_conn_inv:
  assumes "triple nm P m Q" "P c" "\<And>a c. Q a c \<Longrightarrow> conn_inv nm c"
  shows "conn_inv nm (snd (m c))"
  using assms post_conn_inv [of nm Q "fst (m c)" "snd (m c)"] unfolding triple_def by blast

lemma Create_keeps:
  assumes "kept_inv nm db" "i \<noteq> []"
  shows "conn_inv nm (snd (Create own i w pUser (pool db)))"
proof -
  have run: "conn_inv nm (snd (Create_with i w pUser c))" if "conn_inv nm c" for c
    by (rule triple_conn_inv [OF Create_with_triple [OF assms(2)]]) (use that in auto)
  obtain r c1 where c1: "Create_with i w pUser (begin_tx (pool db)) = (r, c1)" by (rule prod.exhaust)
  then have "conn_inv nm c1" using run [OF conn_inv_begin, of "pool db"] assms(1) by simp
  then show ?thesis
    using run [of "pool db"] assms(1) c1 conn_inv_rollback conn_inv_commit
    by (simp add: Create_def split: prod.splits) (metis snd_conv)
qed

lemma AddWallet_triple:
  "triple nm (\<lambda>c. conn_inv nm c \<and> (b \<longrightarrow> has_user j (cn_db c))) (AddWallet i j ca ty)
     (\<lambda>_ c. conn_inv nm c \<and> (b \<longrightarrow> owns j (ca_address ca) 0 (cn_db c)))"
  unfolding AddWallet_def by (rule triple_then [OF createWalletWithTx_triple triple_ret])

lemma then_lift [simp]: "then_io (lift_io (Ok a)) f c = f a c" "then_io (lift_io (Err e)) f c = (Err e, c)"
  "then_io (lift_io (Panic p)) f c = (Panic p, c)"
  by (simp_all add: then_io_def lift_io_def)

lemma GetAuthenticatedAddress_Some: "GetAuthenticatedAddress a ca = Some x \<Longrightarrow> fst x = ca \<and> x \<in> set (ar_addresses a)"
  by (auto simp: GetAuthenticatedAddress_def find_Some_iff)

lemma AddWalletToUser_triple:
  "triple nm (\<lambda>c. conn_inv nm c \<and> (b \<longrightarrow> has_user j (cn_db c))) (AddWalletToUser i j ca (lift_io r))
     (\<lambda>_ c. conn_inv nm c \<and> (b \<longrightarrow> owns j (ca_address ca) 0 (cn_db c)))"
  (is "triple nm ?P _ ?Q")
  unfolding AddWalletToUser_def
proof (rule triple_then [of _ _ _ "\<lambda>_. ?P"], rule triple_lift)
  fix a
  have add: "triple nm ?P (AddWallet i j x ty) ?Q" if "GetAuthenticatedAddress a ca = Some (x, ty)" for x ty
    using AddWallet_triple [of nm b j i x ty] GetAuthenticatedAddress_Some [OF that] by simp
  show "triple nm ?P (case ar_user a of
         Some u \<Rightarrow>
           if \<not> us_universal u then fail_io (ErrAddressOwnedByUser ca (us_id u))
           else (case GetAuthenticatedAddress a ca of
               None \<Rightarrow> fail_io (ErrAddressNotOwnedByUser ca (us_id u))
             | Some (x, ty) \<Rightarrow> AddWallet i j x ty)
       | None \<Rightarrow>
           (case GetAuthenticatedAddress a ca of
               None \<Rightarrow> lift_io (Panic ''nil pointer dereference'')
             | Some (x, ty) \<Rightarrow> AddWallet i j x ty)) ?Q"
    using add by (auto intro: triple_fail triple_lift split: option.splits)
qed auto

lemma DeleteUser_triple: "triple nm (conn_inv nm) (Delete i) (\<lambda>_. (conn_inv nm))"
  unfolding Delete_def
proof (rule triple_then, rule triple_exec)
  show "conn_inv nm (c\<lparr>cn_db := db\<rparr>)"
    if "conn_inv nm c" "Ok (length (filter (\<lambda>u. us_id u = i) (tb_users (cn_db c))), DeleteUserByID i (cn_db c)) = Ok (n, db)" for c n db
    using that conn_inv_db users_inv_DeleteUser [OF conn_inv_users] by auto
qed (auto intro: triple_fail triple_ret)

section \<open>Renaming a user\<close>

text \<open>Nobody but the user \<open>i\<close> has the name.\<close>

definition name_for :: "UserID \<Rightarrow> string \<Rightarrow> tables \<Rightarrow> bool" where
  "name_for i name db = (\<forall>u\<in>live_users db. us_id u \<noteq> i \<longrightarrow> us_idempotent u \<noteq> Some (to_lower name))"

lemma name_for_None: "GetUserByUsername name db = None \<Longrightarrow> name_for i name db"
  unfolding name_for_def GetUserByUsername_def using live_user_None by blast

lemma name_for_Some:
  assumes "users_inv db" "GetUserByUsername name db = Some u"
  shows "name_for (us_id u) name db"
proof -
  have u: "u \<in> live_users db" "us_idempotent u = Some (to_lower name)"
    using assms(2) live_userI live_user_SomeD unfolding GetUserByUsername_def by blast+
  show ?thesis unfolding name_for_def
  proof (intro ballI impI)
    fix v assume v: "v \<in> live_users db" "us_id v \<noteq> us_id u"
    then have "apart True u v" using inv_apart [OF assms(1) u(1) v(1)] by metis
    then show "us_idempotent v \<noteq> Some (to_lower name)" using u(2) by (auto simp: apart_def)
  qed
qed

lemma GetByUsername_triple:
  "triple nm (conn_inv nm) (attempt (GetByUsername name)) (\<lambda>r c. conn_inv nm c \<and>
     (\<forall>u. r = Ok u \<longrightarrow> us_id u \<noteq> [] \<and> (nm \<longrightarrow> name_for (us_id u) name (cn_db c))) \<and>
     (\<forall>e i. r = Err (ErrUserNotFoundBy e) \<longrightarrow> name_for i name (cn_db c)))"
  (is "triple nm _ _ ?R")
proof (rule tripleI)
  fix c assume c: "conn_inv nm c"
  consider (ab) "cn_aborted c" | (none) "\<not> cn_aborted c" "GetUserByUsername name (cn_db c) = None"
    | (some) u where "\<not> cn_aborted c" "GetUserByUsername name (cn_db c) = Some u" by fastforce
  then show "post nm ?R (fst (attempt (GetByUsername name) c)) (snd (attempt (GetByUsername name) c))"
  proof cases
    case (some u)
    then have "us_id u \<noteq> []" using no_empty_id conn_inv_users [OF c] unfolding GetUserByUsername_def by blast
    moreover have "nm \<longrightarrow> name_for (us_id u) name (cn_db c)"
      using name_for_Some [OF _ some(2)] conn_inv_users [OF c] by (cases nm) auto
    ultimately show ?thesis
      using some c by (simp add: GetByUsername_def not_found_as_def attempt_def then_io_def db_query_def lift_io_def)
  qed (use c name_for_None in \<open>simp_all add: GetByUsername_def not_found_as_def attempt_def then_io_def db_query_def lift_io_def fail_io_def\<close>)
qed

lemma set_username_triple:
  "triple nm (\<lambda>c. conn_inv nm c \<and> (nm \<longrightarrow> name_for i name (cn_db c))) (set_username i name (to_lower name)) (\<lambda>_. conn_inv nm)"
  unfolding set_username_def
proof (rule triple_then, rule triple_exec)
  show "conn_inv nm (c\<lparr>cn_db := db\<rparr>)" if c: "conn_inv nm c \<and> (nm \<longrightarrow> name_for i name (cn_db c))"
    "Ok (updateInfoStmt i name (to_lower (to_lower name)) (cn_db c)) = Ok (n, db)" for c n db
  proof -
    have "db = snd (updateInfoStmt i name (to_lower name) (cn_db c))" using c(2) by (metis outcome.inject(1) snd_conv to_lower_idem)
    moreover have "kept_inv nm (snd (updateInfoStmt i name (to_lower name) (cn_db c)))"
      by (rule users_inv_info) (use c(1) conn_inv_users in \<open>auto simp: name_for_def\<close>)
    ultimately show ?thesis using c(1) conn_inv_db by blast
  qed
qed (auto intro: triple_fail triple_ret)

lemma UpdateByID_info_triple:
  "triple nm (conn_inv nm) (UpdateByID_info i name (to_lower name)) (\<lambda>_. conn_inv nm)"
  unfolding UpdateByID_info_def
proof (rule triple_then [OF GetByUsername_triple], rule triple_then [OF _ set_username_triple])
  fix r :: "(user_error, user_row) outcome"
  let ?R = "\<lambda>c. conn_inv nm c \<and> (\<forall>u. r = Ok u \<longrightarrow> us_id u \<noteq> [] \<and> (nm \<longrightarrow> name_for (us_id u) name (cn_db c))) \<and>
     (\<forall>e i. r = Err (ErrUserNotFoundBy e) \<longrightarrow> name_for i name (cn_db c))"
  show "triple nm ?R (case r of
          Ok u \<Rightarrow> if us_id u \<noteq> [] \<and> us_id u \<noteq> i then fail_io (ErrUsernameNotAvailable name) else ret_io ()
        | Err (ErrUserNotFoundBy _) \<Rightarrow> ret_io ()
        | Err e \<Rightarrow> fail_io e
        | Panic p \<Rightarrow> lift_io (Panic p)) (\<lambda>_ c. conn_inv nm c \<and> (nm \<longrightarrow> name_for i name (cn_db c)))"
  proof (cases r)
    case (Err e)
    then show ?thesis by (cases e) (auto intro: triple_ret triple_fail)
  qed (auto intro: triple_ret triple_fail triple_lift)
qed

lemma GetByID_triple:
  "triple nm (conn_inv nm) (GetByID i) (\<lambda>x c. conn_inv nm c \<and> has_user i (cn_db c))"
  unfolding GetByID_def
proof (rule triple_not_found, rule triple_query)
  show "conn_inv nm c \<and> has_user i (cn_db c)"
    if "conn_inv nm c" "map_option (\<lambda>u. (u, user_wallets (cn_db c) u)) (GetUserById i (cn_db c)) = Some x" for c x
    using that live_userI live_user_SomeD unfolding GetUserById_def has_user_def by blast
qed

lemma UpdateUserInfo_triple: "triple nm (conn_inv nm) (UpdateUserInfo ens i name) (\<lambda>_. (conn_inv nm))"
  unfolding UpdateUserInfo_def
proof (rule triple_then [where R = "\<lambda>_. (conn_inv nm)"])
  show "triple nm (conn_inv nm) (if has_suffix (to_lower name) ''.eth''
        then then_io (GetByID i) (\<lambda>(u, ws).
          if list_ex (\<lambda>w. ens name (case w of Some x \<Rightarrow> wl_address x | None \<Rightarrow> [])) ws then ret_io ()
          else fail_io (UserErr ''ENS username must resolve to owner address''))
        else ret_io ()) (\<lambda>_. (conn_inv nm))"
    by (auto intro!: triple_ret triple_then [OF GetByID_triple] triple_fail split: prod.splits)
qed (rule UpdateByID_info_triple)

section \<open>Removing wallets\<close>

text \<open>On the pool, \<open>RemoveWallet\<close> changes the tables when a row was affected.\<close>

lemma RemoveWallet_pool:
  "RemoveWallet i w (pool db) =
     (let (rows, db') = removeWalletFromUserStmt w i db
      in if rows = 0 then (Ok False, pool db) else (Ok True, pool (DeleteWalletByID w db')))"
  by (simp add: RemoveWallet_def Let_def begin_tx_def pool_def then_io_def db_exec_def db_update_def ret_io_def
      commit_tx_def rollback_tx_def split: prod.splits)

definition taken :: "UserID \<Rightarrow> WalletID \<Rightarrow> tables \<Rightarrow> bool" where
  "taken i w db = (fst (removeWalletFromUserStmt w i db) \<noteq> 0)"

definition after_removal :: "UserID \<Rightarrow> WalletID \<Rightarrow> tables \<Rightarrow> tables" where
  "after_removal i w db = (if taken i w db then DeleteWalletByID w (snd (removeWalletFromUserStmt w i db)) else db)"

lemma RemoveWallet_after: "RemoveWallet i w (pool db) = (Ok (taken i w db), pool (after_removal i w db))"
  unfolding RemoveWallet_pool taken_def after_removal_def by (simp add: Let_def split: prod.splits)

fun removals :: "UserID \<Rightarrow> WalletID list \<Rightarrow> tables \<Rightarrow> WalletID list \<times> tables" where
  "removals i [] db = ([], db)"
| "removals i (w # ws) db =
     (let (ids, db') = removals i ws (after_removal i w db) in (if taken i w db then w # ids else ids, db'))"

lemma remove_each_pool:
  "remove_each i removed ws (pool db) = (let (ids, db') = removals i ws db in ((removed @ ids, None), pool db'))"
  by (induction ws arbitrary: removed db) (simp_all add: RemoveWallet_after Let_def split: prod.splits)

lemma has_user_live:
  assumes "kept_inv nm db" "has_user i db" "u \<in> set (tb_users db)" "us_id u = i"
  shows "\<not> us_deleted u"
proof -
  obtain v where "v \<in> set (tb_users db)" "\<not> us_deleted v" "us_id v = i"
    using assms(2) by (auto simp: has_user_def live_users_def)
  moreover have "distinct (map us_id (tb_users db))" using inv_ids [OF assms(1)] by (simp add: ids_ok_def)
  ultimately have "u = v" using assms(3,4) unfolding distinct_map inj_on_def by blast
  then show ?thesis using \<open>\<not> us_deleted v\<close> by simp
qed

lemma has_user_on_user:
  assumes "\<And>u. us_id (f u) = us_id u" "\<And>u. us_deleted (f u) = us_deleted u"
  shows "has_user i (on_user j f db) = has_user i db"
proof -
  let ?g = "\<lambda>u. if us_id u = j then f u else u"
  have g: "us_id (?g u) = us_id u" "us_deleted (?g u) = us_deleted u" for u using assms by simp_all
  have "has_user k d = (\<exists>u\<in>set (tb_users d). \<not> us_deleted u \<and> us_id u = k)" for k d
    unfolding has_user_def live_users_def by blast
  moreover have "set (tb_users (on_user j f db)) = ?g ` set (tb_users db)" by (simp add: on_user_def)
  ultimately show ?thesis by (simp only: g bex_simps)
qed

lemma has_user_removal [simp]: "has_user i (after_removal j w db) = has_user i db"
  by (simp add: after_removal_def removeWallet_on_user has_user_on_user)

lemma users_inv_removal: "kept_inv nm db \<Longrightarrow> has_user i db \<Longrightarrow> kept_inv nm (after_removal i w db)"
  unfolding after_removal_def
  using users_inv_remove_and_delete [of nm db w i] has_user_live [of nm db i] by (auto simp: taken_def)

lemma removals_keep:
  "kept_inv nm db \<Longrightarrow> has_user i db \<Longrightarrow> kept_inv nm (snd (removals i ws db)) \<and> has_user i (snd (removals i ws db))"
  by (induction ws arbitrary: db) (simp_all add: Let_def split_beta users_inv_removal has_user_removal)

lemma RemoveWalletsFromUser_keeps:
  assumes "kept_inv nm db"
  shows "conn_inv nm (snd (RemoveWalletsFromUser i ws (pool db)))"
proof (cases "GetUserById i db")
  case None
  then have "GetByID i (pool db) = (Err (ErrUserNotFoundBy i), pool db)"
    by (simp add: GetByID_def not_found_as_def attempt_def then_io_def db_query_def fail_io_def)
  then show ?thesis using assms by (simp add: RemoveWalletsFromUser_def)
next
  case (Some u)
  then have get: "GetByID i (pool db) = (Ok (u, user_wallets db u), pool db)"
    by (simp add: GetByID_def not_found_as_def attempt_def then_io_def db_query_def lift_io_def)
  have "has_user i db" using Some live_userI live_user_SomeD unfolding GetUserById_def has_user_def by blast
  then show ?thesis using removals_keep [OF assms, of i ws] assms
    by (simp add: RemoveWalletsFromUser_def get remove_each_pool Let_def split_beta)
qed

end
