(* ===== verification/User_Props.thy ===== *)
theory User_Props
  imports User_Runs
begin

text \<open>
  What holds of the user tables in every reachable database, and what creating a user, adding a
  wallet and removing wallets promise.
\<close>

section \<open>Creating a user from the API\<close>

text \<open>
  The transaction of \<open>UserAPI.CreateUser\<close>, with \<open>user.CreateUser\<close> in it. What starting the session
  and writing the creation info do to other tables is left to arguments: they succeed or fail. Both
  run on the transaction; the second one's error is logged and dropped.
\<close>

definition other_table :: "(string, unit) outcome \<Rightarrow> unit db_io" where
  "other_table r = db_exec (\<lambda>db. map_o (\<lambda>_. ((), db)) r)"

definition creation_tx ::
  "(UserID \<Rightarrow> (string, unit) outcome) \<Rightarrow> (UserID \<Rightarrow> (string, unit) outcome) \<Rightarrow> UserID db_io \<Rightarrow> UserID db_io" where
  "creation_tx session pii create c =
     (let (r, c1) =
        then_io create (\<lambda>userID.
        then_io (other_table (session userID)) (\<lambda>_.
        then_io (attempt (other_table (pii userID))) (\<lambda>_.
        then_io commit_tx (\<lambda>_. ret_io userID)))) (begin_tx c)
      in (r, rollback_tx c1))"

definition CreateUser ::
  "(UserID \<Rightarrow> (string, unit) outcome) \<Rightarrow> (UserID \<Rightarrow> (string, unit) outcome) \<Rightarrow> UserID \<Rightarrow> WalletID \<Rightarrow> CreateUserInput \<Rightarrow>
   UserID db_io" where
  "CreateUser session pii newUserID newWalletID pUser = creation_tx session pii (Create True newUserID newWalletID pUser)"

section \<open>The steps of a database\<close>

text \<open>
  Requests run at the same time, and nothing but a lookup before the write keeps usernames apart:
  \<open>users.username_idempotent\<close> has no unique index. With \<open>in_turn\<close> an operation is one step. Without, a
  creation or a renaming may also write although its lookup was made on earlier tables, which other
  operations have changed since; the rules do not ask when. A removal of wallets then comes as its transactions, one for
  each wallet, with other operations in between, as long as the user is there. That the statements of one
  transaction, and those that create or replace one wallet, are not mixed with others on the same rows is an
  assumption of the model; where they are, primary keys and the unique indexes on wallets refuse the second writer.
\<close>

inductive user_step :: "bool \<Rightarrow> tables \<Rightarrow> tables \<Rightarrow> bool" for in_turn where
  created: "i \<noteq> [] \<Longrightarrow> user_step in_turn db (cn_db (snd (CreateUser session pii i w pUser (pool db))))"
| created_late: "\<not> in_turn \<Longrightarrow> i \<noteq> [] \<Longrightarrow>
    user_step in_turn db (cn_db (snd (creation_tx session pii (Create_rows i w pUser) (pool db))))"
| wallet_added: "user_step in_turn db (cn_db (snd (AddWalletToUser w i ca (lift_io r) (pool db))))"
| wallets_removed: "user_step in_turn db (cn_db (snd (RemoveWalletsFromUser i ws (pool db))))"
| wallet_removed: "\<not> in_turn \<Longrightarrow> has_user i db \<Longrightarrow> user_step in_turn db (cn_db (snd (RemoveWallet i w (pool db))))"
| renamed: "user_step in_turn db (cn_db (snd (UpdateUserInfo ens i name (pool db))))"
| renamed_late: "\<not> in_turn \<Longrightarrow> user_step in_turn db (cn_db (snd (set_username i name (to_lower name) (pool db))))"
| deleted: "user_step in_turn db (cn_db (snd (Delete i (pool db))))"
| primary_set: "user_step in_turn db (cn_db (snd (db_update (UpdateUserPrimaryWallet w i) (pool db))))"
| email_set: "user_step in_turn db (cn_db (snd (db_exec (UpdateUserUnverifiedEmail i e) (pool db))))"
| email_verified: "user_step in_turn db (cn_db (snd (db_exec (UpdateUserVerifiedEmail i e) (pool db))))"

definition empty_tables :: tables where
  "empty_tables = \<lparr>tb_users = [], tb_wallets = [], tb_pii = []\<rparr>"

inductive user_reach :: "bool \<Rightarrow> tables \<Rightarrow> bool" for in_turn where
  start: "user_reach in_turn empty_tables"
| step: "user_reach in_turn db \<Longrightarrow> user_step in_turn db db' \<Longrightarrow> user_reach in_turn db'"

lemma users_inv_empty: "kept_inv nm empty_tables"
  by (simp add: kept_inv_def ids_ok_def addresses_ok_def live_users_def live_wallets_def empty_tables_def)

text \<open>A statement on another table changes nothing here; on an aborted transaction it fails.\<close>

lemma other_table_run:
  "other_table r c =
     (if cn_aborted c then (Err TxAborted, c)
      else case r of Ok _ \<Rightarrow> (Ok (), c) | Err e \<Rightarrow> (Err (Violation e), c\<lparr>cn_aborted := (cn_begin c \<noteq> None)\<rparr>) | Panic p \<Rightarrow> (Panic p, c))"
  by (cases r) (simp_all add: other_table_def db_exec_def)

text \<open>
  A call of \<open>CreateUser\<close> on the pool either fails and leaves the tables alone, or commits the
  tables that the transaction ended with.
\<close>

lemma creation_tx_run:
  assumes inv: "kept_inv nm db" and i: "i \<noteq> []" and m: "creates nm i w pUser m"
  shows "(\<exists>db'. creation_tx session pii m (pool db) = (Ok i, pool db') \<and> kept_inv nm db' \<and>
      created_user i pUser db' \<and> email_stored i (cu_email pUser) (cu_status pUser) db') \<or>
    (fst (creation_tx session pii m (pool db)) \<notin> range Ok \<and> snd (creation_tx session pii m (pool db)) = pool db)"
proof -
  let ?c0 = "begin_tx (pool db)"
  have c0: "conn_inv nm ?c0 \<and> cn_begin ?c0 = Some db" using inv conn_inv_begin [of nm "pool db"] by (simp add: begin_tx_def)
  obtain x c1 where x: "m ?c0 = (x, c1)" by (rule prod.exhaust)
  have b1: "cn_begin c1 = Some db" using keeps_creates [OF m] c0 x unfolding keeps_def by (metis snd_conv)
  have rb: "rollback_tx c = pool db" if "cn_begin c = Some db" for c using that by (simp add: rollback_tx_def pool_def)
  show ?thesis
  proof (cases x)
    case (Ok j)
    have p: "conn_inv nm c1 \<and> j = i \<and> created_user i pUser (cn_db c1) \<and>
        (\<not> cn_aborted c1 \<longrightarrow> email_stored i (cu_email pUser) (cu_status pUser) (cn_db c1))"
      using tripleD [OF creates_triple [OF i m] c0 x] Ok by simp
    show ?thesis
    proof (cases "cn_aborted c1")
      case True
      then show ?thesis using x Ok rb [OF b1] by (auto simp: creation_tx_def then_io_def other_table_run)
    next
      case False
      note s = x Ok False p
      show ?thesis
      proof (cases "session i")
        case sess: (Ok u)
        show ?thesis
        proof (cases "pii i")
          case (Ok v)
          have "c1\<lparr>cn_begin := None\<rparr> = pool (cn_db c1)" using False by (simp add: pool_def)
          then have "creation_tx session pii m (pool db) = (Ok i, pool (cn_db c1))"
            using s sess Ok b1 by (simp add: creation_tx_def then_io_def other_table_run attempt_def commit_tx_def ret_io_def rollback_tx_def)
          then show ?thesis using p False conn_inv_users by blast
        next
          case (Err e)
          then show ?thesis using s sess b1 rb [of "c1\<lparr>cn_aborted := True\<rparr>"]
            by (auto simp: creation_tx_def then_io_def other_table_run attempt_def commit_tx_def rollback_tx_def)
        next
          case (Panic e)
          then show ?thesis using s sess rb [OF b1]
            by (auto simp: creation_tx_def then_io_def other_table_run attempt_def)
        qed
      next
        case (Err e)
        then show ?thesis using s b1 rb [of "c1\<lparr>cn_aborted := True\<rparr>"] by (auto simp: creation_tx_def then_io_def other_table_run)
      next
        case (Panic e)
        then show ?thesis using s rb [OF b1] by (auto simp: creation_tx_def then_io_def other_table_run)
      qed
    qed
  qed (use x rb [OF b1] in \<open>auto simp: creation_tx_def then_io_def\<close>)
qed

lemma Create_own: "Create True i w pUser = Create_with i w pUser"
  by (rule ext) (simp add: Create_def)

lemma CreateUser_run:
  assumes "users_inv db" "i \<noteq> []"
  shows "(\<exists>db'. CreateUser session pii i w pUser (pool db) = (Ok i, pool db') \<and> users_inv db' \<and>
      created_user i pUser db' \<and> email_stored i (cu_email pUser) (cu_status pUser) db') \<or>
    (fst (CreateUser session pii i w pUser (pool db)) \<notin> range Ok \<and> snd (CreateUser session pii i w pUser (pool db)) = pool db)"
  using creation_tx_run [OF assms, of w pUser "Create_with i w pUser" session pii]
  by (simp add: creates_def CreateUser_def Create_own)

lemma triple_conn_inv_op:
  assumes "triple nm (conn_inv nm) m (\<lambda>_. (conn_inv nm))" "kept_inv nm db"
  shows "kept_inv nm (cn_db (snd (m (pool db))))"
  using triple_conn_inv [OF assms(1), of "pool db"] assms(2) conn_inv_users by simp

lemma user_step_inv:
  assumes "user_step nm db db'" "kept_inv nm db"
  shows "kept_inv nm db'"
  using assms
proof cases
  case (created i session pii w pUser)
  then show ?thesis
    using creation_tx_run [OF assms(2), of i w pUser "Create_with i w pUser" session pii] assms(2)
    by (auto simp: creates_def CreateUser_def Create_own)
next
  case (created_late i session pii w pUser)
  then show ?thesis
    using creation_tx_run [OF assms(2), of i w pUser "Create_rows i w pUser" session pii] assms(2) by (auto simp: creates_def)
next
  case (renamed_late i name)
  then have "triple nm (conn_inv nm) (set_username i name (to_lower name)) (\<lambda>_. conn_inv nm)"
    by (intro triple_pre [OF set_username_triple]) simp
  from triple_conn_inv_op [OF this assms(2)] show ?thesis using renamed_late by simp
next
  case (wallet_added w i ca r)
  have "triple nm (conn_inv nm) (AddWalletToUser w i ca (lift_io r)) (\<lambda>_. (conn_inv nm))"
    by (rule triple_post [OF triple_pre [OF AddWalletToUser_triple [where b = False]]]) auto
  then show ?thesis using triple_conn_inv_op assms(2) wallet_added by blast
next
  case (wallets_removed i ws)
  then show ?thesis using RemoveWalletsFromUser_keeps [OF assms(2)] conn_inv_users by blast
next
  case (wallet_removed i w)
  then show ?thesis using users_inv_removal [OF assms(2)] by (simp add: RemoveWallet_after)
next
  case (renamed ens i name)
  then show ?thesis using triple_conn_inv_op [OF UpdateUserInfo_triple assms(2)] by simp
next
  case (deleted i)
  then show ?thesis using triple_conn_inv_op [OF DeleteUser_triple assms(2)] by simp
next
  case (primary_set w i)
  then show ?thesis using users_inv_primary [OF assms(2)] by (simp add: db_update_def db_exec_def)
next
  case (email_set i e)
  then show ?thesis using users_inv_set_email [OF assms(2)] assms(2)
    by (auto simp: db_exec_def UpdateUserUnverifiedEmail_def split: outcome.splits)
next
  case (email_verified i e)
  then show ?thesis using users_inv_set_email [OF assms(2)] assms(2)
    by (auto simp: db_exec_def UpdateUserVerifiedEmail_def split: outcome.splits)
qed

lemma user_reach_inv: "user_reach nm db \<Longrightarrow> kept_inv nm db"
  by (induction rule: user_reach.induct) (auto intro: users_inv_empty user_step_inv)

text \<open>The owner of an address is the one user a login with the address finds.\<close>

lemma owner_found:
  assumes inv: "kept_inv nm db" and own: "owns i a l db"
  shows "map_option us_id (GetUserByAddressAndL1 a l db) = Some i"
proof -
  let ?P = "\<lambda>u w. \<not> wl_deleted w \<and> wl_address w = a \<and> wl_l1_chain w = l \<and> wl_id w \<in> set (us_wallets u)"
  obtain u w where u: "u \<in> live_users db" "us_id u = i" and w: "w \<in> live_wallets db" "?P u w"
    using own unfolding owns_def live_wallets_def by blast
  have "list_ex (?P u) (tb_wallets db)" using w by (auto simp: list_ex_iff live_wallets_def)
  then obtain v where v: "GetUserByAddressAndL1 a l db = Some v"
    using live_user_None [of db "\<lambda>u. list_ex (?P u) (tb_wallets db)" u] u(1) unfolding GetUserByAddressAndL1_def by blast
  then have vl: "v \<in> live_users db" and "list_ex (?P v) (tb_wallets db)"
    using live_userI live_user_SomeD unfolding GetUserByAddressAndL1_def by blast+
  then obtain w' where w': "w' \<in> live_wallets db" "?P v w'" by (auto simp: list_ex_iff live_wallets_def)
  have "wl_id w = wl_id w'" using inv_addresses [OF inv] w w' unfolding addresses_ok_def by metis
  then have "\<not> apart nm v u" using w(2) w'(2) unfolding apart_def by auto
  then have "us_id v = i" using inv_apart [OF inv vl u(1)] u(2) by blast
  then show ?thesis using v by simp
qed

section \<open>Removing several wallets\<close>

lemma find_map_keep:
  "(\<And>u. P (f u) = P u) \<Longrightarrow> find P (map f xs) = map_option f (find P xs)"
  by (induction xs) auto

lemma GetUserById_on_user:
  assumes "\<And>u. us_id (f u) = us_id u" "\<And>u. us_deleted (f u) = us_deleted u"
  shows "GetUserById j (on_user i f db) = (if j = i then map_option f (GetUserById j db) else GetUserById j db)"
proof -
  let ?P = "\<lambda>u. \<not> us_deleted u \<and> us_id u = j" and ?g = "\<lambda>u. if us_id u = i then f u else u"
  have "find ?P (map ?g (tb_users db)) = map_option ?g (find ?P (tb_users db))"
    by (rule find_map_keep) (simp add: assms)
  then have "GetUserById j (on_user i f db) = map_option ?g (GetUserById j db)"
    by (simp add: GetUserById_def live_user_def on_user_def)
  moreover have "us_id u = j" if "GetUserById j db = Some u" for u
    using that live_user_SomeD unfolding GetUserById_def by blast
  ultimately show ?thesis by (cases "GetUserById j db") auto
qed

lemma GetUserById_delete_wallet [simp]: "GetUserById j (DeleteWalletByID w db) = GetUserById j db"
  by (simp add: GetUserById_def live_user_def DeleteWalletByID_def)

definition keepable :: "user_row \<Rightarrow> WalletID \<Rightarrow> bool" where
  "keepable u w = (w \<in> set (us_wallets u) \<and> us_primary u \<noteq> Some w)"

lemma removable_keepable:
  assumes "users_inv db" "GetUserById i db = Some u"
  shows "removable w i u = keepable u w"
proof -
  have "u \<in> live_users db" "us_id u = i"
    using assms(2) live_userI live_user_SomeD unfolding GetUserById_def by blast+
  then show ?thesis using inv_user [OF assms(1) \<open>u \<in> live_users db\<close>]
    by (cases "us_primary u") (auto simp: removable_def keepable_def user_ok_def)
qed

lemma taken_iff:
  assumes inv: "users_inv db" and u: "GetUserById i db = Some u"
  shows "taken i w db = keepable u w"
proof -
  have l: "u \<in> set (tb_users db)" "us_id u = i"
    using u live_user_SomeD unfolding GetUserById_def by blast+
  have "distinct (map us_id (tb_users db))" using inv_ids [OF inv] by (simp add: ids_ok_def)
  then have "v = u" if "v \<in> set (tb_users db)" "us_id v = i" for v
    using that l unfolding distinct_map inj_on_def by blast
  then have "(\<exists>v\<in>set (tb_users db). removable w i v) = removable w i u"
    using l unfolding removable_def by blast
  moreover have "taken i w db = (\<exists>v\<in>set (tb_users db). removable w i v)"
    by (simp add: taken_def removeWalletFromUserStmt_def filter_empty_conv)
  ultimately have "taken i w db = removable w i u" by simp
  then show ?thesis using removable_keepable [OF inv u] by simp
qed

lemma GetUserById_taken:
  "GetUserById j (snd (removeWalletFromUserStmt w i db)) =
    (if j = i then map_option (\<lambda>u. if removable w i u then u\<lparr>us_wallets := removeAll w (us_wallets u)\<rparr> else u) (GetUserById j db)
     else GetUserById j db)"
  unfolding removeWallet_on_user by (rule GetUserById_on_user) simp_all

lemma GetUserById_removal:
  assumes "users_inv db" "GetUserById i db = Some u"
  shows "GetUserById i (after_removal i w db) =
      Some (if keepable u w then u\<lparr>us_wallets := removeAll w (us_wallets u)\<rparr> else u)"
  using taken_iff [OF assms, of w] removable_keepable [OF assms, of w] assms(2)
  by (cases "keepable u w") (simp_all add: after_removal_def GetUserById_taken)

lemma GetUserById_removal_other: "j \<noteq> i \<Longrightarrow> GetUserById j (after_removal i w db) = GetUserById j db"
  by (simp add: after_removal_def GetUserById_taken)

lemma getWalletStmt_None: "getWalletStmt w db = None \<longleftrightarrow> w \<notin> wl_id ` live_wallets db"
  unfolding getWalletStmt_def live_wallet_def live_wallets_def find_None_iff by auto

lemma live_wallets_removal:
  "live_wallets (after_removal i w db) = (if taken i w db then {x \<in> live_wallets db. wl_id x \<noteq> w} else live_wallets db)"
proof -
  have "live_wallets (DeleteWalletByID w d) = {x \<in> live_wallets d. wl_id x \<noteq> w}" for d
    by (auto simp: live_wallets_def DeleteWalletByID_def split: if_splits)
  then show ?thesis by (simp add: after_removal_def removeWallet_on_user)
qed

lemma wallet_gone_after: "getWalletStmt w db = None \<Longrightarrow> getWalletStmt w (after_removal i v db) = None"
  unfolding getWalletStmt_None live_wallets_removal by auto

lemma wallet_gone: "taken i w db \<Longrightarrow> getWalletStmt w (after_removal i w db) = None"
  unfolding getWalletStmt_None live_wallets_removal by auto

lemma wallet_stays_gone: "getWalletStmt w db = None \<Longrightarrow> getWalletStmt w (snd (removals i ws db)) = None"
  by (induction ws arbitrary: db) (simp_all add: Let_def split_beta wallet_gone_after)

lemma removals_spec:
  assumes "users_inv db" "GetUserById i db = Some u" "removals i ws db = (ids, db')"
  shows "distinct ids \<and> set ids = {w \<in> set ws. keepable u w} \<and>
    GetUserById i db' = Some (u\<lparr>us_wallets := filter (\<lambda>w. w \<notin> set ids) (us_wallets u)\<rparr>) \<and>
    (\<forall>j. j \<noteq> i \<longrightarrow> GetUserById j db' = GetUserById j db) \<and> (\<forall>w\<in>set ids. getWalletStmt w db' = None)"
  using assms
proof (induction ws arbitrary: db u ids)
  case Nil
  then show ?case by simp
next
  case (Cons w ws)
  let ?db = "after_removal i w db"
  define v where "v = (if keepable u w then u\<lparr>us_wallets := removeAll w (us_wallets u)\<rparr> else u)"
  obtain ids' where r: "removals i ws ?db = (ids', db')" and ids: "ids = (if keepable u w then w # ids' else ids')"
    using Cons.prems(3) taken_iff [OF Cons.prems(1,2)] by (auto simp: Let_def split: prod.splits)
  have user: "has_user i db" using Cons.prems(2) live_userI live_user_SomeD unfolding GetUserById_def has_user_def by blast
  have inv: "users_inv ?db" by (rule users_inv_removal [OF Cons.prems(1) user])
  have v: "GetUserById i ?db = Some v" using GetUserById_removal [OF Cons.prems(1,2)] by (simp add: v_def)
  note IH = Cons.IH [OF inv v r]
  have kv: "keepable v x = (keepable u x \<and> \<not> (keepable u w \<and> x = w))" for x by (auto simp: v_def keepable_def)
  have s': "set ids' = {x \<in> set ws. keepable v x}" using IH by blast
  have s: "set ids = {x \<in> set (w # ws). keepable u x}" unfolding ids using s' kv by auto
  have d: "distinct ids" using IH s' kv by (auto simp: ids)
  have "filter (\<lambda>x. x \<notin> set ids') (removeAll w xs) = filter (\<lambda>x. x \<notin> set (w # ids')) xs" for xs
    by (induction xs) auto
  then have "v\<lparr>us_wallets := filter (\<lambda>x. x \<notin> set ids') (us_wallets v)\<rparr> = u\<lparr>us_wallets := filter (\<lambda>x. x \<notin> set ids) (us_wallets u)\<rparr>"
    by (cases "keepable u w") (simp_all add: v_def ids)
  then have g: "GetUserById i db' = Some (u\<lparr>us_wallets := filter (\<lambda>x. x \<notin> set ids) (us_wallets u)\<rparr>)" using IH by simp
  have o': "GetUserById j db' = GetUserById j db" if "j \<noteq> i" for j
    using IH GetUserById_removal_other [OF that] that by simp
  have "getWalletStmt w db' = None" if "keepable u w"
    using wallet_stays_gone [OF wallet_gone, of i w db i ws] taken_iff [OF Cons.prems(1,2), of w] that r by simp
  then have "\<forall>x\<in>set ids. getWalletStmt x db' = None" using IH by (auto simp: ids)
  then show ?case using s d g o' by blast
qed

text \<open>The tables after a removal, row by row.\<close>

definition without_wallets :: "UserID \<Rightarrow> WalletID list \<Rightarrow> tables \<Rightarrow> tables" where
  "without_wallets i ids db =
     db\<lparr>tb_users := map (\<lambda>v. if us_id v = i then v\<lparr>us_wallets := filter (\<lambda>w. w \<notin> set ids) (us_wallets v)\<rparr> else v) (tb_users db),
        tb_wallets := map (\<lambda>w. if wl_id w \<in> set ids then w\<lparr>wl_deleted := True\<rparr> else w) (tb_wallets db)\<rparr>"

lemma without_no_wallets: "without_wallets i [] db = db"
proof -
  have "map (\<lambda>v. if us_id v = i then v\<lparr>us_wallets := filter (\<lambda>w. w \<notin> set []) (us_wallets v)\<rparr> else v) vs = vs" for vs :: "user_row list"
    by (rule map_idI) simp
  then show ?thesis by (simp add: without_wallets_def)
qed

lemma without_wallets_twice: "without_wallets i ids (without_wallets i [w] db) = without_wallets i (w # ids) db"
  by (simp add: without_wallets_def comp_def)

lemma after_removal_tables:
  assumes inv: "users_inv db" and u: "GetUserById i db = Some u"
  shows "after_removal i w db = (if keepable u w then without_wallets i [w] db else db)"
proof (cases "keepable u w")
  case True
  have l: "u \<in> set (tb_users db)" "us_id u = i"
    using u live_user_SomeD unfolding GetUserById_def by blast+
  have "distinct (map us_id (tb_users db))" using inv_ids [OF inv] by (simp add: ids_ok_def)
  then have "v = u" if "v \<in> set (tb_users db)" "us_id v = i" for v
    using that l unfolding distinct_map inj_on_def by blast
  then have "removable w i v = (us_id v = i)" if "v \<in> set (tb_users db)" for v
    using that True removable_keepable [OF inv u, of w] by (auto simp: removable_def)
  then have "map (\<lambda>v. if removable w i v then v\<lparr>us_wallets := removeAll w (us_wallets v)\<rparr> else v) (tb_users db) =
      map (\<lambda>v. if us_id v = i then v\<lparr>us_wallets := filter (\<lambda>x. x \<notin> set [w]) (us_wallets v)\<rparr> else v) (tb_users db)"
    by (intro map_cong) (auto simp: removeAll_filter_not_eq intro!: arg_cong [where f = "\<lambda>ws. us_wallets_update (\<lambda>_. ws) v" for v] filter_cong)
  then show ?thesis
    using True taken_iff [OF inv u, of w]
    by (simp add: after_removal_def without_wallets_def removeWalletFromUserStmt_def DeleteWalletByID_def)
next
  case False
  then show ?thesis using taken_iff [OF inv u, of w] by (simp add: after_removal_def)
qed

lemma removals_tables:
  assumes "users_inv db" "GetUserById i db = Some u" "removals i ws db = (ids, db')"
  shows "db' = without_wallets i ids db"
  using assms
proof (induction ws arbitrary: db u ids)
  case Nil
  then show ?case by (simp add: without_no_wallets)
next
  case (Cons w ws)
  let ?db = "after_removal i w db"
  have user: "has_user i db" using Cons.prems(2) live_userI live_user_SomeD unfolding GetUserById_def has_user_def by blast
  have inv: "users_inv ?db" by (rule users_inv_removal [OF Cons.prems(1) user])
  obtain ids' where r: "removals i ws ?db = (ids', db')" and ids: "ids = (if keepable u w then w # ids' else ids')"
    using Cons.prems(3) taken_iff [OF Cons.prems(1,2)] by (auto simp: Let_def split: prod.splits)
  have "db' = without_wallets i ids' ?db"
    using Cons.IH [OF inv GetUserById_removal [OF Cons.prems(1,2)] r] .
  then show ?case
    using ids after_removal_tables [OF Cons.prems(1,2), of w] without_wallets_twice by simp
qed

section \<open>Properties\<close>

definition sample_input :: "string \<Rightarrow> string \<Rightarrow> CreateUserInput" where
  "sample_input name addr =
     \<lparr>cu_username = name, cu_email = Some (name @ ''@x.io''), cu_status = EmailVerificationStatusVerified,
      cu_chainAddress = \<lparr>ca_addressSet = True, ca_chainSet = True, ca_address = addr, ca_chain = ChainETH\<rparr>,
      cu_walletType = 0, cu_universal = False\<rparr>"

definition fine :: "UserID \<Rightarrow> (string, unit) outcome" where "fine i = Ok ()"

definition sample_users :: tables where
  "sample_users =
     cn_db (snd (CreateUser fine fine ''u2'' ''w2'' (sample_input ''bob'' ''0xb'')
       (pool (cn_db (snd (CreateUser fine fine ''u1'' ''w1'' (sample_input ''Ann'' ''0xa'') (pool empty_tables)))))))"

lemma sample_users_reach: "user_reach in_turn sample_users"
  unfolding sample_users_def
  by (rule user_reach.step [OF user_reach.step [OF user_reach.start]]; rule user_step.created) simp_all

lemma sample_users_inv: "users_inv sample_users"
  using user_reach_inv sample_users_reach by blast

lemma owns_code [code]:
  "owns i a l db = list_ex (\<lambda>u. \<not> us_deleted u \<and> us_id u = i \<and>
     list_ex (\<lambda>w. \<not> wl_deleted w \<and> wl_address w = a \<and> wl_l1_chain w = l \<and> wl_id w \<in> set (us_wallets u)) (tb_wallets db)) (tb_users db)"
  unfolding owns_def live_users_def live_wallets_def list_ex_iff by blast

lemma has_user_code [code]: "has_user i db = list_ex (\<lambda>u. \<not> us_deleted u \<and> us_id u = i) (tb_users db)"
  unfolding has_user_def live_users_def list_ex_iff by blast

text \<open>C6: From an empty database, creating users, adding and removing wallets, renaming, choosing
  a primary wallet, setting emails and deleting users, each with whatever input and in any order, never leaves two
  users with one wallet, a listed wallet that is deleted, or a primary wallet that is not the user's own; and the
  owner of an address is the user whom a login with that address finds. That holds also when a creation or
  a renaming writes after other operations have overtaken its lookup of the username, or a removal stops between two
  of its wallets (\<open>in_turn\<close> is false). Usernames
  that differ only in case are kept apart too while the operations run in turn, and only then
  (\<open>usernames_race\<close>).\<close>

theorem users_stay_apart:
  assumes "user_reach in_turn db"
  shows "kept_inv in_turn db \<and> (owns i a l db \<longrightarrow> map_option us_id (GetUserByAddressAndL1 a l db) = Some i)"
  using user_reach_inv [OF assms] owner_found by blast

theorem users_stay_apart_witness:
  "users_inv sample_users \<and> map_option us_id (GetUserByAddressAndL1 ''0xb'' 0 sample_users) = Some ''u2''"
proof -
  have "owns ''u2'' ''0xb'' 0 sample_users" by code_simp
  then show ?thesis using users_stay_apart [OF sample_users_reach [of True], of "''u2''" "''0xb''" 0] by simp
qed

text \<open>Two creations that both look the username up before either writes: both are told it is free, and both commit.\<close>

definition raced_users :: tables where
  "raced_users =
     cn_db (snd (creation_tx fine fine (Create_rows ''u2'' ''w2'' (sample_input ''CID'' ''0xb''\<lparr>cu_email := None\<rparr>))
       (pool (cn_db (snd (creation_tx fine fine (Create_rows ''u1'' ''w1'' (sample_input ''cid'' ''0xa'')) (pool empty_tables)))))))"

lemma usernames_race:
  "user_reach False raced_users \<and>
   fst (check_username ''cid'' (pool empty_tables)) = Ok () \<and> fst (check_username ''CID'' (pool empty_tables)) = Ok () \<and>
   map us_id (tb_users raced_users) = [''u1'', ''u2''] \<and> map us_deleted (tb_users raced_users) = [False, False] \<and>
   map us_idempotent (tb_users raced_users) = [Some ''cid'', Some ''cid'']"
proof (intro conjI)
  show "user_reach False raced_users"
    unfolding raced_users_def
    by (rule user_reach.step [OF user_reach.step [OF user_reach.start]]; rule user_step.created_late) simp_all
qed code_simp+

text \<open>C10: The API creates a user wholly or not at all: when it reports success, the committed tables
  have the user, a wallet of his with the address, and the email address he gave; when it fails, whatever failed,
  the tables are as before.\<close>

theorem create_user_all_or_nothing:
  assumes "users_inv db" "i \<noteq> []"
  shows "case CreateUser session pii i w pUser (pool db) of
      (Ok j, c) \<Rightarrow> j = i \<and> c = pool (cn_db c) \<and> users_inv (cn_db c) \<and> has_user i (cn_db c) \<and>
        (ca_address (cu_chainAddress pUser) \<noteq> [] \<longrightarrow> owns i (ca_address (cu_chainAddress pUser)) 0 (cn_db c)) \<and>
        email_stored i (cu_email pUser) (cu_status pUser) (cn_db c)
    | (_, c) \<Rightarrow> c = pool db"
  using CreateUser_run [OF assms, of session pii w pUser]
  by (auto simp: created_user_def split: prod.splits outcome.splits)

theorem create_user_all_or_nothing_witness:
  "fst (CreateUser fine fine ''u3'' ''w3'' (sample_input ''cid'' ''0xc'') (pool sample_users)) = Ok ''u3'' \<and>
   owns ''u3'' ''0xc'' 0 (cn_db (snd (CreateUser fine fine ''u3'' ''w3'' (sample_input ''cid'' ''0xc'') (pool sample_users)))) \<and>
   CreateUser fine fine ''u3'' ''w3'' (sample_input ''cid'' ''0xa'') (pool sample_users) =
     (Err (ErrAddressOwnedByUser (cu_chainAddress (sample_input ''cid'' ''0xa'')) ''u1''), pool sample_users)"
proof -
  let ?run = "\<lambda>a. CreateUser fine fine ''u3'' ''w3'' (sample_input ''cid'' a) (pool sample_users)"
  have ok: "fst (?run ''0xc'') = Ok ''u3''" by code_simp
  have err: "fst (?run ''0xa'') = Err (ErrAddressOwnedByUser (cu_chainAddress (sample_input ''cid'' ''0xa'')) ''u1'')" by code_simp
  note all = create_user_all_or_nothing [OF sample_users_inv, where i = "''u3''" and session = fine and pii = fine and w = "''w3''"]
  have "owns ''u3'' ''0xc'' 0 (cn_db (snd (?run ''0xc'')))"
    using all [where pUser = "sample_input ''cid'' ''0xc''"] ok by (auto simp: sample_input_def split: prod.splits)
  moreover have "snd (?run ''0xa'') = pool sample_users"
    using all [where pUser = "sample_input ''cid'' ''0xa''"] err by (auto split: prod.splits)
  ultimately show ?thesis using ok err by (metis prod.collapse)
qed

text \<open>C13: When adding a wallet to an existing user succeeds, a login with its address finds that user,
  and no address or wallet has two owners afterwards.\<close>

theorem added_wallet_logs_in:
  assumes "users_inv db" "has_user j db" "AddWalletToUser w j ca (lift_io r) (pool db) = (Ok (), c)"
  shows "map_option us_id (GetUserByAddressAndL1 (ca_address ca) 0 (cn_db c)) = Some j \<and> users_inv (cn_db c)"
proof -
  have "conn_inv True c \<and> owns j (ca_address ca) 0 (cn_db c)"
    using tripleD [OF AddWalletToUser_triple [of True True j w ca r] _ assms(3)] assms(1,2) by simp
  then show ?thesis using owner_found conn_inv_users by blast
qed

definition sample_auth :: "(user_error, auth_result) outcome" where
  "sample_auth = Ok \<lparr>ar_user = None, ar_addresses = [(cu_chainAddress (sample_input [] ''0xd''), 0)], ar_email = None\<rparr>"

theorem added_wallet_logs_in_witness:
  "map_option us_id (GetUserByAddressAndL1 ''0xd'' 0
     (cn_db (snd (AddWalletToUser ''w3'' ''u1'' (cu_chainAddress (sample_input [] ''0xd'')) (lift_io sample_auth) (pool sample_users)))))
   = Some ''u1''"
proof -
  let ?run = "AddWalletToUser ''w3'' ''u1'' (cu_chainAddress (sample_input [] ''0xd'')) (lift_io sample_auth) (pool sample_users)"
  have "fst ?run = Ok ()" "has_user ''u1'' sample_users" by code_simp+
  then show ?thesis using added_wallet_logs_in [OF sample_users_inv, of "''u1''" "''w3''" _ sample_auth "snd ?run"]
    by (metis prod.collapse CreateUserInput.select_convs(4) ChainAddress.select_convs(3) sample_input_def)
qed

lemma removed_wallets:
  assumes "users_inv db" "GetUserById i db = Some u"
  shows "case RemoveWalletsFromUser i ws (pool db) of ((ids, err), c) \<Rightarrow>
     if (case us_primary u of Some p \<Rightarrow> p | None \<Rightarrow> []) \<in> set ws \<or> length (us_wallets u) \<le> length ws
     then ids = [] \<and> err \<noteq> None \<and> c = pool db
     else err = None \<and> distinct ids \<and> set ids = set ws \<inter> set (us_wallets u) \<and>
       GetUserById i (cn_db c) = Some (u\<lparr>us_wallets := filter (\<lambda>w. w \<notin> set ws) (us_wallets u)\<rparr>) \<and>
       (\<forall>j. j \<noteq> i \<longrightarrow> GetUserById j (cn_db c) = GetUserById j db) \<and>
       (\<forall>w\<in>set ids. getWalletStmt w (cn_db c) = None) \<and> c = pool (without_wallets i ids db)"
proof -
  have get: "GetByID i (pool db) = (Ok (u, user_wallets db u), pool db)"
    using assms(2) by (simp add: GetByID_def not_found_as_def attempt_def then_io_def db_query_def lift_io_def)
  have ex: "list_ex (\<lambda>w. x = w) ws = (x \<in> set ws)" for x :: WalletID by (auto simp: list_ex_iff)
  have len: "length (user_wallets db u) = length (us_wallets u)" by (simp add: user_wallets_def)
  obtain ids db' where r: "removals i ws db = (ids, db')" by (rule prod.exhaust)
  show ?thesis
  proof (cases "(case us_primary u of Some p \<Rightarrow> p | None \<Rightarrow> []) \<in> set ws \<or> length (us_wallets u) \<le> length ws")
    case True
    then show ?thesis by (auto simp: RemoveWalletsFromUser_def get ex len)
  next
    case False
    have k: "keepable u w = (w \<in> set (us_wallets u))" if "w \<in> set ws" for w
      using False that by (cases "us_primary u") (auto simp: keepable_def)
    have s: "set ids = set ws \<inter> set (us_wallets u)" using removals_spec [OF assms r] k by blast
    have f: "filter (\<lambda>w. w \<notin> set ids) (us_wallets u) = filter (\<lambda>w. w \<notin> set ws) (us_wallets u)"
      by (rule filter_cong) (simp_all add: s)
    have run: "RemoveWalletsFromUser i ws (pool db) = ((ids, None), pool db')"
      using False by (simp add: RemoveWalletsFromUser_def get ex len remove_each_pool r)
    note spec = removals_spec [OF assms r]
    have g: "GetUserById i db' = Some (u\<lparr>us_wallets := filter (\<lambda>w. w \<notin> set ws) (us_wallets u)\<rparr>)"
      using spec unfolding f by blast
    have rest: "distinct ids" "\<forall>j. j \<noteq> i \<longrightarrow> GetUserById j db' = GetUserById j db" "\<forall>w\<in>set ids. getWalletStmt w db' = None"
      using spec by blast+
    show ?thesis unfolding run prod.case if_not_P [OF False] pool_simps
      using rest s g removals_tables [OF assms r] by (intro conjI) simp_all
  qed
qed

text \<open>C11: Removing wallets refuses, and changes nothing, when the primary wallet is among them or when
  they are as many as the user has; otherwise it reports exactly those of them that were the user's, each once, takes
  these and no others from the user, deletes them, and changes nothing else: no other wallet is
  deleted, and no other column or row of a table is touched.\<close>

theorem remove_wallets_effect:
  assumes "users_inv db" "GetUserById i db = Some u"
  shows "case RemoveWalletsFromUser i ws (pool db) of ((ids, err), c) \<Rightarrow>
     if (case us_primary u of Some p \<Rightarrow> p | None \<Rightarrow> []) \<in> set ws \<or> length (us_wallets u) \<le> length ws
     then ids = [] \<and> err \<noteq> None \<and> c = pool db
     else err = None \<and> distinct ids \<and> set ids = set ws \<inter> set (us_wallets u) \<and>
       GetUserById i (cn_db c) = Some (u\<lparr>us_wallets := filter (\<lambda>w. w \<notin> set ws) (us_wallets u)\<rparr>) \<and>
       (\<forall>j. j \<noteq> i \<longrightarrow> GetUserById j (cn_db c) = GetUserById j db) \<and>
       (\<forall>w\<in>set ids. getWalletStmt w (cn_db c) = None) \<and>
       c = pool (db\<lparr>
         tb_users := map (\<lambda>v. if us_id v = i then v\<lparr>us_wallets := filter (\<lambda>w. w \<notin> set ids) (us_wallets v)\<rparr> else v) (tb_users db),
         tb_wallets := map (\<lambda>w. if wl_id w \<in> set ids then w\<lparr>wl_deleted := True\<rparr> else w) (tb_wallets db)\<rparr>)"
  using removed_wallets [OF assms] unfolding without_wallets_def .

definition sample_wallets :: tables where
  "sample_wallets = cn_db (snd (AddWalletToUser ''w3'' ''u1'' (cu_chainAddress (sample_input [] ''0xd'')) (lift_io sample_auth) (pool sample_users)))"

lemma sample_wallets_inv: "users_inv sample_wallets"
  unfolding sample_wallets_def by (rule user_step_inv [OF user_step.wallet_added sample_users_inv])

theorem remove_wallets_effect_witness:
  "fst (RemoveWalletsFromUser ''u1'' [''w3''] (pool sample_wallets)) = ([''w3''], None) \<and>
   getWalletStmt ''w3'' (cn_db (snd (RemoveWalletsFromUser ''u1'' [''w3''] (pool sample_wallets)))) = None"
proof -
  have u: "GetUserById ''u1'' sample_wallets = Some (the (GetUserById ''u1'' sample_wallets))" by code_simp
  have w: "us_wallets (the (GetUserById ''u1'' sample_wallets)) = [''w1'', ''w3'']"
    "us_primary (the (GetUserById ''u1'' sample_wallets)) = Some ''w1''" by code_simp+
  have run: "fst (RemoveWalletsFromUser ''u1'' [''w3''] (pool sample_wallets)) = ([''w3''], None)" by code_simp
  show ?thesis using remove_wallets_effect [OF sample_wallets_inv u, of "[''w3'']"] run
    by (auto simp: w split: prod.splits)
qed

section \<open>Behaviour that the code's comments do not promise\<close>

text \<open>
  Without the caller's queries \<open>Create\<close> commits before it rolls back: the user of a creation that
  failed stays, without a wallet, and keeps the name. With an email that is taken the commit fails, which is
  only logged: the ID of a user who was never stored is returned.
\<close>

lemma create_alone_keeps_half:
  "fst (Create False ''u3'' ''w3'' (sample_input ''cid'' ''0xa'') (pool sample_users)) =
     Err (ErrAddressOwnedByUser (cu_chainAddress (sample_input ''cid'' ''0xa'')) ''u1'') \<and>
   has_user ''u3'' (cn_db (snd (Create False ''u3'' ''w3'' (sample_input ''cid'' ''0xa'') (pool sample_users))))"
  by code_simp

lemma create_alone_returns_nobody:
  "fst (Create False ''u3'' ''w3'' ((sample_input ''cid'' ''0xc'')\<lparr>cu_email := Some ''Bob@x.io''\<rparr>) (pool sample_users)) = Ok ''u3'' \<and>
   cn_db (snd (Create False ''u3'' ''w3'' ((sample_input ''cid'' ''0xc'')\<lparr>cu_email := Some ''Bob@x.io''\<rparr>) (pool sample_users))) =
     sample_users"
  by code_simp

text \<open>\<open>DoesUserOwnWallets\<close> looks each address up in the list it came from.\<close>

lemma every_user_owns_all_wallets:
  assumes "GetUserById i db = Some u"
  shows "DoesUserOwnWallets i ws (pool db) = (Ok True, pool db)"
proof -
  have "GetByID i (pool db) = (Ok (u, user_wallets db u), pool db)"
    using assms by (simp add: GetByID_def not_found_as_def attempt_def then_io_def db_query_def lift_io_def)
  moreover have "\<not> list_ex (\<lambda>w. w \<notin> set ws) ws" by (simp add: list_ex_iff)
  ultimately show ?thesis by (simp add: DoesUserOwnWallets_def then_io_def ret_io_def)
qed

text \<open>A login that finds no user crashes when the wallet to be added is not the authenticated one.\<close>

lemma adding_other_wallet_panics:
  assumes "ar_user a = None" "GetAuthenticatedAddress a ca = None"
  shows "AddWalletToUser w i ca (lift_io (Ok a)) c = (Panic ''nil pointer dereference'', c)"
  using assms by (simp add: AddWalletToUser_def lift_io_def)

end
