(* ===== verification/Authenticators.thy ===== *)
theory Authenticators
  imports Users Sessions
begin

text \<open>
  Proving who one is: the nonces of db/gen/coredb/nonce.sql.go, the authenticators of
  service/auth/auth.go, the choice between them in graphql/resolver/schema.resolvers.helpers.go,
  and the signatures that service/multichain/multichain.go and service/eth/eth.go verify. The
  cryptographic library, the contract that a Gnosis wallet is, the JWT library and the magic link
  service are parameters.
\<close>

datatype authn_error =
    ErrMessageDoesNotContainNonce | ErrSignatureVerificationFailed authn_error | ErrSignatureInvalid
  | ErrNonceExpired | ErrInvalidToken | ErrTokenAlreadyUsed | ErrInvalidMagicLink | ErrEmailNotFound string
  | ErrNonceExists string | ErrNoAuthMechanism | ErrEmailAlreadyUsed | ErrUserAlreadyExists
  | ErrWrapped string authn_error | MultiErr "authn_error list" | ErrDatabase user_error | ErrText string

section \<open>Nonces\<close>

record nonce_row =
  nn_id :: string
  nn_value :: string
  nn_created :: int
  nn_consumed :: bool

definition hour :: int where "hour = 60 * minute"

text \<open>\<open>on conflict (value) do nothing\<close>: no row for a value that is there already.\<close>

definition InsertNonce :: "int \<Rightarrow> string \<Rightarrow> string \<Rightarrow> nonce_row list \<Rightarrow> (user_error, nonce_row) outcome \<times> nonce_row list" where
  "InsertNonce now i v ns =
     (if v \<in> nn_value ` set ns then (Err NoRows, ns)
      else if i \<in> nn_id ` set ns then (Err (Violation ''nonces_pkey''), ns)
      else let n = \<lparr>nn_id = i, nn_value = v, nn_created = now, nn_consumed = False\<rparr> in (Ok n, ns @ [n]))"

definition consumable :: "int \<Rightarrow> string \<Rightarrow> nonce_row \<Rightarrow> bool" where
  "consumable now v n = (nn_value n = v \<and> \<not> nn_consumed n \<and> now - hour < nn_created n)"

definition ConsumeNonce :: "int \<Rightarrow> string \<Rightarrow> nonce_row list \<Rightarrow> (user_error, nonce_row) outcome \<times> nonce_row list" where
  "ConsumeNonce now v ns =
     (case find (consumable now v) ns of
        None \<Rightarrow> (Err NoRows, ns)
      | Some n \<Rightarrow> (Ok (n\<lparr>nn_consumed := True\<rparr>), map (\<lambda>n. if consumable now v n then n\<lparr>nn_consumed := True\<rparr> else n) ns))"

definition NoncePrepend :: string where
  "NoncePrepend = ''SplitFi uses this cryptographic signature in place of a password: ''"

text \<open>
  Four attempts, each with its random bytes in hex, or the error of reading them, its new ID and
  its time. The second component holds what the errors say that the attempts ran into.
\<close>

fun nonce_attempts ::
  "((string, string) outcome \<times> string \<times> int) list \<Rightarrow> authn_error list \<Rightarrow> nonce_row list \<Rightarrow>
   (authn_error, string \<times> string) outcome \<times> nonce_row list" where
  "nonce_attempts [] errs ns = (Err (MultiErr errs), ns)"
| "nonce_attempts ((Err e, i, now) # as) errs ns =
     nonce_attempts as (errs @ [ErrWrapped ''error generating nonce: '' (ErrText e)]) ns"
| "nonce_attempts ((Panic p, i, now) # as) errs ns = (Panic p, ns)"
| "nonce_attempts ((Ok nonce, i, now) # as) errs ns =
     (case InsertNonce now i nonce ns of
        (Ok _, ns') \<Rightarrow> (Ok (nonce, NoncePrepend @ nonce), ns')
      | (Err e, ns') \<Rightarrow>
          nonce_attempts as
            (errs @ [ErrWrapped ''error inserting nonce: '' (if e = NoRows then ErrNonceExists nonce else ErrDatabase e)]) ns'
      | (Panic p, ns') \<Rightarrow> (Panic p, ns'))"

definition GenerateAuthNonce ::
  "(nat \<Rightarrow> (string, string) outcome \<times> string \<times> int) \<Rightarrow> nonce_row list \<Rightarrow>
   (authn_error, string \<times> string) outcome \<times> nonce_row list" where
  "GenerateAuthNonce attempts = nonce_attempts (map attempts [0..<4]) []"

definition ConsumeAuthNonce :: "int \<Rightarrow> string \<Rightarrow> nonce_row list \<Rightarrow> (authn_error, unit) outcome \<times> nonce_row list" where
  "ConsumeAuthNonce now nonce ns =
     (case ConsumeNonce now nonce ns of
        (Ok _, ns') \<Rightarrow> (Ok (), ns')
      | (Err e, ns') \<Rightarrow> (Err (if e = NoRows then ErrNonceExpired else ErrDatabase e), ns')
      | (Panic p, ns') \<Rightarrow> (Panic p, ns'))"

section \<open>Signatures\<close>

type_synonym bytes = "8 word list"

text \<open>
  \<open>crypto.Keccak256\<close>, \<open>hexutil.Decode\<close>, \<open>crypto.SigToPub\<close>, \<open>crypto.PubkeyToAddress\<close> in hex,
  \<open>crypto.VerifySignature\<close>, the making of the contract's caller, and its \<open>IsValidSignature\<close> with an empty signature.
\<close>

record crypto =
  cr_keccak :: "string \<Rightarrow> bytes"
  cr_decode :: "string \<Rightarrow> (string, bytes) outcome"
  cr_sig_to_pub :: "bytes \<Rightarrow> bytes \<Rightarrow> (string, string) outcome"
  cr_address :: "string \<Rightarrow> string"
  cr_verify :: "string \<Rightarrow> bytes \<Rightarrow> bytes \<Rightarrow> bool"
  cr_validator :: "PubKey \<Rightarrow> (string, unit) outcome"
  cr_is_valid :: "PubKey \<Rightarrow> bytes \<Rightarrow> (string, bytes) outcome"

definition eip1271MagicValue :: bytes where "eip1271MagicValue = [0x16, 0x26, 0xBA, 0x7E]"

definition signed_data :: "bool \<Rightarrow> string \<Rightarrow> string" where
  "signed_data useDataHeader m =
     (if useDataHeader then CHR 0x19 # ''Ethereum Signed Message:'' @ [CHR 0x0A] @ itoa (int (length m)) @ m else m)"

text \<open>\<open>v\<close>, the byte at index 64, is 0 or 1 or the same plus 27.\<close>

definition normal_v :: "bytes \<Rightarrow> (string, bytes) outcome" where
  "normal_v sig =
     (if length sig \<le> 64 then Panic ''index out of range [64]''
      else let sig1 = (if sig ! 64 = 0 \<or> sig ! 64 = 1 then sig[64 := sig ! 64 + 27] else sig) in
        if sig1 ! 64 \<noteq> 27 \<and> sig1 ! 64 \<noteq> 28 then Err ''invalid signature (V is not 27 or 28)''
        else Ok (sig1[64 := sig1 ! 64 - 27]))"

definition verify_eoa :: "crypto \<Rightarrow> bytes \<Rightarrow> PubKey \<Rightarrow> bytes \<Rightarrow> (string, bool) outcome" where
  "verify_eoa cr hash pAddress sig0 =
     bind_o (normal_v sig0) (\<lambda>sig.
     bind_o (cr_sig_to_pub cr hash sig) (\<lambda>pub.
       if \<not> equal_fold (cr_address cr pub) pAddress then Err ''address does not match signature''
       else Ok (cr_verify cr pub hash (butlast sig))))"

definition verifySignature ::
  "crypto \<Rightarrow> string \<Rightarrow> string \<Rightarrow> PubKey \<Rightarrow> int \<Rightarrow> bool \<Rightarrow> (string, bool) outcome" where
  "verifySignature cr pSignature pData pAddress pWalletType useDataHeader =
     (let hash = cr_keccak cr (signed_data useDataHeader pData) in
      if pWalletType = WalletTypeEOA then bind_o (cr_decode cr pSignature) (verify_eoa cr hash pAddress)
      else if pWalletType = WalletTypeGnosis
      then bind_o (cr_validator cr pAddress) (\<lambda>_.
           case cr_is_valid cr pAddress hash of
             Ok result \<Rightarrow> Ok (result = eip1271MagicValue)
           | Err _ \<Rightarrow> Ok False
           | Panic p \<Rightarrow> Panic p)
      else Err ''wallet type not supported'')"

text \<open>\<open>Verifier.VerifySignature\<close> tries \<open>personal_sign\<close> first and \<open>eth_sign\<close> when that fails.\<close>

definition Verifier_VerifySignature ::
  "crypto \<Rightarrow> PubKey \<Rightarrow> int \<Rightarrow> string \<Rightarrow> string \<Rightarrow> (string, bool) outcome" where
  "Verifier_VerifySignature cr pAddress pWalletType pMessage pSignature =
     (case verifySignature cr pSignature pMessage pAddress pWalletType True of
        Ok True \<Rightarrow> Ok True
      | Panic p \<Rightarrow> Panic p
      | _ \<Rightarrow> verifySignature cr pSignature pMessage pAddress pWalletType False)"

datatype provider = EthereumProvider | OptimismProvider | ArbitrumProvider | BaseProvider | PolygonProvider

definition newProviderLookup :: "Chain \<rightharpoonup> provider" where
  "newProviderLookup = [ChainETH \<mapsto> EthereumProvider, ChainOptimism \<mapsto> OptimismProvider, ChainArbitrum \<mapsto> ArbitrumProvider,
     ChainBase \<mapsto> BaseProvider, ChainPolygon \<mapsto> PolygonProvider]"

text \<open>Of the providers \<open>EthereumProvider\<close> alone embeds a \<open>common.Verifier\<close>.\<close>

fun is_Verifier :: "provider \<Rightarrow> bool" where
  "is_Verifier EthereumProvider = True"
| "is_Verifier _ = False"

definition Provider_VerifySignature ::
  "crypto \<Rightarrow> (Chain \<rightharpoonup> provider) \<Rightarrow> string \<Rightarrow> string \<Rightarrow> ChainPubKey \<Rightarrow> int \<Rightarrow> (string, bool) outcome" where
  "Provider_VerifySignature cr providers pSig pMessage key pWalletType =
     (case providers (pk_chain key) of
        Some p \<Rightarrow>
          if is_Verifier p then Verifier_VerifySignature cr (pk_pubKey key) pWalletType pMessage pSig else Ok True
      | None \<Rightarrow> Ok True)"

section \<open>The authenticators\<close>

record one_time_claims =
  ot_user :: UserID
  ot_issued :: "int option"
  ot_expires :: int

text \<open>Consumed login tokens in redis, each with the time at which it expires.\<close>

type_synonym consumed = "string \<rightharpoonup> int"

definition SetNX :: "int \<Rightarrow> string \<Rightarrow> int \<Rightarrow> consumed \<Rightarrow> bool \<times> consumed" where
  "SetNX now key expiration cache =
     (case cache key of
        Some e \<Rightarrow> if now < e then (False, cache) else (True, cache(key \<mapsto> now + expiration))
      | None \<Rightarrow> (True, cache(key \<mapsto> now + expiration)))"

record authn_state =
  an_users :: conn
  an_nonces :: "nonce_row list"
  an_consumed :: consumed

record nonce_authenticator =
  na_key :: ChainPubKey
  na_nonce :: string
  na_message :: string
  na_signature :: string
  na_walletType :: int

text \<open>A query for a user that may not exist.\<close>

definition optional_user :: "(tables \<Rightarrow> user_row option) \<Rightarrow> conn \<Rightarrow> (authn_error, user_row option) outcome" where
  "optional_user q c =
     (case fst (db_query q c) of
        Ok u \<Rightarrow> Ok (Some u)
      | Err e \<Rightarrow> if e = NoRows then Ok None else Err (ErrDatabase e)
      | Panic p \<Rightarrow> Panic p)"

definition Nonce_Authenticate ::
  "crypto \<Rightarrow> int \<Rightarrow> nonce_authenticator \<Rightarrow> authn_state \<Rightarrow> (authn_error, auth_result) outcome \<times> authn_state" where
  "Nonce_Authenticate cr now e s =
     (case ToChainAddress (na_key e) of
        Err x \<Rightarrow> (Err (ErrText x), s)
      | Panic p \<Rightarrow> (Panic p, s)
      | Ok asChainAddress \<Rightarrow>
     (case ToL1ChainAddress asChainAddress of
        Err x \<Rightarrow> (Err (ErrText x), s)
      | Panic p \<Rightarrow> (Panic p, s)
      | Ok asL1 \<Rightarrow>
      if \<not> str_contains (na_message e) (na_nonce e) then (Err ErrMessageDoesNotContainNonce, s)
      else case Provider_VerifySignature cr newProviderLookup (na_signature e) (na_message e) (na_key e) (na_walletType e) of
          Err x \<Rightarrow> (Err (ErrSignatureVerificationFailed (ErrText x)), s)
        | Panic p \<Rightarrow> (Panic p, s)
        | Ok False \<Rightarrow> (Err (ErrSignatureVerificationFailed ErrSignatureInvalid), s)
        | Ok True \<Rightarrow>
            (case ConsumeAuthNonce now (na_nonce e) (an_nonces s) of
               (Err x, ns) \<Rightarrow> (Err x, s\<lparr>an_nonces := ns\<rparr>)
             | (Panic p, ns) \<Rightarrow> (Panic p, s\<lparr>an_nonces := ns\<rparr>)
             | (Ok _, ns) \<Rightarrow>
                 (map_o (\<lambda>user. \<lparr>ar_user = user, ar_addresses = [(asChainAddress, na_walletType e)],
                                 ar_email = None\<rparr>)
                    (optional_user (GetUserByAddressAndL1 (l1_address asL1) (l1_l1Chain asL1)) (an_users s)),
                  s\<lparr>an_nonces := ns\<rparr>))))"

text \<open>What the magic link service says of a token: that it is invalid, or the email address it was sent to.\<close>

definition MagicLink_Authenticate ::
  "(string \<Rightarrow> string option) \<Rightarrow> string \<Rightarrow> authn_state \<Rightarrow> (authn_error, auth_result) outcome \<times> auth_result option" where
  "MagicLink_Authenticate magic token s =
     (case magic token of
        None \<Rightarrow> (Err ErrInvalidMagicLink, None)
      | Some email \<Rightarrow>
          let r = \<lparr>ar_user = None, ar_addresses = [], ar_email = Some email\<rparr> in
          (case fst (db_query (GetUserByVerifiedEmailAddress (to_lower email)) (an_users s)) of
             Ok u \<Rightarrow> (Ok (r\<lparr>ar_user := Some u\<rparr>), Some (r\<lparr>ar_user := Some u\<rparr>))
           | Err e \<Rightarrow> (Err (if e = NoRows then ErrEmailNotFound email else ErrDatabase e), Some r)
           | Panic p \<Rightarrow> (Panic p, None)))"

definition ParseOneTimeLoginToken ::
  "(string \<Rightarrow> one_time_claims option) \<Rightarrow> int \<Rightarrow> string \<Rightarrow> (authn_error, UserID \<times> int) outcome" where
  "ParseOneTimeLoginToken jwt now token =
     (case jwt token of
        None \<Rightarrow> Err ErrInvalidToken
      | Some c \<Rightarrow> if live now (ot_expires c) (ot_issued c) then Ok (ot_user c, ot_expires c * second) else Err ErrInvalidToken)"

definition OneTime_Authenticate ::
  "(string \<Rightarrow> one_time_claims option) \<Rightarrow> int \<Rightarrow> string \<Rightarrow> authn_state \<Rightarrow> (authn_error, auth_result) outcome \<times> authn_state" where
  "OneTime_Authenticate jwt now token s =
     (case ParseOneTimeLoginToken jwt now token of
        Err e \<Rightarrow> (Err e, s)
      | Panic p \<Rightarrow> (Panic p, s)
      | Ok (userID, expiresAt) \<Rightarrow>
          (case SetNX now token (expiresAt - now + minute) (an_consumed s) of
             (False, cache) \<Rightarrow> (Err ErrTokenAlreadyUsed, s\<lparr>an_consumed := cache\<rparr>)
           | (True, cache) \<Rightarrow>
               (case fst (db_query (GetUserById userID) (an_users s)) of
                  Ok u \<Rightarrow> (Ok \<lparr>ar_user = Some u, ar_addresses = [], ar_email = None\<rparr>, s\<lparr>an_consumed := cache\<rparr>)
                | Err e \<Rightarrow> (Err (ErrDatabase e), s\<lparr>an_consumed := cache\<rparr>)
                | Panic p \<Rightarrow> (Panic p, s\<lparr>an_consumed := cache\<rparr>))))"

section \<open>Which authenticator, and what it is used for\<close>

record auth_mechanism =
  me_eoa :: "(ChainPubKey option \<times> string \<times> string \<times> string) option"
  me_gnosis :: "(Address \<times> string \<times> string) option"
  me_magic :: "string option"
  me_one_time :: "string option"

datatype authenticator = Nonce_Auth nonce_authenticator | Magic_Auth string | OneTime_Auth string

text \<open>The debug mechanism is compiled in only with debug tools. \<open>magicToken\<close> parses a magic link token.\<close>

definition one_time_mechanism :: "auth_mechanism \<Rightarrow> (authn_error, authenticator) outcome" where
  "one_time_mechanism m =
     (case me_one_time m of Some t \<Rightarrow> if t \<noteq> [] then Ok (OneTime_Auth t) else Err ErrNoAuthMechanism | None \<Rightarrow> Err ErrNoAuthMechanism)"

definition magic_mechanism :: "(string \<Rightarrow> (string, string) outcome) \<Rightarrow> auth_mechanism \<Rightarrow> (authn_error, authenticator) outcome" where
  "magic_mechanism magicToken m =
     (case me_magic m of
        Some t \<Rightarrow> if t \<noteq> [] then map_err ErrText (map_o Magic_Auth (magicToken t)) else one_time_mechanism m
      | None \<Rightarrow> one_time_mechanism m)"

definition gnosis_mechanism :: "(string \<Rightarrow> (string, string) outcome) \<Rightarrow> auth_mechanism \<Rightarrow> (authn_error, authenticator) outcome" where
  "gnosis_mechanism magicToken m =
     (case me_gnosis m of
        Some (addr, nonce, message) \<Rightarrow>
          Ok (Nonce_Auth \<lparr>na_key = NewChainPubKey addr ChainETH, na_nonce = nonce, na_message = message,
                         na_signature = ''0x'', na_walletType = WalletTypeGnosis\<rparr>)
      | None \<Rightarrow> magic_mechanism magicToken m)"

definition authMechanismToAuthenticator ::
  "(string \<Rightarrow> (string, string) outcome) \<Rightarrow> auth_mechanism \<Rightarrow> (authn_error, authenticator) outcome" where
  "authMechanismToAuthenticator magicToken m =
     (case me_eoa m of
        Some (Some key, nonce, message, signature) \<Rightarrow>
          Ok (Nonce_Auth \<lparr>na_key = key, na_nonce = nonce, na_message = message, na_signature = signature,
                         na_walletType = WalletTypeEOA\<rparr>)
      | _ \<Rightarrow> gnosis_mechanism magicToken m)"

text \<open>The services: their answers, and the time of the call.\<close>

record services =
  sv_crypto :: crypto
  sv_magic :: "string \<Rightarrow> string option"
  sv_jwt :: "string \<Rightarrow> one_time_claims option"
  sv_now :: int

text \<open>The outcome, the result that comes with an error if there is one, and the state.\<close>

definition Authenticate ::
  "services \<Rightarrow> authenticator \<Rightarrow> authn_state \<Rightarrow> (authn_error, auth_result) outcome \<times> auth_result option \<times> authn_state" where
  "Authenticate sv a s =
     (case a of
        Nonce_Auth e \<Rightarrow> (case Nonce_Authenticate (sv_crypto sv) (sv_now sv) e s of (r, s') \<Rightarrow> (r, None, s'))
      | Magic_Auth t \<Rightarrow> (case MagicLink_Authenticate (sv_magic sv) t s of (r, p) \<Rightarrow> (r, p, s))
      | OneTime_Auth t \<Rightarrow> (case OneTime_Authenticate (sv_jwt sv) (sv_now sv) t s of (r, s') \<Rightarrow> (r, None, s')))"

definition is_Magic :: "authenticator \<Rightarrow> bool" where
  "is_Magic a = (case a of Magic_Auth _ \<Rightarrow> True | _ \<Rightarrow> False)"

definition new_user_params :: "authenticator \<Rightarrow> string \<Rightarrow> string option \<Rightarrow> auth_result \<Rightarrow> (authn_error, CreateUserInput) outcome" where
  "new_user_params a username email r =
     (if (case ar_user r of Some u \<Rightarrow> \<not> us_universal u | None \<Rightarrow> False)
      then Err (if is_Magic a then ErrEmailAlreadyUsed else ErrUserAlreadyExists)
      else
        let (address, walletType) = (case ar_addresses r of x # _ \<Rightarrow> x | [] \<Rightarrow> (zero_ChainAddress, 0)) in
        Ok \<lparr>cu_username = username,
            cu_email = (case ar_email r of Some e \<Rightarrow> Some e | None \<Rightarrow> email),
            cu_status = (if ar_email r = None then EmailVerificationStatusUnverified else EmailVerificationStatusVerified),
            cu_chainAddress = address, cu_walletType = walletType, cu_universal = False\<rparr>)"

definition createNewUserParamsWithAuth ::
  "services \<Rightarrow> authenticator \<Rightarrow> string \<Rightarrow> string option \<Rightarrow> authn_state \<Rightarrow>
   (authn_error, CreateUserInput) outcome \<times> authn_state" where
  "createNewUserParamsWithAuth sv a username email s =
     (case Authenticate sv a s of
        (Ok r, _, s') \<Rightarrow> (new_user_params a username email r, s')
      | (Panic p, _, s') \<Rightarrow> (Panic p, s')
      | (Err (ErrEmailNotFound e), Some r, s') \<Rightarrow> (new_user_params a username email r, s')
      | (Err (ErrEmailNotFound e), None, s') \<Rightarrow> (Panic ''nil pointer dereference'', s')
      | (Err e, _, s') \<Rightarrow> (Err (ErrWrapped ''authentication failed: '' e), s'))"

text \<open>The user that a login hands to \<open>Sessions.Login\<close>.\<close>

definition login_user :: "(authn_error, auth_result) outcome \<Rightarrow> (string, (UserID \<times> bool) option) outcome" where
  "login_user r =
     (case r of
        Ok a \<Rightarrow> Ok (map_option (\<lambda>u. (us_id u, us_universal u)) (ar_user a))
      | Err e \<Rightarrow> Err ''authentication failed''
      | Panic p \<Rightarrow> Panic p)"

definition login_with ::
  "services \<Rightarrow> authenticator \<Rightarrow> request \<Rightarrow> DBID \<Rightarrow> DBID \<Rightarrow> string \<Rightarrow> authn_state \<Rightarrow> store \<Rightarrow> response \<Rightarrow>
   (auth_error, DBID) outcome \<times> authn_state \<times> store \<times> response" where
  "login_with sv a rq sessionID newRefreshID description s st r =
     (case Authenticate sv a s of
        (x, _, s') \<Rightarrow>
          (case Login rq sessionID newRefreshID description (login_user x) st r of (y, st', r') \<Rightarrow> (y, s', st', r')))"

end
