(* ===== verification/Authn_Props.thy ===== *)
theory Authn_Props
  imports Authenticators User_Inv User_Props
begin

text \<open>What a successful authentication proves, and what it does not.\<close>

section \<open>Nonces are consumed once\<close>

definition nonces_ok :: "nonce_row list \<Rightarrow> bool" where
  "nonces_ok ns = distinct (map nn_value ns)"

definition spent :: "string \<Rightarrow> nonce_row list \<Rightarrow> bool" where
  "spent v ns = (\<exists>n\<in>set ns. nn_value n = v \<and> nn_consumed n)"

lemma InsertNonce_keeps:
  assumes "InsertNonce now i w ns = (r, ns')"
  shows "(nonces_ok ns \<longrightarrow> nonces_ok ns') \<and> (spent v ns \<longrightarrow> spent v ns')"
  using assms by (auto simp: InsertNonce_def nonces_ok_def spent_def Let_def split: if_splits)

lemma nonce_attempts_keeps:
  "nonce_attempts as errs ns = (r, ns') \<Longrightarrow> (nonces_ok ns \<longrightarrow> nonces_ok ns') \<and> (spent v ns \<longrightarrow> spent v ns')"
proof (induction as errs ns rule: nonce_attempts.induct)
  case (4 nonce i now as errs ns)
  obtain x ns1 where x: "InsertNonce now i nonce ns = (x, ns1)" by (rule prod.exhaust)
  note k = InsertNonce_keeps [OF x, of v]
  show ?case
  proof (cases x)
    case (Err e)
    then have "(nonces_ok ns1 \<longrightarrow> nonces_ok ns') \<and> (spent v ns1 \<longrightarrow> spent v ns')"
      using 4(1) [OF x [symmetric]] 4(2) x by auto
    then show ?thesis using k by blast
  qed (use 4(2) x k in auto)
qed auto

lemma map_consume_values: "map nn_value (map (\<lambda>n. if consumable now v n then n\<lparr>nn_consumed := True\<rparr> else n) ns) = map nn_value ns"
  by simp

text \<open>A nonce that was consumed before is refused; one that is consumed now is spent.\<close>

lemma ConsumeNonce_spec:
  assumes "nonces_ok ns" "ConsumeNonce now w ns = (r, ns')"
  shows "nonces_ok ns' \<and> (spent v ns \<longrightarrow> spent v ns') \<and> (r \<in> range Ok \<longrightarrow> \<not> spent w ns \<and> spent w ns')"
proof (cases "find (consumable now w) ns")
  case None
  then show ?thesis using assms by (auto simp: ConsumeNonce_def)
next
  case (Some n)
  let ?f = "\<lambda>n. if consumable now w n then n\<lparr>nn_consumed := True\<rparr> else n"
  have n: "n \<in> set ns" "consumable now w n" using Some by (auto simp: find_Some_iff)
  have ns': "ns' = map ?f ns" using assms(2) Some by (simp add: ConsumeNonce_def)
  have "nonces_ok ns'" using assms(1) unfolding nonces_ok_def ns' map_consume_values .
  moreover have "spent v ns'" if "spent v ns"
  proof -
    obtain m where "m \<in> set ns" "nn_value m = v" "nn_consumed m" using \<open>spent v ns\<close> unfolding spent_def by blast
    then have "?f m \<in> set ns'" "nn_value (?f m) = v" "nn_consumed (?f m)" by (auto simp: ns')
    then show ?thesis unfolding spent_def by blast
  qed
  moreover have "spent w ns'"
  proof -
    have "?f n \<in> set ns'" "nn_value (?f n) = w" "nn_consumed (?f n)" using n by (auto simp: ns' consumable_def)
    then show ?thesis unfolding spent_def by blast
  qed
  moreover have "\<not> spent w ns"
  proof
    assume "spent w ns"
    then obtain m where m: "m \<in> set ns" "nn_value m = w" "nn_consumed m" by (auto simp: spent_def)
    have "m = n" using assms(1) m n unfolding nonces_ok_def distinct_map inj_on_def consumable_def by blast
    then show False using m(3) n(2) by (simp add: consumable_def)
  qed
  ultimately show ?thesis by blast
qed

section \<open>A history of calls\<close>

text \<open>The calls that touch nonces and login tokens; in between the users may change in any way.\<close>

datatype authn_call =
    Get_Nonce "nat \<Rightarrow> (string, string) outcome \<times> string \<times> int"
  | Authenticate_With services authenticator
  | Users_Change conn

definition passed :: "(authn_error, auth_result) outcome \<Rightarrow> bool" where
  "passed r = (case r of Ok _ \<Rightarrow> True | _ \<Rightarrow> False)"

lemma passed_iff: "passed r \<longleftrightarrow> (\<exists>a. r = Ok a)"
  by (cases r) (simp_all add: passed_def)

lemma passed_simps [simp]: "passed (Ok a)" "\<not> passed (Err e)" "\<not> passed (Panic p)"
  by (simp_all add: passed_def)

fun authn_step :: "authn_call \<Rightarrow> authn_state \<Rightarrow> authenticator option \<times> authn_state" where
  "authn_step (Get_Nonce attempts) s = (None, s\<lparr>an_nonces := snd (GenerateAuthNonce attempts (an_nonces s))\<rparr>)"
| "authn_step (Authenticate_With sv a) s =
     (case Authenticate sv a s of (r, _, s') \<Rightarrow> (if passed r then Some a else None, s'))"
| "authn_step (Users_Change c) s = (None, s\<lparr>an_users := c\<rparr>)"

text \<open>The authenticators that passed, in the order of the calls.\<close>

fun authn_run :: "authn_call list \<Rightarrow> authn_state \<Rightarrow> authenticator list" where
  "authn_run [] s = []"
| "authn_run (c # cs) s = (case authn_step c s of (x, s') \<Rightarrow> (case x of Some a \<Rightarrow> [a] | None \<Rightarrow> []) @ authn_run cs s')"

text \<open>
  Nonces and login tokens share a contract: a secret that was used lets nobody through again, and
  one that lets somebody through is used from then on.
\<close>

locale use_once =
  fixes ok :: "authn_state \<Rightarrow> bool" and used :: "authn_state \<Rightarrow> bool" and hit :: "authenticator \<Rightarrow> bool"
    and admitted :: "authn_call \<Rightarrow> bool"
  assumes ok_step: "ok s \<Longrightarrow> admitted c \<Longrightarrow> authn_step c s = (x, s') \<Longrightarrow> ok s'"
    and used_step: "ok s \<Longrightarrow> admitted c \<Longrightarrow> authn_step c s = (x, s') \<Longrightarrow> used s \<Longrightarrow> used s'"
    and used_refused: "ok s \<Longrightarrow> admitted c \<Longrightarrow> authn_step c s = (Some a, s') \<Longrightarrow> used s \<Longrightarrow> \<not> hit a"
    and hit_used: "ok s \<Longrightarrow> admitted c \<Longrightarrow> authn_step c s = (Some a, s') \<Longrightarrow> hit a \<Longrightarrow> used s'"
begin

lemma hits: "ok s \<Longrightarrow> list_all admitted calls \<Longrightarrow> length (filter hit (authn_run calls s)) \<le> (if used s then 0 else 1)"
proof (induction calls arbitrary: s)
  case (Cons c cs)
  obtain x s' where x: "authn_step c s = (x, s')" by (rule prod.exhaust)
  have c: "admitted c" "list_all admitted cs" using Cons.prems(2) by simp_all
  note ok' = ok_step [OF Cons.prems(1) c(1) x]
  note IH = Cons.IH [OF ok' c(2)]
  show ?case
  proof (cases x)
    case None
    then show ?thesis using IH x used_step [OF Cons.prems(1) c(1) x] by (auto split: if_splits)
  next
    case (Some a)
    note x' = x [unfolded Some]
    show ?thesis
    proof (cases "hit a")
      case True
      then show ?thesis
        using IH x' hit_used [OF Cons.prems(1) c(1) x'] used_refused [OF Cons.prems(1) c(1) x'] by (auto split: if_splits)
    next
      case False
      then show ?thesis using IH x' used_step [OF Cons.prems(1) c(1) x] by (auto split: if_splits)
    qed
  qed
qed simp

lemma at_most_once: "ok s \<Longrightarrow> list_all admitted calls \<Longrightarrow> length (filter hit (authn_run calls s)) \<le> 1"
  using hits [of s calls] by (auto split: if_splits)

end

definition uses_nonce :: "string \<Rightarrow> authenticator \<Rightarrow> bool" where
  "uses_nonce n a = (case a of Nonce_Auth e \<Rightarrow> na_nonce e = n | _ \<Rightarrow> False)"

definition uses_token :: "string \<Rightarrow> authenticator \<Rightarrow> bool" where
  "uses_token t a = (case a of OneTime_Auth x \<Rightarrow> x = t | _ \<Rightarrow> False)"

lemma ConsumeAuthNonce_spec:
  assumes "nonces_ok ns" "ConsumeAuthNonce now w ns = (r, ns')"
  shows "nonces_ok ns' \<and> (spent v ns \<longrightarrow> spent v ns') \<and> (r \<in> range Ok \<longrightarrow> \<not> spent w ns \<and> spent w ns')"
proof -
  obtain x ns1 where x: "ConsumeNonce now w ns = (x, ns1)" by (rule prod.exhaust)
  then show ?thesis using ConsumeNonce_spec [OF assms(1) x, of v] assms(2)
    by (cases x) (auto simp: ConsumeAuthNonce_def)
qed

lemma Nonce_Authenticate_nonces:
  assumes "nonces_ok (an_nonces s)" "Nonce_Authenticate cr now e s = (r, s')"
  shows "nonces_ok (an_nonces s') \<and> (spent v (an_nonces s) \<longrightarrow> spent v (an_nonces s')) \<and>
    (passed r \<longrightarrow> \<not> spent (na_nonce e) (an_nonces s) \<and> spent (na_nonce e) (an_nonces s')) \<and> an_consumed s' = an_consumed s"
proof -
  obtain x ns where x: "ConsumeAuthNonce now (na_nonce e) (an_nonces s) = (x, ns)" by (rule prod.exhaust)
  note spec = ConsumeAuthNonce_spec [OF assms(1) x, of v]
  consider (same) "s' = s" "\<not> passed r" | (consumed) "s' = s\<lparr>an_nonces := ns\<rparr>" "passed r \<Longrightarrow> x \<in> range Ok"
    using assms(2) unfolding Nonce_Authenticate_def x
    by (auto simp: passed_iff split: outcome.splits if_splits bool.splits)
  then show ?thesis using assms(1) spec by cases auto
qed

lemma Nonce_Authenticate_users: "an_users (snd (Nonce_Authenticate cr now e s)) = an_users s"
  by (simp add: Nonce_Authenticate_def split: outcome.splits prod.splits bool.splits)

section \<open>A login token is accepted once\<close>

text \<open>The entry of a token in the cache outlives the token by a minute.\<close>

definition tokens_ok :: "(string \<Rightarrow> one_time_claims option) \<Rightarrow> consumed \<Rightarrow> bool" where
  "tokens_ok jwt cache = (\<forall>t e c. cache t = Some e \<longrightarrow> jwt t = Some c \<longrightarrow> e = ot_expires c * second + minute)"

lemma minute_pos: "0 < minute" by (simp add: minute_def second_def)

lemma ParseOneTimeLoginToken_Ok:
  "ParseOneTimeLoginToken jwt now t = Ok (u, e) \<longleftrightarrow>
     (\<exists>c. jwt t = Some c \<and> live now (ot_expires c) (ot_issued c) \<and> u = ot_user c \<and> e = ot_expires c * second)"
  by (auto simp: ParseOneTimeLoginToken_def split: option.splits)

lemma OneTime_Authenticate_spec:
  assumes ok: "tokens_ok jwt (an_consumed s)" and run: "OneTime_Authenticate jwt now t s = (r, s')"
  shows "tokens_ok jwt (an_consumed s') \<and> (an_consumed s x \<noteq> None \<longrightarrow> an_consumed s' x \<noteq> None) \<and>
    (passed r \<longrightarrow> an_consumed s t = None \<and> an_consumed s' t \<noteq> None) \<and> an_nonces s' = an_nonces s"
proof (cases "ParseOneTimeLoginToken jwt now t")
  case (Ok p)
  obtain u e where p: "p = (u, e)" by (rule prod.exhaust)
  obtain c where c: "jwt t = Some c" "live now (ot_expires c) (ot_issued c)" "e = ot_expires c * second"
    using Ok unfolding p ParseOneTimeLoginToken_Ok by blast
  have now: "now < e" using c(2,3) by (simp add: live_def)
  show ?thesis
  proof (cases "an_consumed s t")
    case None
    let ?cache = "(an_consumed s)(t \<mapsto> e + minute)"
    have s': "s' = s\<lparr>an_consumed := ?cache\<rparr>"
      using run None by (auto simp: OneTime_Authenticate_def Ok p SetNX_def split: outcome.splits)
    have "tokens_ok jwt ?cache" using ok c by (simp add: tokens_ok_def)
    then show ?thesis using None by (simp add: s')
  next
    case (Some e')
    have "e' = e + minute" using ok Some c(1,3) by (simp add: tokens_ok_def)
    then have "now < e'" using now minute_pos by linarith
    then have "r = Err ErrTokenAlreadyUsed" "s' = s"
      using run Some by (auto simp: OneTime_Authenticate_def Ok p SetNX_def)
    then show ?thesis using ok by (simp add: passed_def)
  qed
qed (use run ok in \<open>auto simp: OneTime_Authenticate_def passed_def\<close>)

section \<open>Histories\<close>

text \<open>Whatever the calls are, the JWT library reads each text in one way.\<close>

fun same_jwt :: "(string \<Rightarrow> one_time_claims option) \<Rightarrow> authn_call \<Rightarrow> bool" where
  "same_jwt jwt (Authenticate_With sv a) = (sv_jwt sv = jwt)"
| "same_jwt jwt _ = True"

lemma authn_step_nonces:
  assumes "nonces_ok (an_nonces s)" "authn_step call s = (x, s')"
  shows "nonces_ok (an_nonces s') \<and> (spent v (an_nonces s) \<longrightarrow> spent v (an_nonces s') \<and> (\<forall>a. x = Some a \<longrightarrow> \<not> uses_nonce v a)) \<and>
    (\<forall>a. x = Some a \<longrightarrow> uses_nonce v a \<longrightarrow> spent v (an_nonces s'))"
proof (cases call)
  case (Get_Nonce attempts)
  obtain r ns where r: "nonce_attempts (map attempts [0..<4]) [] (an_nonces s) = (r, ns)" by (rule prod.exhaust)
  have "x = None" "s' = s\<lparr>an_nonces := ns\<rparr>" using assms(2) Get_Nonce r by (auto simp: GenerateAuthNonce_def)
  then show ?thesis using nonce_attempts_keeps [OF r, of v] assms(1) by simp
next
  case (Authenticate_With sv a)
  show ?thesis
  proof (cases a)
    case (Nonce_Auth e)
    obtain r t where r: "Nonce_Authenticate (sv_crypto sv) (sv_now sv) e s = (r, t)" by (rule prod.exhaust)
    have "x = (if passed r then Some a else None)" "s' = t"
      using assms(2) Authenticate_With Nonce_Auth r by (auto simp: Authenticate_def)
    then show ?thesis using Nonce_Authenticate_nonces [OF assms(1) r, of v] Nonce_Auth
      by (cases "passed r"; cases "na_nonce e = v") (simp_all add: uses_nonce_def)
  next
    case (Magic_Auth t)
    then have "s' = s" using assms(2) Authenticate_With by (auto simp: Authenticate_def split: prod.splits)
    moreover have "x = Some b \<Longrightarrow> b = a" for b
      using assms(2) Authenticate_With Magic_Auth by (auto simp: Authenticate_def split: prod.splits if_splits)
    ultimately show ?thesis using assms(1) Magic_Auth by (auto simp: uses_nonce_def)
  next
    case (OneTime_Auth t)
    obtain r s1 where r: "OneTime_Authenticate (sv_jwt sv) (sv_now sv) t s = (r, s1)" by (rule prod.exhaust)
    have "an_nonces s1 = an_nonces s" using r
      by (auto simp: OneTime_Authenticate_def split: outcome.splits prod.splits bool.splits)
    moreover have "s' = s1" "x = (if passed r then Some a else None)"
      using assms(2) Authenticate_With OneTime_Auth r by (auto simp: Authenticate_def)
    ultimately show ?thesis using assms(1) OneTime_Auth by (auto simp: uses_nonce_def)
  qed
qed (use assms in auto)

interpretation nonces: use_once "\<lambda>s. nonces_ok (an_nonces s)" "\<lambda>s. spent v (an_nonces s)" "uses_nonce v" "\<lambda>c. True" for v
  by unfold_locales (use authn_step_nonces in blast)+

lemma authn_step_tokens:
  assumes ok: "tokens_ok jwt (an_consumed s)" and same: "same_jwt jwt call" and run: "authn_step call s = (x, s')"
  shows "tokens_ok jwt (an_consumed s') \<and>
    (an_consumed s t \<noteq> None \<longrightarrow> an_consumed s' t \<noteq> None \<and> (\<forall>a. x = Some a \<longrightarrow> \<not> uses_token t a)) \<and>
    (\<forall>a. x = Some a \<longrightarrow> uses_token t a \<longrightarrow> an_consumed s' t \<noteq> None)"
proof (cases call)
  case (Authenticate_With sv a)
  show ?thesis
  proof (cases a)
    case (Nonce_Auth e)
    obtain r u where r: "Nonce_Authenticate (sv_crypto sv) (sv_now sv) e s = (r, u)" by (rule prod.exhaust)
    have "an_consumed u = an_consumed s" using r unfolding Nonce_Authenticate_def
      by (auto split: outcome.splits prod.splits bool.splits if_splits)
    moreover have "s' = u" "x = (if passed r then Some a else None)"
      using run Authenticate_With Nonce_Auth r by (auto simp: Authenticate_def)
    ultimately show ?thesis using ok Nonce_Auth by (auto simp: uses_token_def)
  next
    case (Magic_Auth y)
    then have "s' = s" using run Authenticate_With by (auto simp: Authenticate_def split: prod.splits)
    moreover have "x = Some b \<Longrightarrow> b = a" for b
      using run Authenticate_With Magic_Auth by (auto simp: Authenticate_def split: prod.splits if_splits)
    ultimately show ?thesis using ok Magic_Auth by (auto simp: uses_token_def)
  next
    case (OneTime_Auth y)
    obtain r s1 where r: "OneTime_Authenticate jwt (sv_now sv) y s = (r, s1)" by (rule prod.exhaust)
    have "s' = s1" "x = (if passed r then Some a else None)"
      using run same Authenticate_With OneTime_Auth r by (auto simp: Authenticate_def)
    then show ?thesis using OneTime_Authenticate_spec [OF ok r, of t] OneTime_Auth
      by (cases "passed r"; cases "y = t") (simp_all add: uses_token_def)
  qed
qed (use ok run in auto)

interpretation tokens: use_once "\<lambda>s. tokens_ok jwt (an_consumed s)" "\<lambda>s. an_consumed s t \<noteq> None" "uses_token t" "same_jwt jwt"
  for jwt t
  by unfold_locales (use authn_step_tokens in blast)+

section \<open>What a signature proves\<close>

text \<open>The message, with or without the header, was signed by the key whose address is \<open>addr\<close>.\<close>

definition signed_by :: "crypto \<Rightarrow> PubKey \<Rightarrow> string \<Rightarrow> string \<Rightarrow> bool" where
  "signed_by cr addr message signature =
     (\<exists>header sig v pub. cr_decode cr signature = Ok sig \<and> normal_v sig = Ok v \<and> length sig > 64 \<and>
        cr_sig_to_pub cr (cr_keccak cr (signed_data header message)) v = Ok pub \<and>
        equal_fold (cr_address cr pub) addr \<and>
        cr_verify cr pub (cr_keccak cr (signed_data header message)) (butlast v))"

lemma verifySignature_EOA:
  assumes "verifySignature cr sig m addr WalletTypeEOA h = Ok True"
  shows "signed_by cr addr m sig"
proof -
  obtain b where b: "cr_decode cr sig = Ok b" "verify_eoa cr (cr_keccak cr (signed_data h m)) addr b = Ok True"
    using assms by (auto simp: verifySignature_def Let_def outcome_simps)
  have long: "length b > 64" if "normal_v b = Ok v" for v using that by (auto simp: normal_v_def split: if_splits)
  show ?thesis using b long unfolding signed_by_def verify_eoa_def
    by (auto simp: outcome_simps split: if_splits)
qed

lemma Verifier_EOA:
  assumes "Verifier_VerifySignature cr addr WalletTypeEOA m sig = Ok True"
  shows "signed_by cr addr m sig"
  using assms verifySignature_EOA [of cr sig m addr]
  by (auto simp: Verifier_VerifySignature_def split: outcome.splits bool.splits)

lemma Nonce_Authenticate_Ok:
  assumes "Nonce_Authenticate cr now e s = (Ok a, s')"
  shows "str_contains (na_message e) (na_nonce e) \<and>
    Provider_VerifySignature cr newProviderLookup (na_signature e) (na_message e) (na_key e) (na_walletType e) = Ok True \<and>
    (\<exists>n\<in>set (an_nonces s). consumable now (na_nonce e) n)"
  using assms
  by (auto simp: Nonce_Authenticate_def ConsumeAuthNonce_def ConsumeNonce_def find_Some_iff
      split: outcome.splits prod.splits bool.splits if_splits option.splits)

lemma short_signature_panics:
  assumes "cr_decode cr sig = Ok b" "length b \<le> 64"
  shows "Verifier_VerifySignature cr addr WalletTypeEOA m sig = Panic ''index out of range [64]''"
  using assms by (simp add: Verifier_VerifySignature_def verifySignature_def Let_def verify_eoa_def normal_v_def)

section \<open>Properties\<close>

definition sample_crypto :: crypto where
  "sample_crypto =
     \<lparr>cr_keccak = (\<lambda>s. []), cr_decode = (\<lambda>s. if s = ''sig'' then Ok (replicate 65 0) else Err ''hex''),
      cr_sig_to_pub = (\<lambda>h s. Ok ''pub''), cr_address = (\<lambda>p. ''0xA''), cr_verify = (\<lambda>p h s. True),
      cr_validator = (\<lambda>a. Ok ()), cr_is_valid = (\<lambda>a h. Err ''no contract'')\<rparr>"

definition sample_services :: services where
  "sample_services =
     \<lparr>sv_crypto = sample_crypto, sv_magic = (\<lambda>t. None),
      sv_jwt = (\<lambda>t. if t = ''qr'' then Some \<lparr>ot_user = ''u1'', ot_issued = Some 0, ot_expires = 300\<rparr> else None), sv_now = second\<rparr>"

definition sample_nonce :: "Chain \<Rightarrow> string \<Rightarrow> nonce_authenticator" where
  "sample_nonce ch sig =
     \<lparr>na_key = \<lparr>pk_pubKeySet = True, pk_chainSet = True, pk_pubKey = ''0xa'', pk_chain = ch\<rparr>, na_nonce = ''n1'',
      na_message = ''hello n1'', na_signature = sig, na_walletType = WalletTypeEOA\<rparr>"

definition sample_authn :: authn_state where
  "sample_authn =
     \<lparr>an_users = pool sample_users,
      an_nonces = [\<lparr>nn_id = ''i'', nn_value = ''n1'', nn_created = 0, nn_consumed = False\<rparr>], an_consumed = Map.empty\<rparr>"

text \<open>C7: Whatever calls for nonces and logins are made, in whatever order and by whomever, and however
  the users change in between, a nonce lets at most one authentication through.\<close>

theorem nonce_accepted_once:
  assumes "nonces_ok (an_nonces s)"
  shows "length (filter (uses_nonce v) (authn_run calls s)) \<le> 1"
  by (rule nonces.at_most_once [OF assms]) (simp add: list_all_iff)

theorem nonce_accepted_once_witness:
  "authn_run [Authenticate_With sample_services (Nonce_Auth (sample_nonce ChainETH ''sig'')),
     Authenticate_With sample_services (Nonce_Auth (sample_nonce ChainETH ''sig''))] sample_authn =
     [Nonce_Auth (sample_nonce ChainETH ''sig'')]"
proof -
  let ?a = "Nonce_Auth (sample_nonce ChainETH ''sig'')"
  let ?c = "Authenticate_With sample_services ?a"
  have one: "fst (authn_step ?c sample_authn) = Some ?a" by code_simp
  have none: "x = None \<or> x = Some ?a" if "authn_step ?c s = (x, s')" for x s s'
    using that by (auto split: prod.splits if_splits)
  obtain s1 where s1: "authn_step ?c sample_authn = (Some ?a, s1)" using one by (metis prod.collapse)
  obtain x s2 where s2: "authn_step ?c s1 = (x, s2)" by (rule prod.exhaust)
  have run: "authn_run [?c, ?c] sample_authn = ?a # (case x of Some a \<Rightarrow> [a] | None \<Rightarrow> [])"
    using s1 s2 by (simp del: authn_step.simps)
  have "nonces_ok (an_nonces sample_authn)" by (simp add: nonces_ok_def sample_authn_def)
  from nonce_accepted_once [OF this, of "''n1''" "[?c, ?c]"] show ?thesis
    using none [OF s2] unfolding run by (auto simp: uses_nonce_def sample_nonce_def)
qed

text \<open>C14: As long as the JWT library reads a text always in the same way, the text of a one-time login
  token lets at most one authentication through, and none after the token has expired.\<close>

theorem login_token_accepted_once:
  assumes "an_consumed s = Map.empty" "list_all (same_jwt jwt) calls"
  shows "length (filter (uses_token t) (authn_run calls s)) \<le> 1 \<and>
    (passed (fst (OneTime_Authenticate jwt now t s)) \<longrightarrow> (\<exists>c. jwt t = Some c \<and> now < ot_expires c * second))"
proof -
  have "tokens_ok jwt (an_consumed s)" using assms(1) by (simp add: tokens_ok_def)
  then have "length (filter (uses_token t) (authn_run calls s)) \<le> 1"
    by (rule tokens.at_most_once [OF _ assms(2)])
  moreover have "\<exists>c. jwt t = Some c \<and> now < ot_expires c * second" if "passed (fst (OneTime_Authenticate jwt now t s))"
    using that by (auto simp: OneTime_Authenticate_def passed_iff ParseOneTimeLoginToken_def live_def split: option.splits if_splits)
  ultimately show ?thesis by blast
qed

theorem login_token_accepted_once_witness:
  "length (filter (uses_token ''qr'') (authn_run
     [Authenticate_With sample_services (OneTime_Auth ''qr''), Authenticate_With sample_services (OneTime_Auth ''qr'')] sample_authn)) \<le> 1 \<and>
   passed (fst (OneTime_Authenticate (sv_jwt sample_services) second ''qr'' sample_authn))"
proof -
  have p: "passed (fst (OneTime_Authenticate (sv_jwt sample_services) second ''qr'' sample_authn))"
    by code_simp
  have e: "an_consumed sample_authn = Map.empty" by (simp add: sample_authn_def)
  have l: "list_all (same_jwt (sv_jwt sample_services))
     [Authenticate_With sample_services (OneTime_Auth ''qr''), Authenticate_With sample_services (OneTime_Auth ''qr'')]" by simp
  show ?thesis using login_token_accepted_once [OF e l, of "''qr''"] p by blast
qed

text \<open>C8: When a nonce authenticator of an Ethereum account with a key wallet passes, the message that
  contains the nonce was signed with the key of exactly that address, the nonce was handed out less than an hour ago and
  was not consumed, it is consumed now, and the user is the owner of the address.\<close>

theorem ethereum_login_is_signed:
  assumes "Nonce_Authenticate cr now e s = (Ok a, s')" "nonces_ok (an_nonces s)"
    "pk_chain (na_key e) = ChainETH" "na_walletType e = WalletTypeEOA"
  shows "signed_by cr (pk_pubKey (na_key e)) (na_message e) (na_signature e) \<and>
    str_contains (na_message e) (na_nonce e) \<and> (\<exists>n\<in>set (an_nonces s). consumable now (na_nonce e) n) \<and>
    spent (na_nonce e) (an_nonces s') \<and>
    ar_user a = GetUserByAddressAndL1 (to_lower (pk_pubKey (na_key e))) ChainETH (cn_db (an_users s))"
proof -
  note ok = Nonce_Authenticate_Ok [OF assms(1)]
  have "Verifier_VerifySignature cr (pk_pubKey (na_key e)) WalletTypeEOA (na_message e) (na_signature e) = Ok True"
    using ok assms(3,4) by (simp add: Provider_VerifySignature_def newProviderLookup_def chain_defs)
  then have sig: "signed_by cr (pk_pubKey (na_key e)) (na_message e) (na_signature e)" by (rule Verifier_EOA)
  have spent: "spent (na_nonce e) (an_nonces s')"
    using Nonce_Authenticate_nonces [OF assms(2,1)] by (simp add: passed_def)
  have l1: "to_l1 ChainETH = Ok ChainETH" by (simp add: to_l1_def L1Chains_def chain_defs)
  have "ar_user a = GetUserByAddressAndL1 (to_lower (pk_pubKey (na_key e))) ChainETH (cn_db (an_users s))"
    using assms(1,3)
    by (auto simp: Nonce_Authenticate_def ToChainAddress_def NewChainAddress_def ca_updateCasing_def ToL1ChainAddress_def
        NewL1ChainAddress_def l1_updateCasing_def l1 optional_user_def db_query_def
        split: outcome.splits prod.splits bool.splits if_splits option.splits)
  then show ?thesis using ok sig spent by blast
qed

theorem ethereum_login_is_signed_witness:
  "signed_by sample_crypto ''0xa'' ''hello n1'' ''sig'' \<and>
   map_option us_id (ar_user (case fst (Nonce_Authenticate sample_crypto second (sample_nonce ChainETH ''sig'') sample_authn) of Ok a \<Rightarrow> a)) =
     Some ''u1''"
proof -
  let ?r = "Nonce_Authenticate sample_crypto second (sample_nonce ChainETH ''sig'') sample_authn"
  have u: "map_option us_id (ar_user (case fst ?r of Ok a \<Rightarrow> a)) = Some ''u1''" by code_simp
  have "(case fst ?r of Ok _ \<Rightarrow> True | _ \<Rightarrow> False)" by code_simp
  then obtain a where a: "?r = (Ok a, snd ?r)" by (cases ?r; cases "fst ?r") auto
  show ?thesis
    using ethereum_login_is_signed [OF a] u by (simp add: nonces_ok_def sample_authn_def sample_nonce_def)
qed

text \<open>C9: On the other chains nothing is verified: whoever holds an unused nonce and names the key of a
  user's Ethereum address on Arbitrum, Polygon, Optimism or Base authenticates as that user, with any text as the
  signature.\<close>

theorem other_chains_need_no_signature:
  assumes "users_inv (cn_db (an_users s))" "\<not> cn_aborted (an_users s)"
    "owns victim (to_lower (pk_pubKey (na_key e))) ChainETH (cn_db (an_users s))"
    "pk_chain (na_key e) \<in> {ChainArbitrum, ChainPolygon, ChainOptimism, ChainBase}"
    "str_contains (na_message e) (na_nonce e)" "find (consumable now (na_nonce e)) (an_nonces s) = Some n"
  shows "\<exists>a s'. Nonce_Authenticate cr now e s = (Ok a, s') \<and> map_option us_id (ar_user a) = Some victim"
proof -
  have l1: "to_l1 (pk_chain (na_key e)) = Ok 0" using assms(4) by (auto simp: to_l1_def L1Chains_def chain_defs)
  have v: "Provider_VerifySignature cr newProviderLookup (na_signature e) (na_message e) (na_key e) (na_walletType e) = Ok True"
    using assms(4) by (auto simp: Provider_VerifySignature_def newProviderLookup_def chain_defs)
  obtain u where u: "GetUserByAddressAndL1 (to_lower (pk_pubKey (na_key e))) ChainETH (cn_db (an_users s)) = Some u" "us_id u = victim"
    using owner_found [OF assms(1,3)] by auto
  show ?thesis
    using assms(2,5,6) u
    by (simp add: Nonce_Authenticate_def ToChainAddress_def NewChainAddress_def ca_updateCasing_def ToL1ChainAddress_def
        NewL1ChainAddress_def l1_updateCasing_def l1 v optional_user_def db_query_def ConsumeAuthNonce_def ConsumeNonce_def ChainETH_def)
qed

theorem other_chains_need_no_signature_witness:
  "map_option us_id (ar_user (case fst (Nonce_Authenticate sample_crypto second (sample_nonce ChainBase ''forged'') sample_authn) of Ok a \<Rightarrow> a)) =
     Some ''u1''"
proof -
  have o: "owns ''u1'' ''0xa'' ChainETH sample_users" by code_simp
  have f: "find (consumable second ''n1'') (an_nonces sample_authn) = Some \<lparr>nn_id = ''i'', nn_value = ''n1'', nn_created = 0, nn_consumed = False\<rparr>"
    by (simp add: sample_authn_def consumable_def hour_def minute_def second_def)
  have c: "str_contains ''hello n1'' ''n1''" "to_lower ''0xa'' = ''0xa''" by code_simp+
  obtain a s' where "Nonce_Authenticate sample_crypto second (sample_nonce ChainBase ''forged'') sample_authn = (Ok a, s')"
    "map_option us_id (ar_user a) = Some ''u1''"
    using other_chains_need_no_signature [where s = sample_authn and victim = "''u1''" and e = "sample_nonce ChainBase ''forged''" and cr = sample_crypto and now = second]
      sample_users_inv o f c by (auto simp: sample_authn_def sample_nonce_def)
  then show ?thesis by simp
qed

end
