(* ===== verification/Notifications.thy ===== *)
theory Notifications
  imports Users Token_Ids "HOL-Library.List_Lexorder" "HOL-Library.Char_ord"
begin

text \<open>
  Notifications: service/notifications/notifications.go with the data of service/persist/notification.go
  and the queries of db/gen/coredb/query.sql.go. A notification is handled in one step; what it publishes and
  pushes is collected in the state. Time is in nanoseconds. What the rate limiter and the pub/sub client answer and the
  HTML library does are fields of the environment; the subscriptions of single users are left out.

  The handlers read before they write, and \<open>Dispatch\<close> drops both the error of the read and that of the lock that
  should keep two dispatches apart. What the read sees is therefore a field of the environment too: \<open>ne_seen\<close> gives
  the rows that stand in the table when dispatches keep apart, older rows when another one wrote since the read, and
  an error when the query fails.
\<close>

type_synonym Action = string

definition ActionViewedSplit :: Action where "ActionViewedSplit = ''ViewedSplit''"
definition ActionUserFollowedUsers :: Action where "ActionUserFollowedUsers = ''UserFollowedUsers''"
definition ActionNewTokensReceived :: Action where "ActionNewTokensReceived = ''NewTokensReceived''"
definition ActionTopActivityBadgeReceived :: Action where "ActionTopActivityBadgeReceived = ''ActivityBadgeReceived''"
definition ActionAnnouncement :: Action where "ActionAnnouncement = ''Announcement''"

lemmas action_defs = ActionViewedSplit_def ActionUserFollowedUsers_def ActionNewTokensReceived_def
  ActionTopActivityBadgeReceived_def ActionAnnouncement_def

section \<open>Notification data\<close>

datatype AnnouncementPlatform = AnnouncementPlatformWeb | AnnouncementPlatformMobile | AnnouncementPlatformAll
  | AnnouncementPlatformOther string

record AnnouncementDetails =
  ad_platform :: AnnouncementPlatform
  ad_internal_id :: string
  ad_push_text :: string

record NotificationData =
  nd_authed :: "UserID list"
  nd_unauthed :: "string list"
  nd_token_id :: string
  nd_quantity :: HexString
  nd_threshold :: int
  nd_top_active :: bool
  nd_announcement :: "AnnouncementDetails option"

definition no_data :: NotificationData where
  "no_data = \<lparr>nd_authed = [], nd_unauthed = [], nd_token_id = [], nd_quantity = [], nd_threshold = 0, nd_top_active = False,
     nd_announcement = None\<rparr>"

fun AnnouncementPlatform_UnmarshalGQL :: "any \<Rightarrow> (string, AnnouncementPlatform) outcome" where
  "AnnouncementPlatform_UnmarshalGQL (String_v n) =
     (if to_lower n = ''web'' then Ok AnnouncementPlatformWeb
      else if to_lower n = ''all'' then Ok AnnouncementPlatformAll
      else if to_lower n = ''mobile'' then Ok AnnouncementPlatformMobile
      else Err (''invalid announcement platform: '' @ n))"
| "AnnouncementPlatform_UnmarshalGQL _ = Err ''chain must be a string''"

fun AnnouncementPlatform_MarshalGQL :: "AnnouncementPlatform \<Rightarrow> (string, string) outcome" where
  "AnnouncementPlatform_MarshalGQL AnnouncementPlatformWeb = Ok ''Web''"
| "AnnouncementPlatform_MarshalGQL AnnouncementPlatformMobile = Ok ''Mobile''"
| "AnnouncementPlatform_MarshalGQL AnnouncementPlatformAll = Ok ''All''"
| "AnnouncementPlatform_MarshalGQL (AnnouncementPlatformOther s) = Panic ''invalid announcement platform''"

definition unique_ids :: "string list \<Rightarrow> string list" where
  "unique_ids ids = first_occurrences {} ids"

definition NotificationData_Validate :: "NotificationData \<Rightarrow> NotificationData" where
  "NotificationData_Validate n = n\<lparr>nd_authed := unique_ids (nd_authed n), nd_unauthed := unique_ids (nd_unauthed n)\<rparr>"

definition FirstNonEmptyString :: "string list \<Rightarrow> string" where
  "FirstNonEmptyString strs = (case find (\<lambda>s. s \<noteq> []) strs of Some s \<Rightarrow> s | None \<Rightarrow> [])"

definition NotificationData_Concat :: "NotificationData \<Rightarrow> NotificationData \<Rightarrow> NotificationData" where
  "NotificationData_Concat n other =
     NotificationData_Validate
       \<lparr>nd_authed = nd_authed other @ nd_authed n, nd_unauthed = nd_unauthed other @ nd_unauthed n,
        nd_token_id = FirstNonEmptyString [nd_token_id other, nd_token_id n],
        nd_quantity = HexString_Add (nd_quantity other) (nd_quantity n),
        nd_threshold = (case find (\<lambda>i. 0 < i) [nd_threshold other, nd_threshold n] of Some i \<Rightarrow> i | None \<Rightarrow> 0),
        nd_top_active = (nd_top_active other \<or> nd_top_active n),
        nd_announcement = (case nd_announcement other of Some d \<Rightarrow> Some d | None \<Rightarrow> nd_announcement n)\<rparr>"

text \<open>The JSON of the column \<open>data\<close>, without the fields that \<open>omitempty\<close> drops.\<close>

definition json_opt :: "bool \<Rightarrow> string \<Rightarrow> json \<Rightarrow> (string \<times> json) list" where
  "json_opt keep name v = (if keep then [(name, v)] else [])"

definition platform_text :: "AnnouncementPlatform \<Rightarrow> string" where
  "platform_text p = (case p of AnnouncementPlatformWeb \<Rightarrow> ''Web'' | AnnouncementPlatformMobile \<Rightarrow> ''Mobile''
     | AnnouncementPlatformAll \<Rightarrow> ''All'' | AnnouncementPlatformOther s \<Rightarrow> s)"

definition details_json :: "AnnouncementDetails \<Rightarrow> json" where
  "details_json d = JObject ([(''platform'', JString (platform_text (ad_platform d))), (''internal_id'', JString (ad_internal_id d))] @
     json_opt (ad_push_text d \<noteq> []) ''push_notification_text'' (JString (ad_push_text d)))"

definition data_fields :: "NotificationData \<Rightarrow> (string \<times> json) list" where
  "data_fields n =
     json_opt (nd_authed n \<noteq> []) ''viewer_ids'' (JArray (map JString (nd_authed n))) @
     json_opt (nd_unauthed n \<noteq> []) ''unauthed_viewer_ids'' (JArray (map JString (nd_unauthed n))) @
     json_opt (nd_token_id n \<noteq> []) ''new_token_id'' (JString (nd_token_id n)) @
     json_opt (nd_quantity n \<noteq> []) ''new_token_quantity'' (JString (nd_quantity n)) @
     json_opt (nd_threshold n \<noteq> 0) ''activity_badge_threshold'' (JNum (nd_threshold n)) @
     json_opt (nd_top_active n) ''new_top_active_user'' (JBool True) @
     (case nd_announcement n of Some d \<Rightarrow> [(''announcement_details'', details_json d)] | None \<Rightarrow> [])"

section \<open>The table\<close>

record notification =
  nt_id :: string
  nt_owner :: UserID
  nt_action :: Action
  nt_data :: NotificationData
  nt_event_ids :: "string list"
  nt_split :: string
  nt_seen :: bool
  nt_amount :: int
  nt_created :: int
  nt_updated :: int
  nt_deleted :: bool

text \<open>A message that a task will push to one token.\<close>

record push_message =
  pm_token :: string
  pm_body :: string
  pm_badge :: int
  pm_action :: Action
  pm_notification :: string

record notif_state =
  ns_rows :: "notification list"
  ns_new :: "notification list"
  ns_changed :: "notification list"
  ns_push :: "push_message list"

record notif_env =
  ne_now :: int
  ne_new_id :: string
  ne_splits :: "string list"
  ne_db :: tables
  ne_tokens :: "UserID \<Rightarrow> string list"
  ne_allowed :: "string \<Rightarrow> string \<Rightarrow> bool"
  ne_publish :: "(string, unit) outcome"
  ne_unescape :: "string \<Rightarrow> string"
  ne_seen :: "notification list \<Rightarrow> (string, notification list) outcome"

definition CountUserUnseenNotifications :: "UserID \<Rightarrow> notification list \<Rightarrow> int" where
  "CountUserUnseenNotifications owner rows =
     int (length (filter (\<lambda>n. nt_owner n = owner \<and> \<not> nt_deleted n \<and> \<not> nt_seen n) rows))"

definition GetNotificationsByOwnerIDForActionAfter :: "UserID \<Rightarrow> Action \<Rightarrow> int \<Rightarrow> notification list \<Rightarrow> notification list" where
  "GetNotificationsByOwnerIDForActionAfter owner action createdAfter rows =
     sort_key (\<lambda>n. - nt_created n)
       (filter (\<lambda>n. nt_owner n = owner \<and> nt_action n = action \<and> \<not> nt_deleted n \<and> createdAfter < nt_created n) rows)"

definition GetMostRecentNotificationByOwnerIDForAction :: "UserID \<Rightarrow> Action \<Rightarrow> notification list \<Rightarrow> notification option" where
  "GetMostRecentNotificationByOwnerIDForAction owner action rows =
     (case sort_key (\<lambda>n. - nt_created n)
        (filter (\<lambda>n. nt_owner n = owner \<and> nt_action n = action \<and> \<not> nt_deleted n) rows) of
        n # _ \<Rightarrow> Some n | [] \<Rightarrow> None)"

definition GetNotificationByID :: "string \<Rightarrow> notification list \<Rightarrow> notification option" where
  "GetNotificationByID i rows = find (\<lambda>n. nt_id n = i \<and> \<not> nt_deleted n) rows"

definition ClearNotificationsForUser :: "UserID \<Rightarrow> notification list \<Rightarrow> notification list" where
  "ClearNotificationsForUser owner rows = map (\<lambda>n. if nt_owner n = owner then n\<lparr>nt_seen := True\<rparr> else n) rows"

text \<open>The columns not named get their defaults: unseen, amount 1. The split must exist.\<close>

definition CreateViewSplitNotification ::
  "notif_env \<Rightarrow> notification \<Rightarrow> notification list \<Rightarrow> (string, notification \<times> notification list) outcome" where
  "CreateViewSplitNotification env n rows =
     (if ne_new_id env \<in> nt_id ` set rows then Err ''notifications_pkey''
      else if nt_split n \<notin> set (ne_splits env) then Err ''notifications_split_id_fkey''
      else let row = n\<lparr>nt_id := ne_new_id env, nt_seen := False, nt_amount := 1, nt_created := ne_now env,
                       nt_updated := ne_now env, nt_deleted := False\<rparr>
        in Ok (row, rows @ [row]))"

text \<open>No change where the amount stays the same: \<open>AND NOT amount = $4\<close>.\<close>

definition UpdateNotification ::
  "int \<Rightarrow> string \<Rightarrow> NotificationData \<Rightarrow> int \<Rightarrow> string list \<Rightarrow> notification list \<Rightarrow> notification list" where
  "UpdateNotification now i d amount eventIds rows =
     map (\<lambda>n. if nt_id n = i \<and> \<not> nt_deleted n \<and> nt_amount n \<noteq> amount
              then n\<lparr>nt_data := d, nt_event_ids := nt_event_ids n @ eventIds, nt_amount := amount, nt_updated := now, nt_seen := False\<rparr>
              else n) rows"
section \<open>Push messages\<close>

datatype push_error = RateLimited string string | PushFailed string

record UserFacingNotificationData =
  uf_actor :: string
  uf_action :: string
  uf_collection :: string
  uf_preview :: string

definition UserFacing_String :: "notif_env \<Rightarrow> UserFacingNotificationData \<Rightarrow> string" where
  "UserFacing_String env u =
     (let cur = uf_actor u @ '' '' @ uf_action u;
          cur1 = (if uf_collection u \<noteq> [] then cur @ '' '' @ uf_collection u else cur);
          cur2 = (if uf_preview u \<noteq> [] then cur1 @ '': '' @ uf_preview u else cur1)
      in ne_unescape env cur2)"

definition NotificationToUserFacingData ::
  "notif_env \<Rightarrow> notification \<Rightarrow> (string, UserFacingNotificationData) outcome" where
  "NotificationToUserFacingData env n =
     (let d = nt_data n; viewers = length (nd_authed d) + length (nd_unauthed d);
          facing = (\<lambda>actor action. \<lparr>uf_actor = actor, uf_action = action, uf_collection = [], uf_preview = []\<rparr>) in
      if nt_action n = ActionViewedSplit then
        (if viewers > 1 then Ok (facing (itoa (int viewers) @ '' collectors'') ''viewed your split'')
         else case nd_authed d of
             [v] \<Rightarrow> (case GetUserById v (ne_db env) of
                 None \<Rightarrow> Err (''failed to get user for viewer '' @ v)
               | Some u \<Rightarrow> Ok (facing (case us_username u of Some s \<Rightarrow> s | None \<Rightarrow> []) ''viewed your split''))
           | _ \<Rightarrow> if length (nd_unauthed d) = 1 then Ok (facing ''Someone'' ''viewed your split'') else Err ''no viewer ids'')
      else if nt_action n = ActionTopActivityBadgeReceived
      then Ok (facing ''You'' ''received a new badge for being amongst the top active users on SplitFi this week!'')
      else if nt_action n = ActionAnnouncement
      then (case nd_announcement d of
              Some a \<Rightarrow> Ok (facing [] (ad_push_text a))
            | None \<Rightarrow> Panic ''nil pointer dereference'')
      else Err (''unknown action '' @ nt_action n))"

definition tryTokens :: "notif_env \<Rightarrow> string \<Rightarrow> string \<Rightarrow> (push_error, unit) outcome" where
  "tryTokens env sender tokenID =
     (if ne_allowed env ''tokens'' (sender @ '':'' @ tokenID) then Ok () else Err (RateLimited ''tokens'' sender))"

definition tryUsers :: "notif_env \<Rightarrow> string \<Rightarrow> (push_error, unit) outcome" where
  "tryUsers env sender = (if ne_allowed env ''users'' sender then Ok () else Err (RateLimited ''users'' sender))"

definition createPushMessage :: "notif_env \<Rightarrow> notification \<Rightarrow> notification list \<Rightarrow> (push_error, push_message) outcome" where
  "createPushMessage env n rows =
     bind_o (map_err PushFailed (NotificationToUserFacingData env n)) (\<lambda>userFacing.
       let message = \<lparr>pm_token = [], pm_body = UserFacing_String env userFacing,
                      pm_badge = CountUserUnseenNotifications (nt_owner n) rows,
                      pm_action = nt_action n, pm_notification = nt_id n\<rparr> in
       if nt_action n = ActionNewTokensReceived then map_o (\<lambda>_. message) (tryTokens env (nt_owner n) (nd_token_id (nt_data n)))
       else if nt_action n = ActionTopActivityBadgeReceived then map_o (\<lambda>_. message) (tryUsers env (nt_owner n))
       else if nt_action n = ActionAnnouncement then Ok message
       else Err (PushFailed (''unsupported notification action: '' @ nt_action n)))"

definition actionSupportsPushNotifications :: "Action \<Rightarrow> bool" where
  "actionSupportsPushNotifications action = (action \<in> {ActionUserFollowedUsers, ActionNewTokensReceived, ActionAnnouncement})"

definition sendPushNotifications :: "notif_env \<Rightarrow> notification \<Rightarrow> notif_state \<Rightarrow> (string, notif_state) outcome" where
  "sendPushNotifications env n st =
     (if \<not> actionSupportsPushNotifications (nt_action n) \<or> ne_tokens env (nt_owner n) = [] then Ok st
      else case createPushMessage env n (ns_rows st) of
          Ok m \<Rightarrow> Ok (st\<lparr>ns_push := ns_push st @ map (\<lambda>t. m\<lparr>pm_token := t\<rparr>) (ne_tokens env (nt_owner n))\<rparr>)
        | Err (RateLimited _ _) \<Rightarrow> Ok st
        | Err (PushFailed e) \<Rightarrow> Err (''couldn't create push message: '' @ e)
        | Panic p \<Rightarrow> Panic p)"

section \<open>Writing and publishing\<close>

text \<open>An error of the push messages is reported and dropped.\<close>

definition push_or_log :: "notif_env \<Rightarrow> notification \<Rightarrow> notif_state \<Rightarrow> (string, notif_state) outcome" where
  "push_or_log env n st = (case sendPushNotifications env n st of Err _ \<Rightarrow> Ok st | r \<Rightarrow> r)"

definition sendNotifications :: "notif_env \<Rightarrow> notification \<Rightarrow> notif_state \<Rightarrow> (string, unit) outcome \<times> notif_state" where
  "sendNotifications env n st =
     (case push_or_log env n st of
        Ok st1 \<Rightarrow>
          (case ne_publish env of
             Ok _ \<Rightarrow> (Ok (), st1\<lparr>ns_new := ns_new st1 @ [n]\<rparr>)
           | Err e \<Rightarrow> (Err (''failed to publish new notification: '' @ e), st1)
           | Panic p \<Rightarrow> (Panic p, st1))
      | Err e \<Rightarrow> (Err e, st)
      | Panic p \<Rightarrow> (Panic p, st))"

definition addNotification ::
  "notif_env \<Rightarrow> notification \<Rightarrow> notification list \<Rightarrow> (string, notification \<times> notification list) outcome" where
  "addNotification env n rows =
     (if nt_action n = ActionViewedSplit then CreateViewSplitNotification env n rows
      else Err (''unknown notification action: '' @ nt_action n))"

definition insertAndPublishNotif :: "notif_env \<Rightarrow> notification \<Rightarrow> notif_state \<Rightarrow> (string, unit) outcome \<times> notif_state" where
  "insertAndPublishNotif env n st =
     (case addNotification env n (ns_rows st) of
        Ok (newNotif, rows) \<Rightarrow> sendNotifications env newNotif (st\<lparr>ns_rows := rows\<rparr>)
      | Err e \<Rightarrow> (Err (''failed to create notification: '' @ e), st)
      | Panic p \<Rightarrow> (Panic p, st))"

definition updated_amount :: "notification \<Rightarrow> notification \<Rightarrow> NotificationData \<Rightarrow> int" where
  "updated_amount n recent d =
     (if nt_action n = ActionViewedSplit then int32_of (int (length (nd_authed d) + length (nd_unauthed d)))
      else if nt_action n = ActionNewTokensReceived then int32_of (HexString_BigInt (nd_quantity d) mod 2 ^ 64)
      else int32_of (nt_amount recent + nt_amount n))"

definition updateAndPublishNotif ::
  "notif_env \<Rightarrow> notification \<Rightarrow> notification \<Rightarrow> notif_state \<Rightarrow> (string, unit) outcome \<times> notif_state" where
  "updateAndPublishNotif env n recent st =
     (let resultData = NotificationData_Concat (nt_data recent) (nt_data n);
          rows = UpdateNotification (ne_now env) (nt_id recent) resultData (updated_amount n recent resultData) (nt_event_ids n)
                   (ns_rows st)
      in case push_or_log env n (st\<lparr>ns_rows := rows\<rparr>) of
          Ok st1 \<Rightarrow>
            (case GetNotificationByID (nt_id recent) (ns_rows st1) of
               None \<Rightarrow> (Err ''error getting updated notification'', st1)
             | Some updatedNotif \<Rightarrow>
                 (case ne_publish env of
                    Ok _ \<Rightarrow> (Ok (), st1\<lparr>ns_changed := ns_changed st1 @ [updatedNotif]\<rparr>)
                  | Err e \<Rightarrow> (Err (''error publishing updated notification: '' @ e), st1)
                  | Panic p \<Rightarrow> (Panic p, st1)))
        | Err e \<Rightarrow> (Err e, st\<lparr>ns_rows := rows\<rparr>)
        | Panic p \<Rightarrow> (Panic p, st\<lparr>ns_rows := rows\<rparr>))"

section \<open>Handlers\<close>

definition viewWindow :: int where "viewWindow = 24 * 3600 * 1000000000"

definition groupedWindow :: int where "groupedWindow = 600 * 1000000000"

text \<open>
  \<open>beginningOfWeek\<close>: the day of the month in Pacific time, less the weekday in the zone of the
  server; \<open>server\<close> and \<open>pacific\<close> give the seconds east of Greenwich at an instant, \<open>pacific_at\<close> those of a Pacific
  midnight. Days count from 1970-01-01, a Thursday.
\<close>

definition local_day :: "(int \<Rightarrow> int) \<Rightarrow> int \<Rightarrow> int" where
  "local_day zone t = (t div 1000000000 + zone t) div 86400"

definition weekday :: "int \<Rightarrow> int" where "weekday day = (day + 4) mod 7"

definition beginningOfWeek :: "(int \<Rightarrow> int) \<Rightarrow> (int \<Rightarrow> int) \<Rightarrow> (int \<Rightarrow> int) \<Rightarrow> int \<Rightarrow> int" where
  "beginningOfWeek server pacific pacific_at t =
     (let newD = local_day pacific t - weekday (local_day server t)
      in (newD * 86400 - pacific_at newD) * 1000000000)"

definition singleNotificationHandler_Handle ::
  "notif_env \<Rightarrow> notification \<Rightarrow> notif_state \<Rightarrow> (string, unit) outcome \<times> notif_state" where
  "singleNotificationHandler_Handle = insertAndPublishNotif"

definition ownerGroupedNotificationHandler_Handle ::
  "notif_env \<Rightarrow> notification \<Rightarrow> notif_state \<Rightarrow> (string, unit) outcome \<times> notif_state" where
  "ownerGroupedNotificationHandler_Handle env n st =
     (case (case ne_seen env (ns_rows st) of
              Ok rows \<Rightarrow> GetMostRecentNotificationByOwnerIDForAction (nt_owner n) (nt_action n) rows
            | _ \<Rightarrow> None) of
        Some cur \<Rightarrow>
          if ne_now env - nt_created cur < groupedWindow then updateAndPublishNotif env n cur st
          else insertAndPublishNotif env n st
      | None \<Rightarrow> insertAndPublishNotif env n st)"

text \<open>The viewers that none of this week's notifications has.\<close>

definition new_viewers :: "notification list \<Rightarrow> NotificationData \<Rightarrow> NotificationData" where
  "new_viewers notifs d =
     d\<lparr>nd_unauthed := filter (\<lambda>i. \<not> list_ex (\<lambda>n. i \<in> set (nd_unauthed (nt_data n))) notifs) (nd_unauthed d),
       nd_authed := filter (\<lambda>i. \<not> list_ex (\<lambda>n. i \<in> set (nd_authed (nt_data n))) notifs) (nd_authed d)\<rparr>"

text \<open>What \<open>notifs, _ :=\<close> leaves in \<open>notifs\<close>: no notification when the query fails.\<close>

definition views_this_week :: "int \<Rightarrow> notif_env \<Rightarrow> notification \<Rightarrow> notification list \<Rightarrow> notification list" where
  "views_this_week week env n rows =
     (case ne_seen env rows of
        Ok seen \<Rightarrow> GetNotificationsByOwnerIDForActionAfter (nt_owner n) (nt_action n) week seen
      | _ \<Rightarrow> [])"

definition viewedNotificationHandler_Handle ::
  "int \<Rightarrow> notif_env \<Rightarrow> notification \<Rightarrow> notif_state \<Rightarrow> (string, unit) outcome \<times> notif_state" where
  "viewedNotificationHandler_Handle week env n st =
     (case views_this_week week env n (ns_rows st) of
        [] \<Rightarrow> insertAndPublishNotif env n st
      | mostRecent # rest \<Rightarrow>
          let n1 = n\<lparr>nt_data := new_viewers (mostRecent # rest) (nt_data n)\<rparr> in
          if ne_now env - nt_created mostRecent < viewWindow then updateAndPublishNotif env n1 mostRecent st
          else insertAndPublishNotif env n1 st)"

text \<open>
  \<open>CreateAnnouncementNotifications\<close>: the sorted new IDs are joined to the users by row number; a
  user who has a notification whose data has the internal ID at its top level gets none.
\<close>

definition CreateAnnouncementNotifications ::
  "notif_env \<Rightarrow> string list \<Rightarrow> notification \<Rightarrow> string \<Rightarrow> notification list \<Rightarrow> notification list \<times> notification list" where
  "CreateAnnouncementNotifications env ids n internal rows =
     (let owners = map us_id (filter (\<lambda>u. \<not> us_deleted u \<and> \<not> us_universal u) (tb_users (ne_db env)));
          has = (\<lambda>u. list_ex (\<lambda>r. nt_owner r = u \<and> json_field ''internal_id'' (data_fields (nt_data r)) = Some (JString internal)) rows);
          new = map (\<lambda>(i, u). n\<lparr>nt_id := i, nt_owner := u, nt_split := [], nt_seen := False, nt_amount := 1,
                                 nt_created := ne_now env, nt_updated := ne_now env, nt_deleted := False\<rparr>)
                  (filter (\<lambda>(i, u). \<not> has u) (zip (sort ids) owners))
      in (new, rows @ new))"

definition CountAllUsers :: "tables \<Rightarrow> nat" where
  "CountAllUsers db = length (filter (\<lambda>u. \<not> us_deleted u \<and> \<not> us_universal u) (tb_users db))"

definition addGlobalNotifications ::
  "notif_env \<Rightarrow> (nat \<Rightarrow> string) \<Rightarrow> notification \<Rightarrow> notification list \<Rightarrow> (string, notification list \<times> notification list) outcome" where
  "addGlobalNotifications env newID n rows =
     (case nd_announcement (nt_data n) of
        None \<Rightarrow> Panic ''nil pointer dereference''
      | Some d \<Rightarrow> Ok (CreateAnnouncementNotifications env (map newID [0..<CountAllUsers (ne_db env)]) n (ad_internal_id d) rows))"

text \<open>The pool's goroutines send in some order; nobody waits for them or looks at their errors.\<close>

fun send_all :: "notif_env \<Rightarrow> notification list \<Rightarrow> notif_state \<Rightarrow> notif_state" where
  "send_all env [] st = st"
| "send_all env (n # ns) st = send_all env ns (snd (sendNotifications env n st))"

definition insertAndPublishAnnouncementNotifs ::
  "notif_env \<Rightarrow> (nat \<Rightarrow> string) \<Rightarrow> notification \<Rightarrow> notif_state \<Rightarrow> (string, unit) outcome \<times> notif_state" where
  "insertAndPublishAnnouncementNotifs env newID n st =
     (case addGlobalNotifications env newID n (ns_rows st) of
        Ok (notifs, rows) \<Rightarrow>
          let st1 = st\<lparr>ns_rows := rows\<rparr> in
          (case nd_announcement (nt_data n) of
             Some d \<Rightarrow>
               if (ad_platform d = AnnouncementPlatformAll \<or> ad_platform d = AnnouncementPlatformMobile) \<and> ad_push_text d \<noteq> []
               then (Ok (), send_all env notifs st1) else (Ok (), st1)
           | None \<Rightarrow> (Panic ''nil pointer dereference'', st1))
      | Err e \<Rightarrow> (Err (''failed to create notification: '' @ e), st)
      | Panic p \<Rightarrow> (Panic p, st))"

text \<open>\<open>Dispatch\<close> with the handlers that \<open>New\<close> registers; an action without one is only logged.\<close>

definition Dispatch ::
  "int \<Rightarrow> notif_env \<Rightarrow> (nat \<Rightarrow> string) \<Rightarrow> notification \<Rightarrow> notif_state \<Rightarrow> (string, unit) outcome \<times> notif_state" where
  "Dispatch week env newID n st =
     (if nt_action n = ActionViewedSplit then viewedNotificationHandler_Handle week env n st
      else if nt_action n = ActionAnnouncement then insertAndPublishAnnouncementNotifs env newID n st
      else (Ok (), st))"

end
