(* ===== verification/Events.thy ===== *)
theory Events
  imports Notifications Validate
begin

text \<open>
  Events and the notifications they cause: event/event.go with its senders and dispatchers,
  service/persist/postgres/event.go and the two queries that store an event. The handlers are those that
  \<open>AddTo\<close> registers: only delayed ones, for \<open>UserFollowedUsers\<close> and \<open>ViewedSplit\<close>.
\<close>

definition ResourceTypeUser :: int where "ResourceTypeUser = 0"
definition ResourceTypeToken :: int where "ResourceTypeToken = 1"
definition ResourceTypeCollection :: int where "ResourceTypeCollection = 2"
definition ResourceTypeSplit :: int where "ResourceTypeSplit = 3"
definition ResourceTypeAllUsers :: int where "ResourceTypeAllUsers = 4"

lemmas resource_defs = ResourceTypeUser_def ResourceTypeToken_def ResourceTypeCollection_def ResourceTypeSplit_def
  ResourceTypeAllUsers_def

record db_event =
  de_id :: string
  de_actor :: "string option"
  de_resource :: int
  de_subject :: string
  de_user :: string
  de_action :: Action
  de_split :: string
  de_external :: "string option"
  de_caption :: "string option"
  de_group :: "string option"

definition NullStrToStr :: "string option \<Rightarrow> string" where
  "NullStrToStr s = (case s of Some x \<Rightarrow> x | None \<Rightarrow> [])"

definition StrPtrToNullStr :: "string option \<Rightarrow> string option" where
  "StrPtrToNullStr s = s"

text \<open>A valid string, also for the empty ID.\<close>

definition DBIDToNullStr :: "string \<Rightarrow> string option" where
  "DBIDToNullStr i = Some i"

section \<open>Storing events\<close>

record event_state =
  es_events :: "db_event list"
  es_notif :: notif_state

text \<open>Both statements put one ID into the resource's own column and into \<open>subject_id\<close>.\<close>

definition CreateUserEvent :: "string \<Rightarrow> db_event \<Rightarrow> db_event" where
  "CreateUserEvent newID e =
     e\<lparr>de_id := newID, de_user := de_subject e, de_split := [], de_external := None\<rparr>"

definition CreateSplitEvent :: "string \<Rightarrow> db_event \<Rightarrow> db_event" where
  "CreateSplitEvent newID e =
     e\<lparr>de_id := newID, de_subject := de_split e, de_user := []\<rparr>"

definition insert_event :: "db_event \<Rightarrow> db_event list \<Rightarrow> (string, db_event \<times> db_event list) outcome" where
  "insert_event e es = (if de_id e \<in> de_id ` set es then Err ''events_pkey'' else Ok (e, es @ [e]))"

definition EventRepository_Add :: "string \<Rightarrow> db_event \<Rightarrow> db_event list \<Rightarrow> (string, db_event \<times> db_event list) outcome" where
  "EventRepository_Add newID e es =
     (if de_resource e = ResourceTypeUser then insert_event (CreateUserEvent newID e) es
      else if de_resource e = ResourceTypeSplit then insert_event (CreateSplitEvent newID e) es
      else Err (''unknown resource type: '' @ itoa (de_resource e)))"

section \<open>From an event to a notification\<close>

definition findOwnerForNotificationFromEvent :: "db_event \<Rightarrow> (string, UserID) outcome" where
  "findOwnerForNotificationFromEvent e =
     (if de_resource e = ResourceTypeSplit then Ok ''1''
      else if de_resource e = ResourceTypeUser then Ok (de_subject e)
      else if de_resource e = ResourceTypeToken then Ok (NullStrToStr (de_actor e))
      else Err (''no owner found for event: '' @ de_action e))"

definition createNotificationDataForEvent :: "db_event \<Rightarrow> NotificationData" where
  "createNotificationDataForEvent e =
     (if de_action e = ActionViewedSplit
      then no_data\<lparr>nd_authed := (if NullStrToStr (de_actor e) \<noteq> [] then [NullStrToStr (de_actor e)] else []),
                   nd_unauthed := (if NullStrToStr (de_external e) \<noteq> [] then [NullStrToStr (de_external e)] else [])\<rparr>
      else no_data)"

definition notification_for :: "UserID \<Rightarrow> db_event \<Rightarrow> notification" where
  "notification_for owner e =
     \<lparr>nt_id = [], nt_owner = owner, nt_action = de_action e, nt_data = createNotificationDataForEvent e,
      nt_event_ids = [de_id e], nt_split = de_split e, nt_seen = False, nt_amount = 0, nt_created = 0, nt_updated = 0,
      nt_deleted = False\<rparr>"

definition notificationHandler_handleDelayed ::
  "int \<Rightarrow> notif_env \<Rightarrow> (nat \<Rightarrow> string) \<Rightarrow> db_event \<Rightarrow> notif_state \<Rightarrow> (string, unit) outcome \<times> notif_state" where
  "notificationHandler_handleDelayed week env newID e st =
     (case findOwnerForNotificationFromEvent e of
        Err x \<Rightarrow> (Err x, st)
      | Panic p \<Rightarrow> (Panic p, st)
      | Ok owner \<Rightarrow>
          if owner = [] \<or> NullStrToStr (de_actor e) = owner then (Ok (), st)
          else if de_action e = ActionViewedSplit \<and> NullStrToStr (de_actor e) = [] then (Ok (), st)
          else Dispatch week env newID (notification_for owner e) st)"

definition registered_delayed :: "Action list" where
  "registered_delayed = [ActionUserFollowedUsers, ActionViewedSplit]"

text \<open>\<open>dispatchDelayed\<close>, which \<open>PushEvent\<close> runs and whose error it reports.\<close>

definition dispatchDelayed ::
  "int \<Rightarrow> notif_env \<Rightarrow> string \<Rightarrow> (nat \<Rightarrow> string) \<Rightarrow> db_event \<Rightarrow> event_state \<Rightarrow> (string, unit) outcome \<times> event_state" where
  "dispatchDelayed week env eventID newID e st =
     (if EventValidator (de_action e) \<noteq> [] then (Err ''Action: required'', st)
      else if de_action e \<notin> set registered_delayed then (Ok (), st)
      else case EventRepository_Add eventID e (es_events st) of
          Err x \<Rightarrow> (Err x, st)
        | Panic p \<Rightarrow> (Panic p, st)
        | Ok (persisted, es) \<Rightarrow>
            (case notificationHandler_handleDelayed week env newID persisted (es_notif st) of
               (r, ns) \<Rightarrow> (r, st\<lparr>es_events := es, es_notif := ns\<rparr>)))"

text \<open>\<open>DispatchMany\<close> gives all events one group and pushes each in a goroutine; an order is an argument.\<close>

definition DispatchMany_events :: "db_event list \<Rightarrow> string option \<Rightarrow> db_event list" where
  "DispatchMany_events evts editID = map (\<lambda>e. e\<lparr>de_group := StrPtrToNullStr editID\<rparr>) evts"

text \<open>
  \<open>DispatchCaptioned\<close>: with a caption the event goes to the immediate handlers, of which there are none,
  so that it is dropped before it is stored.
\<close>

definition DispatchCaptioned ::
  "int \<Rightarrow> notif_env \<Rightarrow> string \<Rightarrow> (nat \<Rightarrow> string) \<Rightarrow> db_event \<Rightarrow> string option \<Rightarrow> event_state \<Rightarrow> (string, unit) outcome \<times> event_state" where
  "DispatchCaptioned week env eventID newID e caption st =
     (case caption of
        Some c \<Rightarrow> if EventValidator (de_action e) \<noteq> [] then (Err ''Action: required'', st) else (Ok (), st)
      | None \<Rightarrow> (Ok (), snd (dispatchDelayed week env eventID newID e st)))"

end
