(* ===== verification/Notif_Props.thy ===== *)
theory Notif_Props
  imports Events
begin

text \<open>Who is notified of what, and how often, by the events of split views and by announcements.\<close>

section \<open>Publishing changes no rows\<close>

lemma push_or_log_rows: "push_or_log env n st = Ok st' \<Longrightarrow> ns_rows st' = ns_rows st"
  by (auto simp: push_or_log_def sendPushNotifications_def split: outcome.splits push_error.splits if_splits)

lemma sendNotifications_rows [simp]: "ns_rows (snd (sendNotifications env n st)) = ns_rows st"
  by (auto simp: sendNotifications_def push_or_log_rows split: outcome.splits)

lemma insertAndPublish_rows:
  "ns_rows (snd (insertAndPublishNotif env n st)) =
     (case addNotification env n (ns_rows st) of Ok (m, rows) \<Rightarrow> rows | _ \<Rightarrow> ns_rows st)"
  by (auto simp: insertAndPublishNotif_def split: outcome.splits)

lemma updateAndPublish_rows:
  "ns_rows (snd (updateAndPublishNotif env n recent st)) =
     (let d = NotificationData_Concat (nt_data recent) (nt_data n)
      in UpdateNotification (ne_now env) (nt_id recent) d (updated_amount n recent d) (nt_event_ids n) (ns_rows st))"
proof -
  let ?d = "NotificationData_Concat (nt_data recent) (nt_data n)"
  let ?st = "st\<lparr>ns_rows := UpdateNotification (ne_now env) (nt_id recent) ?d (updated_amount n recent ?d) (nt_event_ids n) (ns_rows st)\<rparr>"
  show ?thesis
  proof (cases "push_or_log env n ?st")
    case (Ok s)
    then have "ns_rows s = ns_rows ?st" by (rule push_or_log_rows)
    then show ?thesis using Ok
      by (cases "GetNotificationByID (nt_id recent) (ns_rows s)"; cases "ne_publish env")
        (simp_all add: updateAndPublishNotif_def Let_def)
  qed (simp_all add: updateAndPublishNotif_def Let_def)
qed

section \<open>Each viewer once a week\<close>

definition shows_view :: "int \<Rightarrow> notification \<Rightarrow> bool" where
  "shows_view w n = (nt_action n = ActionViewedSplit \<and> \<not> nt_deleted n \<and> w < nt_created n)"

text \<open>The viewers of a notification: users by their IDs, others by the IDs that the client gave them.\<close>

definition viewers :: "NotificationData \<Rightarrow> (UserID + string) set" where
  "viewers d = Inl ` set (nd_authed d) \<union> Inr ` set (nd_unauthed d)"

definition once :: "NotificationData \<Rightarrow> bool" where
  "once d = (distinct (nd_authed d) \<and> distinct (nd_unauthed d))"

definition viewers_once :: "int \<Rightarrow> (UserID + string) set \<Rightarrow> notification list \<Rightarrow> bool" where
  "viewers_once w slipped rows =
     (distinct (map nt_id rows) \<and> (\<forall>n\<in>set rows. shows_view w n \<longrightarrow> once (nt_data n)) \<and>
      (\<forall>n\<in>set rows. \<forall>m\<in>set rows. shows_view w n \<longrightarrow> shows_view w m \<longrightarrow> nt_owner n = nt_owner m \<longrightarrow> nt_id n \<noteq> nt_id m \<longrightarrow>
         viewers (nt_data n) \<inter> viewers (nt_data m) \<subseteq> slipped))"

lemma viewers_onceD:
  assumes "viewers_once w S rows" "n \<in> set rows" "shows_view w n"
  shows "once (nt_data n)"
    "m \<in> set rows \<Longrightarrow> shows_view w m \<Longrightarrow> nt_owner n = nt_owner m \<Longrightarrow> nt_id n \<noteq> nt_id m \<Longrightarrow>
       viewers (nt_data n) \<inter> viewers (nt_data m) \<subseteq> S"
  using assms by (simp_all add: viewers_once_def)

lemma shows_view_mono: "shows_view w' n \<Longrightarrow> w \<le> w' \<Longrightarrow> shows_view w n"
  by (simp add: shows_view_def)

lemma viewers_once_mono: "viewers_once w S rows \<Longrightarrow> w \<le> w' \<Longrightarrow> S \<subseteq> S' \<Longrightarrow> viewers_once w' S' rows"
  unfolding viewers_once_def using shows_view_mono by blast

text \<open>The rows that a view of the owner is compared with.\<close>

lemma set_after:
  "set (GetNotificationsByOwnerIDForActionAfter o' ActionViewedSplit w rows) =
     {n \<in> set rows. nt_owner n = o' \<and> shows_view w n}"
  by (auto simp: GetNotificationsByOwnerIDForActionAfter_def shows_view_def)

text \<open>New viewers that no other notification of the owner shows, but for those that slipped through.\<close>

definition fresh_for :: "int \<Rightarrow> (UserID + string) set \<Rightarrow> UserID \<Rightarrow> (UserID + string) set \<Rightarrow> notification list \<Rightarrow> bool" where
  "fresh_for w slipped o' vs rows =
     (\<forall>m\<in>set rows. nt_owner m = o' \<longrightarrow> shows_view w m \<longrightarrow> vs \<inter> viewers (nt_data m) \<subseteq> slipped)"

lemma fresh_forD: "fresh_for w S o' vs rows \<Longrightarrow> m \<in> set rows \<Longrightarrow> nt_owner m = o' \<Longrightarrow> shows_view w m \<Longrightarrow> vs \<inter> viewers (nt_data m) \<subseteq> S"
  by (simp add: fresh_for_def)

lemma fresh_slipped: "vs \<subseteq> S \<Longrightarrow> fresh_for w S o' vs rows"
  by (auto simp: fresh_for_def)

lemma new_viewers_fresh:
  assumes "w' \<le> w"
  shows "fresh_for w S o' (viewers (new_viewers (GetNotificationsByOwnerIDForActionAfter o' ActionViewedSplit w' rows) d)) rows"
proof -
  have "viewers (new_viewers (GetNotificationsByOwnerIDForActionAfter o' ActionViewedSplit w' rows) d) \<inter> viewers (nt_data m) = {}"
    if "m \<in> set rows" "nt_owner m = o'" "shows_view w' m" for m
    using that by (auto simp: viewers_def new_viewers_def list_ex_iff set_after)
  then show ?thesis using shows_view_mono [OF _ assms] unfolding fresh_for_def by blast
qed

lemma new_viewers_sub: "viewers (new_viewers ns d) \<subseteq> viewers d" "once d \<Longrightarrow> once (new_viewers ns d)"
  by (auto simp: viewers_def new_viewers_def once_def)

lemma insert_once:
  assumes inv: "viewers_once w S rows" and act: "nt_action n = ActionViewedSplit" and ok: "once (nt_data n)"
    and fresh: "fresh_for w S (nt_owner n) (viewers (nt_data n)) rows"
  shows "viewers_once w S (ns_rows (snd (insertAndPublishNotif env n (st\<lparr>ns_rows := rows\<rparr>))))"
proof (cases "addNotification env n rows")
  case (Ok x)
  define row where "row = n\<lparr>nt_id := ne_new_id env, nt_seen := False, nt_amount := 1, nt_created := ne_now env,
                       nt_updated := ne_now env, nt_deleted := False\<rparr>"
  have new: "ne_new_id env \<notin> nt_id ` set rows" and x: "x = (row, rows @ [row])"
    using Ok act by (auto simp: addNotification_def CreateViewSplitNotification_def Let_def row_def split: if_splits)
  have r: "once (nt_data row)" "nt_owner row = nt_owner n" "nt_data row = nt_data n" "nt_id row = ne_new_id env"
    using ok by (simp_all add: row_def)
  have c: "viewers (nt_data row) \<inter> viewers (nt_data m) \<subseteq> S" "viewers (nt_data m) \<inter> viewers (nt_data row) \<subseteq> S"
    if "m \<in> set rows" "shows_view w m" "nt_owner row = nt_owner m" for m
    using fresh_forD [OF fresh that(1) _ that(2)] that(3) r by auto
  have "distinct (map nt_id (rows @ [row]))" using inv new r(4) by (simp add: viewers_once_def)
  moreover have "\<forall>k\<in>set (rows @ [row]). shows_view w k \<longrightarrow> once (nt_data k)"
    using viewers_onceD(1) [OF inv] r(1) by auto
  moreover have "viewers (nt_data k) \<inter> viewers (nt_data m) \<subseteq> S"
    if "k \<in> set (rows @ [row])" "m \<in> set (rows @ [row])" "shows_view w k" "shows_view w m" "nt_owner k = nt_owner m"
      "nt_id k \<noteq> nt_id m" for k m
  proof -
    have km: "k \<in> set rows \<or> k = row" "m \<in> set rows \<or> m = row" using that(1,2) by auto
    then consider "k \<in> set rows" "m \<in> set rows" | "k = row" "m \<in> set rows" | "k \<in> set rows" "m = row" | "k = row" "m = row"
      by blast
    then show ?thesis
    proof cases
      case 1
      then show ?thesis using viewers_onceD(2) [OF inv] that by blast
    next
      case 2
      then show ?thesis using c(1) that by simp
    next
      case 3
      then show ?thesis using c(2) [of k] that by simp
    next
      case 4
      then show ?thesis using that(6) by simp
    qed
  qed
  ultimately have "viewers_once w S (rows @ [row])" unfolding viewers_once_def by blast
  then show ?thesis by (simp add: insertAndPublish_rows Ok x)
qed (use inv in \<open>simp_all add: insertAndPublish_rows\<close>)

lemma set_unique_ids [simp]: "set (unique_ids xs) = set xs" "distinct (unique_ids xs)"
  by (simp_all add: unique_ids_def set_first_occurrences distinct_first_occurrences)

lemma Concat_viewers: "viewers (NotificationData_Concat a b) = viewers a \<union> viewers b" "once (NotificationData_Concat a b)"
  by (auto simp: NotificationData_Concat_def NotificationData_Validate_def viewers_def once_def)

text \<open>An update of a row by data that adds to the row's viewers only fresh ones.\<close>

lemma update_once:
  assumes inv: "viewers_once w S rows" and d: "once d"
    and fresh: "\<And>r. r \<in> set rows \<Longrightarrow> nt_id r = i \<Longrightarrow> shows_view w r \<Longrightarrow>
      \<exists>vs. viewers d \<subseteq> viewers (nt_data r) \<union> vs \<and> fresh_for w S (nt_owner r) vs rows"
  shows "viewers_once w S (UpdateNotification now i d amount ev rows)"
proof -
  define f where "f = (\<lambda>r::notification. if nt_id r = i \<and> \<not> nt_deleted r \<and> nt_amount r \<noteq> amount
    then r\<lparr>nt_data := d, nt_event_ids := nt_event_ids r @ ev, nt_amount := amount, nt_updated := now, nt_seen := False\<rparr> else r)"
  have f: "nt_id (f r) = nt_id r" "nt_owner (f r) = nt_owner r" "shows_view w (f r) = shows_view w r"
    "nt_data (f r) = nt_data r \<or> nt_id r = i \<and> nt_data (f r) = d" "nt_id r \<noteq> i \<Longrightarrow> f r = r" for r
    by (simp_all add: shows_view_def f_def)
  have "once (nt_data (f r))" if "r \<in> set rows" "shows_view w r" for r
    using viewers_onceD(1) [OF inv that] d f(4) [of r] by auto
  moreover have one: "viewers (nt_data (f r)) \<inter> viewers (nt_data q) \<subseteq> S"
    if "r \<in> set rows" "q \<in> set rows" "shows_view w r" "shows_view w q" "nt_owner r = nt_owner q" "nt_id r \<noteq> nt_id q" for r q
  proof -
    have old: "viewers (nt_data r) \<inter> viewers (nt_data q) \<subseteq> S" using viewers_onceD(2) [OF inv that(1,3,2,4,5,6)] .
    have new: "nt_id r = i \<Longrightarrow> \<exists>vs. viewers d \<subseteq> viewers (nt_data r) \<union> vs \<and> fresh_for w S (nt_owner r) vs rows"
      using fresh [OF that(1) _ that(3)] .
    from f(4) [of r] show ?thesis
    proof
      assume "nt_data (f r) = nt_data r"
      then show ?thesis using old by simp
    next
      assume u: "nt_id r = i \<and> nt_data (f r) = d"
      then obtain vs where vs: "viewers d \<subseteq> viewers (nt_data r) \<union> vs" "fresh_for w S (nt_owner r) vs rows"
        using new by blast
      have "vs \<inter> viewers (nt_data q) \<subseteq> S" using fresh_forD [OF vs(2) that(2) that(5) [symmetric] that(4)] .
      then show ?thesis using u vs(1) old by auto
    qed
  qed
  have "viewers (nt_data (f r)) \<inter> viewers (nt_data (f q)) \<subseteq> S"
    if "r \<in> set rows" "q \<in> set rows" "shows_view w r" "shows_view w q" "nt_owner r = nt_owner q" "nt_id r \<noteq> nt_id q" for r q
  proof (cases "nt_id q = i")
    case True
    then have "f r = r" using that(6) f(5) by simp
    moreover have "viewers (nt_data (f q)) \<inter> viewers (nt_data r) \<subseteq> S"
      using one [OF that(2,1,4,3) that(5) [symmetric] that(6) [symmetric]] .
    ultimately show ?thesis by (simp add: Int_commute)
  next
    case False
    then have "f q = q" by (rule f(5))
    then show ?thesis using one [OF that] by simp
  qed
  moreover have "distinct (map nt_id (map f rows))"
  proof -
    have "map nt_id (map f rows) = map nt_id rows" using f(1) by simp
    then show ?thesis using inv by (simp only: viewers_once_def)
  qed
  ultimately show ?thesis
    unfolding UpdateNotification_def f_def [symmetric] viewers_once_def using f(1-3) by (auto simp del: map_map)
qed

text \<open>
  The viewers whose views are not compared with what stands in the table: those of a view whose query failed or did
  not see the rows as they are, and of the notification that such a view is grouped into.
\<close>

definition let_through :: "int \<Rightarrow> notif_env \<Rightarrow> notification \<Rightarrow> notification list \<Rightarrow> (UserID + string) set" where
  "let_through week env n rows =
     (if ne_seen env rows = Ok rows then {}
      else viewers (nt_data n) \<union> (case views_this_week week env n rows of [] \<Rightarrow> {} | m # _ \<Rightarrow> viewers (nt_data m)))"

lemma view_once:
  assumes inv: "viewers_once w S (ns_rows st)" and act: "nt_action n = ActionViewedSplit" and ok: "once (nt_data n)"
    and w: "w' \<le> w" and S: "let_through w' env n (ns_rows st) \<subseteq> S"
  shows "viewers_once w S (ns_rows (snd (viewedNotificationHandler_Handle w' env n st)))"
proof -
  let ?seen = "views_this_week w' env n (ns_rows st)"
  let ?in_turn = "ne_seen env (ns_rows st) = Ok (ns_rows st)"
  have turn: "?seen = GetNotificationsByOwnerIDForActionAfter (nt_owner n) ActionViewedSplit w' (ns_rows st)" if ?in_turn
    using that act by (simp add: views_this_week_def)
  have slip: "viewers (nt_data n) \<subseteq> S" "?seen = m # rest \<Longrightarrow> viewers (nt_data m) \<subseteq> S" if "\<not> ?in_turn" for m rest
    using S that by (auto simp: let_through_def)
  have st: "st\<lparr>ns_rows := ns_rows st\<rparr> = st" by simp
  show ?thesis
  proof (cases ?seen)
    case Nil
    have "fresh_for w S (nt_owner n) (viewers (nt_data n)) (ns_rows st)"
    proof (cases ?in_turn)
      case True
      then have "{m \<in> set (ns_rows st). nt_owner m = nt_owner n \<and> shows_view w' m} = {}"
        using set_after [of "nt_owner n" w' "ns_rows st"] turn Nil by simp
      then show ?thesis unfolding fresh_for_def using shows_view_mono [OF _ w] by blast
    next
      case False
      then show ?thesis by (intro fresh_slipped slip(1))
    qed
    from insert_once [OF inv act ok this, of env st] show ?thesis
      using Nil by (simp add: viewedNotificationHandler_Handle_def)
  next
    case (Cons m rest)
    define k where "k = n\<lparr>nt_data := new_viewers ?seen (nt_data n)\<rparr>"
    have k: "nt_action k = ActionViewedSplit" "once (nt_data k)" "nt_owner k = nt_owner n" "viewers (nt_data k) \<subseteq> viewers (nt_data n)"
      using act ok new_viewers_sub by (simp_all add: k_def)
    have fresh: "fresh_for w S (nt_owner k) (viewers (nt_data k)) (ns_rows st)"
    proof (cases ?in_turn)
      case True
      then show ?thesis using new_viewers_fresh [OF w, of S "nt_owner n"] turn by (simp add: k_def)
    next
      case False
      then show ?thesis using slip(1) k(4) by (intro fresh_slipped) blast
    qed
    have up: "viewers_once w S (UpdateNotification now (nt_id m) (NotificationData_Concat (nt_data m) (nt_data k)) amount ev (ns_rows st))"
      for now amount ev
    proof (rule update_once [OF inv Concat_viewers(2)])
      fix r assume r: "r \<in> set (ns_rows st)" "nt_id r = nt_id m" "shows_view w r"
      show "\<exists>vs. viewers (NotificationData_Concat (nt_data m) (nt_data k)) \<subseteq> viewers (nt_data r) \<union> vs \<and>
          fresh_for w S (nt_owner r) vs (ns_rows st)"
      proof (cases ?in_turn)
        case True
        then have "m \<in> set (GetNotificationsByOwnerIDForActionAfter (nt_owner n) ActionViewedSplit w' (ns_rows st))"
          using turn Cons by (metis list.set_intros(1))
        then have m: "m \<in> set (ns_rows st)" "nt_owner m = nt_owner n" using set_after by auto
        have "r = m" using inv m(1) r(1,2) unfolding viewers_once_def distinct_map inj_on_def by blast
        then show ?thesis using fresh m(2) k(3) by (intro exI [of _ "viewers (nt_data k)"]) (simp add: Concat_viewers)
      next
        case False
        have "viewers (NotificationData_Concat (nt_data m) (nt_data k)) \<subseteq> S"
          using slip(1) [OF False] slip(2) [OF False Cons] k(4) by (auto simp: Concat_viewers)
        then show ?thesis by (intro exI [of _ S]) (auto simp: fresh_slipped)
      qed
    qed
    have "viewedNotificationHandler_Handle w' env n st =
        (if ne_now env - nt_created m < viewWindow then updateAndPublishNotif env k m st else insertAndPublishNotif env k st)"
      using Cons by (simp add: viewedNotificationHandler_Handle_def Let_def k_def)
    moreover have "viewers_once w S (ns_rows (snd (updateAndPublishNotif env k m st)))"
      unfolding updateAndPublish_rows Let_def by (rule up)
    moreover have "viewers_once w S (ns_rows (snd (insertAndPublishNotif env k st)))"
      using insert_once [OF inv k(1,2) fresh, of env st] by simp
    ultimately show ?thesis by simp
  qed
qed

text \<open>
  What an event lets through: all events of splits go to the user with the ID 1, those of users to their subject;
  the owner is that of \<open>findOwnerForNotificationFromEvent\<close> for the event as it is stored.
\<close>

definition slips :: "int \<Rightarrow> notif_env \<Rightarrow> string \<Rightarrow> db_event \<Rightarrow> event_state \<Rightarrow> (UserID + string) set" where
  "slips week env eventID e st =
     (case EventRepository_Add eventID e (es_events st) of
        Ok (p, es) \<Rightarrow>
          (case findOwnerForNotificationFromEvent p of
             Ok owner \<Rightarrow> let_through week env (notification_for owner p) (ns_rows (es_notif st))
           | _ \<Rightarrow> {})
      | _ \<Rightarrow> {})"

lemma event_once:
  assumes "viewers_once w S (ns_rows (es_notif st))" "dispatchDelayed w' env eventID newID e st = (r, st')"
    "w' \<le> w" "slips w' env eventID e st \<subseteq> S"
  shows "viewers_once w S (ns_rows (es_notif st'))"
proof (cases "EventValidator (de_action e) \<noteq> [] \<or> de_action e \<notin> set registered_delayed")
  case True
  then show ?thesis using assms by (auto simp: dispatchDelayed_def split: if_splits)
next
  case False
  show ?thesis
  proof (cases "EventRepository_Add eventID e (es_events st)")
    case (Ok x)
    obtain p es where x: "x = (p, es)" by (rule prod.exhaust)
    have act: "de_action p = de_action e" using Ok x
      by (auto simp: EventRepository_Add_def insert_event_def CreateUserEvent_def CreateSplitEvent_def split: if_splits)
    have "viewers_once w S (ns_rows (snd (notificationHandler_handleDelayed w' env newID p (es_notif st))))"
    proof (cases "de_action p = ActionViewedSplit")
      case True
      have "viewers_once w S (ns_rows (snd (viewedNotificationHandler_Handle w' env (notification_for owner p) (es_notif st))))"
        if "findOwnerForNotificationFromEvent p = Ok owner" for owner
      proof (rule view_once [OF assms(1) _ _ assms(3)])
        show "nt_action (notification_for owner p) = ActionViewedSplit" by (simp add: notification_for_def True)
        show "once (nt_data (notification_for owner p))"
          by (simp add: notification_for_def True once_def createNotificationDataForEvent_def)
        show "let_through w' env (notification_for owner p) (ns_rows (es_notif st)) \<subseteq> S"
          using assms(4) Ok x that by (simp add: slips_def)
      qed
      then show ?thesis using assms(1) True
        by (simp add: notificationHandler_handleDelayed_def Dispatch_def notification_for_def split: outcome.splits)
    next
      case other: False
      then have "de_action p \<noteq> ActionAnnouncement" using False act by (auto simp: registered_delayed_def action_defs)
      then show ?thesis using assms(1) other
        by (simp add: notificationHandler_handleDelayed_def Dispatch_def notification_for_def split: outcome.splits)
    qed
    then show ?thesis using assms(2) Ok x False by (auto simp: dispatchDelayed_def split: prod.splits)
  qed (use assms False in \<open>auto simp: dispatchDelayed_def\<close>)
qed

text \<open>
  Histories of events, each with the beginning of the week that it computes, which may be an earlier one than that of
  the event before, and with any query results. The first index is the latest beginning so far, the second holds the
  viewers that were let through. A dispatch whose insert or update fails leaves only its event. Users may clear their
  notifications in between.
\<close>

inductive event_reach :: "int \<Rightarrow> (UserID + string) set \<Rightarrow> event_state \<Rightarrow> bool" where
  start: "event_reach w {} \<lparr>es_events = [], es_notif = \<lparr>ns_rows = [], ns_new = [], ns_changed = [], ns_push = []\<rparr>\<rparr>"
| event: "event_reach w S st \<Longrightarrow> dispatchDelayed w' env eventID newID e st = (r, st') \<Longrightarrow>
    event_reach (max w w') (S \<union> slips w' env eventID e st) st'"
| unwritten: "event_reach w S st \<Longrightarrow> EventRepository_Add eventID e (es_events st) = Ok (p, es) \<Longrightarrow>
    event_reach (max w w') S (st\<lparr>es_events := es\<rparr>)"
| cleared: "event_reach w S st \<Longrightarrow>
    event_reach w S (st\<lparr>es_notif := (es_notif st)\<lparr>ns_rows := ClearNotificationsForUser owner (ns_rows (es_notif st))\<rparr>\<rparr>)"

lemma clear_once: "viewers_once w S rows \<Longrightarrow> viewers_once w S (ClearNotificationsForUser owner rows)"
proof -
  define f where "f = (\<lambda>n::notification. if nt_owner n = owner then n\<lparr>nt_seen := True\<rparr> else n)"
  have f: "nt_id (f n) = nt_id n" "nt_owner (f n) = nt_owner n" "nt_data (f n) = nt_data n" "shows_view w (f n) = shows_view w n" for n
    by (simp_all add: f_def shows_view_def)
  have "map nt_id (map f rows) = map nt_id rows" by (simp add: f)
  then show "viewers_once w S rows \<Longrightarrow> ?thesis"
    unfolding ClearNotificationsForUser_def f_def [symmetric] viewers_once_def by (simp add: f del: map_map)
qed

lemma event_reach_once: "event_reach w S st \<Longrightarrow> viewers_once w S (ns_rows (es_notif st))"
proof (induction rule: event_reach.induct)
  case (start w)
  then show ?case by (simp add: viewers_once_def)
next
  case (event w S st w' env eventID newID e r st')
  have "viewers_once (max w w') (S \<union> slips w' env eventID e st) (ns_rows (es_notif st))"
    by (rule viewers_once_mono [OF event.IH]) auto
  from event_once [OF this event.hyps(2)] show ?case by simp
next
  case (unwritten w S st eventID e p es w')
  then show ?case using viewers_once_mono [OF unwritten.IH max.cobounded1 subset_refl] by simp
next
  case (cleared w S st owner)
  then show ?case by (simp add: clear_once)
qed

section \<open>Announcements\<close>

lemma no_internal_id: "json_field ''internal_id'' (data_fields d) = None"
  by (simp add: data_fields_def json_opt_def split: option.splits)

lemma CreateAnnouncement_all:
  assumes "length ids = CountAllUsers (ne_db env)"
  shows "CreateAnnouncementNotifications env ids n internal rows =
    (let new = map (\<lambda>(i, u). n\<lparr>nt_id := i, nt_owner := u, nt_split := [], nt_seen := False, nt_amount := 1,
                                 nt_created := ne_now env, nt_updated := ne_now env, nt_deleted := False\<rparr>)
        (zip (sort ids) (map us_id (filter (\<lambda>u. \<not> us_deleted u \<and> \<not> us_universal u) (tb_users (ne_db env)))))
     in (new, rows @ new))"
  by (simp add: CreateAnnouncementNotifications_def no_internal_id list_ex_iff Let_def split_beta)

lemma send_all_rows [simp]: "ns_rows (send_all env ns st) = ns_rows st"
  by (induction ns arbitrary: st) simp_all

section \<open>Properties\<close>

definition sample_env :: "int \<Rightarrow> string \<Rightarrow> notif_env" where
  "sample_env now i =
     \<lparr>ne_now = now, ne_new_id = i, ne_splits = [''s''], ne_db = \<lparr>tb_users = [\<lparr>us_id = ''u1'', us_deleted = False, us_username = None,
       us_idempotent = None, us_wallets = [], us_universal = False, us_primary = None\<rparr>], tb_wallets = [], tb_pii = []\<rparr>,
      ne_tokens = (\<lambda>u. []), ne_allowed = (\<lambda>l k. True), ne_publish = Ok (), ne_unescape = (\<lambda>s. s), ne_seen = Ok\<rparr>"

definition sample_view :: "string \<Rightarrow> db_event" where
  "sample_view viewer =
     \<lparr>de_id = [], de_actor = Some viewer, de_resource = ResourceTypeSplit, de_subject = [], de_user = [],
      de_action = ActionViewedSplit, de_split = ''s'', de_external = None, de_caption = None, de_group = None\<rparr>"

definition no_events :: event_state where
  "no_events = \<lparr>es_events = [], es_notif = \<lparr>ns_rows = [], ns_new = [], ns_changed = [], ns_push = []\<rparr>\<rparr>"

definition sample_views :: event_state where
  "sample_views =
     (let st1 = snd (dispatchDelayed 0 (sample_env 10 ''n1'') ''e1'' (\<lambda>i. []) (sample_view ''v'') no_events);
          st2 = snd (dispatchDelayed 0 (sample_env (10 + viewWindow) ''n2'') ''e2'' (\<lambda>i. []) (sample_view ''w'') st1)
      in snd (dispatchDelayed 0 (sample_env (20 + viewWindow) ''n3'') ''e3'' (\<lambda>i. []) (sample_view ''v'') st2))"

definition late_views :: event_state where
  "late_views =
     snd (dispatchDelayed 5 ((sample_env (30 + viewWindow) ''n3'')\<lparr>ne_seen := (\<lambda>rows. Err ''timeout'')\<rparr>) ''e4'' (\<lambda>i. []) (sample_view ''w'') sample_views)"

lemma in_turn_slips: "ne_seen env = Ok \<Longrightarrow> slips w env i e st = {}"
  by (auto simp: slips_def let_through_def split: outcome.splits)

lemma event_in_turn:
  "event_reach w S st \<Longrightarrow> ne_seen env = Ok \<Longrightarrow> w' \<le> w \<Longrightarrow> event_reach w S (snd (dispatchDelayed w' env i newID e st))"
  using event_reach.event [of w S st w' env i newID e "fst (dispatchDelayed w' env i newID e st)" "snd (dispatchDelayed w' env i newID e st)"]
  by (simp add: in_turn_slips max_absorb1)

lemma sample_views_reach: "event_reach 5 {} sample_views"
  unfolding sample_views_def Let_def no_events_def
  by (intro event_in_turn event_reach.start) (simp_all add: sample_env_def)

lemma late_views_reach: "event_reach 5 {Inl ''w''} late_views"
proof -
  have "slips 5 ((sample_env (30 + viewWindow) ''n3'')\<lparr>ne_seen := (\<lambda>rows. Err ''timeout'')\<rparr>) ''e4'' (sample_view ''w'') sample_views = {Inl ''w''}"
    by code_simp
  then show ?thesis
    using event_reach.event [OF sample_views_reach, where w' = 5 and eventID = "''e4''" and newID = "\<lambda>i. []" and e = "sample_view ''w''"
      and env = "(sample_env (30 + viewWindow) ''n3'')\<lparr>ne_seen := (\<lambda>rows. Err ''timeout'')\<rparr>", OF prod.collapse [symmetric]]
    by (simp add: late_views_def)
qed

text \<open>C15: However often and by whomever splits are viewed, whatever beginnings of a week the handlers compute,
  later or earlier ones, and whether or not their queries fail and their dispatches keep apart: in each view
  notification a viewer stands at most once, and two view notifications that one owner got since the latest
  beginning of a week that was computed so far share no viewer, except for those that a failed or outdated query let
  through: the viewers of that view and of the notification it was grouped into.\<close>

theorem viewers_once_a_week:
  assumes "event_reach w slipped st" "n \<in> set (ns_rows (es_notif st))" "m \<in> set (ns_rows (es_notif st))"
    "nt_action n = ActionViewedSplit" "nt_action m = ActionViewedSplit" "nt_owner n = nt_owner m"
    "\<not> nt_deleted n" "\<not> nt_deleted m" "w < nt_created n" "w < nt_created m"
  shows "distinct (nd_authed (nt_data n)) \<and> distinct (nd_unauthed (nt_data n)) \<and>
    (nt_id n \<noteq> nt_id m \<longrightarrow> viewers (nt_data n) \<inter> viewers (nt_data m) \<subseteq> slipped) \<and> (nt_id n = nt_id m \<longrightarrow> n = m)"
proof -
  have v: "shows_view w n" "shows_view w m" using assms by (simp_all add: shows_view_def)
  note inv = event_reach_once [OF assms(1)]
  have "nt_id n = nt_id m \<longrightarrow> n = m"
    using inv assms(2,3) unfolding viewers_once_def distinct_map inj_on_def by blast
  then show ?thesis
    using viewers_onceD(1) [OF inv assms(2) v(1)] viewers_onceD(2) [OF inv assms(2) v(1) assms(3) v(2) assms(6)]
    by (simp add: once_def)
qed

text \<open>Three views in turn, and a fourth one, by \<open>w\<close> again, whose query failed.\<close>

theorem viewers_once_a_week_witness:
  "map (\<lambda>n. (nt_id n, nd_authed (nt_data n))) (ns_rows (es_notif late_views)) = [(''n1'', [''v'']), (''n2'', [''w'']), (''n3'', [''w''])] \<and>
   (let rows = ns_rows (es_notif late_views) in
      viewers (nt_data (rows ! 0)) \<inter> viewers (nt_data (rows ! 1)) \<subseteq> {Inl ''w''} \<and>
      viewers (nt_data (rows ! 1)) \<inter> viewers (nt_data (rows ! 2)) \<subseteq> {Inl ''w''})"
proof -
  let ?rows = "ns_rows (es_notif late_views)"
  have rows: "map (\<lambda>n. (nt_id n, nd_authed (nt_data n))) ?rows = [(''n1'', [''v'']), (''n2'', [''w'']), (''n3'', [''w''])]"
    by code_simp
  have ok: "list_all (\<lambda>n. nt_action n = ActionViewedSplit \<and> nt_owner n = ''1'' \<and> \<not> nt_deleted n \<and> 5 < nt_created n) ?rows"
    by code_simp
  have len: "length ?rows = 3" using arg_cong [OF rows, of length] by simp
  then have e: "?rows ! 0 \<in> set ?rows" "?rows ! 1 \<in> set ?rows" "?rows ! 2 \<in> set ?rows" by simp_all
  have i: "nt_id (?rows ! 0) = ''n1''" "nt_id (?rows ! 1) = ''n2''" "nt_id (?rows ! 2) = ''n3''" by code_simp+
  have q: "nt_action x = ActionViewedSplit" "nt_owner x = ''1''" "\<not> nt_deleted x" "5 < nt_created x" if "x \<in> set ?rows" for x
    using ok that by (simp_all add: list_all_iff)
  have common: "viewers (nt_data x) \<inter> viewers (nt_data y) \<subseteq> {Inl ''w''}" if "x \<in> set ?rows" "y \<in> set ?rows" "nt_id x \<noteq> nt_id y" for x y
    using viewers_once_a_week [OF late_views_reach that(1,2)] q [OF that(1)] q [OF that(2)] that(3) by simp
  show ?thesis using rows common [OF e(1,2)] common [OF e(2,3)] i by (simp add: Let_def)
qed

text \<open>The beginning of the week is the last Pacific Sunday when the server's clock is in the same day
  as the Pacific coast; when the server is a day ahead, as it is every afternoon in UTC, it is a Saturday.\<close>

theorem beginning_of_week_day:
  assumes "d = local_day pacific t" "s = local_day server t"
  shows "\<exists>day. beginningOfWeek server pacific pacific_at t = (day * 86400 - pacific_at day) * 1000000000 \<and>
    (s = d \<longrightarrow> weekday day = 0 \<and> day \<le> d \<and> d < day + 7) \<and> (s = d + 1 \<longrightarrow> weekday day = 6)"
proof (intro exI conjI impI)
  let ?day = "d - weekday s"
  show "beginningOfWeek server pacific pacific_at t = (?day * 86400 - pacific_at ?day) * 1000000000"
    by (simp add: beginningOfWeek_def assms)
  have w: "0 \<le> weekday s" "weekday s < 7" by (simp_all add: weekday_def)
  show "weekday ?day = 0" if "s = d" using that unfolding weekday_def by presburger
  show "?day \<le> d" "d < ?day + 7" using w by simp_all
  show "weekday ?day = 6" if "s = d + 1" using that unfolding weekday_def by presburger
qed

text \<open>Monday, 2024-01-08, noon and 16:30 Pacific standard time, on a server in UTC.\<close>

theorem beginning_of_week_day_witness:
  "beginningOfWeek (\<lambda>t. 0) (\<lambda>t. - 28800) (\<lambda>d. - 28800) (1704744000 * 1000000000) = (19729 * 86400 + 28800) * 1000000000 \<and>
   weekday 19729 = 0 \<and>
   beginningOfWeek (\<lambda>t. 0) (\<lambda>t. - 28800) (\<lambda>d. - 28800) (1704760200 * 1000000000) = (19728 * 86400 + 28800) * 1000000000 \<and>
   weekday 19728 = 6"
proof -
  have d: "19730 = local_day (\<lambda>t. - 28800) (1704744000 * 1000000000)" "19730 = local_day (\<lambda>t. 0) (1704744000 * 1000000000)"
    "19730 = local_day (\<lambda>t. - 28800) (1704760200 * 1000000000)" "19731 = local_day (\<lambda>t. 0) (1704760200 * 1000000000)"
    by (simp_all add: local_day_def)
  obtain x where x: "beginningOfWeek (\<lambda>t. 0) (\<lambda>t. - 28800) (\<lambda>d. - 28800) (1704744000 * 1000000000) = (x * 86400 + 28800) * 1000000000"
    "weekday x = 0" "x \<le> 19730" "19730 < x + 7"
    using beginning_of_week_day [OF d(1,2), of "\<lambda>d. - 28800"] by auto
  obtain y where y: "beginningOfWeek (\<lambda>t. 0) (\<lambda>t. - 28800) (\<lambda>d. - 28800) (1704760200 * 1000000000) = (y * 86400 + 28800) * 1000000000"
    "weekday y = 6"
    using beginning_of_week_day [OF d(3,4), of "\<lambda>d. - 28800"] by auto
  have "x = 19729" using x(2-4) unfolding weekday_def by presburger
  moreover have "y = 19728" using y(1) by (simp add: beginningOfWeek_def local_day_def weekday_def)
  ultimately show ?thesis using x y by simp
qed

text \<open>
  On a server in UTC, 2024-01-06 and 07: a view on Saturday at noon (Pacific standard time), one by the same viewer on
  Sunday at noon, in a new week, and one at 16:30, whose week begins on Saturday again. For that week, the viewer
  stands in two notifications of the owner, and the last view is grouped into the second.
\<close>

definition utc_week :: "int \<Rightarrow> int" where
  "utc_week t = beginningOfWeek (\<lambda>t. 0) (\<lambda>t. - 28800) (\<lambda>d. - 28800) t"

definition view_at :: "int \<Rightarrow> string \<Rightarrow> string \<Rightarrow> event_state \<Rightarrow> event_state" where
  "view_at seconds i viewer st =
     (let t = seconds * 1000000000 in snd (dispatchDelayed (utc_week t) (sample_env t i) i (\<lambda>k. []) (sample_view viewer) st))"

lemma viewer_twice_in_a_week_that_goes_back:
  "let st = view_at 1704673800 ''n3'' ''x'' (view_at 1704657600 ''n2'' ''v'' (view_at 1704571200 ''n1'' ''v'' no_events)) in
   map (\<lambda>n. (nt_id n, nd_authed (nt_data n))) (ns_rows (es_notif st)) = [(''n1'', [''v'']), (''n2'', [''x'', ''v''])] \<and>
   list_all (shows_view (utc_week (1704673800 * 1000000000))) (ns_rows (es_notif st)) \<and>
   utc_week (1704673800 * 1000000000) < utc_week (1704657600 * 1000000000)"
  by code_simp

text \<open>An announcement is never recognised as one that was sent before: each dispatch inserts one more
  notification for every live user, whatever notifications with its internal ID are there.\<close>

theorem announcements_repeat:
  assumes "nt_action n = ActionAnnouncement" "nd_announcement (nt_data n) = Some d"
  shows "\<exists>new st'. Dispatch week env newID n st = (Ok (), st') \<and> ns_rows st' = ns_rows st @ new \<and>
    map nt_owner new = map us_id (filter (\<lambda>u. \<not> us_deleted u \<and> \<not> us_universal u) (tb_users (ne_db env))) \<and>
    list_all (\<lambda>m. nt_action m = ActionAnnouncement \<and> nd_announcement (nt_data m) = Some d \<and> \<not> nt_seen m) new"
proof -
  let ?ids = "map newID [0..<CountAllUsers (ne_db env)]"
  let ?owners = "map us_id (filter (\<lambda>u. \<not> us_deleted u \<and> \<not> us_universal u) (tb_users (ne_db env)))"
  define new where "new = map (\<lambda>(i, u). n\<lparr>nt_id := i, nt_owner := u, nt_split := [], nt_seen := False, nt_amount := 1,
                                 nt_created := ne_now env, nt_updated := ne_now env, nt_deleted := False\<rparr>) (zip (sort ?ids) ?owners)"
  have add: "addGlobalNotifications env newID n (ns_rows st) = Ok (new, ns_rows st @ new)"
    using assms(2) CreateAnnouncement_all [of ?ids env n "ad_internal_id d" "ns_rows st"]
    by (simp add: addGlobalNotifications_def new_def Let_def)
  have len: "length (sort ?ids) = length ?owners" by (simp add: CountAllUsers_def)
  have "map nt_owner new = map snd (zip (sort ?ids) ?owners)" by (simp add: new_def split_beta)
  then have own: "map nt_owner new = ?owners" using map_snd_zip [OF len] by simp
  have all: "list_all (\<lambda>m. nt_action m = ActionAnnouncement \<and> nd_announcement (nt_data m) = Some d \<and> \<not> nt_seen m) new"
    using assms by (auto simp: new_def list_all_iff)
  have act: "ActionAnnouncement \<noteq> ActionViewedSplit" by (simp add: action_defs)
  have "fst (insertAndPublishAnnouncementNotifs env newID n st) = Ok () \<and>
      ns_rows (snd (insertAndPublishAnnouncementNotifs env newID n st)) = ns_rows st @ new"
    using assms(2) add by (simp add: insertAndPublishAnnouncementNotifs_def Let_def)
  then obtain st' where st': "insertAndPublishAnnouncementNotifs env newID n st = (Ok (), st')" "ns_rows st' = ns_rows st @ new"
    by (metis prod.collapse)
  then show ?thesis using own all assms(1) act by (auto simp: Dispatch_def)
qed

definition sample_announcement :: notification where
  "sample_announcement =
     \<lparr>nt_id = [], nt_owner = [], nt_action = ActionAnnouncement,
      nt_data = no_data\<lparr>nd_announcement := Some \<lparr>ad_platform = AnnouncementPlatformAll, ad_internal_id = ''a1'', ad_push_text = ''hi''\<rparr>\<rparr>,
      nt_event_ids = [], nt_split = [], nt_seen = False, nt_amount = 0, nt_created = 0, nt_updated = 0, nt_deleted = False\<rparr>"

theorem announcements_repeat_witness:
  "\<exists>st1 st2. Dispatch 0 (sample_env 1 []) (\<lambda>i. ''n1'') sample_announcement (es_notif no_events) = (Ok (), st1) \<and>
     Dispatch 0 (sample_env 2 []) (\<lambda>i. ''n2'') sample_announcement st1 = (Ok (), st2) \<and>
     map nt_owner (ns_rows st2) = [''u1'', ''u1'']"
proof -
  have n: "nt_action sample_announcement = ActionAnnouncement"
    "nd_announcement (nt_data sample_announcement) = Some \<lparr>ad_platform = AnnouncementPlatformAll, ad_internal_id = ''a1'', ad_push_text = ''hi''\<rparr>"
    by (simp_all add: sample_announcement_def no_data_def)
  obtain new1 st1 where 1: "Dispatch 0 (sample_env 1 []) (\<lambda>i. ''n1'') sample_announcement (es_notif no_events) = (Ok (), st1)"
    "ns_rows st1 = new1" "map nt_owner new1 = [''u1'']"
    using announcements_repeat [OF n, of 0 "sample_env 1 []" "\<lambda>i. ''n1''" "es_notif no_events"] by (auto simp: sample_env_def no_events_def)
  obtain new2 st2 where 2: "Dispatch 0 (sample_env 2 []) (\<lambda>i. ''n2'') sample_announcement st1 = (Ok (), st2)"
    "ns_rows st2 = new1 @ new2" "map nt_owner new2 = [''u1'']"
    using announcements_repeat [OF n, of 0 "sample_env 2 []" "\<lambda>i. ''n2''" st1] 1(2) by (auto simp: sample_env_def)
  show ?thesis using 1 2 by auto
qed

section \<open>Behaviour that the comments do not promise\<close>

text \<open>Whoever owns the split, the user with the ID 1 is notified.\<close>

lemma split_views_notify_one_user:
  "de_resource e = ResourceTypeSplit \<Longrightarrow> findOwnerForNotificationFromEvent e = Ok ''1''"
  by (simp add: findOwnerForNotificationFromEvent_def)

text \<open>A view by someone who was seen this week, a day after the last one, is a notification without viewers.\<close>

lemma repeated_view_inserts_empty:
  "map (\<lambda>n. (nt_id n, nd_authed (nt_data n))) (ns_rows (es_notif
     (snd (dispatchDelayed 0 (sample_env (10 + viewWindow) ''n2'') ''e2'' (\<lambda>i. []) (sample_view ''v'')
       (snd (dispatchDelayed 0 (sample_env 10 ''n1'') ''e1'' (\<lambda>i. []) (sample_view ''v'') no_events)))))) =
   [(''n1'', [''v'']), (''n2'', [])]"
  by code_simp

text \<open>An event with a caption is dropped: no action has an immediate handler.\<close>

lemma captioned_events_dropped:
  "de_action e \<noteq> [] \<Longrightarrow> DispatchCaptioned week env eventID newID e (Some c) st = (Ok (), st)"
  by (simp add: DispatchCaptioned_def EventValidator_def)

end
