(* ===== verification/Splits.thy ===== *)
theory Splits
  imports User_Store Sessions Validate
begin

text \<open>
  Splits and their recipients: publicapi/split.go with the queries of db/gen/coredb/query.sql.go and
  db/gen/coredb/split.sql.go. The unique indexes of the tables are modelled; what the driver makes of a NULL in the
  column \<open>l1_chain\<close>, which no statement fills, is the argument \<open>scan_l1\<close>.
\<close>

record Split =
  sp_id :: string
  sp_updated :: int
  sp_created :: int
  sp_deleted :: bool
  sp_chain :: Chain
  sp_l1_chain :: "L1Chain option"
  sp_address :: Address
  sp_name :: string
  sp_description :: string
  sp_creator :: Address
  sp_logo :: "string option"
  sp_banner :: "string option"
  sp_badge :: "string option"
  sp_total :: int

record recipient =
  rp_id :: string
  rp_updated :: int
  rp_deleted :: bool
  rp_split :: string
  rp_address :: Address
  rp_ownership :: int

record split_tables =
  sx_splits :: "Split list"
  sx_recipients :: "recipient list"
  sx_users :: tables

datatype split_error = InvalidSplit invalid_input | NotAuthed auth_error | SplitNoRows | SplitDb string

definition FromPointer :: "'a \<Rightarrow> 'a option \<Rightarrow> 'a" where
  "FromPointer zero p = (case p of Some v \<Rightarrow> v | None \<Rightarrow> zero)"

definition to_null :: "string \<Rightarrow> bool \<Rightarrow> string option" where
  "to_null s emptyIsNull = (if emptyIsNull \<and> s = [] then None else Some s)"

section \<open>Queries\<close>

record CreateSplitParams =
  cs_id :: string
  cs_chain :: Chain
  cs_address :: Address
  cs_name :: string
  cs_description :: string
  cs_creator :: Address
  cs_logo :: "string option"
  cs_banner :: "string option"
  cs_badge :: "string option"
  cs_total :: int

definition new_split :: "int \<Rightarrow> CreateSplitParams \<Rightarrow> Split" where
  "new_split now p =
     \<lparr>sp_id = cs_id p, sp_updated = now, sp_created = now, sp_deleted = False, sp_chain = cs_chain p, sp_l1_chain = None,
      sp_address = cs_address p, sp_name = cs_name p, sp_description = cs_description p, sp_creator = cs_creator p,
      sp_logo = cs_logo p, sp_banner = cs_banner p, sp_badge = cs_badge p, sp_total = cs_total p\<rparr>"

text \<open>The unique index on address and chain also counts deleted rows.\<close>

definition CreateSplit_query :: "int \<Rightarrow> CreateSplitParams \<Rightarrow> Split list \<Rightarrow> (string, Split list) outcome" where
  "CreateSplit_query now p splits =
     (if cs_id p \<in> sp_id ` set splits then Err ''splits_pkey''
      else if (cs_address p, cs_chain p) \<in> (\<lambda>s. (sp_address s, sp_chain s)) ` set splits then Err ''split_address_chain_idx''
      else Ok (splits @ [new_split now p]))"

definition GetSplitById :: "string \<Rightarrow> Split list \<Rightarrow> Split option" where
  "GetSplitById splitID splits = find (\<lambda>s. sp_id s = splitID \<and> \<not> sp_deleted s) splits"

definition GetSplitByChainAddress :: "Address \<Rightarrow> Chain \<Rightarrow> Split list \<Rightarrow> Split option" where
  "GetSplitByChainAddress address chain splits =
     find (\<lambda>s. sp_address s = address \<and> sp_chain s = chain \<and> \<not> sp_deleted s) splits"

text \<open>The splits that a wallet of the user receives from, once per wallet and recipient.\<close>

definition splits_of_user :: "UserID \<Rightarrow> split_tables \<Rightarrow> Split list" where
  "splits_of_user userID t =
     [s. u \<leftarrow> tb_users (sx_users t), us_id u = userID \<and> \<not> us_deleted u,
         i \<leftarrow> us_wallets u, w \<leftarrow> tb_wallets (sx_users t), wl_id w = i \<and> \<not> wl_deleted w,
         r \<leftarrow> sx_recipients t, rp_address r = wl_address w \<and> \<not> rp_deleted r,
         s \<leftarrow> sx_splits t, sp_id s = rp_split r \<and> \<not> sp_deleted s]"

definition GetSplitByUserID :: "UserID \<Rightarrow> string \<Rightarrow> split_tables \<Rightarrow> Split option" where
  "GetSplitByUserID userID splitID t = find (\<lambda>s. sp_id s = splitID) (splits_of_user userID t)"

definition set_info :: "int \<Rightarrow> string option \<Rightarrow> string option \<Rightarrow> string option option \<Rightarrow> Split \<Rightarrow> Split" where
  "set_info now name description logo s =
     s\<lparr>sp_name := FromPointer (sp_name s) name, sp_description := FromPointer (sp_description s) description,
       sp_logo := FromPointer (sp_logo s) logo, sp_updated := now\<rparr>"

definition UpdateSplitInfo_query ::
  "int \<Rightarrow> string option \<Rightarrow> string option \<Rightarrow> string option option \<Rightarrow> string \<Rightarrow> Split list \<Rightarrow> Split list" where
  "UpdateSplitInfo_query now name description logo splitID =
     map (\<lambda>s. if sp_id s = splitID \<and> \<not> sp_deleted s then set_info now name description logo s else s)"

text \<open>
  \<open>update \<dots> from\<close> joins each recipient with the listed shares; where several match, PostgreSQL takes one of them,
  which \<open>pick\<close> says. A deleted recipient is updated too.
\<close>

definition matching :: "(string \<times> Address \<times> int) list \<Rightarrow> recipient \<Rightarrow> int list" where
  "matching updates r = [own. (i, a, own) \<leftarrow> updates, i = rp_split r \<and> a = rp_address r]"

definition UpdateSplitShares_query ::
  "(int list \<Rightarrow> int) \<Rightarrow> int \<Rightarrow> (string \<times> Address \<times> int) list \<Rightarrow> recipient list \<Rightarrow> recipient list" where
  "UpdateSplitShares_query pick now updates =
     map (\<lambda>r. case matching updates r of [] \<Rightarrow> r | own # owns \<Rightarrow> r\<lparr>rp_ownership := pick (own # owns), rp_updated := now\<rparr>)"

definition SplitRepoUpdate :: "int \<Rightarrow> string \<Rightarrow> Split list \<Rightarrow> nat \<times> Split list" where
  "SplitRepoUpdate now splitID splits =
     (length (filter (\<lambda>s. sp_id s = splitID) splits), map (\<lambda>s. if sp_id s = splitID then s\<lparr>sp_updated := now\<rparr> else s) splits)"

section \<open>The API\<close>

text \<open>
  Of the split's columns the API fills the texts alone: chain, address, creator and total ownership are zero values. The
  row that is returned is scanned after the statement has taken effect.
\<close>

definition api_params :: "string \<Rightarrow> string option \<Rightarrow> string option \<Rightarrow> string option \<Rightarrow> CreateSplitParams" where
  "api_params newID name description logoUrl =
     \<lparr>cs_id = newID, cs_chain = 0, cs_address = [], cs_name = FromPointer [] name, cs_description = FromPointer [] description,
      cs_creator = [], cs_logo = to_null (FromPointer [] logoUrl) False, cs_banner = None, cs_badge = None, cs_total = 0\<rparr>"

definition scan_split :: "(L1Chain option \<Rightarrow> (string, L1Chain) outcome) \<Rightarrow> Split \<Rightarrow> (split_error, Split) outcome" where
  "scan_split scan_l1 s = map_err SplitDb (map_o (\<lambda>l1. s\<lparr>sp_l1_chain := Some l1\<rparr>) (scan_l1 (sp_l1_chain s)))"

definition CreateSplit ::
  "(string option \<Rightarrow> string \<Rightarrow> string option) \<Rightarrow> (L1Chain option \<Rightarrow> (string, L1Chain) outcome) \<Rightarrow> int \<Rightarrow> string \<Rightarrow>
   string option \<Rightarrow> string option \<Rightarrow> string option \<Rightarrow> split_tables \<Rightarrow> (split_error, Split) outcome \<times> split_tables" where
  "CreateSplit check scan_l1 now newID name description logoUrl t =
     (case ValidateFields check [(''name'', name, ''max=200''), (''description'', description, ''max=600''),
             (''logoUrl'', logoUrl, ''max=200'')] of
        Some e \<Rightarrow> (Err (InvalidSplit e), t)
      | None \<Rightarrow>
          (case CreateSplit_query now (api_params newID name description logoUrl) (sx_splits t) of
             Err x \<Rightarrow> (Err (SplitDb x), t)
           | Panic p \<Rightarrow> (Panic p, t)
           | Ok splits \<Rightarrow> (scan_split scan_l1 (last splits), t\<lparr>sx_splits := splits\<rparr>)))"

definition PublishSplit :: "(string option \<Rightarrow> string \<Rightarrow> string option) \<Rightarrow> string \<Rightarrow> string \<Rightarrow> (split_error, unit) outcome" where
  "PublishSplit check splitID editID =
     (case ValidateFields check [(''splitID'', Some splitID, ''required''), (''editID'', Some editID, ''required'')] of
        Some e \<Rightarrow> Err (InvalidSplit e)
      | None \<Rightarrow> Ok ())"

definition found :: "Split option \<Rightarrow> (split_error, Split) outcome" where
  "found s = (case s of Some x \<Rightarrow> Ok x | None \<Rightarrow> Err SplitNoRows)"

definition GetViewerSplitById ::
  "(string option \<Rightarrow> string \<Rightarrow> string option) \<Rightarrow> (L1Chain option \<Rightarrow> (string, L1Chain) outcome) \<Rightarrow> gin_ctx \<Rightarrow> string \<Rightarrow>
   split_tables \<Rightarrow> (split_error, Split) outcome" where
  "GetViewerSplitById check scan_l1 ctx splitID t =
     (case ValidateFields check [(''splitID'', Some splitID, ''required'')] of
        Some e \<Rightarrow> Err (InvalidSplit e)
      | None \<Rightarrow> bind_o (map_err NotAuthed (getAuthenticatedUserID ctx)) (\<lambda>userID.
          bind_o (found (GetSplitByUserID userID splitID t)) (scan_split scan_l1)))"

definition GetSplitsByUserID ::
  "(string option \<Rightarrow> string \<Rightarrow> string option) \<Rightarrow> (L1Chain option \<Rightarrow> (string, L1Chain) outcome) \<Rightarrow> UserID \<Rightarrow> split_tables \<Rightarrow>
   (split_error, Split list) outcome" where
  "GetSplitsByUserID check scan_l1 userID t =
     (case ValidateFields check [(''userID'', Some userID, ''required'')] of
        Some e \<Rightarrow> Err (InvalidSplit e)
      | None \<Rightarrow> mapM_o (scan_split scan_l1) (splits_of_user userID t))"

definition split_thunk ::
  "(string option \<Rightarrow> string \<Rightarrow> string option) \<Rightarrow> string \<Rightarrow> (L1Chain option \<Rightarrow> (string, L1Chain) outcome) \<Rightarrow> split_tables \<Rightarrow> string \<Rightarrow>
   (split_error, Split) outcome" where
  "split_thunk check field scan_l1 t splitID =
     (case ValidateFields check [(field, Some splitID, ''required'')] of
        Some e \<Rightarrow> Err (InvalidSplit e)
      | None \<Rightarrow> bind_o (found (GetSplitById splitID (sx_splits t))) (scan_split scan_l1))"

definition api_GetSplitById ::
  "(string option \<Rightarrow> string \<Rightarrow> string option) \<Rightarrow> (L1Chain option \<Rightarrow> (string, L1Chain) outcome) \<Rightarrow> string \<Rightarrow> split_tables \<Rightarrow>
   (split_error, Split) outcome" where
  "api_GetSplitById check scan_l1 splitID t = split_thunk check ''splitID'' scan_l1 t splitID"

text \<open>Each ID has a split or an error at its place.\<close>

fun split_and_error :: "(split_error, Split) outcome \<Rightarrow> (string, Split option \<times> split_error option) outcome" where
  "split_and_error (Ok s) = Ok (Some s, None)"
| "split_and_error (Err e) = Ok (None, Some e)"
| "split_and_error (Panic p) = Panic p"

definition GetSplitsByIds ::
  "(string option \<Rightarrow> string \<Rightarrow> string option) \<Rightarrow> (L1Chain option \<Rightarrow> (string, L1Chain) outcome) \<Rightarrow> string list \<Rightarrow> split_tables \<Rightarrow>
   (string, (Split option \<times> split_error option) list) outcome" where
  "GetSplitsByIds check scan_l1 splitIDs t =
     mapM_o (\<lambda>i. split_and_error (split_thunk check ''splitIDs'' scan_l1 t i)) splitIDs"

definition api_GetSplitByChainAddress ::
  "(ChainAddress \<Rightarrow> string \<Rightarrow> string option) \<Rightarrow> (L1Chain option \<Rightarrow> (string, L1Chain) outcome) \<Rightarrow> ChainAddress \<Rightarrow> split_tables \<Rightarrow>
   (split_error, Split) outcome" where
  "api_GetSplitByChainAddress check scan_l1 ca t =
     (case ValidateFields check [(''chainAddress'', ca, ''required'')] of
        Some e \<Rightarrow> Err (InvalidSplit e)
      | None \<Rightarrow> bind_o (found (GetSplitByChainAddress (ca_address ca) (ca_chain ca) (sx_splits t))) (scan_split scan_l1))"

definition UpdateSplitInfo ::
  "(string option \<Rightarrow> string \<Rightarrow> string option) \<Rightarrow> int \<Rightarrow> string \<Rightarrow> string option \<Rightarrow> string option \<Rightarrow> string option \<Rightarrow> split_tables \<Rightarrow>
   (split_error, unit) outcome \<times> split_tables" where
  "UpdateSplitInfo check now splitID name description logoUrl t =
     (case ValidateFields check [(''splitID'', Some splitID, ''required''), (''name'', name, ''max=200''),
             (''description'', description, ''max=600''), (''logoUrl'', logoUrl, ''max=200'')] of
        Some e \<Rightarrow> (Err (InvalidSplit e), t)
      | None \<Rightarrow> (Ok (), t\<lparr>sx_splits := UpdateSplitInfo_query now name description (map_option Some logoUrl) splitID (sx_splits t)\<rparr>))"

record SplitShareInput =
  si_split :: string
  si_address :: Address
  si_ownership :: int

definition share_row :: "SplitShareInput \<Rightarrow> string \<times> Address \<times> int" where
  "share_row s = (si_split s, si_address s, int32_of (si_ownership s))"

definition UpdateSplitShares ::
  "(SplitShareInput list \<Rightarrow> string \<Rightarrow> string option) \<Rightarrow> (int list \<Rightarrow> int) \<Rightarrow> int \<Rightarrow> SplitShareInput list \<Rightarrow> split_tables \<Rightarrow>
   (split_error, unit) outcome \<times> split_tables" where
  "UpdateSplitShares check pick now shares t =
     (case ValidateFields check [(''shares'', shares, ''required,min=1'')] of
        Some e \<Rightarrow> (Err (InvalidSplit e), t)
      | None \<Rightarrow> (Ok (), t\<lparr>sx_recipients := UpdateSplitShares_query pick now (map share_row shares) (sx_recipients t)\<rparr>))"

text \<open>\<open>SplitRepository.Create\<close> hands its parameters to the same statement without the times, which default to now.\<close>

definition SplitRepository_Create ::
  "(L1Chain option \<Rightarrow> (string, L1Chain) outcome) \<Rightarrow> int \<Rightarrow> CreateSplitParams \<Rightarrow> Split list \<Rightarrow> (split_error, Split) outcome \<times> Split list" where
  "SplitRepository_Create scan_l1 now p splits =
     (case CreateSplit_query now p splits of
        Ok splits1 \<Rightarrow> (scan_split scan_l1 (last splits1), splits1)
      | Err x \<Rightarrow> (Err (SplitDb x), splits)
      | Panic x \<Rightarrow> (Panic x, splits))"

end
