(* ===== verification/Split_Props.thy ===== *)
theory Split_Props
  imports Splits
begin

text \<open>What the operations on splits do to the tables, and what their unique index forbids.\<close>

section \<open>Calls\<close>

record split_env =
  se_check :: "string option \<Rightarrow> string \<Rightarrow> string option"
  se_check_shares :: "SplitShareInput list \<Rightarrow> string \<Rightarrow> string option"
  se_scan_l1 :: "L1Chain option \<Rightarrow> (string, L1Chain) outcome"
  se_pick :: "int list \<Rightarrow> int"

datatype split_call =
    Call_Create int string "string option" "string option" "string option"
  | Call_Info int string "string option" "string option" "string option"
  | Call_Shares int "SplitShareInput list"

fun split_step :: "split_env \<Rightarrow> split_call \<Rightarrow> split_tables \<Rightarrow> split_tables" where
  "split_step e (Call_Create now i n d l) t = snd (CreateSplit (se_check e) (se_scan_l1 e) now i n d l t)"
| "split_step e (Call_Info now i n d l) t = snd (UpdateSplitInfo (se_check e) now i n d l t)"
| "split_step e (Call_Shares now shares) t = snd (UpdateSplitShares (se_check_shares e) (se_pick e) now shares t)"

definition split_run :: "split_env \<Rightarrow> split_call list \<Rightarrow> split_tables \<Rightarrow> split_tables" where
  "split_run e calls t = fold (split_step e) calls t"

definition address_keys :: "split_tables \<Rightarrow> (Address \<times> Chain) list" where
  "address_keys t = map (\<lambda>s. (sp_address s, sp_chain s)) (sx_splits t)"

lemma keys_of_info: "map (\<lambda>s. (sp_address s, sp_chain s)) (UpdateSplitInfo_query now n d l i ss) = map (\<lambda>s. (sp_address s, sp_chain s)) ss"
  by (simp add: UpdateSplitInfo_query_def set_info_def)

lemma CreateSplit_refused:
  assumes "([], 0) \<in> set (address_keys t)"
  shows "\<exists>x. CreateSplit check scan_l1 now i n d l t = (Err x, t)"
proof -
  have "\<exists>x. CreateSplit_query now (api_params i n d l) (sx_splits t) = Err x"
    using assms by (auto simp: CreateSplit_query_def api_params_def address_keys_def)
  then show ?thesis by (auto simp: CreateSplit_def split: option.splits)
qed

lemma CreateSplit_keys:
  "address_keys (snd (CreateSplit check scan_l1 now i n d l t)) = address_keys t \<or>
   ([], 0) \<notin> set (address_keys t) \<and> address_keys (snd (CreateSplit check scan_l1 now i n d l t)) = address_keys t @ [([], 0)]"
  by (auto simp: CreateSplit_def CreateSplit_query_def api_params_def new_split_def address_keys_def split: option.splits)

lemma step_keys:
  "address_keys (split_step e c t) = address_keys t \<or>
   ([], 0) \<notin> set (address_keys t) \<and> address_keys (split_step e c t) = address_keys t @ [([], 0)]"
proof (cases c)
  case (Call_Create now i n d l)
  then show ?thesis by (simp add: CreateSplit_keys)
next
  case (Call_Info now i n d l)
  then show ?thesis
    by (auto simp: UpdateSplitInfo_def address_keys_def keys_of_info split: option.splits)
next
  case (Call_Shares now shares)
  then show ?thesis by (auto simp: UpdateSplitShares_def address_keys_def split: option.splits)
qed

lemma run_keys:
  "address_keys (split_run e calls t) = address_keys t \<or>
   ([], 0) \<notin> set (address_keys t) \<and> address_keys (split_run e calls t) = address_keys t @ [([], 0)]"
proof (induction calls arbitrary: t)
  case (Cons c calls)
  have "split_run e (c # calls) t = split_run e calls (split_step e c t)" by (simp add: split_run_def)
  with Cons.IH [of "split_step e c t"] step_keys [of e c t] show ?case by auto
qed (simp add: split_run_def)

section \<open>Properties\<close>

definition no_check :: "'v \<Rightarrow> string \<Rightarrow> string option" where
  "no_check v tag = None"

definition read_l1 :: "L1Chain option \<Rightarrow> (string, L1Chain) outcome" where
  "read_l1 v = (case v of Some l1 \<Rightarrow> Ok l1 | None \<Rightarrow> Err ''cannot assign NULL'')"

definition sample_env :: split_env where
  "sample_env = \<lparr>se_check = no_check, se_check_shares = no_check, se_scan_l1 = read_l1, se_pick = hd\<rparr>"

definition no_splits :: split_tables where
  "no_splits = \<lparr>sx_splits = [], sx_recipients = [], sx_users = \<lparr>tb_users = [], tb_wallets = [], tb_pii = []\<rparr>\<rparr>"

text \<open>C18: The API creates at most one split, ever. It fills neither chain nor address, and the index on both is unique: whatever
  calls follow, once a split without an address is in the table \<open>CreateSplit\<close> fails and changes nothing.\<close>
theorem one_split_created:
  "length (sx_splits (split_run e calls t)) \<le> length (sx_splits t) + 1 \<and>
   (([], 0) \<in> set (address_keys t) \<longrightarrow>
      sx_splits (split_run e calls t) \<noteq> [] \<and>
      length (sx_splits (split_run e calls t)) = length (sx_splits t) \<and>
      (\<exists>x. CreateSplit check scan_l1 now i n d l (split_run e calls t) = (Err x, split_run e calls t)))"
proof -
  have len: "length (sx_splits t') = length (address_keys t')" for t' by (simp add: address_keys_def)
  have "\<exists>x. CreateSplit check scan_l1 now i n d l (split_run e calls t) = (Err x, split_run e calls t)"
    if "([], 0) \<in> set (address_keys t)"
    by (rule CreateSplit_refused) (use run_keys [of e calls t] that in auto)
  moreover have "sx_splits (split_run e calls t) \<noteq> []" if "([], 0) \<in> set (address_keys t)"
    using run_keys [of e calls t] that by (auto simp: address_keys_def)
  ultimately show ?thesis using run_keys [of e calls t] by (auto simp: len)
qed

theorem one_split_created_witness:
  "\<exists>x. CreateSplit no_check read_l1 9 ''s2'' (Some ''B'') None None
         (split_run sample_env [Call_Info 5 ''s1'' (Some ''A2'') None None]
            (split_run sample_env [Call_Create 1 ''s1'' (Some ''A'') None None] no_splits)) =
       (Err x, split_run sample_env [Call_Info 5 ''s1'' (Some ''A2'') None None]
            (split_run sample_env [Call_Create 1 ''s1'' (Some ''A'') None None] no_splits))"
proof -
  have "([], 0) \<in> set (address_keys (split_run sample_env [Call_Create 1 ''s1'' (Some ''A'') None None] no_splits))" by code_simp
  then show ?thesis
    using one_split_created [of sample_env "[Call_Info 5 ''s1'' (Some ''A2'') None None]"
      "split_run sample_env [Call_Create 1 ''s1'' (Some ''A'') None None] no_splits" no_check read_l1 9 "''s2''" "Some ''B''" None None]
    by blast
qed

lemma set_info_keeps: "sp_id (set_info now n d l s) = sp_id s" "sp_deleted (set_info now n d l s) = sp_deleted s"
  by (simp_all add: set_info_def)

lemma GetSplitById_update:
  "GetSplitById j (UpdateSplitInfo_query now n d l i ss) =
     (if j = i then map_option (set_info now n d l) (GetSplitById j ss) else GetSplitById j ss)"
  by (induction ss) (auto simp: GetSplitById_def UpdateSplitInfo_query_def set_info_keeps)

lemma matching_mem: "matching us r = own # owns \<Longrightarrow> (rp_split r, rp_address r, x) \<in> set us \<longleftrightarrow> x \<in> set (own # owns)"
proof -
  have "x \<in> set (matching us r) \<longleftrightarrow> (rp_split r, rp_address r, x) \<in> set us" by (auto simp: matching_def)
  then show "matching us r = own # owns \<Longrightarrow> ?thesis" by simp
qed

lemma matching_none: "matching us r = [] \<longleftrightarrow> (\<forall>x. (rp_split r, rp_address r, x) \<notin> set us)"
proof -
  have "x \<in> set (matching us r) \<longleftrightarrow> (rp_split r, rp_address r, x) \<in> set us" for x by (auto simp: matching_def)
  then show ?thesis by (metis list.set_intros(1) list.exhaust list.set(1) empty_iff)
qed

definition share_of :: "SplitShareInput list \<Rightarrow> recipient \<Rightarrow> int \<Rightarrow> bool" where
  "share_of shares r own = list_ex (\<lambda>s. si_split s = rp_split r \<and> si_address s = rp_address r \<and> int32_of (si_ownership s) = own) shares"

lemma share_of_iff: "share_of shares r own \<longleftrightarrow> (rp_split r, rp_address r, own) \<in> set (map share_row shares)"
  by (force simp: share_of_def share_row_def list_ex_iff image_iff)

text \<open>A successful \<open>UpdateSplitInfo\<close> replaces the given texts of the live split with the ID and nothing else. A
  successful \<open>UpdateSplitShares\<close> gives every recipient listed one of the listed ownerships, cut to 32 bits, and leaves the
  others as they are. Neither looks at who asks, nor at the sum of the shares.\<close>
theorem split_updates_effect:
  assumes pick: "\<And>x xs. pick (x # xs) \<in> set (x # xs)"
    and info: "UpdateSplitInfo check now i n d l t = (Ok (), t1)"
    and shares: "UpdateSplitShares check' pick now ss t = (Ok (), t2)"
  shows "GetSplitById j (sx_splits t1) = (if j = i then map_option (set_info now n d (map_option Some l)) (GetSplitById j (sx_splits t))
              else GetSplitById j (sx_splits t)) \<and>
         sx_recipients t1 = sx_recipients t \<and> sx_users t1 = sx_users t \<and>
         sx_splits t2 = sx_splits t \<and> sx_users t2 = sx_users t \<and>
         list_all2 (\<lambda>r r'. (if \<exists>own. share_of ss r own
                           then share_of ss r (rp_ownership r') \<and> r' = r\<lparr>rp_ownership := rp_ownership r', rp_updated := now\<rparr>
                           else r' = r)) (sx_recipients t) (sx_recipients t2)"
proof -
  have t1: "t1 = t\<lparr>sx_splits := UpdateSplitInfo_query now n d (map_option Some l) i (sx_splits t)\<rparr>"
    using info by (auto simp: UpdateSplitInfo_def split: option.splits)
  have t2: "t2 = t\<lparr>sx_recipients := UpdateSplitShares_query pick now (map share_row ss) (sx_recipients t)\<rparr>"
    using shares by (auto simp: UpdateSplitShares_def split: option.splits)
  let ?upd = "\<lambda>r. case matching (map share_row ss) r of [] \<Rightarrow> r | own # owns \<Rightarrow> r\<lparr>rp_ownership := pick (own # owns), rp_updated := now\<rparr>"
  have one: "if \<exists>own. share_of ss r own then share_of ss r (rp_ownership (?upd r)) \<and> ?upd r = r\<lparr>rp_ownership := rp_ownership (?upd r), rp_updated := now\<rparr>
        else ?upd r = r" for r
  proof (cases "matching (map share_row ss) r")
    case Nil
    then show ?thesis using matching_none [of "map share_row ss" r] by (simp add: share_of_iff)
  next
    case (Cons own owns)
    then show ?thesis using matching_mem [OF Cons] pick [of own owns] by (auto simp: share_of_iff)
  qed
  have "list_all2 (\<lambda>r r'. if \<exists>own. share_of ss r own then share_of ss r (rp_ownership r') \<and> r' = r\<lparr>rp_ownership := rp_ownership r', rp_updated := now\<rparr>
                           else r' = r) rs (map ?upd rs)" for rs
    unfolding list.rel_map by (rule list.rel_refl) (rule one)
  then show ?thesis unfolding t1 t2 by (simp add: GetSplitById_update UpdateSplitShares_query_def)
qed

text \<open>A table with one split and its two recipients.\<close>

definition sample_splits :: split_tables where
  "sample_splits = no_splits\<lparr>sx_splits := [new_split 1 (api_params ''s1'' (Some ''A'') None None)],
     sx_recipients := [\<lparr>rp_id = ''r1'', rp_updated = 1, rp_deleted = False, rp_split = ''s1'', rp_address = ''0xa'', rp_ownership = 60\<rparr>,
                       \<lparr>rp_id = ''r2'', rp_updated = 1, rp_deleted = False, rp_split = ''s1'', rp_address = ''0xb'', rp_ownership = 40\<rparr>]\<rparr>"

theorem split_updates_effect_witness:
  "GetSplitById ''s1'' (sx_splits (snd (UpdateSplitInfo no_check 7 ''s1'' (Some ''B'') None None sample_splits))) =
     map_option (set_info 7 (Some ''B'') None None) (GetSplitById ''s1'' (sx_splits sample_splits)) \<and>
   map rp_ownership (sx_recipients (snd (UpdateSplitShares no_check hd 7
      [\<lparr>si_split = ''s1'', si_address = ''0xb'', si_ownership = 4294967396\<rparr>] sample_splits))) = [60, 100]"
proof
  have "UpdateSplitInfo no_check 7 ''s1'' (Some ''B'') None None sample_splits =
      (Ok (), snd (UpdateSplitInfo no_check 7 ''s1'' (Some ''B'') None None sample_splits))" by code_simp
  moreover have "UpdateSplitShares no_check hd 7 [] sample_splits = (Ok (), snd (UpdateSplitShares no_check hd 7 [] sample_splits))"
    by code_simp
  ultimately show "GetSplitById ''s1'' (sx_splits (snd (UpdateSplitInfo no_check 7 ''s1'' (Some ''B'') None None sample_splits))) =
     map_option (set_info 7 (Some ''B'') None None) (GetSplitById ''s1'' (sx_splits sample_splits))"
    using split_updates_effect [of hd no_check 7 "''s1''" "Some ''B''" None None sample_splits _ no_check "[]" _ "''s1''"] by simp
qed code_simp

end
