(* ===== verification/Pool_Tokens.thy ===== *)
theory Pool_Tokens
  imports Splits Events Authenticators "HOL-Library.AList" "HOL-Library.Product_Lexorder"
begin

text \<open>
  Token transfers on their way to the pools: the Alchemy webhook of service/persist/alchemy.go and streamer/process.go,
  the task of tokenprocessing/process.go, and what service/multichain/multichain.go and
  service/multichain/operation/operation.go write. The database is an argument with its answers: PostgreSQL rejects the
  statements in question, which name types, tables and columns that no migration creates, so that nothing here rests on
  what they would do. Maps are association lists, and their iteration order is an argument.
\<close>

section \<open>The webhook\<close>

record AlchemyActivityItem =
  ai_from :: Address
  ai_to :: Address
  ai_value :: HexString
  ai_contract :: Address

record AlchemyActivityEvent =
  ae_network :: Chain
  ae_activity :: "AlchemyActivityItem list"

definition network_chain :: "string \<Rightarrow> Chain \<Rightarrow> Chain" where
  "network_chain network old =
     (if network = ''ETH_MAINNET'' then ChainETH
      else if network = ''MATIC_MAINNET'' then ChainPolygon
      else if network = ''ARB_MAINNET'' then ChainArbitrum
      else if network = ''OPT_MAINNET'' then ChainOptimism
      else if network = ''BASE_MAINNET'' then ChainBase
      else if network = ''ETH_SEPOLIA'' then ChainSepolia
      else old)"

text \<open>
  The field \<open>network\<close> of the outer struct hides the one of the embedded alias; \<open>items\<close> is how the decoder reads the
  list of activities.
\<close>

fun Alchemy_UnmarshalJSON ::
  "(json \<Rightarrow> (string, AlchemyActivityItem list) outcome) \<Rightarrow> json \<Rightarrow> AlchemyActivityEvent \<Rightarrow> (string, AlchemyActivityEvent) outcome" where
  "Alchemy_UnmarshalJSON items JNull e = Ok (e\<lparr>ae_network := network_chain [] (ae_network e)\<rparr>)"
| "Alchemy_UnmarshalJSON items (JObject fs) e =
     bind_o (case json_field ''network'' fs of Some v \<Rightarrow> unmarshal_string v [] | None \<Rightarrow> Ok []) (\<lambda>network.
     bind_o (case json_field ''activity'' fs of Some v \<Rightarrow> items v | None \<Rightarrow> Ok (ae_activity e)) (\<lambda>activity.
       Ok \<lparr>ae_network = network_chain network (ae_network e), ae_activity = activity\<rparr>))"
| "Alchemy_UnmarshalJSON items _ e = Err ''cannot unmarshal into Go value of type struct''"

text \<open>Written with the decimal chain under a name of its own, and with the fields of the alias.\<close>

definition Alchemy_MarshalJSON :: "(AlchemyActivityItem list \<Rightarrow> json) \<Rightarrow> AlchemyActivityEvent \<Rightarrow> json" where
  "Alchemy_MarshalJSON items e =
     JObject [(''fooStatus'', JString (itoa (ae_network e))), (''network'', JNum (ae_network e)), (''activity'', items (ae_activity e))]"

record TokenTransfer =
  tt_from :: Address
  tt_to :: Address
  tt_token :: TokenChainAddress
  tt_amount :: HexString

datatype response = Success int | Failure int string

text \<open>The streamer answers before the task is created; an error of the task client is only reported.\<close>

definition processTokenTransfer :: "(string, AlchemyActivityEvent) outcome \<Rightarrow> (string, response \<times> TokenTransfer list option) outcome" where
  "processTokenTransfer bound =
     (case bound of
        Panic p \<Rightarrow> Panic p
      | Err e \<Rightarrow> Ok (Failure 200 e, None)
      | Ok event \<Rightarrow> Ok (Success 200, Some (map (\<lambda>i.
          \<lparr>tt_from = ai_from i, tt_to = ai_to i, tt_token = NewTokenChainAddress (ai_contract i) (ae_network event),
           tt_amount = ai_value i\<rparr>) (ae_activity event))))"

section \<open>Metadata and balances for the database\<close>

record TokenMetadata =
  tm_symbol :: "string option"
  tm_name :: "string option"
  tm_logo :: "string option"
  tm_thumbnail :: "string option"
  tm_chain :: Chain
  tm_contract :: Address

definition zero_metadata :: TokenMetadata where
  "zero_metadata = \<lparr>tm_symbol = None, tm_name = None, tm_logo = None, tm_thumbnail = None, tm_chain = 0, tm_contract = []\<rparr>"

record ChainAgnosticTokenMetadata =
  am_symbol :: string
  am_name :: string
  am_thumbnail :: string
  am_logo :: string
  am_contract :: Address

definition null_text :: "string option \<Rightarrow> string" where
  "null_text s = (case s of Some x \<Rightarrow> x | None \<Rightarrow> [])"

definition mergeTokenMetadatas :: "TokenMetadata \<Rightarrow> TokenMetadata \<Rightarrow> TokenMetadata" where
  "mergeTokenMetadatas a b =
     a\<lparr>tm_name := to_null (FirstNonEmptyString [null_text (tm_name a), null_text (tm_name b)]) True,
       tm_symbol := to_null (FirstNonEmptyString [null_text (tm_symbol a), null_text (tm_symbol b)]) True,
       tm_logo := to_null (FirstNonEmptyString [null_text (tm_logo a), null_text (tm_logo b)]) True,
       tm_thumbnail := to_null (FirstNonEmptyString [null_text (tm_thumbnail a), null_text (tm_thumbnail b)]) True,
       tm_contract := FirstNonEmptyString [tm_contract a, tm_contract b]\<rparr>"

definition upsertable :: "Chain \<Rightarrow> ChainAgnosticTokenMetadata \<Rightarrow> TokenMetadata" where
  "upsertable chain m =
     \<lparr>tm_symbol = to_null (am_symbol m) True, tm_name = to_null (am_name m) True, tm_logo = to_null (am_logo m) True,
      tm_thumbnail = to_null (am_thumbnail m) True, tm_chain = chain, tm_contract = NormalizeAddress chain (am_contract m)\<rparr>"

definition merge_into :: "Chain \<Rightarrow> ChainAgnosticTokenMetadata \<Rightarrow> (Address \<times> TokenMetadata) list \<Rightarrow> (Address \<times> TokenMetadata) list" where
  "merge_into chain m result =
     (let key = NormalizeAddress chain (am_contract m);
          old = (case map_of result key of Some x \<Rightarrow> x | None \<Rightarrow> zero_metadata)
      in AList.update key (mergeTokenMetadatas old (upsertable chain m)) result)"

definition chainMetadatasToUpsertableMetadatas ::
  "(TokenMetadata list \<Rightarrow> TokenMetadata list) \<Rightarrow> Chain \<Rightarrow> ChainAgnosticTokenMetadata list \<Rightarrow> TokenMetadata list" where
  "chainMetadatasToUpsertableMetadatas order chain metadatas = order (map snd (fold (merge_into chain) metadatas []))"

record UpsertTokenMetadatasParams =
  um_ids :: "string list"
  um_names :: "string list"
  um_symbols :: "string list"
  um_chains :: "Chain list"
  um_logos :: "string list"
  um_thumbnails :: "string list"
  um_contracts :: "Address list"

definition metadata_params :: "(nat \<Rightarrow> string) \<Rightarrow> TokenMetadata list \<Rightarrow> UpsertTokenMetadatasParams" where
  "metadata_params newID tokens =
     (let ts = sort_key (\<lambda>t. (tm_chain t, tm_contract t)) tokens in
      \<lparr>um_ids = map newID [0..<length ts], um_names = map (null_text \<circ> tm_name) ts, um_symbols = map (null_text \<circ> tm_symbol) ts,
       um_chains = map tm_chain ts, um_logos = map (null_text \<circ> tm_logo) ts, um_thumbnails = map (null_text \<circ> tm_thumbnail) ts,
       um_contracts = map tm_contract ts\<rparr>)"

record Token =
  tk_version :: "int option"
  tk_chain :: Chain
  tk_address :: Address
  tk_owner :: Address
  tk_balance :: HexString

definition zero_token :: Token where
  "zero_token = \<lparr>tk_version = None, tk_chain = 0, tk_address = [], tk_owner = [], tk_balance = []\<rparr>"

definition excludeZeroQuantityTokens :: "Token list \<Rightarrow> Token list" where
  "excludeZeroQuantityTokens tokens = filter (\<lambda>t. \<not> (tk_balance t = [] \<or> tk_balance t = ''0'')) tokens"

record UpsertTokensParams =
  ut_ids :: "string list"
  ut_versions :: "int list"
  ut_chains :: "Chain list"
  ut_tokens :: "Address list"
  ut_owners :: "Address list"
  ut_balances :: "string list"

definition token_params :: "(nat \<Rightarrow> string) \<Rightarrow> Token list \<Rightarrow> UpsertTokensParams" where
  "token_params newID tokens =
     (let ts = sort_key (\<lambda>t. (tk_owner t, tk_chain t, tk_address t)) tokens in
      \<lparr>ut_ids = map newID [0..<length ts], ut_versions = map (\<lambda>t. case tk_version t of Some v \<Rightarrow> v | None \<Rightarrow> 0) ts,
       ut_chains = map tk_chain ts, ut_tokens = map tk_address ts, ut_owners = map tk_owner ts,
       ut_balances = map (HexString_String \<circ> tk_balance) ts\<rparr>)"

text \<open>Postgres indices: 1-based ranges of consecutive lists, as 32-bit integers.\<close>

definition appendIndices :: "int list \<times> int list \<Rightarrow> nat \<Rightarrow> int list \<times> int list" where
  "appendIndices idx entryLength =
     (let (starts, ends) = idx;
          startIndex = (if ends \<noteq> [] then int32_of (last ends + 1) else 1)
      in (starts @ [startIndex], ends @ [int32_of (int32_of (startIndex + int32_of (int entryLength)) - 1)]))"

definition appendDBIDList :: "string list \<times> int list \<times> int list \<Rightarrow> string list \<Rightarrow> string list \<times> int list \<times> int list" where
  "appendDBIDList dest src = (fst dest @ src, appendIndices (snd dest) (length src))"

section \<open>The database's answers\<close>

record pool_row =
  pr_chain :: Chain
  pr_token :: Address
  pr_owner :: Address
  pr_balance :: HexString

datatype pool_value =
    PoolID ChainAddress
  | PoolAddresses "Address list"
  | PoolChains "Chain list"
  | PoolBalances "HexString list"

datatype pool_error = PoolNoRows | PoolError string

record token_details =
  td_id :: string
  td_token :: Token
  td_metadata :: TokenMetadata

record 'd pool_env =
  pe_check :: "pool_value \<Rightarrow> string \<Rightarrow> string option"
  pe_newID :: "nat \<Rightarrow> string"
  pe_split :: "Address \<Rightarrow> Chain \<Rightarrow> 'd \<Rightarrow> (pool_error, Split) outcome"
  pe_pool_tokens :: "Address list \<Rightarrow> Address list \<Rightarrow> Chain list \<Rightarrow> 'd \<Rightarrow> (pool_error, pool_row list) outcome"
  pe_metadatas :: "Address list \<Rightarrow> Chain list \<Rightarrow> 'd \<Rightarrow> (pool_error, TokenMetadata list) outcome"
  pe_upsert_metadatas :: "UpsertTokenMetadatasParams \<Rightarrow> 'd \<Rightarrow> (pool_error, (TokenMetadata \<times> bool) list) outcome \<times> 'd"
  pe_upsert_tokens :: "UpsertTokensParams \<Rightarrow> 'd \<Rightarrow> (pool_error, token_details list) outcome \<times> 'd"
  pe_order_chains :: "(Chain \<times> Address list) list \<Rightarrow> (Chain \<times> Address list) list"
  pe_order_metadatas :: "TokenMetadata list \<Rightarrow> TokenMetadata list"
  pe_order_tokens :: "(TokenChainAddress \<times> HexString) list \<Rightarrow> (TokenChainAddress \<times> HexString) list"
  pe_order_owners :: "(ChainAddress \<times> (TokenChainAddress \<times> HexString) list) list \<Rightarrow> (ChainAddress \<times> (TokenChainAddress \<times> HexString) list) list"
  pe_seen :: "nat \<Rightarrow> nat"

definition InsertTokenMetadatas ::
  "'d pool_env \<Rightarrow> TokenMetadata list \<Rightarrow> 'd \<Rightarrow> (pool_error, TokenMetadata list \<times> bool list) outcome \<times> 'd" where
  "InsertTokenMetadatas env tokens db =
     (case pe_upsert_metadatas env (metadata_params (pe_newID env) tokens) db of
        (r, db1) \<Rightarrow> (map_o (\<lambda>added. (map fst added, map snd added)) r, db1))"

definition InsertTokens :: "'d pool_env \<Rightarrow> Token list \<Rightarrow> 'd \<Rightarrow> (pool_error, token_details list) outcome \<times> 'd" where
  "InsertTokens env tokens db =
     (let ts = excludeZeroQuantityTokens tokens in
      if ts = [] then (Ok [], db) else pe_upsert_tokens env (token_params (pe_newID env) ts) db)"

definition addPoolTokensWithMetadatas ::
  "'d pool_env \<Rightarrow> Token list \<Rightarrow> TokenMetadata list \<Rightarrow> 'd \<Rightarrow> (pool_error, token_details list) outcome \<times> 'd" where
  "addPoolTokensWithMetadatas env tokensToAdd metadatasToAdd db =
     (case InsertTokenMetadatas env metadatasToAdd db of
        (Err e, db1) \<Rightarrow> (Err e, db1)
      | (Panic p, db1) \<Rightarrow> (Panic p, db1)
      | (Ok _, db1) \<Rightarrow> InsertTokens env tokensToAdd db1)"

section \<open>Updating the tokens of a pool\<close>

text \<open>Nothing ever enters \<open>metadataMap\<close>, so that every token counts as missing.\<close>

fun missing_by_chain :: "(Address \<times> Chain) list \<Rightarrow> (Chain \<times> Address list) list \<Rightarrow> (Chain \<times> Address list) list" where
  "missing_by_chain [] missing = missing"
| "missing_by_chain ((a, c) # ts) missing =
     missing_by_chain ts (AList.update c ((case map_of missing c of Some ids \<Rightarrow> ids | None \<Rightarrow> []) @ [a]) missing)"

type_synonym metadata_fetcher = "Address list \<Rightarrow> (string, ChainAgnosticTokenMetadata list) outcome"

text \<open>\<open>common.TokenMetadataFetcher\<close> is implemented by no provider.\<close>

fun as_TokenMetadataFetcher :: "provider \<Rightarrow> metadata_fetcher option" where
  "as_TokenMetadataFetcher EthereumProvider = None"
| "as_TokenMetadataFetcher OptimismProvider = None"
| "as_TokenMetadataFetcher ArbitrumProvider = None"
| "as_TokenMetadataFetcher BaseProvider = None"
| "as_TokenMetadataFetcher PolygonProvider = None"

definition fetch_missing ::
  "(Chain \<rightharpoonup> provider) \<Rightarrow> (TokenMetadata list \<Rightarrow> TokenMetadata list) \<Rightarrow> Split \<Rightarrow> Chain \<Rightarrow> Address list \<Rightarrow> (pool_error, TokenMetadata list) outcome" where
  "fetch_missing providers order pool tChain ids =
     (case Option.bind (providers tChain) as_TokenMetadataFetcher of
        None \<Rightarrow> Err (PoolError (''multichain is not configured to fetch unchecked tokens for chain='' @ itoa tChain))
      | Some fetch \<Rightarrow>
          bind_o (map_err PoolError (to_l1 (sp_chain pool))) (\<lambda>l1.
          bind_o (map_err PoolError (to_l1 tChain)) (\<lambda>l1'.
            if l1 \<noteq> l1' then Err (PoolError ''address is not owned by user'')
            else bind_o (map_err PoolError (fetch ids)) (\<lambda>ms.
              if ms = [] then Err (PoolError ''failed to fetch token'')
              else Ok (chainMetadatasToUpsertableMetadatas order tChain ms)))))"

definition tokens_to_add :: "ChainAddress \<Rightarrow> Address list \<Rightarrow> Chain list \<Rightarrow> HexString list \<Rightarrow> Token list" where
  "tokens_to_add poolID tokenAddresses tokenChains newBalances =
     replicate (length tokenAddresses) zero_token @
     map (\<lambda>((a, c), b). \<lparr>tk_version = None, tk_chain = c, tk_address = a, tk_owner = ca_address poolID, tk_balance = b\<rparr>)
       (zip (zip tokenAddresses tokenChains) newBalances)"

text \<open>What the checks and the providers yield: the metadata to add, after as many zero values as are missing.\<close>

definition metadatas_to_add ::
  "'d pool_env \<Rightarrow> (Chain \<rightharpoonup> provider) \<Rightarrow> ChainAddress \<Rightarrow> Address list \<Rightarrow> Chain list \<Rightarrow> HexString list \<Rightarrow> 'd \<Rightarrow>
   (pool_error, TokenMetadata list) outcome" where
  "metadatas_to_add env providers poolID tokenAddresses tokenChains newBalances db =
     bind_o (pe_split env (ca_address poolID) (ca_chain poolID) db) (\<lambda>pool.
     bind_o (pe_metadatas env tokenAddresses tokenChains db) (\<lambda>existing.
       if length tokenAddresses < length existing then Panic ''makeslice: len out of range''
       else if length tokenChains < length tokenAddresses then Panic ''index out of range''
       else bind_o (mapM_o (\<lambda>(c, ids). fetch_missing providers (pe_order_metadatas env) pool c ids)
                      (pe_order_chains env (missing_by_chain (zip tokenAddresses tokenChains) [])))
         (\<lambda>new. if length newBalances < length tokenAddresses then Panic ''index out of range''
            else Ok (replicate (length tokenAddresses - length existing) zero_metadata @ concat new))))"

definition pool_inputs :: "ChainAddress \<Rightarrow> Address list \<Rightarrow> Chain list \<Rightarrow> HexString list \<Rightarrow> (string \<times> pool_value \<times> string) list" where
  "pool_inputs poolID tokenAddresses tokenChains newBalances =
     (let len = ''len='' @ itoa (int (length tokenAddresses)) @ '',dive,gt=0'' in
      [(''poolID'', PoolID poolID, ''required''), (''tokenAddresses'', PoolAddresses tokenAddresses, ''required,gt=0,unique''),
       (''tokenChains'', PoolChains tokenChains, len), (''newBalances'', PoolBalances newBalances, len)])"

definition UpdateTokensForPoolUnchecked ::
  "'d pool_env \<Rightarrow> (Chain \<rightharpoonup> provider) \<Rightarrow> ChainAddress \<Rightarrow> Address list \<Rightarrow> Chain list \<Rightarrow> HexString list \<Rightarrow> 'd \<Rightarrow>
   (pool_error, token_details list) outcome \<times> 'd" where
  "UpdateTokensForPoolUnchecked env providers poolID tokenAddresses tokenChains newBalances db =
     (case ValidateFields (pe_check env) (pool_inputs poolID tokenAddresses tokenChains newBalances) of
        Some e \<Rightarrow> (Err (PoolError ''invalid input''), db)
      | None \<Rightarrow>
          (case metadatas_to_add env providers poolID tokenAddresses tokenChains newBalances db of
             Err e \<Rightarrow> (Err e, db)
           | Panic p \<Rightarrow> (Panic p, db)
           | Ok metadatas \<Rightarrow>
               addPoolTokensWithMetadatas env (tokens_to_add poolID tokenAddresses tokenChains newBalances) metadatas db))"

section \<open>The transfer task\<close>

type_synonym balances = "(ChainAddress \<times> (TokenChainAddress \<times> HexString) list) list"

text \<open>The inner maps are never made: an assignment into one panics.\<close>

definition store_balance :: "pool_row \<Rightarrow> balances \<Rightarrow> (string, balances) outcome" where
  "store_balance b m =
     bind_o (NewChainAddress (pr_owner b) (pr_chain b)) (\<lambda>owner.
       case map_of m owner of
         None \<Rightarrow> Panic ''assignment to entry in nil map''
       | Some tokens \<Rightarrow>
           Ok (AList.update owner (AList.update (NewTokenChainAddress (pr_token b) (pr_chain b)) (pr_balance b) tokens) m))"

fun store_balances :: "pool_row list \<Rightarrow> balances \<Rightarrow> (string, balances) outcome" where
  "store_balances [] m = Ok m"
| "store_balances (b # bs) m = bind_o (store_balance b m) (store_balances bs)"

text \<open>The sum for the receiver is computed and dropped.\<close>

definition apply_transfer :: "TokenTransfer \<Rightarrow> balances \<Rightarrow> (string, balances) outcome" where
  "apply_transfer t m =
     bind_o (NewChainAddress (tt_from t) (tca_chain (tt_token t))) (\<lambda>from_address.
     bind_o (NewChainAddress (tt_to t) (tca_chain (tt_token t))) (\<lambda>to_address.
       case map_of m from_address of
         None \<Rightarrow> Ok m
       | Some tokens \<Rightarrow>
           let old = (case map_of tokens (tt_token t) of Some b \<Rightarrow> b | None \<Rightarrow> [])
           in Ok (AList.update from_address (AList.update (tt_token t) (HexString_Sub old (tt_amount t)) tokens) m)))"

fun apply_transfers :: "TokenTransfer list \<Rightarrow> balances \<Rightarrow> (string, balances) outcome" where
  "apply_transfers [] m = Ok m"
| "apply_transfers (t # ts) m = bind_o (apply_transfer t m) (apply_transfers ts)"

definition token_event :: "string \<Rightarrow> token_details \<Rightarrow> db_event" where
  "token_event newID t =
     \<lparr>de_id = newID, de_actor = None, de_resource = ResourceTypeToken, de_subject = td_id t, de_user = [], de_action = [], de_split = [],
      de_external = None, de_caption = None, de_group = None\<rparr>"

record 'd task_result =
  tr_responses :: "response list"
  tr_events :: "db_event list"
  tr_panic :: "string option"
  tr_db :: 'd

text \<open>One goroutine. The slices already have a zero value per token when the tokens are appended.\<close>

definition process_owner ::
  "'d pool_env \<Rightarrow> ChainAddress \<times> (TokenChainAddress \<times> HexString) list \<Rightarrow> 'd task_result \<Rightarrow> 'd task_result" where
  "process_owner env entry r =
     (let owner = fst entry; ts = pe_order_tokens env (snd entry); k = length ts in
      case UpdateTokensForPoolUnchecked env newProviderLookup owner (replicate k [] @ map (tca_address \<circ> fst) ts)
             (replicate k 0 @ map (tca_chain \<circ> fst) ts) (replicate k [] @ map snd ts) (tr_db r) of
        (Err e, db) \<Rightarrow> r\<lparr>tr_responses := tr_responses r @ [Failure 500 (case e of PoolError x \<Rightarrow> x | PoolNoRows \<Rightarrow> ''no rows in result set'')],
                       tr_db := db\<rparr>
      | (Panic p, db) \<Rightarrow> r\<lparr>tr_panic := Some p, tr_db := db\<rparr>
      | (Ok updated, db) \<Rightarrow>
          r\<lparr>tr_events := tr_events r @ map (token_event (pe_newID env 0))
                (filter (\<lambda>t. 0 < HexString_BigInt (tk_balance (td_token t))) updated),
            tr_db := db\<rparr>)"

text \<open>
  The goroutines share the loop's variables (Go 1.19): the \<open>i\<close>-th sees the entry that \<open>pe_seen\<close> says. They are
  modelled one after the other. A panic in one is raised again by \<open>Wait\<close>.
\<close>

definition process_owners :: "'d pool_env \<Rightarrow> balances \<Rightarrow> 'd task_result \<Rightarrow> 'd task_result" where
  "process_owners env m r0 =
     (let entries = pe_order_owners env m;
          r = fold (\<lambda>i. process_owner env (entries ! pe_seen env i)) [0..<length m] r0
      in if tr_panic r = None then r\<lparr>tr_responses := tr_responses r @ [Success 200]\<rparr> else r)"

definition with_balances :: "'d pool_env \<Rightarrow> TokenTransfer list \<Rightarrow> pool_row list \<Rightarrow> 'd task_result \<Rightarrow> 'd task_result" where
  "with_balances env transfers rows r0 =
     (case bind_o (store_balances rows []) (apply_transfers transfers) of
        Panic p \<Rightarrow> r0\<lparr>tr_panic := Some p\<rparr>
      | Err e \<Rightarrow> r0\<lparr>tr_panic := Some e\<rparr>
      | Ok m \<Rightarrow> process_owners env m r0)"

definition processTokenTransfers :: "'d pool_env \<Rightarrow> (string, TokenTransfer list) outcome \<Rightarrow> 'd \<Rightarrow> 'd task_result" where
  "processTokenTransfers env bound db =
     (let none = \<lparr>tr_responses = [], tr_events = [], tr_panic = None, tr_db = db\<rparr> in
      case bound of
        Panic p \<Rightarrow> none\<lparr>tr_panic := Some p\<rparr>
      | Err e \<Rightarrow> none\<lparr>tr_responses := [Failure 200 e]\<rparr>
      | Ok transfers \<Rightarrow>
          (case pe_pool_tokens env (concat (map (\<lambda>t. [tt_from t, tt_to t]) transfers))
                  (concat (map (\<lambda>t. [tca_address (tt_token t), tca_address (tt_token t)]) transfers))
                  (concat (map (\<lambda>t. [tca_chain (tt_token t), tca_chain (tt_token t)]) transfers)) db of
             Panic p \<Rightarrow> none\<lparr>tr_panic := Some p\<rparr>
           | Err (PoolError e) \<Rightarrow> none\<lparr>tr_responses := [Failure 500 e]\<rparr>
           | Err PoolNoRows \<Rightarrow> with_balances env transfers [] none
           | Ok rows \<Rightarrow> with_balances env transfers rows none))"

end
