(* ===== verification/Pool_Props.thy ===== *)
theory Pool_Props
  imports Pool_Tokens "HOL-Library.Multiset"
begin

text \<open>What becomes of the token transfers that the webhook reports, and of the metadata of tokens.\<close>

section \<open>The first of several texts\<close>

lemma first_nonempty_append: "FirstNonEmptyString (xs @ ys) = FirstNonEmptyString [FirstNonEmptyString xs, FirstNonEmptyString ys]"
  by (induction xs) (auto simp: FirstNonEmptyString_def find_Some_iff split: option.splits)

lemma first_nonempty_single [simp]: "FirstNonEmptyString [x] = x"
  by (simp add: FirstNonEmptyString_def)

lemma null_text_to_null [simp]: "null_text (to_null s True) = s"
  by (simp add: null_text_def to_null_def)

text \<open>The reference: the first text that is not empty, of all the metadata of an address.\<close>

definition merged_metadata :: "Chain \<Rightarrow> Address \<Rightarrow> ChainAgnosticTokenMetadata list \<Rightarrow> TokenMetadata" where
  "merged_metadata chain a ms =
     (let same = filter (\<lambda>m. NormalizeAddress chain (am_contract m) = a) ms;
          text = (\<lambda>f. to_null (FirstNonEmptyString (map f same)) True)
      in \<lparr>tm_symbol = text am_symbol, tm_name = text am_name, tm_logo = text am_logo, tm_thumbnail = text am_thumbnail,
          tm_chain = 0, tm_contract = a\<rparr>)"

lemma merged_metadata_none:
  "\<forall>m\<in>set ms. NormalizeAddress chain (am_contract m) \<noteq> a \<Longrightarrow>
   mergeTokenMetadatas zero_metadata x = mergeTokenMetadatas ((merged_metadata chain a ms)\<lparr>tm_contract := []\<rparr>) x"
proof -
  assume "\<forall>m\<in>set ms. NormalizeAddress chain (am_contract m) \<noteq> a"
  then have "filter (\<lambda>m. NormalizeAddress chain (am_contract m) = a) ms = []" by (simp add: filter_empty_conv)
  then show ?thesis
    by (simp add: merged_metadata_def mergeTokenMetadatas_def zero_metadata_def FirstNonEmptyString_def null_text_def to_null_def)
qed

lemma merge_step:
  assumes "NormalizeAddress chain (am_contract m) = a"
  shows "mergeTokenMetadatas (merged_metadata chain a ms) (upsertable chain m) = merged_metadata chain a (ms @ [m])"
    and "mergeTokenMetadatas ((merged_metadata chain a ms)\<lparr>tm_contract := []\<rparr>) (upsertable chain m) = merged_metadata chain a (ms @ [m])"
proof -
  have "FirstNonEmptyString [a, a] = a" "FirstNonEmptyString [[], a] = a" by (simp_all add: FirstNonEmptyString_def)
  moreover have "FirstNonEmptyString (map f (filter P ms) @ [f m]) = FirstNonEmptyString [FirstNonEmptyString (map f (filter P ms)), f m]"
    for f :: "ChainAgnosticTokenMetadata \<Rightarrow> string" and P
    using first_nonempty_append [of "map f (filter P ms)" "[f m]"] by simp
  ultimately show "mergeTokenMetadatas (merged_metadata chain a ms) (upsertable chain m) = merged_metadata chain a (ms @ [m])"
    "mergeTokenMetadatas ((merged_metadata chain a ms)\<lparr>tm_contract := []\<rparr>) (upsertable chain m) = merged_metadata chain a (ms @ [m])"
    using assms by (simp_all add: mergeTokenMetadatas_def merged_metadata_def upsertable_def Let_def)
qed

definition addresses :: "Chain \<Rightarrow> ChainAgnosticTokenMetadata list \<Rightarrow> Address set" where
  "addresses chain ms = (\<lambda>m. NormalizeAddress chain (am_contract m)) ` set ms"

lemma addresses_snoc: "addresses chain (ms @ [m]) = insert (NormalizeAddress chain (am_contract m)) (addresses chain ms)"
  by (auto simp: addresses_def)

lemma merged_other: "NormalizeAddress chain (am_contract m) \<noteq> a \<Longrightarrow> merged_metadata chain a (ms @ [m]) = merged_metadata chain a ms"
  by (simp add: merged_metadata_def)

text \<open>The invariant of the loop: the map holds the merged metadata of each address seen.\<close>

lemma merge_loop:
  "map_of (fold (merge_into chain) ms []) a = (if a \<in> addresses chain ms then Some (merged_metadata chain a ms) else None)"
proof (induction ms arbitrary: a rule: rev_induct)
  case (snoc m ms)
  let ?key = "NormalizeAddress chain (am_contract m)"
  let ?r = "fold (merge_into chain) ms []"
  have "mergeTokenMetadatas (case map_of ?r ?key of Some x \<Rightarrow> x | None \<Rightarrow> zero_metadata) (upsertable chain m) =
      merged_metadata chain ?key (ms @ [m])"
  proof (cases "?key \<in> addresses chain ms")
    case True
    then show ?thesis by (simp add: snoc.IH merge_step(1))
  next
    case False
    then have "\<forall>x\<in>set ms. NormalizeAddress chain (am_contract x) \<noteq> ?key" by (auto simp: addresses_def image_iff)
    from merged_metadata_none [OF this] False show ?thesis by (simp add: snoc.IH merge_step(2))
  qed
  then have "map_of (fold (merge_into chain) (ms @ [m]) []) a =
      (if a = ?key then Some (merged_metadata chain ?key (ms @ [m])) else map_of ?r a)"
    by (simp add: merge_into_def Let_def update_conv')
  then show ?case by (auto simp: snoc.IH addresses_snoc merged_other)
qed (simp add: addresses_def)

lemma merge_distinct: "distinct (map fst (fold (merge_into chain) ms []))"
  by (induction ms rule: rev_induct) (simp_all add: merge_into_def Let_def distinct_update)

lemma merge_loop_values:
  "set (map snd (fold (merge_into chain) ms [])) = (\<lambda>a. merged_metadata chain a ms) ` addresses chain ms"
proof -
  let ?r = "fold (merge_into chain) ms []"
  have "(a, x) \<in> set ?r \<longleftrightarrow> map_of ?r a = Some x" for a x by (simp add: merge_distinct)
  then have "(a, x) \<in> set ?r \<longleftrightarrow> a \<in> addresses chain ms \<and> x = merged_metadata chain a ms" for a x by (auto simp: merge_loop)
  then have "set ?r = (\<lambda>a. (a, merged_metadata chain a ms)) ` addresses chain ms" by auto
  then show ?thesis by (simp add: image_image)
qed

lemma merged_contract [simp]: "tm_contract (merged_metadata chain a ms) = a" "tm_chain (merged_metadata chain a ms) = 0"
  by (simp_all add: merged_metadata_def Let_def)

lemma merge_loop_contracts: "map tm_contract (map snd (fold (merge_into chain) ms [])) = map fst (fold (merge_into chain) ms [])"
proof -
  let ?r = "fold (merge_into chain) ms []"
  have "tm_contract (snd e) = fst e" if "e \<in> set ?r" for e
  proof -
    have "map_of ?r (fst e) = Some (snd e)" using that merge_distinct [of chain ms] by simp
    then have "snd e = merged_metadata chain (fst e) ms" by (simp add: merge_loop split: if_splits)
    then show ?thesis by simp
  qed
  then show ?thesis by simp
qed

lemma sort_key_canonical:
  assumes "mset xs = mset ys" "inj_on f (set xs)"
  shows "sort_key f xs = sort_key f ys"
proof (rule properties_for_sort_key)
  show "mset (sort_key f ys) = mset xs" using assms(1) by simp
  show "filter (\<lambda>x. f k = f x) (sort_key f ys) = filter (\<lambda>x. f k = f x) xs" if k: "k \<in> set (sort_key f ys)" for k
  proof -
    have kx: "k \<in> set xs" and set: "set ys = set xs" using k mset_eq_setD [OF assms(1)] by simp_all
    have only: "filter (\<lambda>x. f k = f x) zs = filter ((=) k) zs" if "set zs = set xs" for zs
      by (rule filter_cong) (use assms(2) kx that in \<open>auto dest: inj_onD\<close>)
    have "filter ((=) k) zs = replicate (count (mset zs) k) k" for zs by (induction zs) auto
    with only show ?thesis using set assms(1) by simp
  qed
  show "sorted (map f (sort_key f ys))" by simp
qed


section \<open>The webhook\<close>

lemma alchemy_json_not_read_back:
  "Alchemy_UnmarshalJSON items (Alchemy_MarshalJSON wr e) e0 = Err ''cannot unmarshal into string''"
  by (simp add: Alchemy_MarshalJSON_def)

lemma unknown_network_is_ethereum:
  "network \<notin> set [''ETH_MAINNET'', ''MATIC_MAINNET'', ''ARB_MAINNET'', ''OPT_MAINNET'', ''BASE_MAINNET'', ''ETH_SEPOLIA''] \<Longrightarrow>
   Alchemy_UnmarshalJSON items (JObject [(''network'', JString network)]) \<lparr>ae_network = 0, ae_activity = []\<rparr> =
     Ok \<lparr>ae_network = ChainETH, ae_activity = []\<rparr>"
  by (simp add: network_chain_def ChainETH_def)

section \<open>Transfers\<close>

lemma store_balances_empty: "\<exists>p. store_balances (b # bs) [] = Panic p"
  by (cases "NewChainAddress (pr_owner b) (pr_chain b)")
     (auto simp: store_balance_def NewChainAddress_def ca_updateCasing_def to_l1_def split: option.splits)

lemma apply_transfers_empty: "apply_transfers ts [] = Ok [] \<or> (\<exists>p. apply_transfers ts [] = Panic p)"
proof (induction ts)
  case (Cons t ts)
  have "apply_transfer t [] = Ok [] \<or> (\<exists>p. apply_transfer t [] = Panic p)"
    by (auto simp: apply_transfer_def NewChainAddress_def ca_updateCasing_def to_l1_def split: option.splits)
  with Cons show ?case by auto
qed simp

lemma balances_stay_empty:
  "bind_o (store_balances rows []) (apply_transfers ts) = Ok [] \<or> (\<exists>p. bind_o (store_balances rows []) (apply_transfers ts) = Panic p)"
proof (cases rows)
  case Nil
  then show ?thesis using apply_transfers_empty by simp
next
  case (Cons b bs)
  obtain p where "store_balances (b # bs) [] = Panic p" using store_balances_empty by blast
  then show ?thesis by (simp add: Cons del: store_balances.simps)
qed

lemma no_fetcher: "Option.bind (newProviderLookup c) as_TokenMetadataFetcher = None"
proof -
  have "as_TokenMetadataFetcher p = None" for p by (cases p) simp_all
  then show ?thesis by (cases "newProviderLookup c") simp_all
qed

lemma fetch_missing_fails: "\<exists>e. fetch_missing newProviderLookup order pool c ids = Err (PoolError e)"
  by (simp add: fetch_missing_def no_fetcher)

lemma missing_by_chain_grows:
  "set (map fst missing) \<subseteq> set (map fst (missing_by_chain ts missing))"
proof (induction ts arbitrary: missing)
  case (Cons t ts)
  obtain a c where t: "t = (a, c)" by (cases t)
  let ?m = "AList.update c ((case map_of missing c of Some ids \<Rightarrow> ids | None \<Rightarrow> []) @ [a]) missing"
  have "set (map fst missing) \<subseteq> set (map fst ?m)" by (auto simp: update_keys)
  with Cons.IH [of ?m] show ?case by (simp add: t)
qed simp

lemma missing_not_empty: "missing_by_chain ((a, c) # ts) [] \<noteq> []"
proof -
  have "c \<in> set (map fst (missing_by_chain ts [(c, [a])]))" using missing_by_chain_grows [of "[(c, [a])]" ts] by auto
  then show ?thesis by auto
qed

lemma mapM_o_fails: "xs \<noteq> [] \<Longrightarrow> (\<And>x. \<exists>e. f x = Err e) \<Longrightarrow> \<exists>e. mapM_o f xs = Err e"
proof (cases xs)
  case (Cons x ys)
  assume "\<And>x. \<exists>e. f x = Err e"
  then obtain e where "f x = Err e" by blast
  with Cons show ?thesis by simp
qed simp

text \<open>No call of \<open>UpdateTokensForPoolUnchecked\<close> gets past the providers.\<close>

lemma no_metadatas_to_add:
  assumes "as \<noteq> []" and order: "\<And>m. set (pe_order_chains env m) = set m"
  shows "\<not> is_ok (metadatas_to_add env newProviderLookup pool as cs bs db)"
proof -
  have fails: "\<exists>e. mapM_o (\<lambda>(c, ids). fetch_missing newProviderLookup (pe_order_metadatas env) p c ids)
      (pe_order_chains env (missing_by_chain (zip as cs) [])) = Err e" if "\<not> length cs < length as" for p
  proof (rule mapM_o_fails)
    have "cs \<noteq> []" using that assms(1) by auto
    then obtain a as' c cs' where "as = a # as'" "cs = c # cs'" using assms(1) by (cases as; cases cs) auto
    then have "missing_by_chain (zip as cs) [] \<noteq> []" using missing_not_empty by simp
    then show "pe_order_chains env (missing_by_chain (zip as cs) []) \<noteq> []" by (metis order set_empty)
    show "\<exists>e. (case x of (c, ids) \<Rightarrow> fetch_missing newProviderLookup (pe_order_metadatas env) p c ids) = Err e" for x
      using fetch_missing_fails by (cases x) fastforce
  qed
  show ?thesis
  proof (cases "pe_split env (ca_address pool) (ca_chain pool) db")
    case (Ok p)
    note split = this
    show ?thesis
    proof (cases "pe_metadatas env as cs db")
      case (Ok existing)
      then show ?thesis using fails [of p] by (auto simp: metadatas_to_add_def split)
    qed (simp_all add: metadatas_to_add_def split)
  qed (simp_all add: metadatas_to_add_def)
qed

lemma update_fails:
  assumes "ValidateFields (pe_check env) (pool_inputs pool as cs bs) \<noteq> None \<or> \<not> is_ok (metadatas_to_add env newProviderLookup pool as cs bs db)"
  shows "\<not> is_ok (fst (UpdateTokensForPoolUnchecked env newProviderLookup pool as cs bs db)) \<and>
         snd (UpdateTokensForPoolUnchecked env newProviderLookup pool as cs bs db) = db"
proof (cases "ValidateFields (pe_check env) (pool_inputs pool as cs bs)")
  case None
  with assms have "\<not> is_ok (metadatas_to_add env newProviderLookup pool as cs bs db)" by simp
  with None show ?thesis
    by (cases "metadatas_to_add env newProviderLookup pool as cs bs db") (simp_all add: UpdateTokensForPoolUnchecked_def)
qed (simp add: UpdateTokensForPoolUnchecked_def)

lemma update_never_succeeds:
  assumes none: "pe_check env (PoolAddresses []) ''required,gt=0,unique'' \<noteq> None"
    and order: "\<And>m. set (pe_order_chains env m) = set m"
  shows "\<not> is_ok (fst (UpdateTokensForPoolUnchecked env newProviderLookup pool as cs bs db)) \<and>
         snd (UpdateTokensForPoolUnchecked env newProviderLookup pool as cs bs db) = db"
proof (rule update_fails, cases "as = []")
  case True
  have "ValidateFields (pe_check env) (pool_inputs pool [] cs bs) \<noteq> None"
    using none by (intro ValidateFields_reject [where k = "''tokenAddresses''" and v = "PoolAddresses []" and tag = "''required,gt=0,unique''"])
      (simp_all add: pool_inputs_def Let_def)
  then show "ValidateFields (pe_check env) (pool_inputs pool as cs bs) \<noteq> None \<or>
     \<not> is_ok (metadatas_to_add env newProviderLookup pool as cs bs db)" unfolding True by blast
next
  case False
  from no_metadatas_to_add [OF this order] show "ValidateFields (pe_check env) (pool_inputs pool as cs bs) \<noteq> None \<or>
     \<not> is_ok (metadatas_to_add env newProviderLookup pool as cs bs db)" by (rule disjI2)
qed

lemma with_balances_empty:
  "\<exists>p. with_balances env ts rows r0 = r0\<lparr>tr_panic := Some p\<rparr> \<or>
       with_balances env ts rows r0 = (if tr_panic r0 = None then r0\<lparr>tr_responses := tr_responses r0 @ [Success 200]\<rparr> else r0)"
  using balances_stay_empty [of rows ts] by (auto simp: with_balances_def process_owners_def)

lemma handler_result:
  "(\<exists>p. processTokenTransfers env bound db = \<lparr>tr_responses = [], tr_events = [], tr_panic = Some p, tr_db = db\<rparr>) \<or>
   (\<exists>x. processTokenTransfers env bound db = \<lparr>tr_responses = [x], tr_events = [], tr_panic = None, tr_db = db\<rparr>)"
proof (cases bound)
  case (Ok ts)
  let ?none = "\<lparr>tr_responses = [], tr_events = [], tr_panic = None, tr_db = db\<rparr>"
  have "(\<exists>p. with_balances env ts rows ?none = \<lparr>tr_responses = [], tr_events = [], tr_panic = Some p, tr_db = db\<rparr>) \<or>
        (\<exists>x. with_balances env ts rows ?none = \<lparr>tr_responses = [x], tr_events = [], tr_panic = None, tr_db = db\<rparr>)" for rows
    using with_balances_empty [of env ts rows ?none] by auto
  then show ?thesis unfolding processTokenTransfers_def Let_def Ok
    by (simp split: outcome.split pool_error.split)
qed (simp_all add: processTokenTransfers_def)

section \<open>Properties\<close>

text \<open>C16: No token transfer reaches a pool. Whatever the webhook reports and the database answers, the task writes nothing and
  dispatches no event: the map of balances is always empty, or filling it panics. And \<open>UpdateTokensForPoolUnchecked\<close>,
  which would write, fails for every argument, since no provider fetches metadata; of the validator it is assumed that it
  rejects an empty list for \<open>gt=0\<close>, of the iteration over a map that it visits what is in it.\<close>
theorem transfers_never_reach_pools:
  "tr_db (processTokenTransfers env bound db) = db \<and> tr_events (processTokenTransfers env bound db) = [] \<and>
   (tr_panic (processTokenTransfers env bound db) = None \<longleftrightarrow> length (tr_responses (processTokenTransfers env bound db)) = 1) \<and>
   (pe_check env (PoolAddresses []) ''required,gt=0,unique'' \<noteq> None \<longrightarrow> (\<forall>m. set (pe_order_chains env m) = set m) \<longrightarrow>
      \<not> is_ok (fst (UpdateTokensForPoolUnchecked env newProviderLookup pool as cs bs db)) \<and>
      snd (UpdateTokensForPoolUnchecked env newProviderLookup pool as cs bs db) = db)"
proof -
  have "tr_db (processTokenTransfers env bound db) = db \<and> tr_events (processTokenTransfers env bound db) = [] \<and>
     (tr_panic (processTokenTransfers env bound db) = None \<longleftrightarrow> length (tr_responses (processTokenTransfers env bound db)) = 1)"
    using handler_result [of env bound db] by auto
  then show ?thesis using update_never_succeeds [of env pool as cs bs db] by blast
qed

text \<open>C17: The metadata to be stored are merged per normalised address, each text the first one that is not empty, and what goes to
  the database does not depend on the order in which Go walks the map. But the merged record keeps the chain of its zero
  value: whatever the chain, it is stored for Ethereum.\<close>
theorem metadata_canonical:
  assumes "\<And>xs. mset (order xs) = mset xs"
  shows "set (chainMetadatasToUpsertableMetadatas order chain ms) = (\<lambda>a. merged_metadata chain a ms) ` addresses chain ms \<and>
         distinct (map tm_contract (chainMetadatasToUpsertableMetadatas order chain ms)) \<and>
         metadata_params newID (chainMetadatasToUpsertableMetadatas order chain ms) =
           metadata_params newID (chainMetadatasToUpsertableMetadatas id chain ms) \<and>
         um_chains (metadata_params newID (chainMetadatasToUpsertableMetadatas order chain ms)) =
           replicate (card (addresses chain ms)) ChainETH"
proof -
  let ?vs = "map snd (fold (merge_into chain) ms [])"
  let ?os = "chainMetadatasToUpsertableMetadatas order chain ms"
  have mset: "mset ?os = mset ?vs" using assms by (simp add: chainMetadatasToUpsertableMetadatas_def)
  then have set: "set ?os = set ?vs" by (rule mset_eq_setD)
  have contracts: "distinct (map tm_contract ?vs)" by (simp only: merge_loop_contracts merge_distinct)
  have "mset (map tm_contract ?os) = mset (map tm_contract ?vs)" using mset by (simp only: mset_map)
  then have dist: "distinct (map tm_contract ?os)" using contracts by (metis mset_eq_imp_distinct_iff)
  then have "inj_on (\<lambda>t. (tm_chain t, tm_contract t)) (set ?os)" by (auto simp: distinct_map inj_on_def)
  then have sort: "sort_key (\<lambda>t. (tm_chain t, tm_contract t)) ?os = sort_key (\<lambda>t. (tm_chain t, tm_contract t)) ?vs"
    using mset by (intro sort_key_canonical)
  have chain0: "tm_chain t = ChainETH" if "t \<in> set ?os" for t
    using that unfolding set merge_loop_values by (auto simp: ChainETH_def)
  have "card (addresses chain ms) = card (set ?vs)" unfolding merge_loop_values
    by (rule card_image [symmetric]) (metis inj_onI merged_contract(1))
  also have "\<dots> = length ?os" using distinct_card [of ?os] dist set by (simp add: distinct_map)
  finally have "map tm_chain (sort_key (\<lambda>t. (tm_chain t, tm_contract t)) ?os) = replicate (card (addresses chain ms)) ChainETH"
    using chain0 by (intro replicate_eqI) auto
  then show ?thesis using sort dist set
    by (simp add: metadata_params_def Let_def merge_loop_values [symmetric]) (simp add: chainMetadatasToUpsertableMetadatas_def)
qed

section \<open>Instances\<close>

definition sample_check :: "pool_value \<Rightarrow> string \<Rightarrow> string option" where
  "sample_check v tag =
     (case v of PoolAddresses as \<Rightarrow> if as = [] \<or> \<not> distinct as then Some ''tokenAddresses'' else None
      | PoolChains cs \<Rightarrow> if list_ex (\<lambda>c. c \<le> 0) cs then Some ''gt'' else None
      | _ \<Rightarrow> None)"

text \<open>A database that would store everything: it counts the statements it has carried out.\<close>

definition sample_pools :: "nat pool_env" where
  "sample_pools =
     \<lparr>pe_check = sample_check, pe_newID = (\<lambda>n. itoa (int n)), pe_split = (\<lambda>a c db. Ok (new_split 1 (api_params ''s1'' None None None))),
      pe_pool_tokens = (\<lambda>as bs cs db. Ok []), pe_metadatas = (\<lambda>as cs db. Ok []),
      pe_upsert_metadatas = (\<lambda>p db. (Ok [], Suc db)), pe_upsert_tokens = (\<lambda>p db. (Ok [], Suc db)),
      pe_order_chains = id, pe_order_metadatas = id, pe_order_tokens = id, pe_order_owners = id, pe_seen = id\<rparr>"

theorem transfers_never_reach_pools_witness:
  "snd (UpdateTokensForPoolUnchecked sample_pools newProviderLookup
          \<lparr>ca_addressSet = True, ca_chainSet = True, ca_address = ''0xa'', ca_chain = ChainBase\<rparr> [''0xb''] [ChainBase] [''5''] 0) = 0"
proof -
  have "pe_check sample_pools (PoolAddresses []) ''required,gt=0,unique'' \<noteq> None" "\<forall>m. set (pe_order_chains sample_pools m) = set m"
    by (simp_all add: sample_pools_def sample_check_def)
  then show ?thesis using transfers_never_reach_pools [of sample_pools "Ok []" 0
    "\<lparr>ca_addressSet = True, ca_chainSet = True, ca_address = ''0xa'', ca_chain = ChainBase\<rparr>" "[''0xb'']" "[ChainBase]" "[''5'']"] by blast
qed

definition two_metadatas :: "ChainAgnosticTokenMetadata list" where
  "two_metadatas = [\<lparr>am_symbol = [], am_name = ''N'', am_thumbnail = [], am_logo = [], am_contract = ''0xA''\<rparr>,
     \<lparr>am_symbol = ''S'', am_name = ''M'', am_thumbnail = [], am_logo = [], am_contract = ''0xa''\<rparr>]"

theorem metadata_canonical_witness:
  "um_chains (metadata_params (\<lambda>n. itoa (int n)) (chainMetadatasToUpsertableMetadatas rev ChainPolygon two_metadatas)) = [ChainETH]"
proof -
  have "um_chains (metadata_params (\<lambda>n. itoa (int n)) (chainMetadatasToUpsertableMetadatas rev ChainPolygon two_metadatas)) =
      replicate (card (addresses ChainPolygon two_metadatas)) ChainETH"
    using metadata_canonical [of rev ChainPolygon two_metadatas "\<lambda>n. itoa (int n)"] mset_rev by blast
  moreover have "addresses ChainPolygon two_metadatas = {''0xa''}" by code_simp
  ultimately show ?thesis by simp
qed

end
