(* ===== verification/Emails.thy ===== *)
theory Emails
  imports User_Store Sessions Validate Authenticators
begin

text \<open>
  Email addresses: emails/verify.go, the client of the emails service in service/emails/emails.go with the routes of
  emails/handlers.go, and the methods of publicapi/user.go on addresses. Sendgrid, HTTP and the JWT library are arguments. Of the
  package emails only this part can be translated: subscriptions.go and send.go read a field \<open>PiiEmailAddress\<close> that the
  rows no longer have.
\<close>

definition Email_String :: "string \<Rightarrow> string" where
  "Email_String e = to_lower e"

record PiiUserView =
  pv_id :: UserID
  pv_username :: "string option"
  pv_unverified :: string
  pv_verified :: string

text \<open>A NULL address is scanned to the empty one.\<close>

definition GetUserWithPIIByID :: "UserID \<Rightarrow> tables \<Rightarrow> PiiUserView option" where
  "GetUserWithPIIByID i db =
     map_option (\<lambda>u. let p = find (\<lambda>p. pi_user p = us_id u) (tb_pii db);
                        text = (\<lambda>f. case Option.bind p f of Some e \<Rightarrow> e | None \<Rightarrow> [])
                    in \<lparr>pv_id = us_id u, pv_username = us_username u, pv_unverified = text pi_unverified, pv_verified = text pi_verified\<rparr>)
       (GetUserById i db)"

section \<open>The emails service\<close>

record sendgrid =
  sg_put :: "string \<Rightarrow> string list \<Rightarrow> (string, int) outcome"
  sg_validate :: "string \<Rightarrow> string \<Rightarrow> (string, int \<times> (string, string) outcome) outcome"
  sg_lists :: "string list"

definition addEmailToSendgridList :: "sendgrid \<Rightarrow> string \<Rightarrow> (string, unit) outcome" where
  "addEmailToSendgridList sg email =
     bind_o (sg_put sg email (sg_lists sg)) (\<lambda>status.
       if status \<noteq> 202 then Err ''email contact addition failed'' else Ok ())"

text \<open>The service answers a status and a body, from which the verdict is decoded.\<close>

definition validateEmail :: "sendgrid \<Rightarrow> string \<Rightarrow> string \<Rightarrow> (string, string) outcome" where
  "validateEmail sg email source =
     bind_o (sg_validate sg email source) (\<lambda>(status, verdict).
       if status \<noteq> 200 then Err ''verify email returned'' else verdict)"

datatype PreverifyEmailResult = PreverifyInvalid | PreverifyRisky | PreverifyValid

definition preverify_verdict :: "string \<Rightarrow> PreverifyEmailResult" where
  "preverify_verdict verdict =
     (if to_lower verdict = ''valid'' then PreverifyValid
      else if to_lower verdict = ''risky'' then PreverifyRisky
      else PreverifyInvalid)"

definition preverifyEmail :: "sendgrid \<Rightarrow> (string, string \<times> string) outcome \<Rightarrow> (int \<times> string, PreverifyEmailResult) outcome" where
  "preverifyEmail sg bound =
     bind_o (map_err (Pair 400) bound) (\<lambda>(email, source).
     bind_o (map_err (Pair 500) (validateEmail sg email source)) (\<lambda>verdict. Ok (preverify_verdict verdict)))"

record emailVerificationClaims =
  ev_user :: UserID
  ev_email :: string

text \<open>
  \<open>strings.EqualFold\<close> folds all of Unicode, and \<open>strings.ToLower\<close> lowers all of it; strings are bytes here, and both
  know the letters of ASCII only. What the JWT library makes of the token: the claims of one that is signed and has not expired.\<close>

definition ParseEmailVerificationToken ::
  "('t \<Rightarrow> emailVerificationClaims option) \<Rightarrow> 't \<Rightarrow> (string, UserID \<times> string) outcome" where
  "ParseEmailVerificationToken jwt token =
     (case jwt token of Some c \<Rightarrow> Ok (ev_user c, ev_email c) | None \<Rightarrow> Err ''invalid or expired auth token'')"

definition verifyEmail ::
  "sendgrid \<Rightarrow> ('t \<Rightarrow> emailVerificationClaims option) \<Rightarrow> (string, 't) outcome \<Rightarrow> tables \<Rightarrow>
   (int \<times> string, UserID \<times> string) outcome \<times> tables" where
  "verifyEmail sg jwt bound db =
     (case bind_o (map_err (Pair 400) bound) (\<lambda>token. map_err (Pair 400) (ParseEmailVerificationToken jwt token)) of
        Err e \<Rightarrow> (Err e, db)
      | Panic p \<Rightarrow> (Panic p, db)
      | Ok (userID, emailFromToken) \<Rightarrow>
          (case GetUserWithPIIByID userID db of
             None \<Rightarrow> (Err (500, ''no rows in result set''), db)
           | Some u \<Rightarrow>
               if Email_String (pv_verified u) \<noteq> [] then (Err (400, ''email already verified''), db)
               else if \<not> equal_fold (Email_String (pv_unverified u)) emailFromToken then (Err (400, ''email does not match''), db)
               else (case UpdateUserVerifiedEmail userID (pv_unverified u) db of
                       Err e \<Rightarrow> (Err (500, e), db)
                     | Panic p \<Rightarrow> (Panic p, db)
                     | Ok (_, db1) \<Rightarrow>
                         (map_o (\<lambda>_. (pv_id u, pv_unverified u))
                            (map_err (Pair 500) (addEmailToSendgridList sg (Email_String (pv_unverified u)))), db1))))"

definition processAddToMailingList :: "sendgrid \<Rightarrow> (string, UserID) outcome \<Rightarrow> tables \<Rightarrow> (int \<times> string, unit) outcome" where
  "processAddToMailingList sg bound db =
     bind_o (map_err (Pair 200) bound) (\<lambda>userID.
       case GetUserWithPIIByID userID db of
         None \<Rightarrow> Err (404, ''no rows in result set'')
       | Some u \<Rightarrow>
           if Email_String (pv_verified u) = [] then Err (200, ''email not verified'')
           else map_err (Pair 500) (addEmailToSendgridList sg (Email_String (pv_verified u))))"

section \<open>Its client\<close>

text \<open>An exchange is a method, a path with its query, and a body; the answer has a status and a body.\<close>

type_synonym http = "string \<Rightarrow> string \<Rightarrow> string list \<Rightarrow> (string, int \<times> string) outcome"

definition call_emails :: "http \<Rightarrow> string \<Rightarrow> string \<Rightarrow> string list \<Rightarrow> (string \<Rightarrow> (string, 'a) outcome) \<Rightarrow> (string, 'a) outcome" where
  "call_emails http method path body decode =
     bind_o (http method path body) (\<lambda>(status, text). if status \<noteq> 200 then Err ''HTTP Error Status'' else decode text)"

definition no_body :: "string \<Rightarrow> (string, unit) outcome" where "no_body t = Ok ()"

definition VerifyEmail :: "http \<Rightarrow> (string \<Rightarrow> (string, UserID \<times> string) outcome) \<Rightarrow> string \<Rightarrow> (string, UserID \<times> string) outcome" where
  "VerifyEmail http decode token = call_emails http ''POST'' ''/verify'' [token] decode"

text \<open>The parameters go into the query as they are.\<close>

definition PreverifyEmail :: "http \<Rightarrow> (string \<Rightarrow> (string, PreverifyEmailResult) outcome) \<Rightarrow> string \<Rightarrow> string \<Rightarrow> (string, PreverifyEmailResult) outcome" where
  "PreverifyEmail http decode email source =
     call_emails http ''GET'' (''/preverify?email='' @ Email_String email @ ''&source='' @ source) [] decode"

definition UnsubscribeByJWT :: "http \<Rightarrow> string \<Rightarrow> string list \<Rightarrow> (string, unit) outcome" where
  "UnsubscribeByJWT http jwt unsubTypes = call_emails http ''POST'' ''/unsubscribe'' (jwt # unsubTypes) no_body"

record EmailUnsubscriptions =
  eu_all :: bool
  eu_notifications :: bool

definition UpdateUnsubscriptionsByUserID :: "http \<Rightarrow> (EmailUnsubscriptions \<Rightarrow> string) \<Rightarrow> UserID \<Rightarrow> EmailUnsubscriptions \<Rightarrow> (string, unit) outcome" where
  "UpdateUnsubscriptionsByUserID http enc userID unsubs = call_emails http ''POST'' ''/unsubscriptions'' [userID, enc unsubs] no_body"

definition GetCurrentUnsubscriptionsByUserID ::
  "http \<Rightarrow> (string \<Rightarrow> (string, EmailUnsubscriptions) outcome) \<Rightarrow> UserID \<Rightarrow> (string, EmailUnsubscriptions) outcome" where
  "GetCurrentUnsubscriptionsByUserID http decode userID = call_emails http ''GET'' (''/unsubscriptions?user_id='' @ userID) [] decode"

definition RequestVerificationEmail :: "http \<Rightarrow> UserID \<Rightarrow> (string, unit) outcome" where
  "RequestVerificationEmail http userID = call_emails http ''POST'' ''/send/verification'' [userID] no_body"

definition emails_routes :: "(string \<times> string) list" where
  "emails_routes = [(''POST'', ''/send/notifications''), (''POST'', ''/send/process/add-to-mailing-list''), (''POST'', ''/send/verification''),
     (''POST'', ''/subscriptions''), (''POST'', ''/unsubscribe''), (''POST'', ''/resubscribe''), (''POST'', ''/verify''),
     (''GET'', ''/preverify''), (''GET'', ''/notifications/send''), (''POST'', ''/notifications/announcement'')]"

section \<open>The API\<close>

datatype email_error = InvalidEmail invalid_input | EmailAuth auth_error | EmailErr string

definition with_user ::
  "(string \<Rightarrow> string \<Rightarrow> string option) \<Rightarrow> string \<Rightarrow> string \<Rightarrow> gin_ctx \<Rightarrow> (UserID \<Rightarrow> (email_error, 'a) outcome \<times> 's) \<Rightarrow> 's \<Rightarrow>
   (email_error, 'a) outcome \<times> 's" where
  "with_user check field v ctx f s =
     (case ValidateFields check [(field, v, ''required'')] of
        Some e \<Rightarrow> (Err (InvalidEmail e), s)
      | None \<Rightarrow> (case map_err EmailAuth (getAuthenticatedUserID ctx) of
          Ok userID \<Rightarrow> f userID
        | Err e \<Rightarrow> (Err e, s)
        | Panic p \<Rightarrow> (Panic p, s)))"

definition UpdateUserEmailWithManualVerification ::
  "(string \<Rightarrow> string \<Rightarrow> string option) \<Rightarrow> http \<Rightarrow> gin_ctx \<Rightarrow> string \<Rightarrow> tables \<Rightarrow> (email_error, unit) outcome \<times> tables" where
  "UpdateUserEmailWithManualVerification check http ctx email db =
     with_user check ''email'' email ctx (\<lambda>userID.
       case UpdateUserUnverifiedEmail userID email db of
         Err e \<Rightarrow> (Err (EmailErr e), db)
       | Panic p \<Rightarrow> (Panic p, db)
       | Ok (_, db1) \<Rightarrow> (map_err EmailErr (RequestVerificationEmail http userID), db1)) db"

text \<open>\<open>result\<close> is what the authenticator returns: an error, or the address it has verified, if any.\<close>

definition UpdateUserEmailWithAuthenticator ::
  "(string \<Rightarrow> string \<Rightarrow> string option) \<Rightarrow> (string, string option) outcome \<Rightarrow> gin_ctx \<Rightarrow> string \<Rightarrow> tables \<Rightarrow> (email_error, unit) outcome \<times> tables" where
  "UpdateUserEmailWithAuthenticator check result ctx email db =
     with_user check ''email'' email ctx (\<lambda>userID.
       case result of
         Err e \<Rightarrow> (Err (EmailErr e), db)
       | Panic p \<Rightarrow> (Panic p, db)
       | Ok None \<Rightarrow> (Err (EmailErr ''authenticator did not return a verified email address''), db)
       | Ok (Some verified) \<Rightarrow>
           if Email_String email \<noteq> Email_String verified
           then (Err (EmailErr ''supplied email address does not match verified email address from authenticator''), db)
           else (case UpdateUserVerifiedEmail userID email db of
                   Err e \<Rightarrow> (Err (EmailErr e), db)
                 | Panic p \<Rightarrow> (Panic p, db)
                 | Ok (_, db1) \<Rightarrow> (Ok (), db1))) db"

text \<open>The settings are a struct, for which the tag \<open>required\<close> asks that it is not zero; \<open>enc\<close> is its JSON.\<close>

definition UpdateUserEmailNotificationSettings ::
  "(string \<Rightarrow> string \<Rightarrow> string option) \<Rightarrow> http \<Rightarrow> (EmailUnsubscriptions \<Rightarrow> string) \<Rightarrow> gin_ctx \<Rightarrow> EmailUnsubscriptions \<Rightarrow> (email_error, unit) outcome" where
  "UpdateUserEmailNotificationSettings check http enc ctx settings =
     fst (with_user check ''settings'' (enc settings) ctx (\<lambda>userID.
       (map_err EmailErr (UpdateUnsubscriptionsByUserID http enc userID settings), ())) ())"

definition GetCurrentUserEmailNotificationSettings ::
  "http \<Rightarrow> (string \<Rightarrow> (string, EmailUnsubscriptions) outcome) \<Rightarrow> gin_ctx \<Rightarrow> (email_error, EmailUnsubscriptions) outcome" where
  "GetCurrentUserEmailNotificationSettings http decode ctx =
     bind_o (map_err EmailAuth (getAuthenticatedUserID ctx)) (\<lambda>userID.
       map_err EmailErr (GetCurrentUnsubscriptionsByUserID http decode userID))"

definition ResendEmailVerification :: "http \<Rightarrow> gin_ctx \<Rightarrow> (email_error, unit) outcome" where
  "ResendEmailVerification http ctx =
     bind_o (map_err EmailAuth (getAuthenticatedUserID ctx)) (\<lambda>userID. map_err EmailErr (RequestVerificationEmail http userID))"

end
