(* ===== verification/Email_Props.thy ===== *)
theory Email_Props
  imports Emails
begin

text \<open>When an address counts as verified, and which calls of the client the service knows.\<close>

definition pii_of :: "UserID \<Rightarrow> tables \<Rightarrow> pii_row option" where
  "pii_of i db = find (\<lambda>p. pi_user p = i) (tb_pii db)"

lemma GetUserWithPIIByID_pii:
  "GetUserWithPIIByID i db = map_option (\<lambda>u. \<lparr>pv_id = i, pv_username = us_username u,
      pv_unverified = (case Option.bind (pii_of i db) pi_unverified of Some e \<Rightarrow> e | None \<Rightarrow> []),
      pv_verified = (case Option.bind (pii_of i db) pi_verified of Some e \<Rightarrow> e | None \<Rightarrow> [])\<rparr>) (GetUserById i db)"
  by (cases "GetUserById i db") (auto simp: GetUserWithPIIByID_def pii_of_def GetUserById_def Let_def dest: live_user_SomeD)

lemma set_email_pii:
  assumes "set_email i unverified verified db = Ok (x, db1)"
  shows "pii_of i db1 = Some \<lparr>pi_user = i, pi_unverified = unverified, pi_verified = verified\<rparr>"
    and "j \<noteq> i \<Longrightarrow> pii_of j db1 = pii_of j db"
    and "tb_users db1 = tb_users db"
proof -
  have db1: "db1 = db\<lparr>tb_pii := filter (\<lambda>p. pi_user p \<noteq> i) (tb_pii db) @ [\<lparr>pi_user = i, pi_unverified = unverified, pi_verified = verified\<rparr>]\<rparr>"
    using assms by (auto simp: set_email_def split: if_splits)
  have none: "find (\<lambda>p. pi_user p = i) (filter (\<lambda>p. pi_user p \<noteq> i) ps @ [y]) = find (\<lambda>p. pi_user p = i) [y]" for ps and y :: pii_row
    by (induction ps) auto
  have other: "find (\<lambda>p. pi_user p = j) (filter (\<lambda>p. pi_user p \<noteq> i) ps @ [y]) = find (\<lambda>p. pi_user p = j) ps"
    if "j \<noteq> i" "pi_user y = i" for ps and y :: pii_row and j
    using that by (induction ps) auto
  show "pii_of i db1 = Some \<lparr>pi_user = i, pi_unverified = unverified, pi_verified = verified\<rparr>"
    by (simp add: db1 pii_of_def none)
  show "j \<noteq> i \<Longrightarrow> pii_of j db1 = pii_of j db" by (simp add: db1 pii_of_def other)
  show "tb_users db1 = tb_users db" by (simp add: db1)
qed

lemma GetUserById_users: "tb_users db1 = tb_users db \<Longrightarrow> GetUserById i db1 = GetUserById i db"
  by (simp add: GetUserById_def live_user_def)

text \<open>A request of \<open>verifyEmail\<close> that changes the tables.\<close>

definition token_verifies :: "emailVerificationClaims \<Rightarrow> PiiUserView \<Rightarrow> tables \<Rightarrow> tables \<Rightarrow> bool" where
  "token_verifies c u db db1 \<longleftrightarrow>
     GetUserWithPIIByID (ev_user c) db = Some u \<and> pv_verified u = [] \<and> to_lower (pv_unverified u) = to_lower (ev_email c) \<and>
     GetUserWithPIIByID (ev_user c) db1 = Some (u\<lparr>pv_unverified := [], pv_verified := to_lower (pv_unverified u)\<rparr>)"

lemma verifyEmail_cases:
  obtains e where "verifyEmail sg jwt bound db = (Err e, db)"
  | p where "verifyEmail sg jwt bound db = (Panic p, db)"
  | token c u db1 where "bound = Ok token" "jwt token = Some c" "GetUserWithPIIByID (ev_user c) db = Some u" "pv_verified u = []"
      "to_lower (pv_unverified u) = to_lower (ev_email c)" "UpdateUserVerifiedEmail (ev_user c) (pv_unverified u) db = Ok ((), db1)"
      "verifyEmail sg jwt bound db = (map_o (\<lambda>_. (pv_id u, pv_unverified u))
         (map_err (Pair 500) (addEmailToSendgridList sg (Email_String (pv_unverified u)))), db1)"
proof (cases "bind_o (map_err (Pair 400) bound) (\<lambda>token. map_err (Pair (400::int)) (ParseEmailVerificationToken jwt token))")
  case (Ok a)
  obtain userID email where a: "a = (userID, email)" by (cases a)
  from Ok obtain token c where b: "bound = Ok token" "jwt token = Some c" "userID = ev_user c" "email = ev_email c"
    by (cases bound) (auto simp: a ParseEmailVerificationToken_def split: option.splits)
  note unfold = verifyEmail_def Ok a
  show ?thesis
  proof (cases "GetUserWithPIIByID userID db")
    case None
    then show ?thesis by (intro that(1)) (simp add: unfold)
  next
    case (Some u)
    note u = this
    show ?thesis
    proof (cases "Email_String (pv_verified u) \<noteq> [] \<or> \<not> equal_fold (Email_String (pv_unverified u)) email")
      case True
      then show ?thesis by (cases "Email_String (pv_verified u) = []") (auto intro!: that(1) simp: unfold u)
    next
      case False
      show ?thesis
      proof (cases "UpdateUserVerifiedEmail userID (pv_unverified u) db")
        case (Ok z)
        then obtain db1 where z: "UpdateUserVerifiedEmail userID (pv_unverified u) db = Ok ((), db1)" by (cases z) auto
        show ?thesis
        proof (rule that(3) [OF b(1) b(2)])
          show "verifyEmail sg jwt bound db = (map_o (\<lambda>_. (pv_id u, pv_unverified u))
             (map_err (Pair 500) (addEmailToSendgridList sg (Email_String (pv_unverified u)))), db1)"
            using False by (simp add: unfold u z)
        qed (use False u z b in \<open>auto simp: Email_String_def equal_fold_def\<close>)
      next
        case (Err e)
        then show ?thesis using False by (intro that(1)) (simp add: unfold u)
      next
        case (Panic p)
        then show ?thesis using False by (intro that(2)) (simp add: unfold u)
      qed
    qed
  qed
next
  case (Err e)
  then show ?thesis by (intro that(1)) (simp add: verifyEmail_def)
next
  case (Panic p)
  then show ?thesis by (intro that(2)) (simp add: verifyEmail_def)
qed

text \<open>
  One call: by a valid token alone that names the user and the unverified address of a user without a verified one, the
  address moves from unverified to verified and no other user changes; in the tables right after it every token of that
  user is refused. An error leaves the tables as they were, unless it is Sendgrid's, which comes after the change.
\<close>

lemma verify_email_exact:
  assumes "verifyEmail sg jwt bound db = (r, db1)"
  shows "db1 = db \<or>
     (\<exists>token c u. bound = Ok token \<and> jwt token = Some c \<and> token_verifies c u db db1 \<and>
        (\<forall>j. j \<noteq> ev_user c \<longrightarrow> GetUserWithPIIByID j db1 = GetUserWithPIIByID j db) \<and>
        (r = Ok (ev_user c, pv_unverified u) \<or> \<not> is_ok (addEmailToSendgridList sg (to_lower (pv_unverified u)))) \<and>
        (pv_unverified u \<noteq> [] \<longrightarrow> (\<forall>token' c'. jwt token' = Some c' \<longrightarrow> ev_user c' = ev_user c \<longrightarrow>
           (\<exists>e. verifyEmail sg jwt (Ok token') db1 = (Err e, db1)))))"
proof (cases rule: verifyEmail_cases [of sg jwt bound db])
  case (1 e)
  then show ?thesis using assms by simp
next
  case (2 p)
  then show ?thesis using assms by simp
next
  case (3 token c u db2)
  have db2: "db2 = db1" and r: "r = map_o (\<lambda>_. (pv_id u, pv_unverified u))
      (map_err (Pair 500) (addEmailToSendgridList sg (to_lower (pv_unverified u))))"
    using assms 3(7) by (simp_all add: Email_String_def)
  let ?i = "ev_user c"
  have set: "set_email ?i None (Some (to_lower (pv_unverified u))) db = Ok ((), db1)"
    using 3(6) by (simp add: UpdateUserVerifiedEmail_def Email_Value_def db2)
  have user: "GetUserById j db1 = GetUserById j db" for j by (rule GetUserById_users [OF set_email_pii(3) [OF set]])
  have id: "pv_id u = ?i" using 3(3) by (auto simp: GetUserWithPIIByID_pii)
  have after: "GetUserWithPIIByID ?i db1 = Some (u\<lparr>pv_unverified := [], pv_verified := to_lower (pv_unverified u)\<rparr>)"
    using 3(3) by (auto simp: GetUserWithPIIByID_pii user set_email_pii(1) [OF set])
  have others: "GetUserWithPIIByID j db1 = GetUserWithPIIByID j db" if "j \<noteq> ?i" for j
    using that by (simp add: GetUserWithPIIByID_pii user set_email_pii(2) [OF set])
  have again: "\<exists>e. verifyEmail sg jwt (Ok token') db1 = (Err e, db1)"
    if "pv_unverified u \<noteq> []" "jwt token' = Some c'" "ev_user c' = ?i" for token' c'
    using that by (simp add: verifyEmail_def ParseEmailVerificationToken_def after Email_String_def)
  have "token_verifies c u db db1" using 3(3,4,5) after by (simp add: token_verifies_def)
  moreover have "r = Ok (?i, pv_unverified u) \<or> \<not> is_ok (addEmailToSendgridList sg (to_lower (pv_unverified u)))"
    using id by (cases "addEmailToSendgridList sg (to_lower (pv_unverified u))") (simp_all add: r)
  ultimately show ?thesis using 3(1,2) others again by blast
qed

section \<open>The calls that write addresses\<close>


















section \<open>Properties\<close>








text \<open>A server that answers 404 where it has no route never stores the settings: the client asks for another path.\<close>

definition path_of :: "string \<Rightarrow> string" where
  "path_of url = takeWhile (\<lambda>c. c \<noteq> CHR ''?'') url"

lemma email_settings_never_saved:
  assumes "\<And>m url body. (m, path_of url) \<notin> set emails_routes \<Longrightarrow> http m url body = Ok (404, [])"
  shows "\<not> is_ok (UpdateUserEmailNotificationSettings check http enc ctx settings)"
    and "\<not> is_ok (GetCurrentUserEmailNotificationSettings http decode ctx)"
proof -
  have "(''POST'', path_of ''/unsubscriptions'') \<notin> set emails_routes" by code_simp
  then have "UpdateUnsubscriptionsByUserID http enc i s = Err ''HTTP Error Status''" for i s
    by (simp add: UpdateUnsubscriptionsByUserID_def call_emails_def assms)
  then show "\<not> is_ok (UpdateUserEmailNotificationSettings check http enc ctx settings)"
    by (cases "getAuthenticatedUserID ctx") (simp_all add: UpdateUserEmailNotificationSettings_def with_user_def split: option.split)
  have "path_of (''/unsubscriptions?user_id='' @ i) = ''/unsubscriptions''" for i by (simp add: path_of_def)
  moreover have "(''GET'', ''/unsubscriptions'') \<notin> set emails_routes" by code_simp
  ultimately have "GetCurrentUnsubscriptionsByUserID http decode i = Err ''HTTP Error Status''" for i
    using assms [of "''GET''" "''/unsubscriptions?user_id='' @ i"] by (simp add: GetCurrentUnsubscriptionsByUserID_def call_emails_def)
  then show "\<not> is_ok (GetCurrentUserEmailNotificationSettings http decode ctx)"
    by (cases "getAuthenticatedUserID ctx") (simp_all add: GetCurrentUserEmailNotificationSettings_def)
qed

end
