(* ===== verification/Guards.thy ===== *)
theory Guards
  imports Uri_Data Authenticators
begin

text \<open>
  What stands before the handlers: the guards of middleware/middleware.go and middleware/cors.go, basic
  authentication of service/auth/basicauth/basicauth.go, the routes of emails/handlers.go that use them, and the lock of
  service/throttle/throttle.go. A guard lets a request pass or answers it. The limiter, Google's validator of ID
  tokens, the metadata server and redis are arguments.
\<close>

record http_request =
  hq_method :: string
  hq_header :: "string \<Rightarrow> string"
  hq_ip :: string

datatype verdict = Pass | Abort int string

definition unauthorized :: verdict where "unauthorized = Abort 401 ''Unauthorized''"

section \<open>Passwords\<close>

definition AdminRequired :: "string \<Rightarrow> http_request \<Rightarrow> verdict" where
  "AdminRequired admin_pass r = (if hq_header r ''Authorization'' \<noteq> admin_pass then unauthorized else Pass)"

text \<open>Go's \<open>Request.BasicAuth\<close>: the scheme in any case, base64, and the first colon ends the username.\<close>

definition cut_colon :: "string \<Rightarrow> (string \<times> string) option" where
  "cut_colon s = (case dropWhile (\<lambda>c. c \<noteq> CHR '':'') s of [] \<Rightarrow> None | _ # password \<Rightarrow> Some (takeWhile (\<lambda>c. c \<noteq> CHR '':'') s, password))"

definition BasicAuth :: "http_request \<Rightarrow> (string \<times> string) option" where
  "BasicAuth r =
     (let auth = hq_header r ''Authorization'' in
      if to_lower (take 6 auth) \<noteq> ''basic '' then None
      else Option.bind (std_decode (drop 6 auth)) (\<lambda>bs. cut_colon (bytes_str bs)))"

definition AuthorizeHeader :: "string option \<Rightarrow> string \<Rightarrow> http_request \<Rightarrow> bool" where
  "AuthorizeHeader username password r =
     (case BasicAuth r of
        None \<Rightarrow> False
      | Some (headerUsername, headerPassword) \<Rightarrow>
          (case username of Some u \<Rightarrow> u = headerUsername | None \<Rightarrow> True) \<and> password = headerPassword)"

definition BasicHeaderAuthRequired :: "string option \<Rightarrow> int \<Rightarrow> string \<Rightarrow> http_request \<Rightarrow> verdict" where
  "BasicHeaderAuthRequired username failureStatus password r =
     (if \<not> AuthorizeHeader username password r then Abort failureStatus ''Unauthorized'' else Pass)"

definition RetoolAuthRequired :: "string \<Rightarrow> http_request \<Rightarrow> verdict" where
  "RetoolAuthRequired token r = BasicHeaderAuthRequired None 401 token r"

datatype AuthTokenType = Retool | Monitoring | OtherType string

definition auth_tokens :: "string \<Rightarrow> string \<Rightarrow> AuthTokenType \<Rightarrow> string option" where
  "auth_tokens retool monitoring t =
     (case t of Retool \<Rightarrow> Some retool | Monitoring \<Rightarrow> Some monitoring | OtherType _ \<Rightarrow> None)"

fun AuthorizeHeaderForAllowedTypes :: "(AuthTokenType \<Rightarrow> string option) \<Rightarrow> AuthTokenType list \<Rightarrow> http_request \<Rightarrow> bool" where
  "AuthorizeHeaderForAllowedTypes tokens [] r = False"
| "AuthorizeHeaderForAllowedTypes tokens (t # ts) r =
     (case tokens t of
        None \<Rightarrow> AuthorizeHeaderForAllowedTypes tokens ts r
      | Some token \<Rightarrow> if AuthorizeHeader None token r then True else AuthorizeHeaderForAllowedTypes tokens ts r)"

definition requireBasicAuth :: "(AuthTokenType \<Rightarrow> string option) \<Rightarrow> AuthTokenType list \<Rightarrow> http_request \<Rightarrow> (string, unit) outcome" where
  "requireBasicAuth tokens allowedTypes r =
     (if \<not> AuthorizeHeaderForAllowedTypes tokens allowedTypes r then Panic ''basic auth: not authorized'' else Ok ())"

text \<open>\<open>base64.StdEncoding\<close> pads the last group.\<close>

fun std_encode :: "byte list \<Rightarrow> string" where
  "std_encode [] = []"
| "std_encode [a] = b64_encode [a] @ ''==''"
| "std_encode [a, b] = b64_encode [a, b] @ ''=''"
| "std_encode (a # b # c # bs) = b64_encode [a, b, c] @ std_encode bs"

definition MakeHeader :: "string option \<Rightarrow> string \<Rightarrow> string" where
  "MakeHeader username password =
     ''Basic '' @ std_encode (str_bytes ((case username of Some u \<Rightarrow> u | None \<Rightarrow> []) @ '':'' @ password))"

section \<open>Tasks, rates, origins\<close>

definition TaskRequired :: "http_request \<Rightarrow> verdict" where
  "TaskRequired r =
     (if hq_header r ''X-CloudTasks-TaskName'' = [] then Abort 200 ''bad task request: invalid task''
      else if hq_header r ''X-CloudTasks-QueueName'' = [] then Abort 200 ''bad task request: invalid queue''
      else Pass)"

definition IPRateLimited :: "(string \<Rightarrow> (string, bool \<times> string) outcome) \<Rightarrow> http_request \<Rightarrow> (string, verdict) outcome" where
  "IPRateLimited forKey r =
     (case forKey (hq_ip r) of
        Err e \<Rightarrow> Ok (Abort 500 e)
      | Panic p \<Rightarrow> Panic p
      | Ok (canContinue, tryAgainAfter) \<Rightarrow>
          Ok (if canContinue then Pass else Abort 400 (''rate limited, try again in '' @ tryAgainAfter)))"

definition IsOriginAllowed :: "string \<Rightarrow> string \<Rightarrow> string \<Rightarrow> bool" where
  "IsOriginAllowed env allowed requestOrigin =
     (if env = ''local'' then True
      else requestOrigin \<in> set (str_split allowed '','') \<or> to_lower env = ''sandbox'' \<or>
        to_lower env = ''development'' \<and> has_suffix requestOrigin ''-gallery-so.vercel.app'')"

text \<open>The origin that the answer allows, with credentials, if any; a preflight request ends here.\<close>

definition HandleCORS :: "string \<Rightarrow> string \<Rightarrow> http_request \<Rightarrow> string option \<times> verdict" where
  "HandleCORS env allowed r =
     ((if IsOriginAllowed env allowed (hq_header r ''Origin'') then Some (hq_header r ''Origin'') else None),
      (if hq_method r = ''OPTIONS'' then Abort 204 [] else Pass))"

definition BlockRequest :: "http_request \<Rightarrow> verdict" where
  "BlockRequest r = Abort 400 ''gallery in maintenance, please try again later''"

section \<open>The scheduler\<close>

text \<open>\<open>id_validate\<close> is the library's validation of a token for the audience; it returns the claim \<open>email\<close>.\<close>

record id_env =
  id_validator :: "(string, unit) outcome"
  id_validate :: "string \<Rightarrow> (string, string) outcome"
  id_account :: "(string, string) outcome"

text \<open>The error that is returned for another account is the one of the call before, which is nil.\<close>

definition validateIDToken :: "id_env \<Rightarrow> string \<Rightarrow> (string, string option) outcome" where
  "validateIDToken e idToken =
     bind_o (id_validator e) (\<lambda>_.
     bind_o (id_validate e (trim_prefix idToken ''Bearer '')) (\<lambda>email.
     bind_o (id_account e) (\<lambda>serviceEmail.
       if email \<noteq> serviceEmail then Ok None else Ok (Some email))))"

definition CloudSchedulerMiddleware :: "id_env \<Rightarrow> http_request \<Rightarrow> (string, verdict) outcome" where
  "CloudSchedulerMiddleware e r =
     (if hq_header r ''Authorization'' = [] then Ok (Abort 401 ''No ID token provided'')
      else case validateIDToken e (hq_header r ''Authorization'') of
             Err _ \<Rightarrow> Ok (Abort 401 ''Invalid ID token'')
           | Panic p \<Rightarrow> Panic p
           | Ok _ \<Rightarrow> Ok Pass)"

section \<open>The routes of the emails service\<close>

record guard_env =
  ge_admin :: string
  ge_task_secret :: string
  ge_retool :: string
  ge_verification :: "string \<Rightarrow> (string, bool \<times> string) outcome"
  ge_preverify :: "string \<Rightarrow> (string, bool \<times> string) outcome"
  ge_id :: id_env

datatype emails_route =
    SendNotifications | AddToMailingList | SendVerification | Subscriptions | Unsubscribe | Resubscribe | Verify | Preverify
  | NotificationsSend | Announcement

fun route_guards :: "guard_env \<Rightarrow> emails_route \<Rightarrow> (http_request \<Rightarrow> (string, verdict) outcome) list" where
  "route_guards e SendNotifications = [\<lambda>r. Ok (AdminRequired (ge_admin e) r)]"
| "route_guards e AddToMailingList = [\<lambda>r. Ok (BasicHeaderAuthRequired None 200 (ge_task_secret e) r), \<lambda>r. Ok (TaskRequired r)]"
| "route_guards e SendVerification = [IPRateLimited (ge_verification e)]"
| "route_guards e Preverify = [IPRateLimited (ge_preverify e)]"
| "route_guards e NotificationsSend = [CloudSchedulerMiddleware (ge_id e)]"
| "route_guards e Announcement = [\<lambda>r. Ok (RetoolAuthRequired (ge_retool e) r)]"
| "route_guards e Subscriptions = []"
| "route_guards e Unsubscribe = []"
| "route_guards e Resubscribe = []"
| "route_guards e Verify = []"

fun run_guards :: "(http_request \<Rightarrow> (string, verdict) outcome) list \<Rightarrow> http_request \<Rightarrow> (string, verdict) outcome" where
  "run_guards [] r = Ok Pass"
| "run_guards (g # gs) r = bind_o (g r) (\<lambda>v. case v of Pass \<Rightarrow> run_guards gs r | Abort s m \<Rightarrow> Ok (Abort s m))"

section \<open>The throttle lock\<close>

text \<open>Keys in redis with the time at which they expire; \<open>broken\<close> is the error of a call, if any.\<close>

definition IsLocked :: "string option \<Rightarrow> int \<Rightarrow> string \<Rightarrow> consumed \<Rightarrow> (string, bool) outcome" where
  "IsLocked broken now key cache =
     (case broken of Some e \<Rightarrow> Err e
      | None \<Rightarrow> (case cache key of Some e \<Rightarrow> Ok (now < e) | None \<Rightarrow> Ok False))"

definition set_lock :: "string option \<Rightarrow> int \<Rightarrow> string \<Rightarrow> int \<Rightarrow> consumed \<Rightarrow> (string, unit) outcome \<times> consumed" where
  "set_lock broken now key expiry cache =
     (case broken of Some e \<Rightarrow> (Err e, cache) | None \<Rightarrow> (Ok (), cache(key \<mapsto> now + expiry)))"

definition Lock :: "string option \<Rightarrow> string option \<Rightarrow> int \<Rightarrow> string \<Rightarrow> int \<Rightarrow> consumed \<Rightarrow> (string, unit) outcome \<times> consumed" where
  "Lock broken_get broken_set now key expiry cache =
     (case IsLocked broken_get now key cache of
        Err e \<Rightarrow> (Err e, cache)
      | Panic p \<Rightarrow> (Panic p, cache)
      | Ok True \<Rightarrow> (Err (''throttle locked: '' @ key), cache)
      | Ok False \<Rightarrow> set_lock broken_set now key expiry cache)"

definition Unlock :: "string option \<Rightarrow> string \<Rightarrow> consumed \<Rightarrow> (string, unit) outcome \<times> consumed" where
  "Unlock broken key cache = (case broken of Some e \<Rightarrow> (Err e, cache) | None \<Rightarrow> (Ok (), cache(key := None)))"

end
