(* ===== verification/Guard_Props.thy ===== *)
theory Guard_Props
  imports Guards
begin

text \<open>Which requests the guards let through, and how long the throttle lock holds.\<close>

section \<open>Basic authentication\<close>

definition b64_safe :: "char \<Rightarrow> bool" where
  "b64_safe c = (c \<noteq> CHR ''='' \<and> c \<noteq> CHR 0x0A \<and> c \<noteq> CHR 0x0D)"

lemma b64_char_safe [simp]: "b64_safe (b64_char (m mod 64))"
proof -
  have "\<forall>n \<in> set [0..<64]. b64_safe (b64_char n)" by code_simp
  then show ?thesis by simp
qed

lemma b64_encode_safe: "list_all b64_safe (b64_encode bs)"
  by (induction bs rule: b64_encode.induct) (simp_all add: Let_def)

definition pad_of :: "byte list \<Rightarrow> string" where
  "pad_of bs = (if length bs mod 3 = 1 then ''=='' else if length bs mod 3 = 2 then ''='' else [])"

lemma std_encode_pad: "std_encode bs = b64_encode bs @ pad_of bs"
  by (induction bs rule: std_encode.induct) (simp_all add: pad_of_def Let_def)

lemma length_std_encode: "length (std_encode bs) mod 4 = 0"
  by (induction bs rule: std_encode.induct) (simp_all add: Let_def)

lemma strip_pad: "strip_padding (b64_encode bs @ pad_of bs) = b64_encode bs"
proof -
  have last: "\<not> has_suffix (b64_encode bs) (t @ ''='')" for t
  proof
    assume "has_suffix (b64_encode bs) (t @ ''='')"
    then obtain u where "rev (b64_encode bs) = rev (t @ ''='') @ u" by (auto simp: has_suffix_def has_prefix_iff)
    then have "b64_encode bs = rev u @ t @ ''=''" by (metis append_assoc rev_append rev_rev_ident)
    then show False using b64_encode_safe [of bs] by (simp add: b64_safe_def)
  qed
  show ?thesis using last [of "[]"] last [of "''=''"]
    by (auto simp: strip_padding_def pad_of_def has_suffix_def)
qed

lemma std_decode_encode: "std_decode (std_encode bs) = Some bs"
proof -
  have "filter (\<lambda>c. c \<noteq> CHR 0x0A \<and> c \<noteq> CHR 0x0D) (b64_encode bs) = b64_encode bs"
    using b64_encode_safe [of bs] by (intro filter_True) (auto simp: list_all_iff b64_safe_def)
  then have "filter (\<lambda>c. c \<noteq> CHR 0x0A \<and> c \<noteq> CHR 0x0D) (std_encode bs) = std_encode bs"
    by (simp add: std_encode_pad pad_of_def)
  moreover have "raw_std_decode (b64_encode bs) = Some bs" by (simp add: raw_std_decode_def b64_decode_encode)
  ultimately show ?thesis
    using length_std_encode [of bs] by (simp only: std_decode_def Let_def) (simp add: std_encode_pad strip_pad)
qed

lemma cut_colon_simp: "CHR '':'' \<notin> set u \<Longrightarrow> cut_colon (u @ CHR '':'' # p) = Some (u, p)"
  by (induction u) (auto simp: cut_colon_def split: list.splits)

lemma basic_auth_round_trip:
  assumes "hq_header r ''Authorization'' = MakeHeader username password" "case username of Some u \<Rightarrow> CHR '':'' \<notin> set u | None \<Rightarrow> True"
  shows "BasicAuth r = Some (case username of Some u \<Rightarrow> u | None \<Rightarrow> [], password)"
    and "AuthorizeHeader username password r"
proof -
  have six: "to_lower (take 6 (''Basic '' @ s)) = ''basic ''" for s
  proof -
    have "take 6 (''Basic '' @ s) = ''Basic ''" by simp
    moreover have "to_lower ''Basic '' = ''basic ''" by code_simp
    ultimately show ?thesis by simp
  qed
  have "BasicAuth r = cut_colon ((case username of Some u \<Rightarrow> u | None \<Rightarrow> []) @ '':'' @ password)"
    unfolding BasicAuth_def Let_def assms(1) MakeHeader_def six by (simp add: std_decode_encode)
  then show *: "BasicAuth r = Some (case username of Some u \<Rightarrow> u | None \<Rightarrow> [], password)"
    using assms(2) cut_colon_simp [of "[]"] by (simp add: cut_colon_simp split: option.splits)
  then show "AuthorizeHeader username password r" by (simp add: AuthorizeHeader_def split: option.splits)
qed

section \<open>Routes\<close>

lemma rate_limited: "IPRateLimited f r = Ok Pass \<longleftrightarrow> (\<exists>t. f (hq_ip r) = Ok (True, t))"
  by (auto simp: IPRateLimited_def split: outcome.splits prod.splits if_splits)

lemma scheduler_passes:
  "CloudSchedulerMiddleware e r = Ok Pass \<longleftrightarrow> hq_header r ''Authorization'' \<noteq> [] \<and> is_ok (id_validator e) \<and>
     is_ok (id_validate e (trim_prefix (hq_header r ''Authorization'') ''Bearer '')) \<and> is_ok (id_account e)"
  by (cases "id_validator e"; cases "id_validate e (trim_prefix (hq_header r ''Authorization'') ''Bearer '')"; cases "id_account e")
     (auto simp: CloudSchedulerMiddleware_def validateIDToken_def)

lemma authorized: "AuthorizeHeader None p r \<longleftrightarrow> (\<exists>u. BasicAuth r = Some (u, p))"
  by (auto simp: AuthorizeHeader_def split: option.splits)

lemma run_one: "run_guards [g] r = Ok Pass \<longleftrightarrow> g r = Ok Pass"
  by (cases "g r") (auto split: verdict.splits)

text \<open>C22: What a request must carry to reach a handler of the emails service. The password and task routes hold what they promise; the
  route of the scheduler, though, lets every token pass that is valid for its audience, whatever account it is of, and the
  routes on subscriptions and verification have no guard.\<close>
theorem route_guards_exact:
  "run_guards (route_guards e route) r = Ok Pass \<longleftrightarrow>
     (case route of
        SendNotifications \<Rightarrow> hq_header r ''Authorization'' = ge_admin e
      | AddToMailingList \<Rightarrow> (\<exists>u. BasicAuth r = Some (u, ge_task_secret e)) \<and>
          hq_header r ''X-CloudTasks-TaskName'' \<noteq> [] \<and> hq_header r ''X-CloudTasks-QueueName'' \<noteq> []
      | SendVerification \<Rightarrow> (\<exists>t. ge_verification e (hq_ip r) = Ok (True, t))
      | Preverify \<Rightarrow> (\<exists>t. ge_preverify e (hq_ip r) = Ok (True, t))
      | NotificationsSend \<Rightarrow> hq_header r ''Authorization'' \<noteq> [] \<and> is_ok (id_validator (ge_id e)) \<and>
          is_ok (id_validate (ge_id e) (trim_prefix (hq_header r ''Authorization'') ''Bearer '')) \<and> is_ok (id_account (ge_id e))
      | Announcement \<Rightarrow> (\<exists>u. BasicAuth r = Some (u, ge_retool e))
      | _ \<Rightarrow> True)"
proof (cases route)
  case NotificationsSend
  then show ?thesis by (simp only: route_guards.simps run_one scheduler_passes emails_route.case)
next
  case AddToMailingList
  have "run_guards (route_guards e route) r = Ok Pass \<longleftrightarrow>
      BasicHeaderAuthRequired None 200 (ge_task_secret e) r = Pass \<and> TaskRequired r = Pass"
    by (auto simp: AddToMailingList split: verdict.splits)
  then show ?thesis by (simp add: AddToMailingList BasicHeaderAuthRequired_def TaskRequired_def authorized)
next
  case SendVerification
  then show ?thesis by (simp only: route_guards.simps run_one rate_limited emails_route.case)
next
  case Preverify
  then show ?thesis by (simp only: route_guards.simps run_one rate_limited emails_route.case)
next
  case SendNotifications
  then show ?thesis by (auto simp: AdminRequired_def unauthorized_def split: verdict.splits)
next
  case Announcement
  then show ?thesis by (auto simp: RetoolAuthRequired_def BasicHeaderAuthRequired_def authorized split: verdict.splits)
qed simp_all

lemma tokens_allowed:
  "requireBasicAuth (auth_tokens retool monitoring) ts r = Ok () \<longleftrightarrow>
     (\<exists>u p. BasicAuth r = Some (u, p) \<and> (Retool \<in> set ts \<and> p = retool \<or> Monitoring \<in> set ts \<and> p = monitoring))"
proof -
  have "AuthorizeHeaderForAllowedTypes (auth_tokens retool monitoring) ts r \<longleftrightarrow>
      (\<exists>t \<in> set ts. \<exists>p. auth_tokens retool monitoring t = Some p \<and> AuthorizeHeader None p r)"
    by (induction ts) (auto split: option.splits)
  moreover have "auth_tokens retool monitoring t = Some p \<longleftrightarrow> t = Retool \<and> p = retool \<or> t = Monitoring \<and> p = monitoring" for t p
    by (cases t) (auto simp: auth_tokens_def)
  ultimately show ?thesis by (auto simp: requireBasicAuth_def authorized)
qed

section \<open>The lock\<close>

lemma lock_excludes:
  assumes "Lock g s now key expiry cache = (Ok (), cache1)"
  shows "now' < now + expiry \<Longrightarrow> fst (Lock g' s' now' key expiry' cache1) \<noteq> Ok ()"
    and "Unlock None key cache1 = (Ok (), cache2) \<Longrightarrow> fst (Lock None None now' key expiry' cache2) = Ok ()"
proof -
  have cache1: "cache1 = cache(key \<mapsto> now + expiry)"
    using assms by (auto simp: Lock_def set_lock_def IsLocked_def split: option.splits outcome.splits bool.splits if_splits)
  show "now' < now + expiry \<Longrightarrow> fst (Lock g' s' now' key expiry' cache1) \<noteq> Ok ()"
    by (auto simp: cache1 Lock_def IsLocked_def split: option.splits outcome.splits bool.splits)
  show "Unlock None key cache1 = (Ok (), cache2) \<Longrightarrow> fst (Lock None None now' key expiry' cache2) = Ok ()"
    by (auto simp: Unlock_def Lock_def IsLocked_def set_lock_def)
qed

end
