(* ===== verification/Collections.thy ===== *)
theory Collections
  imports Go_Values Go_Strings
begin

text \<open>
  The generic helpers of util/helpers.go on slices and nested maps, and the nullable column types of
  service/persist/persist.go. A slice that is filtered in place is a buffer with a write index; a map is the list of its
  entries in the order in which Go happens to walk it.
\<close>

section \<open>Filtering, into a new slice or in place\<close>

text \<open>Both loops test the elements in order with a state: what has been seen so far, or nothing.\<close>

fun keep_list :: "('a \<Rightarrow> 's \<Rightarrow> bool \<times> 's) \<Rightarrow> 's \<Rightarrow> 'a list \<Rightarrow> 'a list" where
  "keep_list keep st [] = []"
| "keep_list keep st (x # xs) = (let (k, st1) = keep x st in if k then x # keep_list keep st1 xs else keep_list keep st1 xs)"

text \<open>\<open>src[:0]\<close> shares the array of \<open>src\<close>: appending overwrites what the loop has already read.\<close>

fun keep_in_place :: "('a \<Rightarrow> 's \<Rightarrow> bool \<times> 's) \<Rightarrow> nat \<Rightarrow> nat \<Rightarrow> nat \<Rightarrow> 's \<Rightarrow> 'a list \<Rightarrow> nat \<times> 'a list" where
  "keep_in_place keep 0 i w st buf = (w, buf)"
| "keep_in_place keep (Suc n) i w st buf =
     (let (k, st1) = keep (buf ! i) st in
      if k then keep_in_place keep n (Suc i) (Suc w) st1 (buf[w := buf ! i]) else keep_in_place keep n (Suc i) w st1 buf)"

text \<open>The result, and what the caller's own slice holds afterwards.\<close>

definition run_keep :: "('a \<Rightarrow> 's \<Rightarrow> bool \<times> 's) \<Rightarrow> 's \<Rightarrow> 'a list \<Rightarrow> bool \<Rightarrow> 'a list \<times> 'a list" where
  "run_keep keep st src filterInPlace =
     (if filterInPlace then (case keep_in_place keep (length src) 0 0 st src of (w, buf) \<Rightarrow> (take w buf, buf))
      else (keep_list keep st src, src))"

definition Filter :: "('a \<Rightarrow> bool) \<Rightarrow> 'a list \<Rightarrow> bool \<Rightarrow> 'a list \<times> 'a list" where
  "Filter f s filterInPlace = run_keep (\<lambda>v _. (f v, ())) () s filterInPlace"

definition Dedupe :: "'a list \<Rightarrow> bool \<Rightarrow> 'a list \<times> 'a list" where
  "Dedupe src filterInPlace = run_keep (\<lambda>x seen. (x \<notin> seen, insert x seen)) {} src filterInPlace"

definition DedupeWithTranslate :: "('a \<Rightarrow> 'v) \<Rightarrow> 'a list \<Rightarrow> bool \<Rightarrow> 'a list \<times> 'a list" where
  "DedupeWithTranslate translate src filterInPlace =
     run_keep (\<lambda>x seen. (translate x \<notin> seen, insert (translate x) seen)) {} src filterInPlace"

section \<open>Chunks\<close>

text \<open>\<open>None\<close> is a loop that does not end.\<close>

partial_function (option) chunk_loop :: "'a list \<Rightarrow> int \<Rightarrow> int \<Rightarrow> 'a list list \<Rightarrow> (string, 'a list list) outcome option" where
  "chunk_loop s chunkSize i chunks =
     (if i < int (length s) then
        let e = (if int (length s) < i + chunkSize then int (length s) else i + chunkSize) in
        if e < i then Some (Panic ''slice bounds out of range'')
        else chunk_loop s chunkSize (i + chunkSize) (chunks @ [take (nat (e - i)) (drop (nat i) s)])
      else Some (Ok chunks))"

definition Chunk :: "'a list \<Rightarrow> int \<Rightarrow> (string, 'a list list) outcome option" where
  "Chunk s chunkSize = chunk_loop s chunkSize 0 []"

partial_function (option) chunk_by_loop :: "'a list \<Rightarrow> int \<Rightarrow> 'a list list \<Rightarrow> (string, 'a list list) outcome option" where
  "chunk_by_loop items chunkSize chunks =
     (if chunkSize < int (length items) then
        if chunkSize < 0 then Some (Panic ''slice bounds out of range'')
        else chunk_by_loop (drop (nat chunkSize) items) chunkSize (chunks @ [take (nat chunkSize) items])
      else Some (Ok (chunks @ [items])))"

definition ChunkBy :: "'a list \<Rightarrow> int \<Rightarrow> (string, 'a list list) outcome option" where
  "ChunkBy items chunkSize = chunk_by_loop items chunkSize []"

section \<open>Slices\<close>

fun Contains :: "'a list \<Rightarrow> 'a \<Rightarrow> bool" where
  "Contains [] x = False"
| "Contains (v # s) x = (if v = x then True else Contains s x)"

fun Difference :: "'a list \<Rightarrow> 'a list \<Rightarrow> 'a list" where
  "Difference old [] = []"
| "Difference old (v # new) = (if \<not> Contains old v then v # Difference old new else Difference old new)"

definition AllEqual :: "'a list \<Rightarrow> bool" where
  "AllEqual xs = (case xs of [] \<Rightarrow> True | x # _ \<Rightarrow> \<not> list_ex (\<lambda>y. y \<noteq> x) xs)"

definition FillSliceWithValue :: "'a list \<Rightarrow> 'a \<Rightarrow> 'a list" where
  "FillSliceWithValue s fillWith = fold (\<lambda>i s. s[i := fillWith]) [0..<length s] s"

fun FindFirst :: "'a \<Rightarrow> ('a \<Rightarrow> bool) \<Rightarrow> 'a list \<Rightarrow> 'a \<times> bool" where
  "FindFirst zero f [] = (zero, False)"
| "FindFirst zero f (v # s) = (if f v then (v, True) else FindFirst zero f s)"

definition GroupBy :: "('a \<Rightarrow> 'k) \<Rightarrow> 'a list \<Rightarrow> ('k \<rightharpoonup> 'a list)" where
  "GroupBy f s = fold (\<lambda>v m. m(f v \<mapsto> (case m (f v) of Some vs \<Rightarrow> vs | None \<Rightarrow> []) @ [v])) s (\<lambda>_. None)"

fun ContainsAnyString :: "string \<Rightarrow> string list \<Rightarrow> bool" where
  "ContainsAnyString s [] = False"
| "ContainsAnyString s (v # strs) = (if str_contains s v then True else ContainsAnyString s strs)"

definition TruncateWithEllipsis :: "string \<Rightarrow> int \<Rightarrow> (string, string) outcome" where
  "TruncateWithEllipsis s n =
     (if int (length s) \<le> n then Ok s
      else if n < 0 then Panic ''slice bounds out of range''
      else Ok (take (nat n) s @ ''...''))"

definition MultiErr_Error :: "string option list \<Rightarrow> string" where
  "MultiErr_Error m =
     ''Multiple errors: ['' @ concat (map (\<lambda>e. case e of Some t \<Rightarrow> ''('' @ t @ ''),'' | None \<Rightarrow> []) m) @ '']''"

text \<open>The bytes the reader has, or its error after them: \<open>io.CopyN\<close> stops at \<open>max\<close>, then one byte more is tried.\<close>

definition CopyMax ::
  "'b list \<times> string option \<Rightarrow> nat \<Rightarrow> (string, unit) outcome \<times> 'b list" where
  "CopyMax it limit =
     (case it of (bytes, err) \<Rightarrow>
        if length bytes < limit then (case err of Some e \<Rightarrow> (Err e, bytes) | None \<Rightarrow> (Ok (), bytes))
        else if length bytes = limit then (Ok (), bytes)
        else (Err ''data too large'', take limit bytes))"

section \<open>Nested maps\<close>

datatype tree = TNil | TLeaf string | TArray "tree list" | TMap "(string \<times> tree) list"

fun first_some :: "('a \<Rightarrow> 'b option) \<Rightarrow> 'a list \<Rightarrow> 'b option" where
  "first_some f [] = None"
| "first_some f (x # xs) = (case f x of Some y \<Rightarrow> Some y | None \<Rightarrow> first_some f xs)"

definition not_nil :: "tree \<Rightarrow> tree option" where
  "not_nil v = (if v = TNil then None else Some v)"

fun in_nested :: "((string \<times> tree) list \<Rightarrow> tree) \<Rightarrow> tree \<Rightarrow> tree option" where
  "in_nested get (TMap nest) = not_nil (get nest)"
| "in_nested get (TArray arr) = first_some (\<lambda>v. case v of TMap nest \<Rightarrow> not_nil (get nest) | _ \<Rightarrow> None) arr"
| "in_nested get _ = None"

text \<open>\<open>nil\<close> stands for a missing value. A negative depth, which never reaches zero, is left out.\<close>

fun GetValueFromMap :: "(string \<times> tree) list \<Rightarrow> string \<Rightarrow> nat \<Rightarrow> tree" where
  "GetValueFromMap m key 0 = TNil"
| "GetValueFromMap m key (Suc d) =
     (case map_of m key of
        Some v \<Rightarrow> v
      | None \<Rightarrow>
          (case first_some (\<lambda>(k, v). if equal_fold k key then Some v else in_nested (\<lambda>nest. GetValueFromMap nest key d) v) m of
             Some v \<Rightarrow> v
           | None \<Rightarrow> TNil))"

text \<open>Only the keys of the outermost map are matched by substring.\<close>

definition GetValueFromMapUnsafe :: "(string \<times> tree) list \<Rightarrow> string \<Rightarrow> nat \<Rightarrow> tree" where
  "GetValueFromMapUnsafe m key d =
     (if d = 0 then TNil
      else case map_of m key of
        Some v \<Rightarrow> v
      | None \<Rightarrow>
          (case first_some (\<lambda>(k, v). if str_contains (to_lower k) (to_lower key) then Some v
                                    else in_nested (\<lambda>nest. GetValueFromMap nest key (d - 1)) v) m of
             Some v \<Rightarrow> v
           | None \<Rightarrow> TNil))"

definition DefaultSearchDepth :: nat where "DefaultSearchDepth = 5"

definition FindFirstFieldFromMap :: "(string \<times> tree) list \<Rightarrow> string list \<Rightarrow> tree" where
  "FindFirstFieldFromMap it fields =
     (case first_some (\<lambda>field. not_nil (GetValueFromMapUnsafe it field DefaultSearchDepth)) fields of Some v \<Rightarrow> v | None \<Rightarrow> TNil)"

section \<open>Nullable columns\<close>

fun DBID_Scan :: "any \<Rightarrow> string \<Rightarrow> (string, string) outcome" where
  "DBID_Scan Nil_v d = Ok []"
| "DBID_Scan (Bytes_v bs) d = Ok bs"
| "DBID_Scan (String_v s) d = Ok s"
| "DBID_Scan _ d = Ok d"

definition DBID_Value :: "string \<Rightarrow> any" where "DBID_Value d = String_v d"

definition RemoveDuplicateDBIDs :: "string list \<Rightarrow> string list" where
  "RemoveDuplicateDBIDs a = first_occurrences {} a"

definition ContainsDBID :: "string list \<Rightarrow> string \<Rightarrow> bool" where
  "ContainsDBID pSrc pID = list_ex (\<lambda>v. v = pID) pSrc"

definition ToDBIDs :: "('a \<Rightarrow> ('e, string) outcome) \<Rightarrow> 'a list \<Rightarrow> ('e, string list) outcome" where
  "ToDBIDs convert them = mapM_o convert them"

text \<open>\<open>strings.ToValidUTF8\<close> leaves ASCII as it is; the six characters of an escaped NUL are removed.\<close>

definition escaped_nul :: string where
  "escaped_nul = [CHR 0x5C, CHR ''u'', CHR ''0'', CHR ''0'', CHR ''0'', CHR ''0'']"

definition NullString_Value :: "string \<Rightarrow> any" where
  "NullString_Value n = String_v (replace_all n escaped_nul [])"

definition NullString_Scan :: "any \<Rightarrow> (string, string) outcome" where
  "NullString_Scan v = (if v = Nil_v then Ok [] else assert_string v)"

definition NullInt64_Value :: "int \<Rightarrow> any" where "NullInt64_Value n = Int64_v n"

definition NullInt64_Scan :: "any \<Rightarrow> (string, int) outcome" where
  "NullInt64_Scan v = (if v = Nil_v then Ok 0 else assert_int64 v)"

definition NullInt32_Value :: "int \<Rightarrow> any" where "NullInt32_Value n = Int32_v n"

definition NullInt32_Scan :: "any \<Rightarrow> (string, int) outcome" where
  "NullInt32_Scan v = (if v = Nil_v then Ok 0 else map_o int32_of (assert_int64 v))"

definition NullBool_Value :: "bool \<Rightarrow> any" where "NullBool_Value n = Bool_v n"

fun NullBool_Scan :: "any \<Rightarrow> (string, bool) outcome" where
  "NullBool_Scan Nil_v = Ok False"
| "NullBool_Scan (Bool_v b) = Ok b"
| "NullBool_Scan _ = Panic ''interface conversion: not bool''"

text \<open>What a database makes of a driver value: integers come back as \<open>int64\<close>.\<close>

fun stored :: "any \<Rightarrow> any" where
  "stored (Int32_v i) = Int64_v i"
| "stored v = v"

section \<open>Enumerations\<close>

definition emailVerificationStatuses :: "string list" where
  "emailVerificationStatuses = [''Unverified'', ''Verified'', ''Failed'', ''Admin'']"

definition EmailVerificationStatus_String :: "int \<Rightarrow> (string, string) outcome" where
  "EmailVerificationStatus_String e =
     (if 0 \<le> e \<and> e < int (length emailVerificationStatuses) then Ok (emailVerificationStatuses ! nat e) else Panic ''index out of range'')"

definition EmailVerificationStatus_Value :: "int \<Rightarrow> any" where "EmailVerificationStatus_Value e = Int32_v (int32_of e)"

definition EmailVerificationStatus_Scan :: "any \<Rightarrow> int \<Rightarrow> (string, int) outcome" where
  "EmailVerificationStatus_Scan v e = (if v = Nil_v then Ok e else assert_int64 v)"

definition IsVerified :: "int \<Rightarrow> bool" where "IsVerified e = (e = 1 \<or> e = 3)"

definition quote :: "string \<Rightarrow> string" where "quote s = CHR 0x22 # s @ [CHR 0x22]"

definition EmailVerificationStatus_MarshalGQL :: "int \<Rightarrow> (string, string) outcome" where
  "EmailVerificationStatus_MarshalGQL e = map_o quote (EmailVerificationStatus_String e)"

fun EmailVerificationStatus_UnmarshalGQL :: "any \<Rightarrow> int \<Rightarrow> int" where
  "EmailVerificationStatus_UnmarshalGQL (String_v s) e =
     (case find_index (\<lambda>t. equal_fold t (to_lower s)) emailVerificationStatuses of Some i \<Rightarrow> int i | None \<Rightarrow> e)"
| "EmailVerificationStatus_UnmarshalGQL _ e = e"

fun DarkMode_UnmarshalGQL :: "any \<Rightarrow> int \<Rightarrow> (string, int) outcome" where
  "DarkMode_UnmarshalGQL (String_v n) d =
     Ok (if to_lower n = ''disabled'' then 0 else if to_lower n = ''enabled'' then 1 else d)"
| "DarkMode_UnmarshalGQL _ d = Err ''darkMode must be a string''"

definition DarkMode_MarshalGQL :: "int \<Rightarrow> string" where
  "DarkMode_MarshalGQL d = (if d = 0 then quote ''Disabled'' else if d = 1 then quote ''Enabled'' else [])"

end
