(* ===== verification/Collection_Props.thy ===== *)
theory Collection_Props
  imports Collections
begin

text \<open>What the helpers on slices, the nullable columns and the enumerations promise.\<close>

section \<open>In place\<close>

lemma keep_in_place:
  "w \<le> i \<Longrightarrow> i + n = length buf \<Longrightarrow>
   keep_in_place keep n i w st buf =
     (let r = keep_list keep st (drop i buf) in (w + length r, take w buf @ r @ drop (w + length r) buf))"
proof (induction n arbitrary: i w st buf)
  case 0
  then show ?case by simp
next
  case (Suc n)
  obtain k st1 where k: "keep (buf ! i) st = (k, st1)" by (cases "keep (buf ! i) st")
  have drop: "drop i buf = buf ! i # drop (Suc i) buf" using Suc.prems by (simp add: Cons_nth_drop_Suc)
  show ?case
  proof (cases k)
    case False
    then show ?thesis using Suc.IH [of w "Suc i" buf st1] Suc.prems by (simp add: k drop)
  next
    case True
    let ?buf = "buf[w := buf ! i]"
    have "drop (Suc i) ?buf = drop (Suc i) buf" using Suc.prems by simp
    moreover have "take (Suc w) ?buf = take w buf @ [buf ! i]"
      using Suc.prems by (simp add: take_Suc_conv_app_nth)
    moreover have "drop (Suc w + l) ?buf = drop (Suc w + l) buf" for l by simp
    ultimately show ?thesis using Suc.IH [of "Suc w" "Suc i" ?buf st1] Suc.prems True
      by (simp add: k drop Let_def del: drop_update_cancel)
  qed
qed

lemma run_keep_in_place:
  "run_keep keep st src True = (keep_list keep st src, keep_list keep st src @ drop (length (keep_list keep st src)) src)"
  by (simp add: run_keep_def keep_in_place Let_def)

lemma keep_filter: "keep_list (\<lambda>v _. (f v, ())) st xs = filter f xs"
  by (induction xs) simp_all

lemma keep_dedupe: "keep_list (\<lambda>x seen. (x \<notin> seen, insert x seen)) seen xs = first_occurrences seen xs"
  by (induction xs arbitrary: seen) (simp_all add: insert_absorb)

lemma keep_translate_distinct:
  "distinct (map t (keep_list (\<lambda>x seen. (t x \<notin> seen, insert (t x) seen)) seen xs)) \<and>
   t ` set (keep_list (\<lambda>x seen. (t x \<notin> seen, insert (t x) seen)) seen xs) = t ` set xs - seen"
proof (induction xs arbitrary: seen)
  case (Cons x xs)
  then show ?case using Cons.IH [of "insert (t x) seen"] by (auto simp: insert_absorb)
qed simp

text \<open>Filtering and removing duplicates give the same in place as in a new slice, the elements that pass or the first of each
  value, in order. In place they leave in the caller's slice the result and, behind it, the old tail.\<close>
theorem in_place_equals_copy:
  "Filter f s b = (filter f s, if b then filter f s @ drop (length (filter f s)) s else s) \<and>
   Dedupe s b = (first_occurrences {} s, if b then first_occurrences {} s @ drop (length (first_occurrences {} s)) s else s) \<and>
   fst (DedupeWithTranslate t s True) = fst (DedupeWithTranslate t s False) \<and>
   distinct (map t (fst (DedupeWithTranslate t s b))) \<and> t ` set (fst (DedupeWithTranslate t s b)) = t ` set s"
proof -
  have new: "run_keep keep st src False = (keep_list keep st src, src)" for keep :: "'x \<Rightarrow> 's \<Rightarrow> bool \<times> 's" and st src
    by (simp add: run_keep_def)
  have "Filter f s b = (filter f s, if b then filter f s @ drop (length (filter f s)) s else s)"
    by (cases b) (simp_all only: Filter_def new run_keep_in_place keep_filter if_True if_False)
  moreover have "Dedupe s b = (first_occurrences {} s, if b then first_occurrences {} s @ drop (length (first_occurrences {} s)) s else s)"
    by (cases b) (simp_all only: Dedupe_def new run_keep_in_place keep_dedupe if_True if_False)
  moreover have fst: "fst (DedupeWithTranslate t s b') = keep_list (\<lambda>x seen. (t x \<notin> seen, insert (t x) seen)) {} s" for b'
    by (cases b') (simp_all only: DedupeWithTranslate_def new run_keep_in_place fst_conv)
  moreover have "distinct (map t (fst (DedupeWithTranslate t s b))) \<and> t ` set (fst (DedupeWithTranslate t s b)) = t ` set s"
    unfolding fst using keep_translate_distinct [of t "{}" s] by simp
  ultimately show ?thesis by (simp only: fst)
qed

section \<open>Chunks\<close>

text \<open>The reference: cut off \<open>n\<close> elements at a time.\<close>

fun chunks_ref :: "nat \<Rightarrow> 'a list \<Rightarrow> 'a list list" where
  "chunks_ref n s = (if n = 0 \<or> s = [] then [] else take n s # chunks_ref n (drop n s))"

declare chunks_ref.simps [simp del]

lemma chunks_ref_Nil [simp]: "chunks_ref n [] = []" by (simp add: chunks_ref.simps)

lemma chunks_ref_step: "0 < n \<Longrightarrow> s \<noteq> [] \<Longrightarrow> chunks_ref n s = take n s # chunks_ref n (drop n s)"
  by (subst chunks_ref.simps) simp

lemma chunks_ref_last: "s \<noteq> [] \<Longrightarrow> length s \<le> n \<Longrightarrow> chunks_ref n s = [s]"
  by (cases s) (simp_all add: chunks_ref_step)

lemma concat_chunks_ref: "0 < n \<Longrightarrow> concat (chunks_ref n s) = s"
  by (induction n s rule: chunks_ref.induct) (subst chunks_ref.simps, simp)

lemma length_chunks_ref: "c \<in> set (chunks_ref n s) \<Longrightarrow> 0 < length c \<and> length c \<le> n"
proof (induction n s rule: chunks_ref.induct)
  case (1 n s)
  show ?case
  proof (cases "n = 0 \<or> s = []")
    case True
    then show ?thesis using 1(2) by (simp add: chunks_ref.simps)
  next
    case False
    then have "c = take n s \<or> c \<in> set (chunks_ref n (drop n s))" using 1(2) by (simp add: chunks_ref_step)
    then show ?thesis using 1(1) [OF False] False by auto
  qed
qed

lemma chunk_loop_ok:
  assumes "0 < n" "0 \<le> i"
  shows "chunk_loop s n i acc = Some (Ok (acc @ chunks_ref (nat n) (drop (nat i) s)))"
  using assms(2)
proof (induction "nat (int (length s) - i)" arbitrary: i acc rule: less_induct)
  case less
  show ?case
  proof (cases "i < int (length s)")
    case False
    then show ?thesis by (subst chunk_loop.simps) simp
  next
    case True
    let ?e = "if int (length s) < i + n then int (length s) else i + n"
    let ?c = "take (nat (?e - i)) (drop (nat i) s)"
    have c: "?c = take (nat n) (drop (nat i) s)"
    proof (cases "int (length s) < i + n")
      case True
      then have "length (drop (nat i) s) \<le> nat (?e - i)" "length (drop (nat i) s) \<le> nat n" using less.prems by auto
      then show ?thesis by simp
    qed simp
    have "drop (nat (i + n)) s = drop (nat n) (drop (nat i) s)" using less.prems assms(1) by (simp add: nat_add_distrib add.commute)
    moreover have "chunk_loop s n (i + n) (acc @ [?c]) = Some (Ok ((acc @ [?c]) @ chunks_ref (nat n) (drop (nat (i + n)) s)))"
      using less.hyps [of "i + n" "acc @ [?c]"] less.prems True assms(1) by auto
    moreover have "chunks_ref (nat n) (drop (nat i) s) = take (nat n) (drop (nat i) s) # chunks_ref (nat n) (drop (nat n) (drop (nat i) s))"
      using True assms(1) less.prems by (intro chunks_ref_step) auto
    moreover have "\<not> ?e < i" using True assms(1) by auto
    ultimately show ?thesis using c by (subst chunk_loop.simps) (simp only: True Let_def if_True if_False append_assoc append.simps)
  qed
qed

lemma chunk_by_ok: "0 < n \<Longrightarrow> s \<noteq> [] \<Longrightarrow> chunk_by_loop s n acc = Some (Ok (acc @ chunks_ref (nat n) s))"
proof (induction s arbitrary: acc rule: length_induct)
  case (1 s)
  show ?case
  proof (cases "n < int (length s)")
    case False
    then have "chunks_ref (nat n) s = [s]" using 1(2,3) by (intro chunks_ref_last) auto
    then show ?thesis using False by (subst chunk_by_loop.simps) simp
  next
    case True
    then have "length (drop (nat n) s) < length s" "drop (nat n) s \<noteq> []" using 1(2) by auto
    then have "chunk_by_loop (drop (nat n) s) n (acc @ [take (nat n) s]) =
        Some (Ok ((acc @ [take (nat n) s]) @ chunks_ref (nat n) (drop (nat n) s)))" using 1(1,2) by blast
    moreover have "chunks_ref (nat n) s = take (nat n) s # chunks_ref (nat n) (drop (nat n) s)"
      using 1(2,3) by (intro chunks_ref_step) auto
    ultimately show ?thesis using True 1(2) by (subst chunk_by_loop.simps) simp
  qed
qed

lemma chunk_loop_stuck: "chunk_loop s n i acc = Some y \<Longrightarrow> \<not> (n = 0 \<and> i < int (length s))"
  by (erule chunk_loop.raw_induct [where P = "\<lambda>s n i acc y. \<not> (n = 0 \<and> i < int (length s))", rotated])
     (fastforce simp: Let_def split: if_splits)

lemma chunk_by_stuck: "chunk_by_loop s n acc = Some y \<Longrightarrow> \<not> (n = 0 \<and> s \<noteq> [])"
  by (erule chunk_by_loop.raw_induct [where P = "\<lambda>s n acc y. \<not> (n = 0 \<and> s \<noteq> [])", rotated])
     (fastforce split: if_splits)

text \<open>With a positive size \<open>Chunk\<close> and \<open>ChunkBy\<close> return the same pieces, which make up the slice and are neither empty nor
  longer than the size; only of the empty slice \<open>ChunkBy\<close> makes one empty piece. With size zero neither returns for a
  slice that is not empty, and with a negative size both panic.\<close>
theorem chunks_return:
  "(0 < n \<longrightarrow> Chunk s n = Some (Ok (chunks_ref (nat n) s)) \<and>
      ChunkBy s n = Some (Ok (if s = [] then [[]] else chunks_ref (nat n) s)) \<and>
      concat (chunks_ref (nat n) s) = s \<and>
      list_all (\<lambda>c. 0 < length c \<and> int (length c) \<le> n) (chunks_ref (nat n) s)) \<and>
   (s \<noteq> [] \<longrightarrow> Chunk s 0 = None \<and> ChunkBy s 0 = None) \<and>
   (s \<noteq> [] \<longrightarrow> n < 0 \<longrightarrow> Chunk s n = Some (Panic ''slice bounds out of range'') \<and> ChunkBy s n = Some (Panic ''slice bounds out of range''))"
proof -
  have "ChunkBy s n = Some (Ok (if s = [] then [[]] else chunks_ref (nat n) s))" if "0 < n"
  proof (cases "s = []")
    case True
    then show ?thesis using that by (simp add: ChunkBy_def chunk_by_loop.simps)
  next
    case False
    then show ?thesis using chunk_by_ok [OF that False, of "[]"] by (simp add: ChunkBy_def)
  qed
  moreover have "Chunk s n = Some (Ok (chunks_ref (nat n) s))" if "0 < n"
    using chunk_loop_ok [OF that, of 0 s "[]"] by (simp add: Chunk_def)
  moreover have "concat (chunks_ref (nat n) s) = s" if "0 < n" using that by (intro concat_chunks_ref) simp
  moreover have "list_all (\<lambda>c. 0 < length c \<and> int (length c) \<le> n) (chunks_ref (nat n) s)" if "0 < n"
    using length_chunks_ref [of _ "nat n" s] that by (fastforce simp: list_all_iff)
  moreover have "Chunk s 0 = None \<and> ChunkBy s 0 = None" if "s \<noteq> []"
    using chunk_loop_stuck [of s 0 0 "[]"] chunk_by_stuck [of s 0 "[]"] that
    by (cases "Chunk s 0"; cases "ChunkBy s 0") (auto simp: Chunk_def ChunkBy_def)
  moreover have "Chunk s n = Some (Panic ''slice bounds out of range'') \<and> ChunkBy s n = Some (Panic ''slice bounds out of range'')"
    if "s \<noteq> []" "n < 0"
    using that by (simp add: Chunk_def ChunkBy_def chunk_loop.simps chunk_by_loop.simps)
  ultimately show ?thesis by blast
qed

theorem chunks_return_witness:
  "Chunk [1::int, 2, 3, 4, 5] 2 = Some (Ok [[1, 2], [3, 4], [5]]) \<and> ChunkBy [1::int] 0 = None \<and>
   Chunk [1::int] (-1) = Some (Panic ''slice bounds out of range'')"
proof -
  have "chunks_ref (nat 2) [1::int, 2, 3, 4, 5] = [[1, 2], [3, 4], [5]]" by code_simp
  then show ?thesis
    using chunks_return [of 2 "[1::int, 2, 3, 4, 5]"] chunks_return [of "-1" "[1::int]"] by simp
qed

section \<open>Columns and enumerations\<close>

lemma no_escape: "\<not> str_contains s escaped_nul \<Longrightarrow> replace_all s escaped_nul [] = s"
proof (induction s)
  case (Cons c s)
  then have "\<not> has_prefix (c # s) escaped_nul" "\<not> str_contains s escaped_nul" by (auto simp: str_contains_def split: if_splits)
  with Cons.IH show ?case by (subst replace_all.simps) simp
qed (simp add: replace_all.simps)

lemma columns_read_back:
  "DBID_Scan (stored (DBID_Value d)) d0 = Ok d"
  "\<not> str_contains s escaped_nul \<Longrightarrow> NullString_Scan (stored (NullString_Value s)) = Ok s"
  "NullInt64_Scan (stored (NullInt64_Value i)) = Ok i"
  "int32_of i = i \<Longrightarrow> NullInt32_Scan (stored (NullInt32_Value i)) = Ok i"
  "NullBool_Scan (stored (NullBool_Value b)) = Ok b"
  by (simp_all add: DBID_Value_def NullString_Value_def NullString_Scan_def NullInt64_Value_def NullInt64_Scan_def
      NullInt32_Value_def NullInt32_Scan_def NullBool_Value_def no_escape)

lemma status_read_back:
  assumes "EmailVerificationStatus_String e = Ok t"
  shows "EmailVerificationStatus_UnmarshalGQL (String_v t) e0 = e"
proof -
  have "\<forall>i \<in> set [0..<4]. find_index (\<lambda>u. equal_fold u (to_lower (emailVerificationStatuses ! i))) emailVerificationStatuses = Some i"
    by code_simp
  moreover obtain i where "i < 4" "e = int i" "t = emailVerificationStatuses ! i"
    using assms by (auto simp: EmailVerificationStatus_String_def emailVerificationStatuses_def split: if_splits intro!: that [of "nat e"])
  ultimately show ?thesis by simp
qed

section \<open>Nested maps\<close>

text \<open>Without an exact key the result depends on the order in which Go walks the map.\<close>

lemma map_lookup_order:
  "GetValueFromMap [(''A'', TLeaf ''1''), (''b'', TMap [(''a'', TLeaf ''2'')])] ''a'' 5 = TLeaf ''1''"
  "GetValueFromMap [(''b'', TMap [(''a'', TLeaf ''2'')]), (''A'', TLeaf ''1'')] ''a'' 5 = TLeaf ''2''"
  by code_simp+

text \<open>Below the outermost map a substring of a key is not enough.\<close>

lemma substring_only_on_top:
  "GetValueFromMapUnsafe [(''image_url'', TLeaf ''u'')] ''image'' 5 = TLeaf ''u''"
  "GetValueFromMapUnsafe [(''x'', TMap [(''image_url'', TLeaf ''u'')])] ''image'' 5 = TNil"
  by code_simp+

end
