(* ===== verification/Scrubber.thy ===== *)
theory Scrubber
  imports Go_Values "HOL-Library.AList"
begin

text \<open>
  What graphql/resolver/handlers.go writes to the log and to Sentry about a GraphQL request: the variables
  and the text of the query, without the values of the input fields that the schema marks with
  \<open>@scrub\<close>. A schema is the part of gqlparser's \<open>ast.Schema\<close> that the code looks at, and the values
  and variable definitions that gqlparser's walker reports are arguments. A \<open>map[string]interface{}\<close> is the
  member list of a \<open>JObject\<close>, in which a name is read with \<open>json_field\<close> and set with \<open>AList.update\<close>.
\<close>

section \<open>The schema\<close>

text \<open>\<open>ast.Type\<close>: a named type, or the type of a list's elements.\<close>

datatype ast_type = NamedType string | ListType ast_type

record field_def =
  fd_name :: string
  fd_type :: ast_type
  fd_directives :: "string list"

record type_def =
  td_fields :: "field_def list"
  td_directives :: "string list"

type_synonym schema = "string \<rightharpoonup> type_def"

definition scrubText :: string where "scrubText = ''<scrubbed>''"

definition scrubDirectiveName :: string where "scrubDirectiveName = ''scrub''"

definition has_scrub :: "string list \<Rightarrow> bool" where
  "has_scrub directives = (scrubDirectiveName \<in> set directives)"

text \<open>\<open>NamedType\<close>, or the \<open>NamedType\<close> of \<open>Elem\<close>: the empty string for a list of lists.\<close>

fun named_type :: "ast_type \<Rightarrow> string" where
  "named_type (NamedType n) = n"
| "named_type (ListType (NamedType n)) = n"
| "named_type (ListType (ListType t)) = ''''"

definition input_fields :: "schema \<Rightarrow> ast_type \<Rightarrow> field_def list" where
  "input_fields S t = (case S (named_type t) of None \<Rightarrow> [] | Some d \<Rightarrow> td_fields d)"

section \<open>Variables\<close>

text \<open>The map that is written, and the values that a warning prints as they are.\<close>

type_synonym scrubbed = "(string \<times> json) list \<times> json list"

definition put :: "string \<Rightarrow> json \<Rightarrow> scrubbed \<Rightarrow> scrubbed" where
  "put k v st = (AList.update k v (fst st), snd st)"

definition warn :: "json \<Rightarrow> scrubbed \<Rightarrow> scrubbed" where
  "warn v st = (if v = JNull then st else (fst st, snd st @ [v]))"

text \<open>How deep and how long a value is, by which the functions terminate.\<close>

fun weight :: "json \<Rightarrow> nat" and
  weights :: "json list \<Rightarrow> nat" and
  member_weights :: "(string \<times> json) list \<Rightarrow> nat" where
  "weight (JArray vs) = Suc (weights vs)"
| "weight (JObject fs) = Suc (member_weights fs)"
| "weight _ = 0"
| "weights [] = 0"
| "weights (v # vs) = Suc (weight v + weights vs)"
| "member_weights [] = 0"
| "member_weights ((n, v) # fs) = Suc (weight v + member_weights fs)"

lemma json_field_weight: "json_field k fs = Some v \<Longrightarrow> weight v < member_weights fs"
  by (induction k fs rule: json_field.induct) (auto split: option.splits if_splits)

text \<open>A call goes to a smaller value, or along the list of fields of the same value.\<close>

definition scrub_measure where
  "scrub_measure = case_sum
     (case_sum (\<lambda>(S :: schema, f :: field_def, vars, st :: scrubbed). (member_weights vars, 0 :: nat))
               (\<lambda>(S :: schema, fs :: field_def list, vars, st :: scrubbed). (member_weights vars, Suc (length fs))))
     (case_sum (\<lambda>(S :: schema, fs :: field_def list, v, st :: scrubbed, name :: string). (weight v, 0))
               (\<lambda>(S :: schema, fs :: field_def list, vs, ws :: json list). (weights vs, 0)))"

function scrubVariableField :: "schema \<Rightarrow> field_def \<Rightarrow> (string \<times> json) list \<Rightarrow> scrubbed \<Rightarrow> scrubbed"
  and scrub_child_fields :: "schema \<Rightarrow> field_def list \<Rightarrow> (string \<times> json) list \<Rightarrow> scrubbed \<Rightarrow> scrubbed"
  and scrubVariableChildFields :: "schema \<Rightarrow> field_def list \<Rightarrow> json \<Rightarrow> scrubbed \<Rightarrow> string \<Rightarrow> scrubbed"
  and scrubVariableSlice :: "schema \<Rightarrow> field_def list \<Rightarrow> json list \<Rightarrow> json list \<Rightarrow> json list \<times> json list" where
  "scrubVariableField S f vars st =
     (case json_field (fd_name f) vars of
        None \<Rightarrow> st
      | Some fieldValue \<Rightarrow>
          if has_scrub (fd_directives f) then put (fd_name f) (JString scrubText) st
          else if input_fields S (fd_type f) = [] then put (fd_name f) fieldValue st
          else scrubVariableChildFields S (input_fields S (fd_type f)) fieldValue st (fd_name f))"
| "scrub_child_fields S [] vars st = st"
| "scrub_child_fields S (f # fs) vars st = scrub_child_fields S fs vars (scrubVariableField S f vars st)"
| "scrubVariableChildFields S fs v st name =
     (case v of
        JObject vars \<Rightarrow> (let r = scrub_child_fields S fs vars ([], snd st) in put name (JObject (fst r)) (fst st, snd r))
      | JArray vs \<Rightarrow> (let r = scrubVariableSlice S fs vs (snd st) in put name (JArray (fst r)) (fst st, snd r))
      | _ \<Rightarrow> warn v st)"
| "scrubVariableSlice S fs [] ws = ([], ws)"
| "scrubVariableSlice S fs (v # vs) ws =
     (let (out, ws') =
        (case v of
           JArray inner \<Rightarrow> (let r = scrubVariableSlice S fs inner ws in ([JArray (fst r)], snd r))
         | JObject vars \<Rightarrow> (let r = scrub_child_fields S fs vars ([], ws) in ([JObject (fst r)], snd r))
         | _ \<Rightarrow> ([], snd (warn v ([], ws))));
       r = scrubVariableSlice S fs vs ws'
     in (out @ fst r, snd r))"
  by pat_completeness auto

termination
  by (relation "inv_image (less_than <*lex*> less_than) scrub_measure")
    (auto simp: scrub_measure_def dest: json_field_weight)

declare scrubVariableField.simps [simp del] scrubVariableChildFields.simps [simp del]

record variable_def =
  vd_variable :: string
  vd_type :: ast_type

text \<open>The value of a variable that is not there is nil.\<close>

definition variable_value :: "(string \<times> json) list \<Rightarrow> string \<Rightarrow> json" where
  "variable_value allQueryVariables k = (case json_field k allQueryVariables of None \<Rightarrow> JNull | Some v \<Rightarrow> v)"

definition scrubVariable :: "variable_def \<Rightarrow> schema \<Rightarrow> (string \<times> json) list \<Rightarrow> scrubbed \<Rightarrow> scrubbed" where
  "scrubVariable vd S allQueryVariables st =
     (let fields = input_fields S (vd_type vd);
          value = variable_value allQueryVariables (vd_variable vd)
      in if (\<exists>d\<in>set_option (S (named_type (vd_type vd))). has_scrub (td_directives d))
         then put (vd_variable vd) (JString scrubText) st
         else if fields = [] then put (vd_variable vd) value st
         else scrubVariableChildFields S fields value st (vd_variable vd))"

definition scrub_variables :: "schema \<Rightarrow> variable_def list \<Rightarrow> (string \<times> json) list \<Rightarrow> scrubbed" where
  "scrub_variables S vds allQueryVariables = fold (\<lambda>vd. scrubVariable vd S allQueryVariables) vds ([], [])"

section \<open>The text of the query\<close>

text \<open>
  \<open>ast.Value\<close>: its children (or nil), the rune offsets where it starts and ends, and the fields of its
  definition (or nil).
\<close>

datatype ast_value =
  AstValue (av_children: "(string \<times> ast_value) list option") (av_start: nat) (av_end: nat)
    (av_fields: "field_def list option")

text \<open>\<open>map[int]*ast.Position\<close>: the ends, by the starts.\<close>

type_synonym positions = "(nat \<times> nat) list"

lemma ast_child_size [termination_simp]:
  "(n, c) \<in> set cs \<Longrightarrow> size c < Suc (size_list (size_prod (\<lambda>_. 0) size) cs + k)"
  by (induction cs) auto

fun scrubChildren :: "ast_value \<Rightarrow> positions \<Rightarrow> positions" where
  "scrubChildren (AstValue None s e d) ps = AList.update s e ps"
| "scrubChildren (AstValue (Some cs) s e d) ps = fold (\<lambda>(n, c). scrubChildren c) cs ps"

text \<open>\<open>ForName\<close> of gqlparser: the first child of that name, or nil.\<close>

definition scrub_field_value :: "ast_value \<Rightarrow> field_def \<Rightarrow> positions \<Rightarrow> (string, positions) outcome" where
  "scrub_field_value v f ps =
     (if \<not> has_scrub (fd_directives f) then Ok ps
      else case av_children v of
          None \<Rightarrow> Ok ps
        | Some cs \<Rightarrow>
            (case map_of cs (fd_name f) of
               None \<Rightarrow> Panic ''invalid memory address or nil pointer dereference''
             | Some childValue \<Rightarrow>
                 (if av_children childValue \<noteq> None then Ok (scrubChildren childValue ps)
                  else Ok (AList.update (av_start childValue) (av_end childValue) ps))))"

fun scrub_fields :: "ast_value \<Rightarrow> field_def list \<Rightarrow> positions \<Rightarrow> (string, positions) outcome" where
  "scrub_fields v [] ps = Ok ps"
| "scrub_fields v (f # fs) ps = bind_o (scrub_field_value v f ps) (scrub_fields v fs)"

definition scrubValue :: "ast_value \<Rightarrow> positions \<Rightarrow> (string, positions) outcome" where
  "scrubValue v ps = (case av_fields v of None \<Rightarrow> Ok ps | Some fs \<Rightarrow> scrub_fields v fs ps)"

fun scrub_values :: "ast_value list \<Rightarrow> positions \<Rightarrow> (string, positions) outcome" where
  "scrub_values [] ps = Ok ps"
| "scrub_values (v # vs) ps = bind_o (scrubValue v ps) (scrub_values vs)"

text \<open>
  The loop over the sorted starts: a slice whose bounds are not ordered or beyond the text panics. (Rune
  slices may have room beyond their length, which the offsets of the parser never reach.)
\<close>

fun write_scrubbed :: "string \<Rightarrow> nat \<Rightarrow> positions \<Rightarrow> (string, string) outcome" where
  "write_scrubbed runes strIndex [] =
     (if strIndex \<le> length runes then Ok (drop strIndex runes) else Panic ''slice bounds out of range'')"
| "write_scrubbed runes strIndex ((start, stop) # ps) =
     (if strIndex \<le> start \<and> start \<le> length runes
      then map_o (\<lambda>rest. take (start - strIndex) (drop strIndex runes) @ scrubText @ rest) (write_scrubbed runes stop ps)
      else Panic ''slice bounds out of range'')"

definition scrub_text :: "string \<Rightarrow> positions \<Rightarrow> (string, string) outcome" where
  "scrub_text rawQuery ps =
     write_scrubbed rawQuery 0 (map (\<lambda>start. (start, the (map_of ps start))) (sort (map fst ps)))"

text \<open>
  The walker reports values and variable definitions to two observers that share no state; a panic is
  recovered, and placeholders are returned.
\<close>

definition getScrubbedQuery ::
  "schema \<Rightarrow> ast_value list \<Rightarrow> variable_def list \<Rightarrow> string \<Rightarrow> (string \<times> json) list \<Rightarrow> string \<times> scrubbed" where
  "getScrubbedQuery S vals vds rawQuery allQueryVariables =
     (case bind_o (scrub_values vals []) (scrub_text rawQuery) of
        Ok text \<Rightarrow> (text, scrub_variables S vds allQueryVariables)
      | Panic p \<Rightarrow> (''<error occurred while scrubbing query: '' @ p @ ''>'', [], [])
      | Err e \<Rightarrow> ('''', [], []))"

section \<open>The input types of the schema\<close>

text \<open>
  The input types through which users log in and change their email addresses. The scalar types have no
  fields, as have the types that are not listed.
\<close>

definition field :: "string \<Rightarrow> ast_type \<Rightarrow> string list \<Rightarrow> field_def" where
  field_def': "field n t ds = \<lparr>fd_name = n, fd_type = t, fd_directives = ds\<rparr>"

definition input :: "field_def list \<Rightarrow> type_def" where
  "input fs = \<lparr>td_fields = fs, td_directives = []\<rparr>"

definition login_inputs :: "(string \<times> type_def) list" where
  "login_inputs =
     [(''AuthMechanism'', input
        [field ''eoa'' (NamedType ''EoaAuth'') [], field ''gnosisSafe'' (NamedType ''GnosisSafeAuth'') [],
         field ''debug'' (NamedType ''DebugAuth'') [], field ''magicLink'' (NamedType ''MagicLinkAuth'') [],
         field ''oneTimeLoginToken'' (NamedType ''OneTimeLoginTokenAuth'') [], field ''privy'' (NamedType ''PrivyAuth'') []]),
      (''EoaAuth'', input
        [field ''chainPubKey'' (NamedType ''ChainPubKeyInput'') [], field ''nonce'' (NamedType ''String'') [],
         field ''message'' (NamedType ''String'') [], field ''signature'' (NamedType ''String'') [''scrub'']]),
      (''DebugAuth'', \<lparr>td_fields =
        [field ''asUsername'' (NamedType ''String'') [], field ''userId'' (NamedType ''DBID'') [],
         field ''chainAddresses'' (ListType (NamedType ''ChainAddressInput'')) [],
         field ''debugToolsPassword'' (NamedType ''String'') []], td_directives = [''restrictEnvironment'']\<rparr>),
      (''GnosisSafeAuth'', input
        [field ''address'' (NamedType ''Address'') [], field ''nonce'' (NamedType ''String'') [],
         field ''message'' (NamedType ''String'') []]),
      (''MagicLinkAuth'', input [field ''token'' (NamedType ''String'') []]),
      (''PrivyAuth'', input [field ''token'' (NamedType ''String'') []]),
      (''OneTimeLoginTokenAuth'', input [field ''token'' (NamedType ''String'') []])]"

definition email_inputs :: "(string \<times> type_def) list" where
  "email_inputs =
     [(''VerifyEmailInput'', input [field ''token'' (NamedType ''String'') [''scrub'']]),
      (''PreverifyEmailInput'', input [field ''email'' (NamedType ''Email'') [''scrub'']]),
      (''VerifyEmailMagicLinkInput'', input [field ''email'' (NamedType ''Email'') [''scrub'']]),
      (''UpdateEmailInput'', input
        [field ''email'' (NamedType ''Email'') [''scrub''], field ''authMechanism'' (NamedType ''AuthMechanism'') []])]"

definition create_user_input :: "string \<times> type_def" where
  "create_user_input =
     (''CreateUserInput'', input [field ''username'' (NamedType ''String'') [], field ''email'' (NamedType ''Email'') []])"

definition address_inputs :: "(string \<times> type_def) list" where
  "address_inputs =
     [(''ChainAddressInput'', input
        [field ''address'' (NamedType ''Address'') [''goField''], field ''chain'' (NamedType ''Chain'') [''goField'']]),
      (''ChainPubKeyInput'', input
        [field ''pubKey'' (NamedType ''PubKey'') [''goField''], field ''chain'' (NamedType ''Chain'') [''goField'']])]"

definition repo_schema :: schema where
  "repo_schema = map_of (login_inputs @ email_inputs @ create_user_input # address_inputs)"

end
