(* ===== verification/Scrub_Props.thy ===== *)
theory Scrub_Props
  imports Scrubber
begin

text \<open>
  What the scrubber keeps from the log. Two values of an input type are \<open>same_seen\<close> when they differ at
  most in the fields that the schema marks with \<open>@scrub\<close> and in members the type does not have; what
  is written, warnings included, is then the same. In the text of a query every scrubbed position is replaced
  and the rest is kept as it is.
\<close>

section \<open>Variables\<close>

inductive same_seen :: "schema \<Rightarrow> field_def list \<Rightarrow> json \<Rightarrow> json \<Rightarrow> bool" for S where
  same: "same_seen S fs v v"
| objects: "(\<And>f. f \<in> set fs \<Longrightarrow> rel_option
      (\<lambda>a b. has_scrub (fd_directives f) \<or> a = b \<or>
             (input_fields S (fd_type f) \<noteq> [] \<and> same_seen S (input_fields S (fd_type f)) a b))
      (json_field (fd_name f) vs) (json_field (fd_name f) ws)) \<Longrightarrow> same_seen S fs (JObject vs) (JObject ws)"
| arrays: "list_all2 (same_seen S fs) vs ws \<Longrightarrow> same_seen S fs (JArray vs) (JArray ws)"

lemma scrub_child_fields_cong:
  "(\<And>f st. f \<in> set fs \<Longrightarrow> scrubVariableField S f vs st = scrubVariableField S f ws st) \<Longrightarrow>
   scrub_child_fields S fs vs st = scrub_child_fields S fs ws st"
  by (induction fs arbitrary: st) auto

lemma scrubVariableSlice_cong:
  assumes "list_all2 (\<lambda>v w. \<forall>r ws. scrubVariableSlice S fs (v # r) ws = scrubVariableSlice S fs (w # r) ws) vs vs'"
  shows "scrubVariableSlice S fs vs ws = scrubVariableSlice S fs vs' ws"
  using assms
proof (induction arbitrary: ws rule: list_all2_induct)
  case (Cons v vs w vs')
  have "scrubVariableSlice S fs (v # vs) ws = scrubVariableSlice S fs (w # vs) ws" using Cons.hyps by blast
  also have "\<dots> = scrubVariableSlice S fs (w # vs') ws" by (simp add: Cons.IH)
  finally show ?case .
qed simp

lemma scrubbed_alike:
  "same_seen S fs v w \<Longrightarrow>
     (\<forall>st name. scrubVariableChildFields S fs v st name = scrubVariableChildFields S fs w st name) \<and>
     (\<forall>r ws. scrubVariableSlice S fs (v # r) ws = scrubVariableSlice S fs (w # r) ws)"
proof (induction rule: same_seen.induct)
  case (same fs v)
  show ?case by simp
next
  case (objects fs vs ws)
  have "scrubVariableField S f vs st = scrubVariableField S f ws st" if "f \<in> set fs" for f st
    using objects [OF that]
    by (cases "json_field (fd_name f) vs"; cases "json_field (fd_name f) ws") (auto simp: scrubVariableField.simps simp del: split_paired_All scrubVariableSlice.simps)
  then have "scrub_child_fields S fs vs st = scrub_child_fields S fs ws st" for st
    by (rule scrub_child_fields_cong)
  then show ?case by (simp add: scrubVariableChildFields.simps)
next
  case (arrays fs vs ws)
  then have "list_all2 (\<lambda>v w. \<forall>r ws. scrubVariableSlice S fs (v # r) ws = scrubVariableSlice S fs (w # r) ws) vs ws"
    by (auto elim: list_all2_mono)
  then have "scrubVariableSlice S fs vs us = scrubVariableSlice S fs ws us" for us
    by (rule scrubVariableSlice_cong)
  then show ?case by (simp add: scrubVariableChildFields.simps)
qed

definition variables_alike :: "schema \<Rightarrow> variable_def list \<Rightarrow> (string \<times> json) list \<Rightarrow> (string \<times> json) list \<Rightarrow> bool" where
  "variables_alike S vds vars vars' \<longleftrightarrow>
     (\<forall>vd\<in>set vds.
        (let v = variable_value vars (vd_variable vd); w = variable_value vars' (vd_variable vd);
             fields = input_fields S (vd_type vd)
         in v = w \<or> (fields \<noteq> [] \<and> same_seen S fields v w)))"

lemma scrubVariable_alike:
  assumes "variables_alike S vds vars vars'" "vd \<in> set vds"
  shows "scrubVariable vd S vars st = scrubVariable vd S vars' st"
  using assms by (fastforce simp: variables_alike_def scrubVariable_def Let_def dest: scrubbed_alike)

section \<open>The text\<close>

fun weave :: "string \<Rightarrow> (string \<times> string) list \<Rightarrow> string" where
  "weave s [] = s"
| "weave s ((secret, t) # rest) = s @ secret @ weave t rest"

fun spots :: "nat \<Rightarrow> string \<Rightarrow> (string \<times> string) list \<Rightarrow> positions" where
  "spots n s [] = []"
| "spots n s ((secret, t) # rest) =
     (n + length s, n + length s + length secret) # spots (n + length s + length secret) t rest"

lemma write_scrubbed_weave:
  "length pre = n \<Longrightarrow> write_scrubbed (pre @ weave s parts) n (spots n s parts) =
     Ok (weave s (map (\<lambda>(secret, t). (scrubText, t)) parts))"
proof (induction parts arbitrary: pre n s)
  case Nil
  then show ?case by simp
next
  case (Cons p parts)
  obtain secret t where p: "p = (secret, t)" by (cases p)
  have "write_scrubbed ((pre @ s @ secret) @ weave t parts) (n + length s + length secret)
      (spots (n + length s + length secret) t parts) = Ok (weave t (map (\<lambda>(secret, t). (scrubText, t)) parts))"
    using Cons.prems by (intro Cons.IH) simp
  then show ?case using Cons.prems by (simp add: p)
qed

lemma spots_from: "(start, stop) \<in> set (spots n s parts) \<Longrightarrow> n \<le> start"
  by (induction n s parts rule: spots.induct) force+

lemma spots_sorted:
  "\<forall>p\<in>set parts. fst p \<noteq> [] \<Longrightarrow> sorted (map fst (spots n s parts)) \<and> distinct (map fst (spots n s parts))"
proof (induction n s parts rule: spots.induct)
  case (2 n s secret t rest)
  have "n + length s < start" if "(start, stop) \<in> set (spots (n + length s + length secret) t rest)" for start stop
    using spots_from [OF that] 2(2) by (cases secret) auto
  then show ?case using 2 by (fastforce intro: less_imp_le)
qed simp

lemma scrub_text_weave:
  assumes secrets: "\<forall>p\<in>set parts. fst p \<noteq> []" and ps: "distinct (map fst ps)" "set ps = set (spots 0 s parts)"
  shows "scrub_text (weave s parts) ps = Ok (weave s (map (\<lambda>(secret, t). (scrubText, t)) parts))"
proof -
  let ?q = "spots 0 s parts"
  have q: "sorted (map fst ?q)" "distinct (map fst ?q)" using spots_sorted [OF secrets] by auto
  have "set (map fst ps) = set (map fst ?q)" using ps(2) by (simp only: set_map)
  then have "sort (map fst ps) = map fst ?q"
    using q ps by (intro sorted_distinct_set_unique) simp_all
  moreover have "map_of ps = map_of ?q"
    using ps q(2) by (intro map_of_inject_set [THEN iffD2]) auto
  moreover have "map (\<lambda>start. (start, the (map_of ?q start))) (map fst ?q) = ?q"
    using q(2) by (auto simp: comp_def intro: map_idI)
  ultimately have "map (\<lambda>start. (start, the (map_of ps start))) (sort (map fst ps)) = ?q" by simp
  then show ?thesis
    using write_scrubbed_weave [of "[]" 0 s parts] by (simp add: scrub_text_def)
qed

lemma distinct_scrubChildren: "distinct (map fst ps) \<Longrightarrow> distinct (map fst (scrubChildren v ps))"
proof (induction v ps rule: scrubChildren.induct)
  case (1 s e d ps)
  then show ?case by (simp add: distinct_update)
next
  case (2 cs s e d ps)
  have "distinct (map fst (fold (\<lambda>(n, c). scrubChildren c) ds qs))" if "set ds \<subseteq> set cs" "distinct (map fst qs)" for ds qs
    using that by (induction ds arbitrary: qs) (auto simp: 2(1))
  then show ?case using 2(2) by simp
qed

lemma distinct_scrub_fields:
  "scrub_fields v fs ps = Ok qs \<Longrightarrow> distinct (map fst ps) \<Longrightarrow> distinct (map fst qs)"
proof (induction fs arbitrary: ps)
  case (Cons f fs)
  then obtain rs where rs: "scrub_field_value v f ps = Ok rs" "scrub_fields v fs rs = Ok qs" by (auto simp: outcome_simps)
  then have "distinct (map fst rs)" using Cons.prems(2)
    by (auto simp: scrub_field_value_def distinct_update distinct_scrubChildren split: if_splits option.splits)
  then show ?case using rs(2) by (rule Cons.IH [rotated])
qed simp

lemma distinct_scrub_values:
  "scrub_values vals ps = Ok qs \<Longrightarrow> distinct (map fst ps) \<Longrightarrow> distinct (map fst qs)"
proof (induction vals arbitrary: ps)
  case (Cons v vals)
  then obtain rs where rs: "scrubValue v ps = Ok rs" "scrub_values vals rs = Ok qs" by (auto simp: outcome_simps)
  then have "distinct (map fst rs)" using Cons.prems(2)
    by (auto simp: scrubValue_def distinct_scrub_fields split: option.splits)
  then show ?case using rs(2) by (rule Cons.IH [rotated])
qed simp

lemma scrub_values_distinct: "scrub_values vals [] = Ok ps \<Longrightarrow> distinct (map fst ps)"
  by (erule distinct_scrub_values) simp

text \<open>C21: Two requests with the same text whose variables differ only inside objects of input types, in the members
  that stand for fields which the schema marks with \<open>@scrub\<close> (at any depth, also below lists, and in members their
  types do not have), are logged the same, warnings included: the log tells nothing about these members. Variables
  whose types have no fields must be equal, also those that the text puts into a marked field: they are logged as
  they are (\<open>scalar_variables_logged\<close> below).\<close>

theorem logged_variables_hide_scrubbed:
  assumes "variables_alike S vds vars vars'"
  shows "getScrubbedQuery S vals vds rawQuery vars = getScrubbedQuery S vals vds rawQuery vars'"
proof -
  have "fold (\<lambda>vd. scrubVariable vd S vars) vs st = fold (\<lambda>vd. scrubVariable vd S vars') vs st"
    if "set vs \<subseteq> set vds" for vs st
    using that by (induction vs arbitrary: st) (auto simp: scrubVariable_alike [OF assms])
  then have "scrub_variables S vds vars = scrub_variables S vds vars'" by (simp add: scrub_variables_def)
  then show ?thesis by (auto simp: getScrubbedQuery_def split: outcome.split)
qed

definition eoa_login :: "string \<Rightarrow> (string \<times> json) list" where
  "eoa_login signature =
     [(''m'', JObject [(''eoa'', JObject [(''nonce'', JString ''n1''), (''message'', JString ''hello''),
                                          (''signature'', JString signature)])])]"

definition login_variable :: variable_def where
  "login_variable = \<lparr>vd_variable = ''m'', vd_type = NamedType ''AuthMechanism''\<rparr>"

lemma auth_mechanism_fields:
  "input_fields repo_schema (NamedType ''AuthMechanism'') =
     [field ''eoa'' (NamedType ''EoaAuth'') [], field ''gnosisSafe'' (NamedType ''GnosisSafeAuth'') [],
      field ''debug'' (NamedType ''DebugAuth'') [], field ''magicLink'' (NamedType ''MagicLinkAuth'') [],
      field ''oneTimeLoginToken'' (NamedType ''OneTimeLoginTokenAuth'') [], field ''privy'' (NamedType ''PrivyAuth'') []]"
  by code_simp

lemma eoa_fields:
  "input_fields repo_schema (NamedType ''EoaAuth'') =
     [field ''chainPubKey'' (NamedType ''ChainPubKeyInput'') [], field ''nonce'' (NamedType ''String'') [],
      field ''message'' (NamedType ''String'') [], field ''signature'' (NamedType ''String'') [''scrub'']]"
  by code_simp

lemma no_fields: "input_fields repo_schema (NamedType ''String'') = []"
  by code_simp

lemma token_fields:
  "input_fields repo_schema (NamedType ''OneTimeLoginTokenAuth'') = [field ''token'' (NamedType ''String'') []]"
  "input_fields repo_schema (NamedType ''MagicLinkAuth'') = [field ''token'' (NamedType ''String'') []]"
  "input_fields repo_schema (NamedType ''DebugAuth'') =
     [field ''asUsername'' (NamedType ''String'') [], field ''userId'' (NamedType ''DBID'') [],
      field ''chainAddresses'' (ListType (NamedType ''ChainAddressInput'')) [],
      field ''debugToolsPassword'' (NamedType ''String'') []]"
  by code_simp+

lemma field_simps [simp]:
  "fd_name (field n t ds) = n" "fd_type (field n t ds) = t" "fd_directives (field n t ds) = ds"
  by (simp_all add: field_def')

lemma has_scrub_simps [simp]: "has_scrub [''scrub'']" "\<not> has_scrub []"
  by (simp_all add: has_scrub_def scrubDirectiveName_def)

lemma auth_mechanism_directives: "map_option td_directives (repo_schema ''AuthMechanism'') = Some []"
  by code_simp

definition eoa_auth :: "string \<Rightarrow> json" where
  "eoa_auth signature =
     JObject [(''nonce'', JString ''n1''), (''message'', JString ''hello''), (''signature'', JString signature)]"

lemma eoa_login_eq: "eoa_login s = [(''m'', JObject [(''eoa'', eoa_auth s)])]"
  by (simp add: eoa_login_def eoa_auth_def)

lemma eoa_logins_alike: "variables_alike repo_schema [login_variable] (eoa_login s) (eoa_login t)"
proof -
  have "same_seen repo_schema (input_fields repo_schema (NamedType ''EoaAuth'')) (eoa_auth s) (eoa_auth t)"
    unfolding eoa_auth_def by (rule same_seen.objects) (auto simp: eoa_fields)
  then have "same_seen repo_schema (input_fields repo_schema (NamedType ''AuthMechanism''))
      (JObject [(''eoa'', eoa_auth s)]) (JObject [(''eoa'', eoa_auth t)])"
    by (intro same_seen.objects) (auto simp: auth_mechanism_fields eoa_fields)
  then show ?thesis
    by (simp add: variables_alike_def login_variable_def eoa_login_eq variable_value_def auth_mechanism_fields)
qed

text \<open>A login whose signature the schema hides.\<close>

lemma logged_variables_hide_scrubbed_witness:
  "getScrubbedQuery repo_schema [] [login_variable] ''mutation'' (eoa_login ''0xabc'') =
   getScrubbedQuery repo_schema [] [login_variable] ''mutation'' (eoa_login ''0xdef'')"
  by (rule logged_variables_hide_scrubbed [OF eoa_logins_alike])

text \<open>
  The other secrets one logs in with are not marked in the schema: a one-time login token is logged as it
  is, and so are the token of a magic link and the password of the debugging tools.
\<close>

definition token_login :: "string \<Rightarrow> string \<Rightarrow> string \<Rightarrow> (string \<times> json) list" where
  "token_login mechanism name secret = [(''m'', JObject [(mechanism, JObject [(name, JString secret)])])]"

lemma login_secrets_logged:
  assumes "(mechanism, name) \<in> {(''oneTimeLoginToken'', ''token''), (''magicLink'', ''token''), (''debug'', ''debugToolsPassword'')}"
  shows "scrub_variables repo_schema [login_variable] (token_login mechanism name secret) = (token_login mechanism name secret, [])"
proof -
  obtain d where d: "repo_schema ''AuthMechanism'' = Some d" "td_directives d = []"
    using auth_mechanism_directives by auto
  show ?thesis
    using assms
    by (elim insertE emptyE)
      (simp_all add: scrub_variables_def login_variable_def token_login_def scrubVariable_def variable_value_def d
        auth_mechanism_fields token_fields no_fields scrubVariableField.simps scrubVariableChildFields.simps put_def Let_def)
qed

text \<open>
  A variable whose type has no fields is logged as it is, whatever the text does with it: of a signature that is
  passed as a variable of its own, the log hides the variable's name and shows its value.
\<close>

lemma scalar_variables_logged:
  assumes "input_fields S (vd_type vd) = []" "\<And>d. S (named_type (vd_type vd)) = Some d \<Longrightarrow> \<not> (\<exists>x\<in>set (td_directives d). x = scrubDirectiveName)"
  shows "scrub_variables S [vd] [(vd_variable vd, v)] = ([(vd_variable vd, v)], [])"
  using assms by (cases "S (named_type (vd_type vd))")
    (auto simp: scrub_variables_def scrubVariable_def variable_value_def put_def has_scrub_def)

text \<open>A value that is no list and no object, where one of them is expected, goes to the log as it is.\<close>

lemma unexpected_values_logged:
  "fs \<noteq> [] \<Longrightarrow> scrubVariableChildFields S fs (JString secret) st name = (fst st, snd st @ [JString secret])"
  by (simp add: scrubVariableChildFields.simps warn_def)

text \<open>The type of the elements of a list of lists is not looked up, and its values are logged as they are.\<close>

lemma nested_lists_logged:
  "S [] = None \<Longrightarrow>
   scrub_variables S [\<lparr>vd_variable = k, vd_type = ListType (ListType t)\<rparr>] [(k, v)] = ([(k, v)], [])"
  by (simp add: scrub_variables_def scrubVariable_def input_fields_def variable_value_def put_def)

text \<open>The scrubbed text of a query is the text with the scrubbed text in place of each value of a marked field,
  wherever the values stand and in whatever order the walker reports them: it depends on the rest of the text alone.\<close>

theorem logged_query_hides_scrubbed:
  assumes "scrub_values vals [] = Ok ps" "set ps = set (spots 0 s parts)" "\<forall>p\<in>set parts. fst p \<noteq> []"
  shows "fst (getScrubbedQuery S vals vds (weave s parts) vars) = weave s (map (\<lambda>(secret, t). (scrubText, t)) parts)"
  using scrub_text_weave [OF assms(3) scrub_values_distinct [OF assms(1)] assms(2)] assms(1)
  by (simp add: getScrubbedQuery_def)

definition login_query :: "string \<Rightarrow> ast_value list" where
  "login_query signature =
     [AstValue (Some [(''nonce'', AstValue None 13 15 None), (''signature'', AstValue None 28 (28 + length signature) None)])
        5 (30 + length signature) (Some (input_fields repo_schema (NamedType ''EoaAuth'')))]"

lemma logged_query_hides_scrubbed_witness:
  "fst (getScrubbedQuery repo_schema (login_query ''0xabc'') [] ''{eoa:{nonce:\"n1\",signature:\"0xabc\"}}'' []) =
     ''{eoa:{nonce:\"n1\",signature:\"<scrubbed>\"}}''"
proof -
  have w: "weave ''{eoa:{nonce:\"n1\",signature:\"'' [(''0xabc'', ''\"}}'')] = ''{eoa:{nonce:\"n1\",signature:\"0xabc\"}}''"
    "weave ''{eoa:{nonce:\"n1\",signature:\"'' [(scrubText, ''\"}}'')] = ''{eoa:{nonce:\"n1\",signature:\"<scrubbed>\"}}''"
    by (simp_all add: scrubText_def)
  have s: "scrub_values (login_query ''0xabc'') [] = Ok [(28, 33)]"
    by (simp add: login_query_def scrubValue_def scrub_field_value_def eoa_fields)
  show ?thesis
    using logged_query_hides_scrubbed [OF s, of "''{eoa:{nonce:\"n1\",signature:\"''" "[(''0xabc'', ''\"}}'')]" repo_schema "[]" "[]"] w
    by simp
qed

text \<open>The login \<open>($s: String!) {eoa:{nonce:"n1",signature: $s}}\<close>, reduced to the value.\<close>

lemma signature_in_variable_logged:
  "getScrubbedQuery repo_schema (login_query ''$s'') [\<lparr>vd_variable = ''s'', vd_type = NamedType ''String''\<rparr>]
     ''{eoa:{nonce:\"n1\",signature: $s}}'' [(''s'', JString ''0xabc'')] =
   (''{eoa:{nonce:\"n1\",signature: <scrubbed>}}'', [(''s'', JString ''0xabc'')], [])"
  by code_simp

end
