(* ===== verification/Gql_Handlers.thy ===== *)
theory Gql_Handlers
  imports Session_Runs Guards
begin

text \<open>
  What surrounds the resolvers of the GraphQL API in graphql/resolver/handlers.go: the directives that stand before a
  field, the type check of the generated code behind them, the translation of errors into the types of
  the schema (graphql/resolver/schema.resolvers.helpers.go, graphql/model/remapgen_gen.go), and the
  exchange of the API object around a mutation. A resolver is a function on a state of its own, so that a
  field that was not resolved has left the state alone.
\<close>

section \<open>Errors and results\<close>

text \<open>
  A Go error: a value of a named type with its text, the validation error, a \<open>gqlerror.Error\<close> around
  another error or around none, and an error that wraps another with \<open>%w\<close>.
\<close>

datatype go_error =
    Typed string string
  | Invalid invalid_input
  | GqlError "go_error option"
  | Wrapping string go_error

text \<open>A value of the package model: its type and its message, and what \<open>ErrInvalidInput\<close> and \<open>ErrNotAuthorized\<close> add.\<close>

datatype model_value =
    Payload string
  | ModelError string string
  | ModelInvalidInput string invalid_input
  | ModelNotAuthorized string model_value

fun model_type :: "model_value \<Rightarrow> string" where
  "model_type (Payload t) = t"
| "model_type (ModelError t m) = t"
| "model_type (ModelInvalidInput m e) = ''ErrInvalidInput''"
| "model_type (ModelNotAuthorized m c) = ''ErrNotAuthorized''"

type_synonym resolved = "(go_error, model_value option) outcome"
type_synonym 's resolver = "'s \<Rightarrow> resolved \<times> 's"

section \<open>Directives\<close>

definition auth_error_text :: "auth_error \<Rightarrow> string" where
  "auth_error_text e =
     (case e of
        ErrNoCookie \<Rightarrow> ''no jwt passed as cookie''
      | ErrInvalidJWT \<Rightarrow> ''invalid or expired auth token''
      | ErrSessionInvalidated \<Rightarrow> ''session has been invalidated''
      | ErrMissingValues \<Rightarrow> ''attempted to set session state with missing values''
      | ErrUserNotFound m \<Rightarrow> m
      | ErrAuthenticationFailed m \<Rightarrow> ''authentication failed: '' @ m
      | ErrOther m \<Rightarrow> m)"

text \<open>The Go type of an error and its text.\<close>

definition auth_go_error :: "auth_error \<Rightarrow> go_error" where
  "auth_go_error e =
     Typed (case e of ErrUserNotFound _ \<Rightarrow> ''persist.ErrUserNotFound''
            | ErrAuthenticationFailed _ \<Rightarrow> ''auth.ErrAuthenticationFailed''
            | _ \<Rightarrow> ''*errors.errorString'') (auth_error_text e)"

definition makeErrNotAuthorized :: "string \<Rightarrow> model_value \<Rightarrow> model_value" where
  "makeErrNotAuthorized e c = ModelNotAuthorized (''authorization failed: '' @ e) c"

text \<open>The model of an authorization error, for the three that the schema has.\<close>

definition authorization_model :: "auth_error \<Rightarrow> model_value option" where
  "authorization_model e =
     (if e = ErrNoCookie then Some (ModelError ''ErrNoCookie'' (auth_error_text e))
      else if e = ErrInvalidJWT then Some (ModelError ''ErrInvalidToken'' (auth_error_text e))
      else if e = ErrSessionInvalidated then Some (ModelError ''ErrSessionInvalidated'' (auth_error_text e))
      else None)"

definition AuthRequired :: "gin_ctx \<Rightarrow> 's resolver \<Rightarrow> 's resolver" where
  "AuthRequired c next s =
     (case GetAuthErrorFromCtx c of
        Panic p \<Rightarrow> (Panic p, s)
      | Err e \<Rightarrow> (Err (auth_go_error e), s)
      | Ok (Some e) \<Rightarrow>
          (case authorization_model e of
             Some m \<Rightarrow> (Ok (Some (makeErrNotAuthorized (auth_error_text e) m)), s)
           | None \<Rightarrow> (Err (auth_go_error e), s))
      | Ok None \<Rightarrow>
          (case GetUserIDFromCtx c of
             Ok userID \<Rightarrow> if userID = [] then (Panic ''userID is empty, but no auth error occurred'', s) else next s
           | Err e \<Rightarrow> (Err (auth_go_error e), s)
           | Panic p \<Rightarrow> (Panic p, s)))"

definition BasicAuthDirective ::
  "(AuthTokenType \<Rightarrow> string option) \<Rightarrow> AuthTokenType list \<Rightarrow> http_request \<Rightarrow> 's resolver \<Rightarrow> 's resolver" where
  "BasicAuthDirective tokens allowed r next s =
     (if AuthorizeHeaderForAllowedTypes tokens allowed r then next s
      else (Ok (Some (ModelNotAuthorized ''not authorized''
        (ModelError ''ErrInvalidToken'' ''Basic auth: not authorized''))), s))"

text \<open>\<open>strings.SplitN(header, "Basic ", 2)\<close>: what follows the first occurrence, wherever it is.\<close>

definition after_basic :: "string \<Rightarrow> string option" where
  "after_basic header = map_option (\<lambda>i. drop (i + 6) header) (str_index header ''Basic '')"

definition frontend_password :: "string \<Rightarrow> string option" where
  "frontend_password header =
     Option.bind (after_basic header) (\<lambda>part.
     Option.bind (std_decode part) (\<lambda>usernameAndPassword.
     map_option snd (cut_colon (bytes_str usernameAndPassword))))"

definition FrontendBuildAuth :: "string \<Rightarrow> http_request \<Rightarrow> 's resolver \<Rightarrow> 's resolver" where
  "FrontendBuildAuth token r next s =
     (case frontend_password (hq_header r ''Authorization'') of
        Some password \<Rightarrow> if token = password then next s
          else (Ok (Some (ModelNotAuthorized ''Not authorized''
            (ModelError ''ErrInvalidToken'' ''Frontend build auth: not authorized''))), s)
      | None \<Rightarrow> (Ok (Some (ModelNotAuthorized ''Not authorized''
            (ModelError ''ErrInvalidToken'' ''Frontend build auth: not authorized''))), s))"

fun RestrictEnvironment :: "string \<Rightarrow> string list \<Rightarrow> 's resolver \<Rightarrow> 's resolver" where
  "RestrictEnvironment env [] next s =
     (Err (Typed ''*errors.errorString'' ''schema restriction: functionality not allowed in the current environment''), s)"
| "RestrictEnvironment env (allowedEnv # allowed) next s =
     (if equal_fold env allowedEnv then next s else RestrictEnvironment env allowed next s)"

definition Experimental :: "'s resolver \<Rightarrow> 's resolver" where
  "Experimental next = next"

section \<open>The types of the schema\<close>

text \<open>
  The interfaces of graphql/model/models_gen.go that an error type implements: one for every union that
  lists it.
\<close>

definition error_interfaces :: "(string \<times> string list) list" where
  "error_interfaces =
     [(''ErrAddressOwnedByUser'', [''AddUserWalletPayloadOrError'', ''Error'', ''AdminAddWalletPayloadOrError'']),
      (''ErrAuthenticationFailed'', [''AddUserWalletPayloadOrError'', ''Error'', ''LoginPayloadOrError'', ''CreateUserPayloadOrError'']),
      (''ErrDoesNotOwnRequiredToken'', [''AuthorizationError'', ''Error'', ''LoginPayloadOrError'', ''CreateUserPayloadOrError'']),
      (''ErrInvalidInput'',
        [''UserByUsernameOrError'', ''UserByIDOrError'', ''UserByAddressOrError'', ''SearchUsersPayloadOrError'',
         ''SearchSplitsPayloadOrError'', ''AddUserWalletPayloadOrError'', ''RemoveUserWalletsPayloadOrError'',
         ''UpdateUserInfoPayloadOrError'', ''RegisterUserPushTokenPayloadOrError'', ''UnregisterUserPushTokenPayloadOrError'',
         ''Error'', ''CreateUserPayloadOrError'', ''VerifyEmailPayloadOrError'', ''PreverifyEmailPayloadOrError'',
         ''VerifyEmailMagicLinkPayloadOrError'', ''UpdateEmailPayloadOrError'', ''ResendVerificationEmailPayloadOrError'',
         ''UpdateEmailNotificationSettingsPayloadOrError'', ''UnsubscribeFromEmailTypePayloadOrError'',
         ''OptInForRolesPayloadOrError'', ''OptOutForRolesPayloadOrError'', ''CreateSplitPayloadOrError'',
         ''UpdateSplitInfoPayloadOrError'', ''UpdateSplitHiddenPayloadOrError'', ''DeleteSplitPayloadOrError'',
         ''UpdateSplitOrderPayloadOrError'', ''UpdateSplitPayloadOrError'', ''PublishSplitPayloadOrError'',
         ''UpdatePrimaryWalletPayloadOrError'', ''UpdateUserExperiencePayloadOrError'']),
      (''ErrNotAuthorized'',
        [''ViewerOrError'', ''AddUserWalletPayloadOrError'', ''RemoveUserWalletsPayloadOrError'', ''UpdateUserInfoPayloadOrError'',
         ''RegisterUserPushTokenPayloadOrError'', ''UnregisterUserPushTokenPayloadOrError'', ''Error'',
         ''AddRolesToUserPayloadOrError'', ''RevokeRolesFromUserPayloadOrError'', ''OptInForRolesPayloadOrError'',
         ''OptOutForRolesPayloadOrError'', ''UploadPersistedQueriesPayloadOrError'', ''CreateSplitPayloadOrError'',
         ''UpdateSplitInfoPayloadOrError'', ''UpdateSplitHiddenPayloadOrError'', ''DeleteSplitPayloadOrError'',
         ''UpdateSplitOrderPayloadOrError'', ''UpdateSplitPayloadOrError'', ''PublishSplitPayloadOrError'',
         ''UpdatePrimaryWalletPayloadOrError'', ''AdminAddWalletPayloadOrError'', ''UpdateUserExperiencePayloadOrError'']),
      (''ErrPushTokenBelongsToAnotherUser'',
        [''RegisterUserPushTokenPayloadOrError'', ''UnregisterUserPushTokenPayloadOrError'', ''Error'']),
      (''ErrSplitNotFound'', [''Error'', ''SplitByIDPayloadOrError'', ''ViewerSplitByIDPayloadOrError'']),
      (''ErrTokenNotFound'', [''Error'']),
      (''ErrUserAlreadyExists'', [''Error'', ''CreateUserPayloadOrError'']),
      (''ErrUserNotFound'',
        [''UserByUsernameOrError'', ''UserByIDOrError'', ''UserByAddressOrError'', ''Error'', ''LoginPayloadOrError'',
         ''AdminAddWalletPayloadOrError'']),
      (''ErrUsernameNotAvailable'', [''UpdateUserInfoPayloadOrError'', ''Error'', ''CreateUserPayloadOrError''])]"

text \<open>The interfaces of the other types: a payload has that of its union, the objects have several.\<close>

definition object_interfaces :: "(string \<times> string list) list" where
  "object_interfaces =
     [(''Asset'', [''Node'']), (''AuthNonce'', [''GetAuthNoncePayloadOrError'']), (''DeletedNode'', [''Node'']),
      (''Recipient'', [''Node'']), (''Split'', [''Node'', ''SplitByIDPayloadOrError'']),
      (''SplitFiUser'', [''Node'', ''SplitFiUserOrWallet'', ''SplitFiUserOrAddress'', ''UserByUsernameOrError'', ''UserByIDOrError'',
         ''UserByAddressOrError'', ''AddRolesToUserPayloadOrError'', ''RevokeRolesFromUserPayloadOrError'']),
      (''Token'', [''Node'']), (''Viewer'', [''Node'', ''ViewerOrError'']), (''ViewerSplit'', [''ViewerSplitByIDPayloadOrError'']),
      (''Wallet'', [''Node'', ''SplitFiUserOrWallet''])]"

definition has_interface :: "string \<Rightarrow> model_value \<Rightarrow> bool" where
  "has_interface iface v =
     (case v of
        Payload t \<Rightarrow>
          (case map_of object_interfaces t of Some ifaces \<Rightarrow> iface \<in> set ifaces | None \<Rightarrow> iface = t @ ''OrError'')
      | _ \<Rightarrow> (\<exists>ifaces\<in>set_option (map_of error_interfaces (model_type v)). iface \<in> set ifaces))"

text \<open>The keys of \<open>typeConversionMap\<close> with the interface that the function asserts.\<close>

definition typeConversionMap :: "(string \<times> string) list" where
  "typeConversionMap =
     map (\<lambda>t. (t, t))
       [''AddRolesToUserPayloadOrError'', ''AddUserWalletPayloadOrError'', ''AdminAddWalletPayloadOrError'', ''AuthorizationError'',
        ''CreateSplitPayloadOrError'', ''CreateUserPayloadOrError'', ''DeleteSplitPayloadOrError'', ''Error'',
        ''GetAuthNoncePayloadOrError'', ''LoginPayloadOrError'', ''Node'', ''Notification'', ''OptInForRolesPayloadOrError'',
        ''OptOutForRolesPayloadOrError'', ''PreverifyEmailPayloadOrError'', ''PublishSplitPayloadOrError'',
        ''RegisterUserPushTokenPayloadOrError'', ''RemoveUserWalletsPayloadOrError'', ''ResendVerificationEmailPayloadOrError'',
        ''RevokeRolesFromUserPayloadOrError'', ''SearchSplitsPayloadOrError'', ''SearchUsersPayloadOrError'']
     @ [(''SplitByIdPayloadOrError'', ''SplitByIDPayloadOrError'')]
     @ map (\<lambda>t. (t, t))
       [''SplitFiUserOrAddress'', ''SplitFiUserOrWallet'', ''UnregisterUserPushTokenPayloadOrError'',
        ''UnsubscribeFromEmailTypePayloadOrError'', ''UpdateEmailNotificationSettingsPayloadOrError'', ''UpdateEmailPayloadOrError'',
        ''UpdatePrimaryWalletPayloadOrError'', ''UpdateSplitHiddenPayloadOrError'', ''UpdateSplitInfoPayloadOrError'',
        ''UpdateSplitOrderPayloadOrError'', ''UpdateSplitPayloadOrError'', ''UpdateUserExperiencePayloadOrError'',
        ''UpdateUserInfoPayloadOrError'', ''UploadPersistedQueriesPayloadOrError'', ''UserByAddressOrError'']
     @ [(''UserByIdOrError'', ''UserByIDOrError'')]
     @ map (\<lambda>t. (t, t))
       [''UserByUsernameOrError'', ''VerifyEmailMagicLinkPayloadOrError'', ''VerifyEmailPayloadOrError'', ''ViewerOrError'']
     @ [(''ViewerSplitByIdPayloadOrError'', ''ViewerSplitByIDPayloadOrError'')]"

definition ConvertToModelType :: "model_value \<Rightarrow> string \<Rightarrow> model_value option" where
  "ConvertToModelType v gqlTypeName =
     Option.bind (map_of typeConversionMap gqlTypeName) (\<lambda>iface. if has_interface iface v then Some v else None)"

section \<open>Errors become values\<close>

text \<open>The type of the model for a Go type.\<close>

definition mapped_types :: "(string \<times> string) list" where
  "mapped_types =
     [(''auth.ErrAuthenticationFailed'', ''ErrAuthenticationFailed''),
      (''auth.ErrDoesNotOwnRequiredNFT'', ''ErrDoesNotOwnRequiredToken''),
      (''persist.ErrUserNotFound'', ''ErrUserNotFound''),
      (''persist.ErrUserAlreadyExists'', ''ErrUserAlreadyExists''),
      (''persist.ErrUsernameNotAvailable'', ''ErrUsernameNotAvailable''),
      (''persist.ErrTokenNotFoundByID'', ''ErrTokenNotFound''),
      (''persist.ErrAddressOwnedByUser'', ''ErrAddressOwnedByUser''),
      (''persist.ErrSplitNotFound'', ''ErrSplitNotFound'')]"

text \<open>\<open>err.Error()\<close> comes first; that of a validation error may panic.\<close>

fun mapped_error :: "go_error \<Rightarrow> (go_error, model_value option) outcome" where
  "mapped_error (Typed t m) = Ok (map_option (\<lambda>mt. ModelError mt m) (map_of mapped_types t))"
| "mapped_error (Invalid e) =
     (case ErrInvalidInput_Error e of
        Ok m \<Rightarrow> Ok (Some (ModelInvalidInput m e)) | Err m \<Rightarrow> Ok None | Panic p \<Rightarrow> Panic p)"
| "mapped_error (GqlError e) = Ok None"
| "mapped_error (Wrapping m e) = Ok None"

definition errorToGraphqlType :: "go_error \<Rightarrow> string \<Rightarrow> (go_error, model_value option) outcome" where
  "errorToGraphqlType err gqlTypeName =
     map_o (\<lambda>m. Option.bind m (\<lambda>v. ConvertToModelType v gqlTypeName)) (mapped_error err)"

text \<open>\<open>errors.As\<close> for a \<open>gqlerror.Error\<close>: the first one in the chain of wrapped errors; here, what it wraps.\<close>

fun as_gqlerror :: "go_error \<Rightarrow> go_error option option" where
  "as_gqlerror (GqlError e) = Some e"
| "as_gqlerror (Wrapping m e) = as_gqlerror e"
| "as_gqlerror _ = None"

lemma as_gqlerror_size: "as_gqlerror e = Some (Some f) \<Longrightarrow> size f < size e"
  by (induction e) auto

text \<open>The loop that unwraps: it ends with an error that has no \<open>gqlerror.Error\<close> in it, or with nil.\<close>

function unwrap_gql :: "go_error \<Rightarrow> go_error option" where
  "unwrap_gql e = (case as_gqlerror e of None \<Rightarrow> Some e | Some None \<Rightarrow> None | Some (Some f) \<Rightarrow> unwrap_gql f)"
  by pat_completeness auto
termination
  by (relation "measure size") (auto dest: as_gqlerror_size)

declare unwrap_gql.simps [simp del]

record field_context =
  fc_typeName :: string
  fc_isResolver :: bool

definition RemapAndReportErrors :: "field_context \<Rightarrow> 's resolver \<Rightarrow> 's resolver" where
  "RemapAndReportErrors fc next s =
     (case next s of
        (Err err, s') \<Rightarrow>
          (case unwrap_gql err of
             None \<Rightarrow> (if fc_isResolver fc then Panic ''invalid memory address or nil pointer dereference'' else Ok None, s')
           | Some e \<Rightarrow>
               (case (if fc_isResolver fc then errorToGraphqlType e (fc_typeName fc) else Ok None) of
                  Ok (Some remapped) \<Rightarrow> (Ok (Some remapped), s')
                | Panic p \<Rightarrow> (Panic p, s')
                | _ \<Rightarrow> (Err e, s')))
      | r \<Rightarrow> r)"

section \<open>A field\<close>

text \<open>
  The generated resolver of a field (graphql/generated/generated.go): its directives run around the resolver, an error
  is put on the path, nil stays nil, and the value has to have the Go type of the field.
\<close>

definition directed_field :: "string \<Rightarrow> ('s resolver \<Rightarrow> 's resolver) \<Rightarrow> 's resolver \<Rightarrow> 's resolver" where
  "directed_field iface directives resolve s =
     (case directives resolve s of
        (Err e, s') \<Rightarrow> (Err (GqlError (Some e)), s')
      | (Ok (Some v), s') \<Rightarrow>
          (if has_interface iface v then Ok (Some v)
           else Err (Typed ''*fmt.wrapError'' (''unexpected type from directive, should be model.'' @ iface)), s')
      | r \<Rightarrow> r)"

definition auth_field :: "string \<Rightarrow> string \<Rightarrow> gin_ctx \<Rightarrow> 's resolver \<Rightarrow> 's resolver" where
  "auth_field typeName iface c resolve =
     RemapAndReportErrors \<lparr>fc_typeName = typeName, fc_isResolver = True\<rparr>
       (directed_field iface (AuthRequired c) resolve)"

section \<open>The API around a mutation\<close>

text \<open>
  \<open>PublicAPI\<close> objects live in a store and are reached through pointers: each has loaders of its own, which cache or
  do not. The request's context keeps the one that was made for mutations.
\<close>

record public_api =
  api_loaders :: nat
  api_caching :: bool

record api_store =
  as_objects :: "public_api list"
  as_no_cache :: "nat option"
  as_next :: nat

definition newPublicAPI :: "bool \<Rightarrow> api_store \<Rightarrow> nat \<times> api_store" where
  "newPublicAPI disableCaching st =
     (length (as_objects st),
      st\<lparr>as_objects := as_objects st @ [\<lparr>api_loaders = as_next st, api_caching = \<not> disableCaching\<rparr>], as_next := Suc (as_next st)\<rparr>)"

text \<open>\<open>new(publicapi.PublicAPI)\<close>, and \<open>*p = *q\<close>.\<close>

definition new_object :: "api_store \<Rightarrow> nat \<times> api_store" where
  "new_object st = (length (as_objects st), st\<lparr>as_objects := as_objects st @ [\<lparr>api_loaders = 0, api_caching = True\<rparr>]\<rparr>)"

definition copy_object :: "nat \<Rightarrow> nat \<Rightarrow> api_store \<Rightarrow> api_store" where
  "copy_object p q st = st\<lparr>as_objects := (as_objects st)[p := as_objects st ! q]\<rparr>"

text \<open>The pointer that the mutation and its child fields find in their context.\<close>

definition push_no_cache_api :: "api_store \<Rightarrow> nat \<times> api_store" where
  "push_no_cache_api st =
     (let (newAPI, st1) = new_object st in
      case as_no_cache st1 of
        Some existingAPI \<Rightarrow> (newAPI, copy_object newAPI existingAPI st1)
      | None \<Rightarrow>
          (let (noCacheAPI, st2) = newPublicAPI True st1
           in (newAPI, copy_object newAPI noCacheAPI (st2\<lparr>as_no_cache := Some noCacheAPI\<rparr>))))"

definition restore_caching :: "nat \<Rightarrow> api_store \<Rightarrow> api_store" where
  "restore_caching newAPI st = (let (cachingAPI, st1) = newPublicAPI False st in copy_object newAPI cachingAPI st1)"

text \<open>
  \<open>next\<close> gets the pointer; its value is what it returns. After it the pointer is given to the child fields.
\<close>

definition MutationCachingHandler ::
  "bool \<Rightarrow> nat \<Rightarrow> (nat \<Rightarrow> api_store \<Rightarrow> 'r \<times> api_store) \<Rightarrow> api_store \<Rightarrow> 'r \<times> nat \<times> api_store" where
  "MutationCachingHandler isMutation ctxAPI next st =
     (if \<not> isMutation then (let (r, st') = next ctxAPI st in (r, ctxAPI, st'))
      else (let (newAPI, st1) = push_no_cache_api st;
                (r, st2) = next newAPI st1
            in (r, newAPI, restore_caching newAPI st2)))"

text \<open>A resolver that only looks: it sees the object behind its pointer.\<close>

definition look :: "nat \<Rightarrow> api_store \<Rightarrow> public_api \<times> api_store" where
  "look p st = (as_objects st ! p, st)"

text \<open>The mutations of one request run one after the other; their child fields look after each.\<close>

fun run_mutations :: "nat \<Rightarrow> nat \<Rightarrow> api_store \<Rightarrow> (public_api \<times> public_api) list \<times> api_store" where
  "run_mutations 0 ctxAPI st = ([], st)"
| "run_mutations (Suc n) ctxAPI st =
     (let (seen, p, st1) = MutationCachingHandler True ctxAPI look st;
          (rest, st2) = run_mutations n ctxAPI st1
      in ((seen, as_objects st1 ! p) # rest, st2))"

section \<open>Sizes\<close>

definition limitFieldSize :: "int \<Rightarrow> int \<Rightarrow> string \<Rightarrow> string \<Rightarrow> string \<Rightarrow> string \<times> bool" where
  "limitFieldSize n maxLength name locatorId data =
     (if n \<le> maxLength then (data, False)
      else (name @ '' omitted because it is too large ('' @ itoa n @ '' bytes)''
            @ (if locatorId \<noteq> [] then '', but it should be accessible by searching logs for this unique ID: '' @ locatorId
               else []), True))"

end
