(* ===== verification/Gql_Props.thy ===== *)
theory Gql_Props
  imports Gql_Handlers Session_Props Guard_Props
begin

text \<open>
  Which resolvers run for whom, what becomes of errors, and that mutations see uncached data while their child
  fields do not.
\<close>

section \<open>Directives\<close>

lemma AuthRequired_in: "ctx_is x u c \<Longrightarrow> u \<noteq> [] \<Longrightarrow> AuthRequired c next s = next s"
  by (simp add: AuthRequired_def GetAuthErrorFromCtx_def ctx_is_def GetUserIDFromCtx_def)

definition refused :: "auth_error \<Rightarrow> resolved" where
  "refused e =
     (case authorization_model e of
        Some m \<Rightarrow> Ok (Some (makeErrNotAuthorized (auth_error_text e) m))
      | None \<Rightarrow> Err (auth_go_error e))"

lemma AuthRequired_out: "ctx_out e c \<Longrightarrow> AuthRequired c next s = (refused e, s)"
  by (auto simp: AuthRequired_def GetAuthErrorFromCtx_def ctx_out_def refused_def split: option.splits)

text \<open>Behind the type check and the translation of errors.\<close>

definition answered :: "string \<Rightarrow> auth_error \<Rightarrow> resolved" where
  "answered typeName e =
     (case authorization_model e of
        Some m \<Rightarrow> Ok (Some (makeErrNotAuthorized (auth_error_text e) m))
      | None \<Rightarrow>
          (case errorToGraphqlType (auth_go_error e) typeName of
             Ok (Some v) \<Rightarrow> Ok (Some v) | _ \<Rightarrow> Err (auth_go_error e)))"

lemma unwrap_typed [simp]: "unwrap_gql (Typed t m) = Some (Typed t m)"
  by (simp add: unwrap_gql.simps)

lemma unwrap_gqlerror [simp]: "unwrap_gql (GqlError (Some e)) = unwrap_gql e"
  by (subst unwrap_gql.simps) simp

lemma errorToGraphqlType_typed:
  "\<exists>v. errorToGraphqlType (Typed t m) ty = Ok v"
  by (simp add: errorToGraphqlType_def)

lemma auth_field_out:
  assumes "ctx_out e c" "has_interface iface (ModelNotAuthorized [] (Payload []))"
  shows "auth_field typeName iface c resolve s = (answered typeName e, s)"
proof -
  have i: "has_interface iface (ModelNotAuthorized m x)" for m x
    using assms(2) by (simp add: has_interface_def)
  obtain v where v: "errorToGraphqlType (auth_go_error e) typeName = Ok v"
    using errorToGraphqlType_typed unfolding auth_go_error_def by blast
  have u: "unwrap_gql (auth_go_error e) = Some (auth_go_error e)" by (simp add: auth_go_error_def)
  show ?thesis
    by (cases "authorization_model e"; cases v)
      (simp_all add: auth_field_def directed_field_def RemapAndReportErrors_def AuthRequired_out [OF assms(1)] refused_def
        answered_def v u i makeErrNotAuthorized_def)
qed

lemma auth_field_in:
  assumes "ctx_is x u c" "u \<noteq> []"
  shows "auth_field typeName iface c resolve s =
    RemapAndReportErrors \<lparr>fc_typeName = typeName, fc_isResolver = True\<rparr> (directed_field iface (\<lambda>next. next) resolve) s"
  by (simp add: auth_field_def RemapAndReportErrors_def directed_field_def AuthRequired_in [OF assms])

text \<open>C3: A field marked \<open>@authRequired\<close> whose union has \<open>ErrNotAuthorized\<close>, in any request of any run of the server:
  its resolver runs exactly when the request is authenticated, and then with the user of a login that
  an authenticator vouched for; otherwise nothing is touched and the answer says why.\<close>

theorem auth_required_guards_field:
  assumes "reach cfg w" "wstep cfg w e r w'" "has_interface iface (ModelNotAuthorized [] (Payload []))"
  shows "if GetUserAuthedFromCtx (rs_ctx r)
    then (\<exists>x u. (x, u) \<in> set (w_started w) \<and> GetUserIDFromCtx (rs_ctx r) = Ok u) \<and>
      auth_field typeName iface (rs_ctx r) resolve s =
        RemapAndReportErrors \<lparr>fc_typeName = typeName, fc_isResolver = True\<rparr> (directed_field iface (\<lambda>next. next) resolve) s
    else \<exists>err. getAuthenticatedUserID (rs_ctx r) = Err err \<and> auth_field typeName iface (rs_ctx r) resolve s = (answered typeName err, s)"
proof -
  note inv = reach_sess_inv [OF assms(1)]
  from step_ctx [OF inv assms(2)] consider
      x u where "ctx_is x u (rs_ctx r)" "(x, u) \<in> set (w_started w)"
    | err where "ctx_out err (rs_ctx r)" by blast
  then show ?thesis
  proof cases
    case 1
    then have "u \<noteq> []" using inv_nonempty [OF inv] by blast
    then show ?thesis
      using 1 auth_field_in [OF 1(1)] by (auto simp: ctx_is_def GetUserAuthedFromCtx_def GetUserIDFromCtx_def)
  next
    case 2
    then show ?thesis
      using auth_field_out [OF 2 assms(3)]
      by (auto simp: ctx_out_def GetUserAuthedFromCtx_def getAuthenticatedUserID_def GetAuthErrorFromCtx_def)
  qed
qed

lemma auth_required_guards_field_witness:
  "\<exists>x u. (x, u) \<in> set (w_started (snd (sample_world 1))) \<and> GetUserIDFromCtx (rs_ctx (fst (sample_world 2))) = Ok u \<and>
     auth_field ''UpdateSplitPayloadOrError'' ''UpdateSplitPayloadOrError'' (rs_ctx (fst (sample_world 2)))
       (\<lambda>n. (Ok (Some (Payload ''UpdateSplitPayload'')), Suc n)) (0 :: nat) = (Ok (Some (Payload ''UpdateSplitPayload'')), 1)"
proof -
  have "has_interface ''UpdateSplitPayloadOrError'' (ModelNotAuthorized [] (Payload []))"
    "has_interface ''UpdateSplitPayloadOrError'' (Payload ''UpdateSplitPayload'')" by code_simp+
  then show ?thesis
    using auth_required_guards_field [OF sample_reach(2) sample_steps(2), of "''UpdateSplitPayloadOrError''"
        "''UpdateSplitPayloadOrError''" "\<lambda>n. (Ok (Some (Payload ''UpdateSplitPayload'')), Suc n)" 0]
      sample_contexts(1)
    by (auto simp: RemapAndReportErrors_def directed_field_def)
qed

text \<open>
  Three unions of fields that are marked \<open>@authRequired\<close> do not have \<open>ErrNotAuthorized\<close>: without a cookie the client
  is told that the directive returned an unexpected type.
\<close>

lemma unexpected_type_for_not_authorized:
  assumes "iface \<in> {''UpdateEmailPayloadOrError'', ''ResendVerificationEmailPayloadOrError'', ''UpdateEmailNotificationSettingsPayloadOrError''}"
    and "ctx_out ErrNoCookie c"
  shows "auth_field iface iface c resolve s =
    (Err (Typed ''*fmt.wrapError'' (''unexpected type from directive, should be model.'' @ iface)), s)"
proof -
  have i: "\<not> has_interface iface (ModelNotAuthorized m x)" for m x
    using assms(1) by (elim insertE emptyE) (simp_all add: has_interface_def error_interfaces_def)
  have e: "errorToGraphqlType (Typed ''*fmt.wrapError'' t) iface = Ok None" for t
    by (simp add: errorToGraphqlType_def mapped_types_def)
  show ?thesis
    by (simp add: auth_field_def directed_field_def RemapAndReportErrors_def AuthRequired_out [OF assms(2)] refused_def
        authorization_model_def makeErrNotAuthorized_def i e)
qed

text \<open>The password of the frontend's build: what \<open>MakeHeader\<close> makes is accepted for the right password alone.\<close>

lemma str_index_prefix: "str_index (p @ s) p = Some 0"
  using has_prefix_self [of p s] by (cases "p @ s") auto

lemma frontend_password_made:
  assumes "CHR '':'' \<notin> set u" shows "frontend_password (MakeHeader (Some u) p) = Some p"
proof -
  have "after_basic (''Basic '' @ t) = Some t" for t
    unfolding after_basic_def str_index_prefix by simp
  moreover have "std_decode (std_encode (str_bytes t)) = Some (str_bytes t)" for t by (rule std_decode_encode)
  ultimately show ?thesis
    using assms by (simp add: frontend_password_def MakeHeader_def cut_colon_simp)
qed

section \<open>Errors\<close>

lemma errorToGraphqlType_type:
  "errorToGraphqlType e ty = Ok (Some v) \<longleftrightarrow>
   (\<exists>iface. mapped_error e = Ok (Some v) \<and> map_of typeConversionMap ty = Some iface \<and> has_interface iface v)"
  by (cases "mapped_error e")
    (auto simp: errorToGraphqlType_def ConvertToModelType_def bind_eq_Some_conv)

text \<open>
  What the translation is to do, said without its code: the error inside, of which no \<open>gqlerror.Error\<close> is left; the value that
  stands for it; and the field's type in the schema having that value as a member.
\<close>

fun has_gql :: "go_error \<Rightarrow> bool" where
  "has_gql (GqlError e) = True"
| "has_gql (Wrapping m e) = has_gql e"
| "has_gql _ = False"

inductive bare :: "go_error \<Rightarrow> go_error \<Rightarrow> bool" where
  itself: "\<not> has_gql e \<Longrightarrow> bare e e"
| gqlerror: "bare e f \<Longrightarrow> bare (GqlError (Some e)) f"
| wrapped: "has_gql e \<Longrightarrow> bare e f \<Longrightarrow> bare (Wrapping m e) f"

inductive_cases bare_elims: "bare (Typed t m) f" "bare (Invalid bad) f" "bare (GqlError e) f" "bare (Wrapping m e) f"

inductive translates :: "go_error \<Rightarrow> model_value \<Rightarrow> bool" where
  named: "(t, mt) \<in> set mapped_types \<Longrightarrow> translates (Typed t m) (ModelError mt m)"
| validation: "ErrInvalidInput_Error bad = Ok m \<Longrightarrow> translates (Invalid bad) (ModelInvalidInput m bad)"

inductive_simps translates_simps: "translates (Typed t m) v" "translates (Invalid bad) v" "translates (GqlError e) v"
  "translates (Wrapping m e) v"

definition admits :: "string \<Rightarrow> model_value \<Rightarrow> bool" where
  "admits typeName v = (\<exists>iface. (typeName, iface) \<in> set typeConversionMap \<and> has_interface iface v)"

definition reasons_missing :: "go_error \<Rightarrow> bool" where
  "reasons_missing e = (\<exists>bad. e = Invalid bad \<and> length (err_Reasons bad) < length (err_Parameters bad))"

lemma as_gqlerror_has: "as_gqlerror e = None \<longleftrightarrow> \<not> has_gql e"
  by (induction e) auto

lemma as_gqlerror_bare: "as_gqlerror e = Some e' \<Longrightarrow> bare e f \<longleftrightarrow> (\<exists>g. e' = Some g \<and> bare g f)"
proof (induction e)
  case (GqlError x)
  then show ?case by (auto intro: bare.intros elim: bare_elims)
next
  case (Wrapping m e)
  then have "has_gql e" using as_gqlerror_has [of e] by auto
  then show ?case using Wrapping by (auto intro: bare.intros elim: bare_elims)
qed simp_all

lemma unwrap_gql_bare: "unwrap_gql e = Some f \<longleftrightarrow> bare e f"
proof (induction e rule: unwrap_gql.induct)
  case (1 e)
  show ?case
  proof (cases "as_gqlerror e")
    case None
    then have "\<not> has_gql e" by (simp add: as_gqlerror_has)
    then have "bare e f \<longleftrightarrow> f = e" by (cases e) (auto intro: bare.intros elim: bare_elims)
    then show ?thesis using None by (subst unwrap_gql.simps) auto
  next
    case (Some x)
    then show ?thesis using 1 as_gqlerror_bare [OF Some] by (subst unwrap_gql.simps) (cases x; auto)
  qed
qed

lemma distinct_mapped: "distinct (map fst mapped_types)" "distinct (map fst typeConversionMap)"
  by code_simp+

lemma mapped_error_translates: "mapped_error e = Ok (Some v) \<longleftrightarrow> translates e v"
  using distinct_mapped(1) by (cases e) (auto simp: translates_simps split: outcome.splits)

lemma admits_map: "admits ty v \<longleftrightarrow> (\<exists>iface. map_of typeConversionMap ty = Some iface \<and> has_interface iface v)"
  using distinct_mapped(2) by (simp add: admits_def)

lemma ErrInvalidInput_Error_panics:
  "ErrInvalidInput_Error bad \<noteq> Err m"
  "is_panic (ErrInvalidInput_Error bad) \<longleftrightarrow> length (err_Reasons bad) < length (err_Parameters bad)"
  by (auto simp: ErrInvalidInput_Error_def outcome_simps split: outcome.splits if_splits)

lemma mapped_error_panics: "is_panic (mapped_error e) \<longleftrightarrow> reasons_missing e" "mapped_error e \<noteq> Err x"
  by (cases e; simp add: reasons_missing_def ErrInvalidInput_Error_def)+

lemma errorToGraphqlType_cases:
  obtains v where "errorToGraphqlType e ty = Ok (Some v)" "translates e v" "admits ty v" "\<not> reasons_missing e"
  | "errorToGraphqlType e ty = Ok None" "\<And>v. translates e v \<Longrightarrow> \<not> admits ty v" "\<not> reasons_missing e"
  | p where "errorToGraphqlType e ty = Panic p" "\<And>v. \<not> translates e v" "reasons_missing e"
proof -
  have t: "mapped_error e = Ok (Some v) \<Longrightarrow> translates e v" "translates e v \<Longrightarrow> mapped_error e = Ok (Some v)" for v
    using mapped_error_translates by blast+
  show ?thesis
  proof (cases "mapped_error e")
    case (Ok m)
    then have r: "\<not> reasons_missing e" using mapped_error_panics(1) [of e] by simp
    show ?thesis
    proof (cases "errorToGraphqlType e ty")
      case (Ok w)
      show ?thesis
      proof (cases w)
        case None
        then show ?thesis using that(2) Ok r t(2) errorToGraphqlType_type admits_map by (metis option.distinct(1) outcome.inject(1))
      next
        case (Some v)
        then show ?thesis using that(1) Ok r t(1) errorToGraphqlType_type admits_map by metis
      qed
    qed (use Ok in \<open>simp_all add: errorToGraphqlType_def\<close>)
  next
    case (Err x)
    then show ?thesis using mapped_error_panics(2) by blast
  next
    case (Panic p)
    then have "reasons_missing e" "\<And>v. \<not> translates e v" using mapped_error_panics(1) [of e] t(2) by auto
    then show ?thesis using that(3) Panic by (simp add: errorToGraphqlType_def)
  qed
qed

text \<open>C28: What the translation of errors makes of a field. The state is the one the field has left, and a value is
  passed on. An error becomes a value exactly when the field is a resolver, the error inside all \<open>gqlerror.Error\<close>s
  has a type with a model, or is a validation error, and the field's type in the schema has that model as a
  member, and then it becomes that value. It stays an error exactly when there is an error inside and no such value, and
  then it is the one inside. The request panics exactly when a resolver's error has nothing inside, or is a validation
  error with missing reasons; outside of resolvers, nothing inside is no error.\<close>

theorem errors_become_members_of_union:
  assumes "RemapAndReportErrors fc next s = (out, s')" "next s = (r, t)"
  shows "s' = t \<and>
    (case r of
       Err e \<Rightarrow>
         (\<forall>v. out = Ok (Some v) \<longleftrightarrow> fc_isResolver fc \<and> (\<exists>f. bare e f \<and> translates f v \<and> admits (fc_typeName fc) v)) \<and>
         (\<forall>f. out = Err f \<longleftrightarrow> bare e f \<and>
            \<not> (fc_isResolver fc \<and> (reasons_missing f \<or> (\<exists>v. translates f v \<and> admits (fc_typeName fc) v)))) \<and>
         (is_panic out \<longleftrightarrow> fc_isResolver fc \<and> (\<forall>f. bare e f \<longrightarrow> reasons_missing f)) \<and>
         (out = Ok None \<longleftrightarrow> \<not> fc_isResolver fc \<and> (\<forall>f. \<not> bare e f))
     | _ \<Rightarrow> out = r)"
proof (cases r)
  case (Err e)
  note run = assms [unfolded RemapAndReportErrors_def] Err
  show ?thesis
  proof (cases "unwrap_gql e")
    case None
    then have n: "\<not> bare e f" for f using unwrap_gql_bare by (metis option.distinct(1))
    show ?thesis
    proof (cases "fc_isResolver fc")
      case True
      have o': "out = Panic ''invalid memory address or nil pointer dereference''" "s' = t" using run None True by simp_all
      show ?thesis using Err True by (simp add: o' n)
    next
      case False
      have o': "out = Ok None" "s' = t" using run None False by simp_all
      show ?thesis using Err False by (simp add: o' n)
    qed
  next
    case (Some f)
    then have f: "bare e g \<longleftrightarrow> g = f" for g using unwrap_gql_bare by (metis option.inject)
    show ?thesis
    proof (cases "fc_isResolver fc")
      case False
      have o': "out = Err f" "s' = t" using run Some False by simp_all
      show ?thesis using Err False by (auto simp: o' f)
    next
      case True
      show ?thesis
      proof (cases rule: errorToGraphqlType_cases [of f "fc_typeName fc"])
        case (1 v)
        have u: "translates f w \<longleftrightarrow> w = v" for w
          using 1(2) mapped_error_translates [of f] by (metis option.inject outcome.inject(1))
        have o': "out = Ok (Some v)" "s' = t" using run Some True 1(1) by simp_all
        show ?thesis using Err 1(3,4) True by (auto simp: o' f u)
      next
        case 2
        have o': "out = Err f" "s' = t" using run Some True 2(1) by simp_all
        show ?thesis using Err 2(2,3) True by (auto simp: o' f)
      next
        case (3 p)
        have o': "out = Panic p" "s' = t" using run Some True 3(1) by simp_all
        show ?thesis using Err 3(2,3) True by (auto simp: o' f)
      qed
    qed
  qed
qed (use assms in \<open>auto simp: RemapAndReportErrors_def\<close>)

lemma errors_become_members_of_union_witness:
  "\<exists>f. bare (GqlError (Some (Typed ''persist.ErrUserNotFound'' ''no user''))) f \<and>
     translates f (ModelError ''ErrUserNotFound'' ''no user'') \<and> admits ''UserByIdOrError'' (ModelError ''ErrUserNotFound'' ''no user'')"
proof -
  let ?next = "\<lambda>n :: nat. (Err (GqlError (Some (Typed ''persist.ErrUserNotFound'' ''no user''))), n)"
  have "RemapAndReportErrors \<lparr>fc_typeName = ''UserByIdOrError'', fc_isResolver = True\<rparr> ?next 0 =
      (Ok (Some (ModelError ''ErrUserNotFound'' ''no user'')), 0)"
    by code_simp
  from errors_become_members_of_union [OF this refl] show ?thesis by auto
qed

text \<open>
  The error for somebody else's push token is a member of both unions, but is not translated; and an error of
  gqlparser that wraps none crashes the translation.
\<close>

lemma push_token_error_not_translated:
  "errorToGraphqlType (Typed ''persist.ErrPushTokenBelongsToAnotherUser'' m) ty = Ok None"
  "has_interface ''RegisterUserPushTokenPayloadOrError'' (ModelError ''ErrPushTokenBelongsToAnotherUser'' m)"
  by (simp_all add: errorToGraphqlType_def mapped_types_def has_interface_def error_interfaces_def)

lemma plain_gqlerror_panics:
  "is_panic (fst (RemapAndReportErrors \<lparr>fc_typeName = ty, fc_isResolver = True\<rparr> (\<lambda>s. (Err (GqlError None), s)) s))"
  by (simp add: RemapAndReportErrors_def unwrap_gql.simps)

section \<open>Mutations\<close>

definition api_ok :: "public_api \<Rightarrow> api_store \<Rightarrow> bool" where
  "api_ok a st \<longleftrightarrow> (\<exists>p. as_no_cache st = Some p \<and> p < length (as_objects st) \<and> as_objects st ! p = a)"

lemma mutation_first:
  assumes "as_no_cache st = None"
  shows "\<exists>p st'. MutationCachingHandler True c look st = (\<lparr>api_loaders = as_next st, api_caching = False\<rparr>, p, st') \<and>
    as_objects st' ! p = \<lparr>api_loaders = Suc (as_next st), api_caching = True\<rparr> \<and>
    api_ok \<lparr>api_loaders = as_next st, api_caching = False\<rparr> st' \<and> as_next st' = as_next st + 2"
  using assms
  by (simp add: MutationCachingHandler_def push_no_cache_api_def new_object_def newPublicAPI_def copy_object_def look_def
      restore_caching_def api_ok_def nth_append nth_list_update)

lemma mutation_next:
  assumes "api_ok a st"
  shows "\<exists>p st'. MutationCachingHandler True c look st = (a, p, st') \<and>
    as_objects st' ! p = \<lparr>api_loaders = as_next st, api_caching = True\<rparr> \<and> api_ok a st' \<and> as_next st' = Suc (as_next st)"
  using assms
  by (auto simp: MutationCachingHandler_def push_no_cache_api_def new_object_def newPublicAPI_def copy_object_def look_def
      restore_caching_def api_ok_def nth_append nth_list_update)

lemma run_mutations_next:
  "api_ok a st \<Longrightarrow> fst (run_mutations n c st) = map (\<lambda>i. (a, \<lparr>api_loaders = as_next st + i, api_caching = True\<rparr>)) [0..<n]"
proof (induction n arbitrary: st)
  case (Suc n)
  from mutation_next [OF Suc.prems] obtain p st' where
    m: "MutationCachingHandler True c look st = (a, p, st')"
      "as_objects st' ! p = \<lparr>api_loaders = as_next st, api_caching = True\<rparr>" "api_ok a st'" "as_next st' = Suc (as_next st)"
    by blast
  show ?case
    using Suc.IH [OF m(3)] m by (simp add: upt_conv_Cons map_Suc_upt [symmetric] comp_def case_prod_beta' del: upt_Suc)
qed simp

text \<open>C29: The mutations of a request all run on one API without caching, the first as well as the later ones, and
  the child fields of each run on a fresh API that caches: replacing the object behind the context after
  a mutation does not change the shared one.\<close>

theorem mutations_share_uncached_api:
  assumes "as_no_cache st = None"
  shows "fst (run_mutations n c st) =
    map (\<lambda>i. (\<lparr>api_loaders = as_next st, api_caching = False\<rparr>, \<lparr>api_loaders = as_next st + 1 + i, api_caching = True\<rparr>)) [0..<n]"
proof (cases n)
  case (Suc k)
  from mutation_first [OF assms] obtain p st' where
    m: "MutationCachingHandler True c look st = (\<lparr>api_loaders = as_next st, api_caching = False\<rparr>, p, st')"
      "as_objects st' ! p = \<lparr>api_loaders = Suc (as_next st), api_caching = True\<rparr>"
      "api_ok \<lparr>api_loaders = as_next st, api_caching = False\<rparr> st'" "as_next st' = as_next st + 2"
    by blast
  show ?thesis
    using run_mutations_next [OF m(3)] m Suc
    by (simp add: upt_conv_Cons map_Suc_upt [symmetric] comp_def case_prod_beta' del: upt_Suc)
qed simp

lemma mutations_share_uncached_api_witness:
  "map (api_caching \<circ> fst) (fst (run_mutations 2 0 \<lparr>as_objects = [\<lparr>api_loaders = 0, api_caching = True\<rparr>], as_no_cache = None, as_next = 1\<rparr>))
     = [False, False]"
  by (subst mutations_share_uncached_api) (simp_all add: upt_rec)

end
