(* ===== verification/Gql_Nodes.thy ===== *)
theory Gql_Nodes
  imports Gql_Handlers User_Store
begin

text \<open>
  Global IDs of the GraphQL API (graphql/model/gqlidgen_gen.go, graphql/model/models.go), the lookup of a node by its
  ID with the handlers of graphql/resolver/schema.resolvers.helpers.go, and the helpers there that decide what
  a request sees of the user it runs as.
\<close>

section \<open>Global IDs\<close>

definition gql_id :: "string \<Rightarrow> DBID \<Rightarrow> string" where
  "gql_id typeName dbid = typeName @ '':'' @ dbid"

definition Asset_ID :: "DBID \<Rightarrow> string" where "Asset_ID dbid = gql_id ''Asset'' dbid"
definition DeletedNode_ID :: "DBID \<Rightarrow> string" where "DeletedNode_ID dbid = gql_id ''DeletedNode'' dbid"
definition Recipient_ID :: "DBID \<Rightarrow> string" where "Recipient_ID dbid = gql_id ''Recipient'' dbid"
definition Split_ID :: "DBID \<Rightarrow> string" where "Split_ID dbid = gql_id ''Split'' dbid"
definition SplitFiUser_ID :: "DBID \<Rightarrow> string" where "SplitFiUser_ID dbid = gql_id ''SplitFiUser'' dbid"
definition Token_ID :: "DBID \<Rightarrow> string" where "Token_ID dbid = gql_id ''Token'' dbid"
definition Viewer_ID :: "DBID \<Rightarrow> string" where "Viewer_ID userId = gql_id ''Viewer'' userId"
definition Wallet_ID :: "DBID \<Rightarrow> string" where "Wallet_ID dbid = gql_id ''Wallet'' dbid"

datatype node_error = ErrInvalidIDFormat string | FetchError go_error

type_synonym 'n fetch = "string \<Rightarrow> (node_error, 'n) outcome"

record 'n node_fetcher =
  OnAsset :: "'n fetch"
  OnDeletedNode :: "'n fetch"
  OnRecipient :: "'n fetch"
  OnSplit :: "'n fetch"
  OnSplitFiUser :: "'n fetch"
  OnToken :: "'n fetch"
  OnViewer :: "'n fetch"
  OnWallet :: "'n fetch"

definition one_component :: "string \<Rightarrow> 'n fetch \<Rightarrow> string list \<Rightarrow> (node_error, 'n) outcome" where
  "one_component typeName fetch ids =
     (case ids of
        [dbid] \<Rightarrow> fetch dbid
      | _ \<Rightarrow> Err (ErrInvalidIDFormat ([CHR 0x27] @ typeName @ [CHR 0x27] @ '' type requires 1 ID component(s) (''
               @ itoa (int (length ids)) @ '' component(s) supplied)'')))"

definition GetNodeByGqlID :: "'n node_fetcher \<Rightarrow> string \<Rightarrow> (node_error, 'n) outcome" where
  "GetNodeByGqlID n i =
     (let parts = str_split i '':'' in
      if length parts = 1 then Err (ErrInvalidIDFormat ''no ID components specified after type name'')
      else
        let typeName = hd parts; ids = tl parts in
        if typeName = ''Asset'' then one_component typeName (OnAsset n) ids
        else if typeName = ''DeletedNode'' then one_component typeName (OnDeletedNode n) ids
        else if typeName = ''Recipient'' then one_component typeName (OnRecipient n) ids
        else if typeName = ''Split'' then one_component typeName (OnSplit n) ids
        else if typeName = ''SplitFiUser'' then one_component typeName (OnSplitFiUser n) ids
        else if typeName = ''Token'' then one_component typeName (OnToken n) ids
        else if typeName = ''Viewer'' then one_component typeName (OnViewer n) ids
        else if typeName = ''Wallet'' then one_component typeName (OnWallet n) ids
        else Err (ErrInvalidIDFormat typeName))"

text \<open>The handler of a type, for the types that have one.\<close>

definition handler_of :: "'n node_fetcher \<Rightarrow> string \<Rightarrow> 'n fetch option" where
  "handler_of n typeName = map_of
     [(''Asset'', OnAsset n), (''DeletedNode'', OnDeletedNode n), (''Recipient'', OnRecipient n), (''Split'', OnSplit n),
      (''SplitFiUser'', OnSplitFiUser n), (''Token'', OnToken n), (''Viewer'', OnViewer n), (''Wallet'', OnWallet n)] typeName"

section \<open>The user a request runs as\<close>

definition GetLoggedInUserId :: "gin_ctx \<Rightarrow> (auth_error, DBID) outcome" where
  "GetLoggedInUserId c = GetUserIDFromCtx c"

definition IsUserLoggedIn :: "gin_ctx \<Rightarrow> bool" where
  "IsUserLoggedIn c = GetUserAuthedFromCtx c"

text \<open>A viewer is its user ID.\<close>

definition resolveViewer :: "gin_ctx \<Rightarrow> (auth_error, DBID option) outcome" where
  "resolveViewer c = (if \<not> IsUserLoggedIn c then Ok None else map_o Some (GetLoggedInUserId c))"

definition resolveViewerByID :: "gin_ctx \<Rightarrow> string \<Rightarrow> (auth_error, DBID option) outcome" where
  "resolveViewerByID c i =
     (if \<not> IsUserLoggedIn c then Ok None
      else map_o (\<lambda>userID. if userID \<noteq> i then None else Some userID) (GetLoggedInUserId c))"

text \<open>The flag \<open>IsAuthenticatedUser\<close> of a user.\<close>

definition isAuthenticatedUser :: "gin_ctx \<Rightarrow> DBID \<Rightarrow> (auth_error, bool) outcome" where
  "isAuthenticatedUser c userID =
     (if IsUserLoggedIn c then map_o (\<lambda>u. u = userID) (GetLoggedInUserId c) else Ok False)"

text \<open>The subscriptions ask for the user before they return their channel.\<close>

definition resolveNewNotificationSubscription :: "gin_ctx \<Rightarrow> (DBID \<Rightarrow> 'ch) \<Rightarrow> (auth_error, 'ch) outcome" where
  "resolveNewNotificationSubscription c subscribe = map_o subscribe (GetLoggedInUserId c)"

definition resolveUpdatedNotificationSubscription :: "gin_ctx \<Rightarrow> (DBID \<Rightarrow> 'ch) \<Rightarrow> (auth_error, 'ch) outcome" where
  "resolveUpdatedNotificationSubscription c subscribe = map_o subscribe (GetLoggedInUserId c)"

text \<open>The email address that is shown, with whether it is verified.\<close>

definition userWithPIIToEmailModel :: "string \<Rightarrow> string \<Rightarrow> string \<times> bool" where
  "userWithPIIToEmailModel verified unverified = (if verified \<noteq> [] then (verified, True) else (unverified, False))"

section \<open>Windows of time\<close>

record window = duration :: int  window_name :: string

definition lastFiveDaysWindow :: window where "lastFiveDaysWindow = \<lparr>duration = 5 * 24 * hour, window_name = ''LAST_5_DAYS''\<rparr>"
definition lastSevenDaysWindow :: window where "lastSevenDaysWindow = \<lparr>duration = 7 * 24 * hour, window_name = ''LAST_7_DAYS''\<rparr>"
definition allTimeWindow :: window where "allTimeWindow = \<lparr>duration = 2 ^ 63 - 1, window_name = ''ALL_TIME''\<rparr>"

text \<open>The argument is the string, or none when the value is not one.\<close>

definition Window_UnmarshalGQL :: "string option \<Rightarrow> (string, window) outcome" where
  "Window_UnmarshalGQL v =
     (case v of
        None \<Rightarrow> Err ''Window must be a string''
      | Some w \<Rightarrow>
          if w = window_name lastFiveDaysWindow then Ok lastFiveDaysWindow
          else if w = window_name lastSevenDaysWindow then Ok lastSevenDaysWindow
          else if w = window_name allTimeWindow then Ok allTimeWindow
          else Panic (''unknown window: '' @ w))"

definition Window_MarshalGQL :: "window \<Rightarrow> (string, string) outcome" where
  "Window_MarshalGQL w =
     (if w \<in> {lastFiveDaysWindow, lastSevenDaysWindow, allTimeWindow} then Ok ([CHR 0x22] @ window_name w @ [CHR 0x22])
      else Panic ''unknown window'')"

lemma window_names:
  "window_name lastFiveDaysWindow = ''LAST_5_DAYS''" "window_name lastSevenDaysWindow = ''LAST_7_DAYS''"
  "window_name allTimeWindow = ''ALL_TIME''"
  by (simp_all add: lastFiveDaysWindow_def lastSevenDaysWindow_def allTimeWindow_def)

text \<open>What is written is read back, and nothing but the three windows is written.\<close>

lemma window_round_trip:
  "Window_MarshalGQL w = Ok ([CHR 0x22] @ s @ [CHR 0x22]) \<longleftrightarrow> Window_UnmarshalGQL (Some s) = Ok w"
proof -
  let ?ws = "{lastFiveDaysWindow, lastSevenDaysWindow, allTimeWindow}"
  have inj: "inj_on window_name ?ws" by (rule inj_onI) (auto simp: window_names)
  have "Window_UnmarshalGQL (Some s) = Ok w \<longleftrightarrow> w \<in> ?ws \<and> window_name w = s"
  proof (cases "\<exists>v\<in>?ws. window_name v = s")
    case True
    then obtain v where v: "v \<in> ?ws" "window_name v = s" by blast
    then have "Window_UnmarshalGQL (Some s) = Ok v" by (auto simp: Window_UnmarshalGQL_def window_names)
    then show ?thesis using inj_onD [OF inj] v by (metis outcome.inject(1))
  next
    case False
    then have "Window_UnmarshalGQL (Some s) = Panic (''unknown window: '' @ s)" by (auto simp: Window_UnmarshalGQL_def)
    then show ?thesis using False by auto
  qed
  then show ?thesis unfolding Window_MarshalGQL_def by simp
qed

section \<open>Facts\<close>

fun join_with :: "string \<Rightarrow> string list \<Rightarrow> string" where
  "join_with sep [] = []"
| "join_with sep [s] = s"
| "join_with sep (s # t # ss) = s @ sep @ join_with sep (t # ss)"

lemma split_on_Cons: "\<exists>p ps. split_on sep cur s = p # ps"
  by (induction sep cur s rule: split_on.induct) (subst split_on.simps, auto)

lemma join_split_on: "sep \<noteq> [] \<Longrightarrow> join_with sep (split_on sep cur s) = cur @ s"
proof (induction sep cur s rule: split_on.induct)
  case (1 sep cur s)
  consider "s = []" | "s \<noteq> []" "has_prefix s sep" | "s \<noteq> []" "\<not> has_prefix s sep" by blast
  then show ?case
  proof cases
    case 2
    obtain p ps where q: "split_on sep [] (drop (length sep) s) = p # ps" using split_on_Cons by blast
    have "join_with sep (p # ps) = drop (length sep) s" using 1(1) 1(3) 2 q by simp
    moreover have "sep @ drop (length sep) s = s" using 2(2) by (auto simp: has_prefix_iff)
    ultimately show ?thesis using 2 1(3) q by (subst split_on.simps) simp
  next
    case 3
    then show ?thesis using 1(2,3) by (subst split_on.simps) simp
  qed (subst split_on.simps, simp)
qed

lemma join_str_split: "sep \<noteq> [] \<Longrightarrow> join_with sep (str_split s sep) = s"
  by (simp add: str_split_def join_split_on)

lemma split_on_pieces: "p \<in> set (split_on [c] cur s) \<Longrightarrow> c \<notin> set cur \<Longrightarrow> c \<notin> set p"
proof (induction "[c]" cur s arbitrary: p rule: split_on.induct)
  case (1 cur s)
  consider "s = []" | "s \<noteq> []" "has_prefix s [c]" | "s \<noteq> []" "\<not> has_prefix s [c]" by blast
  then show ?case
  proof cases
    case 1
    then show ?thesis using "1.prems" by (simp add: split_on.simps)
  next
    case 2
    then have "p = cur \<or> p \<in> set (split_on [c] [] (drop (length [c]) s))" using "1.prems"(1) by (subst (asm) split_on.simps) simp
    then show ?thesis using "1.hyps"(1) "1.prems"(2) 2 by auto
  next
    case 3
    then have "hd s \<noteq> c" by (cases s) auto
    then show ?thesis using "1.hyps"(2) "1.prems" 3 by (subst (asm) split_on.simps) simp
  qed
qed

lemma str_split_two: "str_split s [c] = [a, b] \<longleftrightarrow> s = a @ c # b \<and> c \<notin> set a \<and> c \<notin> set b"
proof
  assume l: "str_split s [c] = [a, b]"
  then have "join_with [c] [a, b] = s" using join_str_split [of "[c]" s] by simp
  moreover have "c \<notin> set a" "c \<notin> set b" using l split_on_pieces [of _ c "[]" s] by (auto simp: str_split_def)
  ultimately show "s = a @ c # b \<and> c \<notin> set a \<and> c \<notin> set b" by simp
qed (auto simp: str_split_pair)

lemma GetNodeByGqlID_handler:
  "GetNodeByGqlID n i =
     (let parts = str_split i '':'' in
      if length parts = 1 then Err (ErrInvalidIDFormat ''no ID components specified after type name'')
      else case handler_of n (hd parts) of
          Some fetch \<Rightarrow> one_component (hd parts) fetch (tl parts)
        | None \<Rightarrow> Err (ErrInvalidIDFormat (hd parts)))"
  by (simp add: GetNodeByGqlID_def handler_of_def Let_def)

text \<open>The methods \<open>ID\<close> of the nodes, with the handlers of their types in the same order.\<close>

definition id_functions :: "(DBID \<Rightarrow> string) list" where
  "id_functions = [Asset_ID, DeletedNode_ID, Recipient_ID, Split_ID, SplitFiUser_ID, Token_ID, Viewer_ID, Wallet_ID]"

definition type_names :: "string list" where
  "type_names = [''Asset'', ''DeletedNode'', ''Recipient'', ''Split'', ''SplitFiUser'', ''Token'', ''Viewer'', ''Wallet'']"

lemma id_functions_gql: "id_functions = map gql_id type_names"
  by (simp add: id_functions_def type_names_def fun_eq_iff Asset_ID_def DeletedNode_ID_def Recipient_ID_def Split_ID_def
      SplitFiUser_ID_def Token_ID_def Viewer_ID_def Wallet_ID_def)

lemma type_names_plain: "t \<in> set type_names \<Longrightarrow> CHR '':'' \<notin> set t" "distinct type_names" "length type_names = 8"
  by (auto simp: type_names_def)

lemma handler_of_type: "handler_of n t \<noteq> None \<longleftrightarrow> t \<in> set type_names"
  by (auto simp: handler_of_def type_names_def)

lemma node_found:
  assumes "handler_of n typeName = Some fetch" "CHR '':'' \<notin> set dbid"
  shows "GetNodeByGqlID n (gql_id typeName dbid) = fetch dbid"
proof -
  have "typeName \<in> set type_names" using assms(1) handler_of_type [of n typeName] by simp
  then have "CHR '':'' \<notin> set typeName" by (rule type_names_plain(1))
  then have "str_split (gql_id typeName dbid) '':'' = [typeName, dbid]"
    using assms(2) by (simp add: gql_id_def str_split_two)
  then show ?thesis using assms(1) by (simp add: GetNodeByGqlID_handler one_component_def)
qed

lemma gql_id_inject:
  assumes "s \<in> set type_names" "t \<in> set type_names" "gql_id s x = gql_id t y"
  shows "s = t \<and> x = y"
proof -
  have "takeWhile (\<lambda>c. c \<noteq> CHR '':'') (gql_id u z) = u" if "u \<in> set type_names" for u z
    using type_names_plain(1) [OF that] unfolding gql_id_def by (subst takeWhile_append2) auto
  then have "s = t" using assms by metis
  then show ?thesis using assms(3) by (simp add: gql_id_def)
qed

text \<open>C30: The ID that each kind of node makes of its database ID, if that has no colon, is looked up by the handler of
  that kind with that database ID; a string that is no such ID is refused without a fetch; and nodes of two
  kinds, or with two database IDs, never share an ID.\<close>

theorem node_ids_round_trip:
  "(CHR '':'' \<notin> set dbid \<longrightarrow>
      GetNodeByGqlID n (Asset_ID dbid) = OnAsset n dbid \<and>
      GetNodeByGqlID n (DeletedNode_ID dbid) = OnDeletedNode n dbid \<and>
      GetNodeByGqlID n (Recipient_ID dbid) = OnRecipient n dbid \<and>
      GetNodeByGqlID n (Split_ID dbid) = OnSplit n dbid \<and>
      GetNodeByGqlID n (SplitFiUser_ID dbid) = OnSplitFiUser n dbid \<and>
      GetNodeByGqlID n (Token_ID dbid) = OnToken n dbid \<and>
      GetNodeByGqlID n (Viewer_ID dbid) = OnViewer n dbid \<and>
      GetNodeByGqlID n (Wallet_ID dbid) = OnWallet n dbid) \<and>
   ((\<nexists>mk d. mk \<in> set id_functions \<and> CHR '':'' \<notin> set d \<and> i = mk d) \<longrightarrow> (\<exists>m. GetNodeByGqlID n i = Err (ErrInvalidIDFormat m))) \<and>
   (j < length id_functions \<and> k < length id_functions \<and> (id_functions ! j) x = (id_functions ! k) y \<longrightarrow> j = k \<and> x = y)"
proof -
  have refused: "\<exists>m. GetNodeByGqlID n i = Err (ErrInvalidIDFormat m)"
    if no: "\<nexists>mk d. mk \<in> set id_functions \<and> CHR '':'' \<notin> set d \<and> i = mk d"
  proof (cases "handler_of n (hd (str_split i '':''))")
    case (Some fetch)
    obtain p ps where ps: "str_split i '':'' = p # ps" using split_on_Cons unfolding str_split_def by blast
    have "ps \<noteq> [d]" for d
    proof
      assume "ps = [d]"
      then have "i = gql_id p d" "CHR '':'' \<notin> set d" using ps by (simp_all add: str_split_two gql_id_def)
      moreover have "gql_id p \<in> set id_functions" using Some ps handler_of_type [of n p] by (simp add: id_functions_gql)
      ultimately show False using no by blast
    qed
    then show ?thesis using Some ps by (auto simp: GetNodeByGqlID_handler one_component_def Let_def split: list.split)
  qed (auto simp: GetNodeByGqlID_handler Let_def)
  have inj: "j = k \<and> x = y"
    if "j < length id_functions" "k < length id_functions" "(id_functions ! j) x = (id_functions ! k) y"
  proof -
    have "type_names ! j = type_names ! k \<and> x = y"
      using that by (intro gql_id_inject) (simp_all add: id_functions_gql)
    then show ?thesis using type_names_plain(2) that(1,2) by (simp add: id_functions_gql nth_eq_iff_index_eq)
  qed
  have found: "GetNodeByGqlID n (Asset_ID dbid) = OnAsset n dbid" "GetNodeByGqlID n (DeletedNode_ID dbid) = OnDeletedNode n dbid"
    "GetNodeByGqlID n (Recipient_ID dbid) = OnRecipient n dbid" "GetNodeByGqlID n (Split_ID dbid) = OnSplit n dbid"
    "GetNodeByGqlID n (SplitFiUser_ID dbid) = OnSplitFiUser n dbid" "GetNodeByGqlID n (Token_ID dbid) = OnToken n dbid"
    "GetNodeByGqlID n (Viewer_ID dbid) = OnViewer n dbid" "GetNodeByGqlID n (Wallet_ID dbid) = OnWallet n dbid"
    if "CHR '':'' \<notin> set dbid"
    unfolding Asset_ID_def DeletedNode_ID_def Recipient_ID_def Split_ID_def SplitFiUser_ID_def Token_ID_def Viewer_ID_def Wallet_ID_def
    by (rule node_found [OF _ that], simp add: handler_of_def)+
  show ?thesis using found refused inj by blast
qed

definition echo_fetcher :: "(string \<times> string) node_fetcher" where
  "echo_fetcher =
     \<lparr>OnAsset = (\<lambda>i. Ok (''asset'', i)), OnDeletedNode = (\<lambda>i. Ok (''deleted'', i)), OnRecipient = (\<lambda>i. Ok (''recipient'', i)),
      OnSplit = (\<lambda>i. Ok (''split'', i)), OnSplitFiUser = (\<lambda>i. Ok (''user'', i)), OnToken = (\<lambda>i. Ok (''token'', i)),
      OnViewer = (\<lambda>i. Ok (''viewer'', i)), OnWallet = (\<lambda>i. Ok (''wallet'', i))\<rparr>"

lemma node_ids_round_trip_witness:
  "GetNodeByGqlID echo_fetcher (Split_ID ''2abc'') = Ok (''split'', ''2abc'') \<and>
   (\<exists>m. GetNodeByGqlID echo_fetcher ''Gallery:2abc'' = Err (ErrInvalidIDFormat m)) \<and> Split_ID ''2abc'' \<noteq> Wallet_ID ''2abc''"
proof -
  have no: "\<nexists>mk d. mk \<in> set id_functions \<and> CHR '':'' \<notin> set d \<and> ''Gallery:2abc'' = mk d"
    by (auto simp: id_functions_gql type_names_def gql_id_def)
  have k: "id_functions ! 3 = Split_ID" "id_functions ! 7 = Wallet_ID" "length id_functions = 8" by (simp_all add: id_functions_def)
  note p = node_ids_round_trip [of "''2abc''" echo_fetcher "''Gallery:2abc''" 3 7 "''2abc''" "''2abc''"]
  have "GetNodeByGqlID echo_fetcher (Split_ID ''2abc'') = OnSplit echo_fetcher ''2abc''" using p by simp
  then show ?thesis using p no k by (simp add: echo_fetcher_def)
qed

text \<open>A viewer is only found by the user who is logged in, and a subscription without a login panics.\<close>

lemma viewer_node_is_own:
  "resolveViewerByID c i = Ok (Some u) \<Longrightarrow> u = i \<and> GetUserAuthedFromCtx c \<and> GetUserIDFromCtx c = Ok i"
  by (auto simp: resolveViewerByID_def IsUserLoggedIn_def GetLoggedInUserId_def outcome_simps split: if_splits)

lemma subscription_needs_login:
  "cx_user c = Some (AsString []) \<Longrightarrow> is_panic (resolveNewNotificationSubscription c subscribe)"
  by (simp add: resolveNewNotificationSubscription_def GetLoggedInUserId_def GetUserIDFromCtx_def)

lemma viewer_never_panics:
  assumes "GetUserAuthedFromCtx c \<longrightarrow> (\<exists>u. GetUserIDFromCtx c = Ok u)"
  shows "\<not> is_panic (resolveViewer c)" "\<not> is_panic (resolveViewerByID c i)" "\<not> is_panic (isAuthenticatedUser c i)"
  using assms by (auto simp: resolveViewer_def resolveViewerByID_def isAuthenticatedUser_def IsUserLoggedIn_def GetLoggedInUserId_def)

end
