(* ===== verification/Redis_Props.thy ===== *)
theory Redis_Props
  imports Redis_Cache
begin

text \<open>
  The caches keep out of each other's keys; the times of theory Sessions are refined by the operations on the server;
  the later of two times wins in whatever order they arrive; and a lazy cache computes once.
\<close>

section \<open>Key spaces\<close>

lemma prefixed_keys_differ:
  assumes "CHR '':'' \<notin> set p" "CHR '':'' \<notin> set q" "p @ '':'' @ j = q @ '':'' @ k"
  shows "p = q \<and> j = k"
proof -
  have "takeWhile (\<lambda>c. c \<noteq> CHR '':'') (u @ '':'' @ t) = u" if "CHR '':'' \<notin> set u" for u t
    using that by (subst takeWhile_append2) auto
  then have "p = q" using assms by metis
  then show ?thesis using assms(3) by simp
qed

text \<open>Two configurations of the same database have two prefixes, none of them empty.\<close>

definition apart :: "cache_config \<Rightarrow> cache_config \<Rightarrow> bool" where
  "apart c d \<longleftrightarrow> database c \<noteq> database d \<or> keyPrefix c \<noteq> [] \<and> keyPrefix d \<noteq> [] \<and> keyPrefix c \<noteq> keyPrefix d"

definition plain_prefix :: "cache_config \<Rightarrow> bool" where
  "plain_prefix c \<longleftrightarrow> CHR '':'' \<notin> set (keyPrefix c)"

lemma place_inject: "place c j = place c k \<longleftrightarrow> j = k"
  by (auto simp: place_def getPrefixedKey_def)

lemma place_apart: "apart c d \<Longrightarrow> plain_prefix c \<Longrightarrow> plain_prefix d \<Longrightarrow> place c j \<noteq> place d k"
  using prefixed_keys_differ [of "keyPrefix c" "keyPrefix d" j k]
  by (auto simp: apart_def plain_prefix_def place_def getPrefixedKey_def)

fun pairwise_apart :: "cache_config list \<Rightarrow> bool" where
  "pairwise_apart [] = True"
| "pairwise_apart (c # cs) = (list_all (apart c) cs \<and> pairwise_apart cs)"

lemma apart_sym: "apart c d \<Longrightarrow> apart d c"
  by (auto simp: apart_def)

lemma pairwise_apartD: "pairwise_apart cs \<Longrightarrow> c \<in> set cs \<Longrightarrow> d \<in> set cs \<Longrightarrow> c \<noteq> d \<Longrightarrow> apart c d"
  by (induction cs) (auto simp: list_all_iff intro: apart_sym)

lemma cache_configs_apart: "pairwise_apart (map snd cache_configs)" "list_all plain_prefix (map snd cache_configs)"
  by code_simp+

lemma place_eq_iff:
  assumes "(n, c) \<in> set cache_configs" "(m, d) \<in> set cache_configs"
  shows "place c j = place d k \<longleftrightarrow> c = d \<and> j = k"
proof -
  have "c \<in> set (map snd cache_configs)" "d \<in> set (map snd cache_configs)" using assms by force+
  then show ?thesis
    using pairwise_apartD [OF cache_configs_apart(1)] cache_configs_apart(2) place_apart
    by (metis list_all_iff place_inject)
qed

lemma getPrefixedKeys_map: "getPrefixedKeys c keys = map (getPrefixedKey c) keys"
  by (simp add: getPrefixedKeys_def getPrefixedKey_def map_idI)

lemma other_place:
  assumes "(n, c) \<in> set cache_configs" "(m, d) \<in> set cache_configs" "c \<noteq> d"
  shows "cache_Set c now k v x r (place d j) = r (place d j)"
    "snd (cache_SetNX c now k v x r) (place d j) = r (place d j)"
    "cache_Delete c k r (place d j) = r (place d j)"
    "cache_SetTime c now k t x b r = Inr r' \<Longrightarrow> r' (place d j) = r (place d j)"
  using place_eq_iff [OF assms(1,2), of k j] assms(3)
  by (auto simp: cache_Set_def cache_SetNX_def cache_Delete_def cache_SetTime_def redis_set_def setTimeScript_def Let_def
      split: option.splits if_splits)

lemma other_place_MSet:
  assumes "(n, c) \<in> set cache_configs" "(m, d) \<in> set cache_configs" "c \<noteq> d"
  shows "MSetWithTTL c now kvs x r (place d j) = r (place d j)"
proof (induction kvs arbitrary: r)
  case (Cons p kvs)
  then show ?case
    using place_eq_iff [OF assms(1,2), of "fst p" j] assms(3) by (cases p) (simp add: redis_set_def)
qed simp

text \<open>No two caches have one name or one configuration.\<close>

lemma cache_names_distinct: "distinct (map fst cache_configs)" "distinct (map snd cache_configs)"
  by code_simp+

lemma same_cache_iff: "(n, c) \<in> set cache_configs \<Longrightarrow> (m, d) \<in> set cache_configs \<Longrightarrow> c = d \<longleftrightarrow> n = m"
  using cache_names_distinct unfolding distinct_map inj_on_def by (metis fst_conv snd_conv)

text \<open>C23: The fifteen caches never share a key: a key of one cache and a key of another, of whatever configurations,
  are different places on the server, and so are two keys of one cache; no operation on a cache changes what
  another one reads.\<close>

theorem caches_never_collide:
  assumes "(n, c) \<in> set cache_configs" "(m, d) \<in> set cache_configs"
  shows "(place c j = place d k \<longleftrightarrow> n = m \<and> j = k) \<and>
    (n \<noteq> m \<longrightarrow>
       cache_Get d now k (cache_Set c now' j v x r) = cache_Get d now k r \<and>
       cache_Get d now k (snd (cache_SetNX c now' j v x r)) = cache_Get d now k r \<and>
       cache_Get d now k (cache_Delete c j r) = cache_Get d now k r \<and>
       cache_Get d now k (MSetWithTTL c now' kvs x r) = cache_Get d now k r \<and>
       (\<forall>r'. cache_SetTime c now' j t x b r = Inr r' \<longrightarrow> cache_Get d now k r' = cache_Get d now k r))"
proof -
  have same: "cache_Get d now k r1 = cache_Get d now k r2" if "r1 (place d k) = r2 (place d k)" for r1 r2
    using that by (simp add: cache_Get_def redis_get_def)
  show ?thesis
    using place_eq_iff [OF assms] other_place [OF assms] other_place_MSet [OF assms] same_cache_iff [OF assms] by (auto intro!: same)
qed

lemma caches_never_collide_witness:
  "place \<lparr>database = 3, keyPrefix = ''otl''\<rparr> ''a'' \<noteq> place \<lparr>database = 3, keyPrefix = ''authRefresh''\<rparr> ''a''"
  using caches_never_collide [of "''oneTimeLogin''" "\<lparr>database = 3, keyPrefix = ''otl''\<rparr>" "''authTokenForceRefresh''"
      "\<lparr>database = 3, keyPrefix = ''authRefresh''\<rparr>" "''a''" "''a''"]
  by (simp add: cache_configs_def)

section \<open>Times\<close>

definition AuthTokenForceRefreshCache :: cache_config where
  "AuthTokenForceRefreshCache = \<lparr>database = 3, keyPrefix = ''authRefresh''\<rparr>"

lemma force_refresh_config: "(''authTokenForceRefresh'', AuthTokenForceRefreshCache) \<in> set cache_configs"
  by (simp add: cache_configs_def AuthTokenForceRefreshCache_def)

text \<open>The keys of the cache hold timestamps, and expire at whole seconds.\<close>

definition holds_times :: "redis \<Rightarrow> bool" where
  "holds_times r \<longleftrightarrow> (\<forall>key e. r (place AuthTokenForceRefreshCache key) = Some e \<longrightarrow>
     (\<exists>ts n. e = (itoa ts, Some (n * second)) \<and> - (2 ^ 63) \<le> ts \<and> ts < 2 ^ 63))"

definition abs_times :: "redis \<Rightarrow> refresh_cache" where
  "abs_times r = (\<lambda>key. case r (place AuthTokenForceRefreshCache key) of
     Some (text, Some expires) \<Rightarrow> map_option (\<lambda>ts. (ts, expires div second)) (parse_int 10 text) | _ \<Rightarrow> None)"

lemma second_pos [simp]: "second > 0" by (simp add: second_def)

lemma parse_int_itoa [simp]: "parse_int 10 (itoa i) = Some i"
  unfolding itoa_def by (rule parse_int_int_text) simp_all

lemma times_cases:
  assumes "holds_times r"
  obtains "r (place AuthTokenForceRefreshCache key) = None" "abs_times r key = None"
  | ts n where "r (place AuthTokenForceRefreshCache key) = Some (itoa ts, Some (n * second))" "abs_times r key = Some (ts, n)"
      "- (2 ^ 63) \<le> ts" "ts < 2 ^ 63"
proof (cases "r (place AuthTokenForceRefreshCache key)")
  case None
  then show ?thesis using that(1) by (simp add: abs_times_def)
next
  case (Some e)
  then obtain ts n where "e = (itoa ts, Some (n * second))" "- (2 ^ 63) \<le> ts" "ts < 2 ^ 63"
    using assms unfolding holds_times_def by blast
  then show ?thesis using Some that(2) by (simp add: abs_times_def second_def)
qed

lemma redis_get_times:
  assumes "holds_times r"
  shows "redis_get now (place AuthTokenForceRefreshCache key) r = map_option itoa (cache_get now (abs_times r) key)"
  by (rule times_cases [OF assms, of key]) (auto simp: redis_get_def cache_get_def)

lemma abs_times_stored:
  "abs_times (r(place AuthTokenForceRefreshCache key \<mapsto> (itoa ts, Some (n * second)))) = (abs_times r)(key \<mapsto> (ts, n))"
  by (rule ext) (simp add: abs_times_def place_inject second_def)

lemma holds_times_stored:
  "holds_times r \<Longrightarrow> - (2 ^ 63) \<le> ts \<Longrightarrow> ts < 2 ^ 63 \<Longrightarrow>
   holds_times (r(place AuthTokenForceRefreshCache key \<mapsto> (itoa ts, Some (n * second))))"
  by (auto simp: holds_times_def place_inject)

text \<open>C24: The forced refreshes of the session model are what redis keeps: on a server whose keys of that cache hold timestamps,
  \<open>SetTime\<close> (the script) and \<open>GetTime\<close> (a text parsed back) do to the server what the model does to its table, never fail,
  and keep the keys that way; and the operations on every other cache leave the table alone.\<close>

theorem redis_refines_refresh_times:
  assumes "holds_times r" "- (2 ^ 63) \<le> unix value" "unix value < 2 ^ 63"
  shows "(\<exists>r'. cache_SetTime AuthTokenForceRefreshCache now key value expiration True r = Inr r' \<and> holds_times r' \<and>
      abs_times r' = SetTime now key value expiration True (abs_times r)) \<and>
    cache_GetTime AuthTokenForceRefreshCache now key r =
      (case GetTime now key (abs_times r) of None \<Rightarrow> Inl (ErrKeyNotFound key) | Some t \<Rightarrow> Inr t) \<and>
    ((n, c) \<in> set cache_configs \<and> c \<noteq> AuthTokenForceRefreshCache \<longrightarrow>
      abs_times (cache_Set c now k v x r) = abs_times r \<and> abs_times (snd (cache_SetNX c now k v x r)) = abs_times r \<and>
      abs_times (cache_Delete c k r) = abs_times r \<and> abs_times (MSetWithTTL c now kvs x r) = abs_times r)"
proof (intro conjI impI)
  let ?c = AuthTokenForceRefreshCache
  note stored = abs_times_stored [of r key "unix value" "unix (now + expiration)"]
    holds_times_stored [OF assms, of key "unix (now + expiration)"]
  show "\<exists>r'. cache_SetTime ?c now key value expiration True r = Inr r' \<and> holds_times r' \<and>
      abs_times r' = SetTime now key value expiration True (abs_times r)"
    using stored assms(1)
    by (cases "cache_get now (abs_times r) key")
      (auto simp: cache_SetTime_def setTimeScript_def Let_def redis_get_times [OF assms(1)] SetTime_def)
  have "atoi (itoa ts) = Some ts" if "cache_get now (abs_times r) key = Some ts" for ts
    by (rule times_cases [OF assms(1), of key]) (use that in \<open>auto simp: cache_get_def atoi_itoa split: if_splits\<close>)
  then show "cache_GetTime ?c now key r =
      (case GetTime now key (abs_times r) of None \<Rightarrow> Inl (ErrKeyNotFound key) | Some t \<Rightarrow> Inr t)"
    by (cases "cache_get now (abs_times r) key") (auto simp: cache_GetTime_def redis_get_times [OF assms(1)] GetTime_def)
  assume c: "(n, c) \<in> set cache_configs \<and> c \<noteq> ?c"
  have same: "abs_times r1 = abs_times r" if "\<And>j. r1 (place ?c j) = r (place ?c j)" for r1
    using that by (simp add: abs_times_def)
  note other = other_place [OF conjunct1 [OF c] force_refresh_config conjunct2 [OF c]]
  show "abs_times (cache_Set c now k v x r) = abs_times r" by (rule same) (rule other(1))
  show "abs_times (snd (cache_SetNX c now k v x r)) = abs_times r" by (rule same) (rule other(2))
  show "abs_times (cache_Delete c k r) = abs_times r" by (rule same) (rule other(3))
  show "abs_times (MSetWithTTL c now kvs x r) = abs_times r"
    by (rule same) (rule other_place_MSet [OF conjunct1 [OF c] force_refresh_config conjunct2 [OF c]])
qed

lemma redis_refines_refresh_times_witness:
  "\<exists>r'. cache_SetTime AuthTokenForceRefreshCache 0 ''u'' (100 * second) (3660 * second) True Map.empty = Inr r' \<and> holds_times r' \<and>
     abs_times r' = SetTime 0 ''u'' (100 * second) (3660 * second) True (abs_times Map.empty)"
  using redis_refines_refresh_times [of Map.empty "100 * second" 0 "''u''" "3660 * second"]
  by (simp add: holds_times_def unix_def)

section \<open>The later of two times\<close>

text \<open>A cell that keeps the largest of the numbers it is given.\<close>

locale max_register =
  fixes get :: "'s \<Rightarrow> int option" and put :: "int \<Rightarrow> 's \<Rightarrow> 's"
  assumes get_put: "get (put t s) = Some (case get s of None \<Rightarrow> t | Some u \<Rightarrow> max u t)"
begin

lemma get_fold:
  "get (fold put ts s) = (if ts = [] then get s else Some (Max (set ts \<union> set_option (get s))))"
proof (induction ts arbitrary: s)
  case (Cons t ts)
  then show ?case
    by (cases "get s"; cases "ts = []") (simp_all add: get_put max.commute max.left_commute)
qed simp

lemma get_order: "set ts = set us \<Longrightarrow> get (fold put ts s) = get (fold put us s)"
  by (auto simp: get_fold)

end

definition put_time :: "int \<Rightarrow> string \<Rightarrow> nat \<Rightarrow> int \<Rightarrow> refresh_cache \<Rightarrow> refresh_cache" where
  "put_time now key ttl ts = SetTime now key (ts * second) (int ttl * second + minute) True"

interpretation refresh_time: max_register "\<lambda>cache. cache_get now cache key" "put_time now key ttl"
proof
  fix ts and cache :: refresh_cache
  have "now < unix (now + (int ttl * second + minute)) * second"
    by (subst less_seconds) (simp add: unix_force_ttl)
  moreover have "unix (ts * second) = ts" by (simp add: unix_def second_def)
  ultimately show "cache_get now (put_time now key ttl ts cache) key =
      Some (case cache_get now cache key of None \<Rightarrow> ts | Some u \<Rightarrow> max u ts)"
    by (cases "cache_get now cache key") (auto simp: put_time_def SetTime_def cache_get_def split: if_splits option.splits)
qed

lemma latest_refresh_wins:
  assumes "set ts = set us"
  shows "cache_get now (fold (put_time now key ttl) ts cache) key = cache_get now (fold (put_time now key ttl) us cache) key"
  by (rule refresh_time.get_order [OF assms])

section \<open>Lazy caches\<close>

lemma redis_get_set:
  "redis_get now k (redis_set now' k v x r) = (if x = 0 \<or> now < now' + x then Some v else None)"
  by (simp add: redis_get_def redis_set_def)

lemma Load_cached:
  assumes "redis_get now (place (lz_config l) (lz_key l)) r = Some b"
  shows "Load l now None e calc r s = ((Some b, None), r, s)"
  using assms by (simp add: Load_def cache_Get_def)

text \<open>A lazy cache computes at most once in the lifetime of its value: where the key is missing, \<open>Load\<close> calls \<open>CalcFunc\<close>
  once, and if that and the write succeed, every \<open>Load\<close> until the key expires returns the same bytes without
  calling it. A failing computation, and a read that fails, store nothing; when only the write fails, the
  bytes come back together with the error.\<close>

theorem lazy_cache_computes_once:
  assumes "redis_get now (place (lz_config l) (lz_key l)) r = None"
  shows "(case calc s of
       (Inl e, s1) \<Rightarrow> Load l now None se calc r s = ((None, Some e), r, s1)
     | (Inr b, s1) \<Rightarrow>
         (case se of
            Some e \<Rightarrow> Load l now None se calc r s = ((Some b, Some e), r, s1)
          | None \<Rightarrow> \<exists>r'. Load l now None se calc r s = ((Some b, None), r', s1) \<and>
              (\<forall>now' se' calc' t. lz_ttl l = 0 \<or> now' < now + lz_ttl l \<longrightarrow>
                 Load l now' None se' calc' r' (t :: 't) = ((Some b, None), r', t)))) \<and>
    (\<forall>e. (\<forall>k. e \<noteq> ErrKeyNotFound k) \<longrightarrow> Load l now (Some e) se calc r s = ((None, Some e), r, s))"
proof -
  obtain res s1 where calc: "calc s = (res, s1)" by (cases "calc s")
  let ?k = "place (lz_config l) (lz_key l)"
  have hit: "Load l now' None se' calc' (redis_set now ?k b (lz_ttl l) r) (t :: 't) =
      ((Some b, None), redis_set now ?k b (lz_ttl l) r, t)"
    if "lz_ttl l = 0 \<or> now' < now + lz_ttl l" for b now' se' calc' t
    using that by (intro Load_cached) (auto simp: redis_get_set)
  show ?thesis
    using hit by (cases res; cases se) (auto simp: calc Load_def cache_Get_def assms cache_Set_def)
qed

lemma lazy_cache_computes_once_witness:
  "\<exists>r'. Load \<lparr>lz_config = \<lparr>database = 0, keyPrefix = ''search''\<rparr>, lz_key = ''all'', lz_ttl = 60 * second\<rparr> 0 None None
       (\<lambda>n :: nat. (Inr ''result'', Suc n)) Map.empty 0 = ((Some ''result'', None), r', 1)"
  using lazy_cache_computes_once [where now = 0 and r = Map.empty and se = None and s = "0 :: nat" and 't = unit
      and calc = "\<lambda>n :: nat. (Inr ''result'', Suc n)"
      and l = "\<lparr>lz_config = \<lparr>database = 0, keyPrefix = ''search''\<rparr>, lz_key = ''all'', lz_ttl = 60 * second\<rparr>"]
  by (auto simp: redis_get_def)

end
