(* ===== verification/Media_Mapper.thy ===== *)
theory Media_Mapper
  imports Gateways
begin

text \<open>
  The image URLs of service/mediamapper/mediamapper.go. The mapper keeps five slices of URL parameters that all
  its calls share, and options append to a slice, so slices are modelled with the arrays behind them: a slice is
  an array and a length, and appending writes into the array while there is room. What imgix makes of a URL and its
  parameters, the growth of a slice, and HTTP are arguments.
\<close>

section \<open>Slices\<close>

text \<open>The arrays by number, each with its capacity of cells. All slices here begin at the first cell.\<close>

type_synonym 'a arrays = "'a list list"
type_synonym slice = "(nat \<times> nat) option"

fun contents :: "'a arrays \<Rightarrow> slice \<Rightarrow> 'a list" where
  "contents h None = []"
| "contents h (Some (a, n)) = take n (h ! a)"

fun valid_slice :: "'a arrays \<Rightarrow> slice \<Rightarrow> bool" where
  "valid_slice h None = True"
| "valid_slice h (Some (a, n)) = (a < length h \<and> n \<le> length (h ! a))"

text \<open>\<open>grow\<close> gives the cells that a new array has beyond those it needs, from the old capacity and the new length.\<close>

definition overwrite :: "nat \<Rightarrow> 'a list \<Rightarrow> 'a list \<Rightarrow> 'a list" where
  "overwrite n xs cells = take n cells @ xs @ drop (n + length xs) cells"

definition new_array :: "'a list \<Rightarrow> 'a arrays \<Rightarrow> slice \<times> 'a arrays" where
  "new_array cells h = (Some (length h, length cells), h @ [cells])"

fun append_slice :: "(nat \<Rightarrow> nat \<Rightarrow> 'a list) \<Rightarrow> slice \<Rightarrow> 'a list \<Rightarrow> 'a arrays \<Rightarrow> slice \<times> 'a arrays" where
  "append_slice grow None xs h = (if xs = [] then (None, h) else (Some (length h, length xs), h @ [xs @ grow 0 (length xs)]))"
| "append_slice grow (Some (a, n)) xs h =
     (if n + length xs \<le> length (h ! a) then (Some (a, n + length xs), h[a := overwrite n xs (h ! a)])
      else (Some (length h, n + length xs),
            h @ [take n (h ! a) @ xs @ grow (length (h ! a)) (n + length xs)]))"

section \<open>Parameters\<close>

text \<open>\<open>imgix.Param\<close>: a name and its values.\<close>

type_synonym ix_param = "string \<times> string list"

definition thumbnailWidth :: int where "thumbnailWidth = 64"
definition smallWidth :: int where "smallWidth = 204"
definition mediumWidth :: int where "mediumWidth = 340"
definition largeWidth :: int where "largeWidth = 1024"

definition newWidthParam :: "int \<Rightarrow> ix_param" where
  "newWidthParam width = (''w'', [itoa width])"

definition getDefaultParams :: "ix_param list" where
  "getDefaultParams = [(''auto'', [''format'', ''compress'']), (''fit'', [''max''])]"

definition buildParams ::
  "(nat \<Rightarrow> nat \<Rightarrow> ix_param list) \<Rightarrow> ix_param list \<Rightarrow> ix_param list \<Rightarrow> ix_param arrays \<Rightarrow> slice \<times> ix_param arrays" where
  "buildParams grow defaults other h =
     (let (output, h1) = append_slice grow None defaults h in append_slice grow output other h1)"

record media_mapper =
  thumbnailUrlParams :: slice
  smallUrlParams :: slice
  mediumUrlParams :: slice
  largeUrlParams :: slice
  srcSetParams :: slice

text \<open>Without a token there is no mapper.\<close>

definition NewMediaMapper ::
  "(nat \<Rightarrow> nat \<Rightarrow> ix_param list) \<Rightarrow> string \<Rightarrow> ix_param arrays \<Rightarrow> media_mapper option \<times> ix_param arrays" where
  "NewMediaMapper grow token h0 =
     (if token = [] then (None, h0)
      else
        let (thumb, h1) = buildParams grow getDefaultParams [newWidthParam thumbnailWidth] h0;
            (small, h2) = buildParams grow getDefaultParams [newWidthParam smallWidth] h1;
            (medium, h3) = buildParams grow getDefaultParams [newWidthParam mediumWidth] h2;
            (large, h4) = buildParams grow getDefaultParams [newWidthParam largeWidth] h3;
            (srcSet, h5) = buildParams grow getDefaultParams [newWidthParam largeWidth] h4
        in (Some \<lparr>thumbnailUrlParams = thumb, smallUrlParams = small, mediumUrlParams = medium, largeUrlParams = large,
              srcSetParams = srcSet\<rparr>, h5))"

section \<open>Options\<close>

datatype image_option = WithStaticImage | WithTimestamp int | WithQuality int

text \<open>\<open>t.Unix()\<close> is the argument of \<open>WithTimestamp\<close>.\<close>

fun option_param :: "image_option \<Rightarrow> ix_param" where
  "option_param WithStaticImage = (''frame'', [''1''])"
| "option_param (WithTimestamp t) = (''glryts'', [itoa t])"
| "option_param (WithQuality q) = (''q'', [itoa q])"

fun run_options ::
  "(nat \<Rightarrow> nat \<Rightarrow> ix_param list) \<Rightarrow> image_option list \<Rightarrow> slice \<Rightarrow> ix_param arrays \<Rightarrow> slice \<times> ix_param arrays" where
  "run_options grow [] params h = (params, h)"
| "run_options grow (opt # opts) params h =
     (let (params', h') = append_slice grow params [option_param opt] h in run_options grow opts params' h')"

definition applyOptions ::
  "(nat \<Rightarrow> nat \<Rightarrow> ix_param list) \<Rightarrow> slice \<Rightarrow> image_option list \<Rightarrow> ix_param arrays \<Rightarrow> slice \<times> ix_param arrays" where
  "applyOptions grow params options h =
     (if 0 < length options
      then (let (p, h1) = new_array (contents h params) h in run_options grow options p h1)
      else (params, h))"

section \<open>URLs\<close>

definition setGoogleWidthParams :: "string \<Rightarrow> int \<Rightarrow> string" where
  "setGoogleWidthParams sourceUrl width =
     (if has_prefix sourceUrl ''https://lh3.googleusercontent.com/'' then sourceUrl @ ''=w'' @ itoa width else sourceUrl)"

type_synonym create_url = "string \<Rightarrow> ix_param list \<Rightarrow> string"

definition buildPreviewImageUrl ::
  "create_url \<Rightarrow> (nat \<Rightarrow> nat \<Rightarrow> ix_param list) \<Rightarrow> string \<Rightarrow> int \<Rightarrow> slice \<Rightarrow> image_option list \<Rightarrow> ix_param arrays \<Rightarrow>
   string \<times> ix_param arrays" where
  "buildPreviewImageUrl createURL grow sourceUrl width params options h =
     (if sourceUrl = [] then (sourceUrl, h)
      else
        let (params', h') = applyOptions grow params options h
        in (createURL (setGoogleWidthParams sourceUrl width) (contents h' params'), h'))"

definition buildSrcSet ::
  "create_url \<Rightarrow> (nat \<Rightarrow> nat \<Rightarrow> ix_param list) \<Rightarrow> string \<Rightarrow> slice \<Rightarrow> image_option list \<Rightarrow> ix_param arrays \<Rightarrow>
   string \<times> ix_param arrays" where
  "buildSrcSet createSrcset grow sourceUrl params options h =
     (if sourceUrl = [] then (sourceUrl, h)
      else let (params', h') = applyOptions grow params options h in (createSrcset sourceUrl (contents h' params'), h'))"

text \<open>The calls on a mapper.\<close>

datatype image_size = Thumbnail | Small | Medium | Large | SrcSet

fun GetImageUrl ::
  "create_url \<Rightarrow> create_url \<Rightarrow> (nat \<Rightarrow> nat \<Rightarrow> ix_param list) \<Rightarrow> media_mapper \<Rightarrow> image_size \<Rightarrow> string \<Rightarrow> image_option list \<Rightarrow>
   ix_param arrays \<Rightarrow> string \<times> ix_param arrays" where
  "GetImageUrl createURL createSrcset grow u Thumbnail sourceUrl options h =
     buildPreviewImageUrl createURL grow sourceUrl thumbnailWidth (thumbnailUrlParams u) options h"
| "GetImageUrl createURL createSrcset grow u Small sourceUrl options h =
     buildPreviewImageUrl createURL grow sourceUrl smallWidth (smallUrlParams u) options h"
| "GetImageUrl createURL createSrcset grow u Medium sourceUrl options h =
     buildPreviewImageUrl createURL grow sourceUrl mediumWidth (mediumUrlParams u) options h"
| "GetImageUrl createURL createSrcset grow u Large sourceUrl options h =
     buildPreviewImageUrl createURL grow sourceUrl largeWidth (largeUrlParams u) options h"
| "GetImageUrl createURL createSrcset grow u SrcSet sourceUrl options h =
     buildSrcSet createSrcset grow sourceUrl (srcSetParams u) options h"

text \<open>
  \<open>http.NewRequestWithContext\<close> gives a request or none; a header is set on it before its error is looked at. The reply is
  an error, or a status and a body, whose text is taken even if reading it fails.
\<close>

definition GetBlurhash ::
  "create_url \<Rightarrow> (string \<Rightarrow> 'q option) \<Rightarrow> ('q \<Rightarrow> string http_reply) \<Rightarrow> string \<Rightarrow> (string, string option) outcome" where
  "GetBlurhash createURL newRequest send sourceUrl =
     (case newRequest (createURL sourceUrl [(''fm'', [''blurhash''])]) of
        None \<Rightarrow> Panic ''invalid memory address or nil pointer dereference''
      | Some req \<Rightarrow>
          (case send req of
             NoReply e \<Rightarrow> Ok None
           | Reply status body \<Rightarrow> Ok (if status \<noteq> 200 then None else Some body)))"

section \<open>Facts\<close>

lemma append_slice_spec:
  assumes "valid_slice h s" "append_slice grow s xs h = (s', h')"
  shows "contents h' s' = contents h s @ xs \<and> valid_slice h' s' \<and> length h \<le> length h'"
  using assms
  by (cases "(grow, s, xs, h)" rule: append_slice.cases)
    (auto simp: overwrite_def nth_append split: if_splits)

text \<open>An array of which the slice is not a part keeps its cells.\<close>

lemma append_slice_frame:
  assumes "append_slice grow s xs h = (s', h')" "b < length h" "\<And>a n. s = Some (a, n) \<Longrightarrow> a \<noteq> b"
  shows "h' ! b = h ! b"
  using assms by (cases "(grow, s, xs, h)" rule: append_slice.cases) (auto simp: nth_append split: if_splits)

text \<open>A slice on an array from some number on stays on such an array.\<close>

lemma append_slice_above:
  assumes "append_slice grow (Some (a, n)) xs h = (s', h')" "k \<le> a" "k \<le> length h"
  shows "\<exists>a' n'. s' = Some (a', n') \<and> k \<le> a'"
  using assms by (auto split: if_splits)

lemma run_options_spec:
  assumes "valid_slice h s" "s = Some (a, n)" "k \<le> a" "k \<le> length h" "run_options grow opts s h = (s', h')"
  shows "contents h' s' = contents h s @ map option_param opts \<and> length h \<le> length h' \<and> (\<forall>b<k. h' ! b = h ! b)"
  using assms
proof (induction opts arbitrary: s h a n)
  case (Cons opt opts)
  obtain s1 h1 where s1: "append_slice grow s [option_param opt] h = (s1, h1)" by fastforce
  note spec = append_slice_spec [OF Cons.prems(1) s1]
  obtain a1 n1 where a1: "s1 = Some (a1, n1)" "k \<le> a1"
    using append_slice_above [of grow a n "[option_param opt]" h s1 h1 k] s1 Cons.prems by auto
  have "contents h' s' = contents h1 s1 @ map option_param opts \<and> length h1 \<le> length h' \<and> (\<forall>b<k. h' ! b = h1 ! b)"
    using Cons.IH [of h1 s1 a1 n1] spec a1 Cons.prems s1 by simp
  moreover have "h1 ! b = h ! b" if "b < k" for b
    using append_slice_frame [OF s1, of b] that Cons.prems by auto
  ultimately show ?case using spec by auto
qed simp

lemma applyOptions_spec:
  assumes "valid_slice h s" "applyOptions grow s opts h = (s', h')"
  shows "contents h' s' = contents h s @ map option_param opts \<and> (\<forall>b<length h. h' ! b = h ! b) \<and> length h \<le> length h'"
proof (cases "opts = []")
  case False
  let ?p = "Some (length h, length (contents h s))" and ?h1 = "h @ [contents h s]"
  have "run_options grow opts ?p ?h1 = (s', h')" using assms(2) False by (simp add: applyOptions_def new_array_def)
  from run_options_spec [OF _ refl _ _ this, of "length h"] show ?thesis by (auto simp: nth_append)
qed (use assms in \<open>auto simp: applyOptions_def\<close>)

lemma buildParams_spec:
  assumes "buildParams grow d os h = (s, h')"
  shows "contents h' s = d @ os \<and> valid_slice h' s \<and> length h \<le> length h' \<and> (\<forall>b<length h. h' ! b = h ! b)"
proof -
  obtain s1 h1 where s1: "append_slice grow None d h = (s1, h1)" by fastforce
  with assms have s2: "append_slice grow s1 os h1 = (s, h')" by (simp add: buildParams_def)
  note spec1 = append_slice_spec [OF _ s1, simplified] and spec2 = append_slice_spec [OF _ s2]
  have "h1 ! b = h ! b" if "b < length h" for b using append_slice_frame [OF s1 that] by simp
  moreover have "h' ! b = h1 ! b" if "b < length h" for b
    using that spec1 s1 by (intro append_slice_frame [OF s2]) (auto split: if_splits)
  ultimately show ?thesis using spec1 spec2 by auto
qed

text \<open>A slice that was valid still is, with the same contents, when the old arrays are as they were.\<close>

lemma contents_kept:
  assumes "valid_slice h s" "\<forall>b<length h. h' ! b = h ! b" "length h \<le> length h'"
  shows "contents h' s = contents h s \<and> valid_slice h' s"
  using assms by (cases "(h, s)" rule: contents.cases) auto

section \<open>The URLs of a mapper\<close>

definition widths :: "image_size \<Rightarrow> int" where
  "widths sz = (case sz of Thumbnail \<Rightarrow> thumbnailWidth | Small \<Rightarrow> smallWidth | Medium \<Rightarrow> mediumWidth | _ \<Rightarrow> largeWidth)"

definition image_url :: "create_url \<Rightarrow> create_url \<Rightarrow> image_size \<Rightarrow> string \<Rightarrow> image_option list \<Rightarrow> string" where
  "image_url createURL createSrcset sz sourceUrl options =
     (let params = getDefaultParams @ [newWidthParam (widths sz)] @ map option_param options in
      if sourceUrl = [] then [] else if sz = SrcSet then createSrcset sourceUrl params
      else createURL (setGoogleWidthParams sourceUrl (widths sz)) params)"

definition params_of :: "media_mapper \<Rightarrow> image_size \<Rightarrow> slice" where
  "params_of u sz = (case sz of Thumbnail \<Rightarrow> thumbnailUrlParams u | Small \<Rightarrow> smallUrlParams u | Medium \<Rightarrow> mediumUrlParams u
     | Large \<Rightarrow> largeUrlParams u | SrcSet \<Rightarrow> srcSetParams u)"

definition mapper_ok :: "media_mapper \<Rightarrow> ix_param arrays \<Rightarrow> bool" where
  "mapper_ok u h \<longleftrightarrow> (\<forall>sz. valid_slice h (params_of u sz) \<and>
     contents h (params_of u sz) = getDefaultParams @ [newWidthParam (widths sz)])"

lemma mapper_ok_kept:
  assumes "mapper_ok u h" "\<forall>b<length h. h' ! b = h ! b" "length h \<le> length h'"
  shows "mapper_ok u h'"
  using assms contents_kept [OF _ assms(2,3)] by (simp add: mapper_ok_def)

lemma NewMediaMapper_ok:
  assumes "NewMediaMapper grow token h0 = (Some u, h)"
  shows "mapper_ok u h"
proof -
  let ?d = getDefaultParams and ?w = "\<lambda>x. [newWidthParam x]"
  obtain t h1 where b1: "buildParams grow ?d (?w thumbnailWidth) h0 = (t, h1)" by fastforce
  obtain s h2 where b2: "buildParams grow ?d (?w smallWidth) h1 = (s, h2)" by fastforce
  obtain m h3 where b3: "buildParams grow ?d (?w mediumWidth) h2 = (m, h3)" by fastforce
  obtain l h4 where b4: "buildParams grow ?d (?w largeWidth) h3 = (l, h4)" by fastforce
  obtain r h5 where b5: "buildParams grow ?d (?w largeWidth) h4 = (r, h5)" by fastforce
  have u: "u = \<lparr>thumbnailUrlParams = t, smallUrlParams = s, mediumUrlParams = m, largeUrlParams = l, srcSetParams = r\<rparr>" "h = h5"
    using assms b1 b2 b3 b4 b5 by (auto simp: NewMediaMapper_def split: if_splits)
  note s1 = buildParams_spec [OF b1] and s2 = buildParams_spec [OF b2] and s3 = buildParams_spec [OF b3]
    and s4 = buildParams_spec [OF b4] and s5 = buildParams_spec [OF b5]
  have k4: "\<forall>b<length h4. h5 ! b = h4 ! b" "length h4 \<le> length h5" using s5 by auto
  have k3: "\<forall>b<length h3. h5 ! b = h3 ! b" "length h3 \<le> length h5" using s4 k4 by auto
  have k2: "\<forall>b<length h2. h5 ! b = h2 ! b" "length h2 \<le> length h5" using s3 k3 by auto
  have k1: "\<forall>b<length h1. h5 ! b = h1 ! b" "length h1 \<le> length h5" using s2 k2 by auto
  note kept = contents_kept [OF _ k1, of t] contents_kept [OF _ k2, of s] contents_kept [OF _ k3, of m] contents_kept [OF _ k4, of l]
  show ?thesis
    unfolding mapper_ok_def
  proof
    fix sz
    show "valid_slice h (params_of u sz) \<and> contents h (params_of u sz) = ?d @ ?w (widths sz)"
      using kept s1 s2 s3 s4 s5 by (cases sz) (simp_all add: params_of_def widths_def u)
  qed
qed

lemma GetImageUrl_spec:
  assumes "mapper_ok u h" "GetImageUrl createURL createSrcset grow u sz sourceUrl options h = (url, h')"
  shows "url = image_url createURL createSrcset sz sourceUrl options \<and> (\<forall>b<length h. h' ! b = h ! b) \<and> length h \<le> length h'"
proof -
  obtain p h1 where p: "applyOptions grow (params_of u sz) options h = (p, h1)" by fastforce
  have "valid_slice h (params_of u sz)" "contents h (params_of u sz) = getDefaultParams @ [newWidthParam (widths sz)]"
    using assms(1) by (simp_all add: mapper_ok_def)
  with applyOptions_spec [OF _ p] show ?thesis
    using assms(2) p
    by (cases sz) (auto simp: buildPreviewImageUrl_def buildSrcSet_def image_url_def Let_def params_of_def widths_def split: if_splits)
qed

text \<open>Any calls on one mapper, one after the other.\<close>

fun run_image_urls ::
  "create_url \<Rightarrow> create_url \<Rightarrow> (nat \<Rightarrow> nat \<Rightarrow> ix_param list) \<Rightarrow> media_mapper \<Rightarrow> (image_size \<times> string \<times> image_option list) list \<Rightarrow>
   ix_param arrays \<Rightarrow> string list \<times> ix_param arrays" where
  "run_image_urls createURL createSrcset grow u [] h = ([], h)"
| "run_image_urls createURL createSrcset grow u ((sz, sourceUrl, options) # calls) h =
     (let (url, h1) = GetImageUrl createURL createSrcset grow u sz sourceUrl options h;
          (urls, h2) = run_image_urls createURL createSrcset grow u calls h1
      in (url # urls, h2))"

text \<open>C25: The parameters that the calls on a media mapper share are never written: whatever was called before, with whatever
  options and however slices grow, a URL has the default parameters, the width and exactly the options of its own
  call, and no cell of the arrays that the mapper was made with changes (so that concurrent calls do not meet).\<close>

theorem image_urls_independent:
  assumes "NewMediaMapper grow token h0 = (Some u, h)"
    and "run_image_urls createURL createSrcset grow u calls h = (urls, h')"
  shows "urls = map (\<lambda>(sz, sourceUrl, options). image_url createURL createSrcset sz sourceUrl options) calls \<and>
    (\<forall>b<length h. h' ! b = h ! b)"
proof -
  have "urls = map (\<lambda>(sz, sourceUrl, options). image_url createURL createSrcset sz sourceUrl options) calls \<and>
      (\<forall>b<length h. h' ! b = h ! b) \<and> length h \<le> length h'"
    if "mapper_ok u h" "run_image_urls createURL createSrcset grow u calls h = (urls, h')" for h urls
    using that
  proof (induction calls arbitrary: h urls)
    case (Cons call calls)
    obtain sz sourceUrl options where call: "call = (sz, sourceUrl, options)" by (cases call)
    obtain url h1 where g: "GetImageUrl createURL createSrcset grow u sz sourceUrl options h = (url, h1)" by fastforce
    obtain us h2 where r: "run_image_urls createURL createSrcset grow u calls h1 = (us, h2)" by fastforce
    have "urls = url # us" "h' = h2" using Cons.prems(2) call g r by auto
    moreover note spec = GetImageUrl_spec [OF Cons.prems(1) g]
    moreover have "mapper_ok u h1" using mapper_ok_kept [OF Cons.prems(1)] spec by blast
    ultimately show ?case using Cons.IH [of h1 us] r call by auto
  qed simp
  then show ?thesis using NewMediaMapper_ok [OF assms(1)] assms(2) by blast
qed

text \<open>Slices that double, and a URL that lists its parameters.\<close>

definition doubling :: "nat \<Rightarrow> nat \<Rightarrow> ix_param list" where
  "doubling cap n = replicate (max (2 * cap) n - n) ([], [])"

definition list_url :: create_url where
  "list_url u ps = u @ concat (map (\<lambda>(n, vs). ''&'' @ n @ concat vs) ps)"

lemma image_urls_independent_witness:
  "\<exists>u h urls h'. NewMediaMapper doubling ''token'' [] = (Some u, h) \<and>
     run_image_urls list_url list_url doubling u [(Thumbnail, ''a'', [WithStaticImage]), (Thumbnail, ''b'', [])] h = (urls, h') \<and>
     urls = [''a&autoformatcompress&fitmax&w64&frame1'', ''b&autoformatcompress&fitmax&w64'']"
proof -
  obtain u h where u: "NewMediaMapper doubling ''token'' [] = (Some u, h)"
  proof -
    have "fst (NewMediaMapper doubling ''token'' []) \<noteq> None" by code_simp
    then show ?thesis using that by (cases "NewMediaMapper doubling ''token'' []") auto
  qed
  obtain urls h' where r: "run_image_urls list_url list_url doubling u [(Thumbnail, ''a'', [WithStaticImage]), (Thumbnail, ''b'', [])] h
      = (urls, h')" by fastforce
  have i: "image_url list_url list_url Thumbnail ''a'' [WithStaticImage] = ''a&autoformatcompress&fitmax&w64&frame1''"
    "image_url list_url list_url Thumbnail ''b'' [] = ''b&autoformatcompress&fitmax&w64''"
    by code_simp+
  show ?thesis using u r image_urls_independent [OF u r] i by auto
qed

text \<open>A URL that does not parse crashes \<open>GetBlurhash\<close>.\<close>

lemma blurhash_of_bad_url_panics:
  "newRequest (createURL sourceUrl [(''fm'', [''blurhash''])]) = None \<Longrightarrow> is_panic (GetBlurhash createURL newRequest send sourceUrl)"
  by (simp add: GetBlurhash_def)

end
