(* ===== verification/Tasks.thy ===== *)
theory Tasks
  imports Guard_Props
begin

text \<open>
  The tasks that the server hands to other services (service/task/task.go) and the environment variables they and
  everything else are configured by (env/env.go). A task is an HTTP request that is sent later, by the
  queue of the cloud or by the client itself; what is sent is collected in a list. The tags of the validator library, JSON
  text and the trace identifiers are arguments.
\<close>

section \<open>Environment variables\<close>

text \<open>\<open>Blocks\<close> is a call that never returns.\<close>

datatype env_result = Value string | EnvPanic string | Blocks

type_synonym env_validators = "string \<Rightarrow> string list"

definition dedupe :: "string list \<Rightarrow> string list" where
  "dedupe src = first_occurrences {} src"

definition RegisterValidation :: "string \<Rightarrow> string list \<Rightarrow> env_validators \<Rightarrow> env_validators" where
  "RegisterValidation name tags vs = vs(name := dedupe (vs name @ tags))"

text \<open>\<open>getENV\<close> is what \<open>GetString("ENV")\<close> gives, or \<open>None\<close> when that call does not return.\<close>

definition RequiredForEnv :: "string option \<Rightarrow> string \<Rightarrow> bool option" where
  "RequiredForEnv getENV s =
     (if s = [] then Some False
      else
        let spl = str_split s ''='' in
        if length spl \<noteq> 2 then Some False else map_option (\<lambda>e. spl ! 1 = e) getENV)"

text \<open>
  \<open>get\<close> holds the mutex while it validates. Go's mutexes are not reentrant: the \<open>GetString\<close> that
  \<open>RequiredForEnv\<close> calls waits for the mutex that its own caller holds.
\<close>

fun validate_tags :: "(string \<Rightarrow> string \<Rightarrow> bool) \<Rightarrow> string \<Rightarrow> string \<Rightarrow> string list \<Rightarrow> env_result" where
  "validate_tags check name val [] = Value val"
| "validate_tags check name val (tag # tags) =
     (case (if tag = ''required_for_env'' then RequiredForEnv None val else Some (check val tag)) of
        None \<Rightarrow> Blocks
      | Some True \<Rightarrow> validate_tags check name val tags
      | Some False \<Rightarrow> EnvPanic (''invalid env var: '' @ name @ '' failed when validating tag '' @ tag))"

definition env_get ::
  "(string \<Rightarrow> string \<Rightarrow> bool) \<Rightarrow> env_validators \<Rightarrow> (string \<Rightarrow> string) \<Rightarrow> string \<Rightarrow> env_result" where
  "env_get check vs fetch name = validate_tags check name (fetch name) (vs name)"

lemma validate_tags_Value:
  "''required_for_env'' \<notin> set tags \<Longrightarrow>
   validate_tags check name val tags = Value v \<longleftrightarrow> v = val \<and> (\<forall>tag\<in>set tags. check val tag)"
  by (induction tags) (auto split: bool.splits)

text \<open>A variable is read if it passes every tag that was registered for it, in whatever order the packages did so.\<close>

lemma env_get_Value:
  assumes "\<forall>(n, tags)\<in>set regs. ''required_for_env'' \<notin> set tags"
  shows "env_get check (fold (\<lambda>(n, tags). RegisterValidation n tags) regs (\<lambda>_. [])) fetch name = Value v \<longleftrightarrow>
    v = fetch name \<and> (\<forall>(n, tags)\<in>set regs. n = name \<longrightarrow> (\<forall>tag\<in>set tags. check (fetch name) tag))"
proof -
  have "set (fold (\<lambda>(n, tags). RegisterValidation n tags) rs vs name) = set (vs name) \<union> (\<Union>(n, tags)\<in>set rs. if n = name then set tags else {})"
    for rs vs
    by (induction rs arbitrary: vs)
      (auto simp: RegisterValidation_def dedupe_def set_first_occurrences split: if_splits)
  note tags = this [of regs "\<lambda>_. []"]
  have "''required_for_env'' \<notin> set (fold (\<lambda>(n, tags). RegisterValidation n tags) regs (\<lambda>_. []) name)"
    using assms by (fastforce simp: tags split: if_splits)
  then show ?thesis
    unfolding env_get_def validate_tags_Value [OF \<open>''required_for_env'' \<notin> _\<close>] tags by (fastforce split: if_splits)
qed

lemma required_for_env_blocks:
  assumes "CHR ''='' \<notin> set a" "CHR ''='' \<notin> set b"
  shows "validate_tags check name (a @ '' ='' @ b) (''required_for_env'' # tags) = Blocks"
proof -
  have "str_split ((a @ '' '') @ CHR ''='' # b) ''='' = [a @ '' '', b]" using assms by (intro str_split_pair) auto
  then show ?thesis by (simp add: RequiredForEnv_def)
qed

section \<open>Tasks\<close>

record task =
  tk_name :: string
  tk_method :: string
  tk_url :: string
  tk_headers :: "(string \<times> string) list"
  tk_body :: json
  tk_schedule :: "int option"
  tk_deadline :: "int option"

type_synonym task_option = "task \<Rightarrow> (string, task) outcome"

text \<open>The header map, made when it is nil.\<close>

definition addHeader :: "string \<Rightarrow> string \<Rightarrow> task \<Rightarrow> task" where
  "addHeader key value t = t\<lparr>tk_headers := (key, value) # filter (\<lambda>h. fst h \<noteq> key) (tk_headers t)\<rparr>"

definition WithDelay :: "int \<Rightarrow> int \<Rightarrow> task_option" where
  "WithDelay now delay t = Ok (t\<lparr>tk_schedule := Some (now + delay)\<rparr>)"

definition withDeadline :: "int \<Rightarrow> task_option" where
  "withDeadline d t = Ok (t\<lparr>tk_deadline := Some d\<rparr>)"

definition withBasicAuth :: "string \<Rightarrow> task_option" where
  "withBasicAuth secret t = Ok (addHeader ''Authorization'' (MakeHeader None secret) t)"

text \<open>The argument is what \<open>json.Marshal\<close> gives.\<close>

definition withJSON :: "string + json \<Rightarrow> task_option" where
  "withJSON marshalled t =
     (case marshalled of Inl e \<Rightarrow> Err e | Inr body \<Rightarrow> Ok (addHeader ''Content-type'' ''application/json'' (t\<lparr>tk_body := body\<rparr>)))"

definition withTrace :: "string \<Rightarrow> task_option" where
  "withTrace traceID t = Ok (addHeader ''sentry-trace'' traceID t)"

fun apply_options :: "task_option list \<Rightarrow> task_option" where
  "apply_options [] t = Ok t"
| "apply_options (opt # opts) t = bind_o (opt t) (apply_options opts)"

text \<open>A client: the queues it skips, and how it sends.\<close>

record 'st task_client =
  skipQueues :: "string \<Rightarrow> bool"
  sendFunc :: "string \<Rightarrow> task \<Rightarrow> 'st \<Rightarrow> string option \<times> 'st"

definition submitTask :: "'st task_client \<Rightarrow> string \<Rightarrow> string \<Rightarrow> task_option list \<Rightarrow> 'st \<Rightarrow> string option \<times> 'st" where
  "submitTask c queue url opts st =
     (if skipQueues c queue then (None, st)
      else
        case apply_options opts \<lparr>tk_name = [], tk_method = ''POST'', tk_url = url, tk_headers = [], tk_body = JNull,
          tk_schedule = None, tk_deadline = None\<rparr> of
          Err e \<Rightarrow> (Some e, st)
        | Panic p \<Rightarrow> (Some p, st)
        | Ok t \<Rightarrow> sendFunc c queue t st)"

section \<open>Direct dispatch\<close>

text \<open>
  The request that \<open>sendToTaskTarget\<close> makes of a task. \<open>id\<close> is the generated one. Go's \<open>Header.Get\<close> finds the first value
  of a name, in any case.
\<close>

record target_request =
  tr_method :: string
  tr_url :: string
  tr_headers :: "(string \<times> string) list"
  tr_body :: json
  tr_at :: "int option"

definition sendToTaskTarget :: "string \<Rightarrow> string \<Rightarrow> task \<Rightarrow> target_request" where
  "sendToTaskTarget i queue t =
     \<lparr>tr_method = tk_method t, tr_url = tk_url t,
      tr_headers = tk_headers t
        @ (if tk_name t = [] then [(''X-CloudTasks-TaskName'', ''direct-dispatch-task-'' @ i)] else [])
        @ [(''X-CloudTasks-QueueName'', queue)],
      tr_body = tk_body t, tr_at = tk_schedule t\<rparr>"

definition header_value :: "(string \<times> string) list \<Rightarrow> string \<Rightarrow> string" where
  "header_value headers key = (case find (\<lambda>h. equal_fold (fst h) key) headers of None \<Rightarrow> [] | Some h \<Rightarrow> snd h)"

text \<open>The request as the target's guards see it.\<close>

definition received :: "target_request \<Rightarrow> http_request" where
  "received r = \<lparr>hq_method = tr_method r, hq_header = header_value (tr_headers r), hq_ip = []\<rparr>"

text \<open>Direct dispatch reports no error: it sends in a goroutine of its own.\<close>

definition useDirectDispatch :: "string \<Rightarrow> string \<Rightarrow> task \<Rightarrow> target_request list \<Rightarrow> string option \<times> target_request list" where
  "useDirectDispatch i queue t sent = (None, sent @ [sendToTaskTarget i queue t])"

section \<open>The tasks of the server\<close>

definition CreateTaskForPushNotification ::
  "(string \<Rightarrow> string) \<Rightarrow> 'st task_client \<Rightarrow> string \<Rightarrow> string + json \<Rightarrow> 'st \<Rightarrow> string option \<times> 'st" where
  "CreateTaskForPushNotification env c trace message =
     submitTask c (env ''GCLOUD_PUSH_NOTIFICATIONS_QUEUE'') (env ''PUSH_NOTIFICATIONS_URL'' @ ''/tasks/send-push-notification'')
       [withJSON message, withTrace trace, withBasicAuth (env ''PUSH_NOTIFICATIONS_SECRET'')]"

definition CreateTaskForTokenTransferProcessing ::
  "(string \<Rightarrow> string) \<Rightarrow> 'st task_client \<Rightarrow> string \<Rightarrow> string + json \<Rightarrow> 'st \<Rightarrow> string option \<times> 'st" where
  "CreateTaskForTokenTransferProcessing env c trace message =
     submitTask c (env ''TOKEN_PROCESSING_QUEUE'') (env ''TOKEN_PROCESSING_URL'' @ ''/token/transfer'')
       [withJSON message, withTrace trace]"

definition wallet_removal_message :: "string \<Rightarrow> string list \<Rightarrow> json" where
  "wallet_removal_message userID walletIDs =
     JObject [(''user_id'', JString userID), (''wallet_ids'', JArray (map JString walletIDs))]"

definition CreateTaskForWalletRemoval ::
  "(string \<Rightarrow> string) \<Rightarrow> 'st task_client \<Rightarrow> string \<Rightarrow> string \<Rightarrow> string list \<Rightarrow> 'st \<Rightarrow> string option \<times> 'st" where
  "CreateTaskForWalletRemoval env c trace userID walletIDs =
     submitTask c (env ''TOKEN_PROCESSING_QUEUE'') (env ''TOKEN_PROCESSING_URL'' @ ''/owner/wallet-removal'')
       [withJSON (Inr (wallet_removal_message userID walletIDs)), withTrace trace]"

definition mailing_list_message :: "string \<Rightarrow> json" where
  "mailing_list_message userID = JObject [(''user_id'', JString userID)]"

definition CreateTaskForAddingEmailToMailingList ::
  "(string \<Rightarrow> string) \<Rightarrow> 'st task_client \<Rightarrow> string \<Rightarrow> string \<Rightarrow> 'st \<Rightarrow> string option \<times> 'st" where
  "CreateTaskForAddingEmailToMailingList env c trace userID =
     submitTask c (env ''EMAILS_QUEUE'') (env ''EMAILS_HOST'' @ ''/send/process/add-to-mailing-list'')
       [withJSON (Inr (mailing_list_message userID)), withTrace trace, withBasicAuth (env ''EMAILS_TASK_SECRET'')]"

section \<open>Facts\<close>

lemmas task_defs = submitTask_def withJSON_def withTrace_def withBasicAuth_def addHeader_def

definition direct_client :: "(string \<Rightarrow> bool) \<Rightarrow> string \<Rightarrow> target_request list task_client" where
  "direct_client skip i = \<lparr>skipQueues = skip, sendFunc = useDirectDispatch i\<rparr>"

lemma header_value_simps [simp]:
  "header_value [] key = []"
  "header_value ((k, v) # hs) key = (if equal_fold k key then v else header_value hs key)"
  by (simp_all add: header_value_def)

lemma header_names:
  "equal_fold ''Authorization'' ''Authorization''" "\<not> equal_fold ''Authorization'' ''X-CloudTasks-TaskName''"
  "\<not> equal_fold ''Authorization'' ''X-CloudTasks-QueueName''" "\<not> equal_fold ''sentry-trace'' ''Authorization''"
  "\<not> equal_fold ''sentry-trace'' ''X-CloudTasks-TaskName''" "\<not> equal_fold ''sentry-trace'' ''X-CloudTasks-QueueName''"
  "\<not> equal_fold ''Content-type'' ''Authorization''" "\<not> equal_fold ''Content-type'' ''X-CloudTasks-TaskName''"
  "\<not> equal_fold ''Content-type'' ''X-CloudTasks-QueueName''" "equal_fold ''X-CloudTasks-TaskName'' ''X-CloudTasks-TaskName''"
  "\<not> equal_fold ''X-CloudTasks-TaskName'' ''X-CloudTasks-QueueName''" "equal_fold ''X-CloudTasks-QueueName'' ''X-CloudTasks-QueueName''"
  by code_simp+

text \<open>C26: The server and its emails service agree on the task that adds a user to the mailing list: unless the queue is skipped, one
  request is sent, for that user, to the route of the emails service, and the guards of that route let it through
  exactly when both have the same secret and the queue has a name; a skipped queue sends nothing and reports nothing.\<close>

theorem mailing_list_task_accepted:
  "(let (err, sent) = CreateTaskForAddingEmailToMailingList env (direct_client skip i) trace userID [] in
     err = None \<and>
     (if skip (env ''EMAILS_QUEUE'') then sent = []
      else \<exists>r. sent = [r] \<and> tr_method r = ''POST'' \<and> tr_url r = env ''EMAILS_HOST'' @ ''/send/process/add-to-mailing-list'' \<and>
        tr_body r = JObject [(''user_id'', JString userID)] \<and>
        (run_guards (route_guards e AddToMailingList) (received r) = Ok Pass \<longleftrightarrow>
           ge_task_secret e = env ''EMAILS_TASK_SECRET'' \<and> env ''EMAILS_QUEUE'' \<noteq> [])))"
proof (cases "skip (env ''EMAILS_QUEUE'')")
  case True
  then show ?thesis by (simp add: CreateTaskForAddingEmailToMailingList_def task_defs direct_client_def)
next
  case False
  let ?hs = "[(''Authorization'', MakeHeader None (env ''EMAILS_TASK_SECRET'')), (''sentry-trace'', trace),
    (''Content-type'', ''application/json''), (''X-CloudTasks-TaskName'', ''direct-dispatch-task-'' @ i),
    (''X-CloudTasks-QueueName'', env ''EMAILS_QUEUE'')]"
  let ?r = "\<lparr>tr_method = ''POST'', tr_url = env ''EMAILS_HOST'' @ ''/send/process/add-to-mailing-list'', tr_headers = ?hs,
    tr_body = mailing_list_message userID, tr_at = None\<rparr>"
  have sent: "CreateTaskForAddingEmailToMailingList env (direct_client skip i) trace userID [] = (None, [?r])"
    using False
    by (simp add: CreateTaskForAddingEmailToMailingList_def task_defs direct_client_def useDirectDispatch_def sendToTaskTarget_def)
  have h: "hq_header (received ?r) ''Authorization'' = MakeHeader None (env ''EMAILS_TASK_SECRET'')"
    "hq_header (received ?r) ''X-CloudTasks-TaskName'' = ''direct-dispatch-task-'' @ i"
    "hq_header (received ?r) ''X-CloudTasks-QueueName'' = env ''EMAILS_QUEUE''"
    by (simp_all only: received_def http_request.simps target_request.simps header_value_simps header_names if_True if_False)
  have "BasicAuth (received ?r) = Some ([], env ''EMAILS_TASK_SECRET'')"
    using basic_auth_round_trip(1) [OF h(1)] by simp
  then have "run_guards (route_guards e AddToMailingList) (received ?r) = Ok Pass \<longleftrightarrow>
      BasicHeaderAuthRequired None 200 (ge_task_secret e) (received ?r) = Pass \<and> TaskRequired (received ?r) = Pass"
    by (auto split: verdict.splits)
  also have "\<dots> \<longleftrightarrow> ge_task_secret e = env ''EMAILS_TASK_SECRET'' \<and> env ''EMAILS_QUEUE'' \<noteq> []"
    using \<open>BasicAuth (received ?r) = _\<close> h(2,3) by (auto simp: BasicHeaderAuthRequired_def TaskRequired_def authorized)
  finally show ?thesis using False by (simp add: sent mailing_list_message_def)
qed

end
