(* ===== verification/User_Api.thy ===== *)
theory User_Api
  imports User_Props Tasks
begin

text \<open>
  The methods of publicapi/user.go on wallets and names, which stand before service/user, and the task that follows the removal of
  wallets (service/task/task.go) with its handler in tokenprocessing/process.go.
\<close>

datatype user_api_error = UserApiInvalid invalid_input | UserApiAuth auth_error | UserApiErr user_error

type_synonym user_checks = "string list \<Rightarrow> string \<Rightarrow> string option"

text \<open>Input is validated, then the user is asked for; without either nothing happens to the connection.\<close>

definition as_api_user ::
  "user_checks \<Rightarrow> (string \<times> string list \<times> string) list \<Rightarrow> gin_ctx \<Rightarrow>
   (UserID \<Rightarrow> 's \<Rightarrow> (string, user_api_error option) outcome \<times> 's) \<Rightarrow> 's \<Rightarrow> (string, user_api_error option) outcome \<times> 's" where
  "as_api_user check inputs ctx act s =
     (case ValidateFields check inputs of
        Some e \<Rightarrow> (Ok (Some (UserApiInvalid e)), s)
      | None \<Rightarrow>
          (case getAuthenticatedUserID ctx of
             Ok u \<Rightarrow> act u s
           | Err e \<Rightarrow> (Ok (Some (UserApiAuth e)), s)
           | Panic p \<Rightarrow> (Panic p, s)))"

definition returned_error :: "(user_error, 'a) outcome \<Rightarrow> (string, user_api_error option) outcome" where
  "returned_error r = (case r of Ok _ \<Rightarrow> Ok None | Err e \<Rightarrow> Ok (Some (UserApiErr e)) | Panic p \<Rightarrow> Panic p)"

definition AddWalletToUser_api ::
  "user_checks \<Rightarrow> string list \<Rightarrow> string list \<Rightarrow> gin_ctx \<Rightarrow> WalletID \<Rightarrow> ChainAddress \<Rightarrow> auth_result db_io \<Rightarrow> conn \<Rightarrow>
   (string, user_api_error option) outcome \<times> conn" where
  "AddWalletToUser_api check addressField authenticatorField ctx newWalletID ca authenticate =
     as_api_user check [(''chainAddress'', addressField, ''required''), (''authenticator'', authenticatorField, ''required'')] ctx
       (\<lambda>userID c. apfst returned_error (AddWalletToUser newWalletID userID ca authenticate c))"

definition UpdateUserInfo_api ::
  "user_checks \<Rightarrow> gin_ctx \<Rightarrow> (string \<Rightarrow> Address \<Rightarrow> bool) \<Rightarrow> string \<Rightarrow> conn \<Rightarrow> (string, user_api_error option) outcome \<times> conn" where
  "UpdateUserInfo_api check ctx resolvesENS username =
     as_api_user check [(''username'', [username], ''required,username'')] ctx
       (\<lambda>userID c. apfst returned_error (UpdateUserInfo resolvesENS userID username c))"

text \<open>
  The wallets that were removed go into a task even if the removal ended with an error. What the task client answers is only
  logged. The state is the connection and what the client has sent.
\<close>

definition RemoveWalletsFromUser_api ::
  "user_checks \<Rightarrow> (string \<Rightarrow> string) \<Rightarrow> 'st task_client \<Rightarrow> string \<Rightarrow> gin_ctx \<Rightarrow> WalletID list \<Rightarrow> conn \<times> 'st \<Rightarrow>
   (string, user_api_error option) outcome \<times> conn \<times> 'st" where
  "RemoveWalletsFromUser_api check env client trace ctx walletIDs =
     as_api_user check [(''walletIDs'', walletIDs, ''required,unique,dive,required'')] ctx (\<lambda>userID (c, sent).
       let ((removedIDs, removalErr), c') = RemoveWalletsFromUser userID walletIDs c
       in (Ok (map_option UserApiErr removalErr), c',
           if length removedIDs > 0 then snd (CreateTaskForWalletRemoval env client trace userID removedIDs sent) else sent))"

text \<open>The handler of the task logs it: a status and nothing else.\<close>

definition processWalletRemoval :: "string option \<Rightarrow> int \<times> string option" where
  "processWalletRemoval bindError = (200, bindError)"

lemma removal_task:
  "CreateTaskForWalletRemoval env (direct_client skip i) trace u ids sent =
     (None, if skip (env ''TOKEN_PROCESSING_QUEUE'') then sent
            else sent @ [\<lparr>tr_method = ''POST'', tr_url = env ''TOKEN_PROCESSING_URL'' @ ''/owner/wallet-removal'',
              tr_headers = [(''sentry-trace'', trace), (''Content-type'', ''application/json''),
                (''X-CloudTasks-TaskName'', ''direct-dispatch-task-'' @ i), (''X-CloudTasks-QueueName'', env ''TOKEN_PROCESSING_QUEUE'')],
              tr_body = wallet_removal_message u ids, tr_at = None\<rparr>])"
  by (simp add: CreateTaskForWalletRemoval_def task_defs direct_client_def useDirectDispatch_def sendToTaskTarget_def)

text \<open>C12: Removing wallets through the API sends at most one task, for the user who asked, which names exactly the wallets that
  were removed: those of the request that were the user's, none of which can be found afterwards; when
  nothing was removed, nothing is sent.\<close>

theorem removal_task_exact:
  assumes "users_inv db" "GetUserById i db = Some u" "getAuthenticatedUserID ctx = Ok i"
    and "ValidateFields check [(''walletIDs'', ws, ''required,unique,dive,required'')] = None"
    and "\<not> skip (env ''TOKEN_PROCESSING_QUEUE'')"
    and "RemoveWalletsFromUser_api check env (direct_client skip k) trace ctx ws (pool db, []) = (r, c, sent)"
  shows "if (case us_primary u of Some p \<Rightarrow> p | None \<Rightarrow> []) \<in> set ws \<or> length (us_wallets u) \<le> length ws
    then r \<noteq> Ok None \<and> c = pool db \<and> sent = []
    else r = Ok None \<and>
      (if set ws \<inter> set (us_wallets u) = {} then sent = []
       else \<exists>ids q. sent = [q] \<and> tr_body q = wallet_removal_message i ids \<and> distinct ids \<and> set ids = set ws \<inter> set (us_wallets u) \<and>
         (\<forall>w\<in>set ids. getWalletStmt w (cn_db c) = None))"
proof -
  obtain ids err c' where run: "RemoveWalletsFromUser i ws (pool db) = ((ids, err), c')" by (metis prod.collapse)
  have api: "r = Ok (map_option UserApiErr err)" "c = c'"
      "sent = (if ids = [] then [] else snd (CreateTaskForWalletRemoval env (direct_client skip k) trace i ids []))"
    using assms(6) by (simp_all add: RemoveWalletsFromUser_api_def as_api_user_def assms(3,4) run split: if_splits)
  let ?refused = "(case us_primary u of Some p \<Rightarrow> p | None \<Rightarrow> []) \<in> set ws \<or> length (us_wallets u) \<le> length ws"
  note spec = removed_wallets [OF assms(1,2), of ws, unfolded run prod.case]
  show ?thesis
  proof (cases ?refused)
    case True
    have "ids = [] \<and> err \<noteq> None \<and> c' = pool db" using spec unfolding if_P [OF True] .
    then show ?thesis unfolding if_P [OF True] by (auto simp: api)
  next
    case False
    note q = spec [unfolded if_not_P [OF False]]
    have s1: "err = None" using q by (elim conjE)
    have s2: "distinct ids" using q by (elim conjE)
    have s3: "set ids = set ws \<inter> set (us_wallets u)" using q by (elim conjE)
    have s4: "\<forall>w\<in>set ids. getWalletStmt w (cn_db c') = None" using q by (elim conjE)
    note s = s1 s2 s3 s4
    show ?thesis
    proof (cases "ids = []")
      case True
      then show ?thesis unfolding if_not_P [OF False] using s(1,3) by (simp add: api)
    next
      case ne: False
      then have "set ws \<inter> set (us_wallets u) \<noteq> {}" using s(3) by (metis set_empty)
      moreover have "\<exists>q. sent = [q] \<and> tr_body q = wallet_removal_message i ids" using ne by (simp add: api removal_task assms(5))
      ultimately show ?thesis unfolding if_not_P [OF False] using s api(1,2) by auto
    qed
  qed
qed

lemma removal_task_exact_witness:
  "\<exists>q. snd (snd (RemoveWalletsFromUser_api (\<lambda>_ _. None) (\<lambda>v. v) (direct_client (\<lambda>_. False) ''k'') ''t''
      \<lparr>cx_user = Some (AsDBID ''u1''), cx_session = Some (AsDBID ''s''), cx_auth_error = Some None, cx_authed = True, cx_roles = Some []\<rparr>
      [''w3''] (pool sample_wallets, []))) = [q] \<and> tr_body q = wallet_removal_message ''u1'' [''w3'']"
proof -
  let ?ctx = "\<lparr>cx_user = Some (AsDBID ''u1''), cx_session = Some (AsDBID ''s''), cx_auth_error = Some None, cx_authed = True, cx_roles = Some []\<rparr>"
  have u: "GetUserById ''u1'' sample_wallets = Some (the (GetUserById ''u1'' sample_wallets))" by code_simp
  have w: "us_wallets (the (GetUserById ''u1'' sample_wallets)) = [''w1'', ''w3'']"
    "us_primary (the (GetUserById ''u1'' sample_wallets)) = Some ''w1''" by code_simp+
  have one: "ids = [''w3'']" if "distinct ids" "set ids = {''w3''}" for ids :: "string list"
  proof -
    have "length ids = 1" using that distinct_card [of ids] by simp
    then obtain x where "ids = [x]" by (auto simp: length_Suc_conv)
    then show ?thesis using that(2) by simp
  qed
  obtain r c sent where run: "RemoveWalletsFromUser_api (\<lambda>_ _. None) (\<lambda>v. v) (direct_client (\<lambda>_. False) ''k'') ''t'' ?ctx [''w3'']
      (pool sample_wallets, []) = (r, c, sent)" by (metis prod_cases3)
  have "getAuthenticatedUserID ?ctx = Ok ''u1''" by code_simp
  then show ?thesis
    using removal_task_exact [OF sample_wallets_inv u _ _ _ run] one by (auto simp: run w ValidateFields_def)
qed

end
