(* ===== verification/Accounts.thy ===== *)
theory Accounts
  imports Session_Runs User_Store Validate
begin

text \<open>
  What a user keeps besides wallets and addresses: push tokens, roles, blocked users, experiences and settings, with the
  methods of publicapi/user.go and the queries of db/gen/coredb/query.sql.go. The tables have their primary
  keys, unique indexes and foreign keys. Rows are changed and never removed, as in the code. Whether a statement fails
  is an argument, and so are the validator and the new IDs.
\<close>

section \<open>Rows\<close>

record push_token_row =
  pt_id :: string
  pt_user :: UserID
  pt_token :: string
  pt_deleted :: bool

record role_row =
  rl_id :: string
  rl_user :: UserID
  rl_role :: Role
  rl_deleted :: bool

record block_row =
  bl_id :: string
  bl_user :: UserID
  bl_blocked :: UserID
  bl_active :: bool
  bl_deleted :: bool

record account_tables =
  act_users :: tables
  act_push :: "push_token_row list"
  act_roles :: "role_row list"
  act_blocks :: "block_row list"
  act_experiences :: "UserID \<Rightarrow> string \<rightharpoonup> bool"
  act_settings :: "UserID \<Rightarrow> string option"

definition user_exists :: "UserID \<Rightarrow> account_tables \<Rightarrow> bool" where
  "user_exists u db = (u \<in> us_id ` set (tb_users (act_users db)))"

section \<open>Push tokens\<close>

definition GetPushTokenByPushToken :: "string \<Rightarrow> account_tables \<Rightarrow> push_token_row option" where
  "GetPushTokenByPushToken token db = find (\<lambda>t. pt_token t = token \<and> \<not> pt_deleted t) (act_push db)"

definition GetPushTokensByIDs :: "string list \<Rightarrow> account_tables \<Rightarrow> push_token_row list" where
  "GetPushTokensByIDs ids db = concat (map (\<lambda>i. filter (\<lambda>t. pt_id t = i \<and> \<not> pt_deleted t) (act_push db)) ids)"

definition GetPushTokensByUserID :: "UserID \<Rightarrow> account_tables \<Rightarrow> push_token_row list" where
  "GetPushTokensByUserID u db = filter (\<lambda>t. pt_user t = u \<and> \<not> pt_deleted t) (act_push db)"

definition CreatePushTokenForUser_query ::
  "string \<Rightarrow> UserID \<Rightarrow> string \<Rightarrow> account_tables \<Rightarrow> (string, push_token_row \<times> account_tables) outcome" where
  "CreatePushTokenForUser_query i u token db =
     (let row = \<lparr>pt_id = i, pt_user = u, pt_token = token, pt_deleted = False\<rparr> in
      if i \<in> pt_id ` set (act_push db) then Err ''push_notification_tokens_pkey''
      else if GetPushTokenByPushToken token db \<noteq> None then Err ''push_notification_tokens_push_token_idx''
      else if \<not> user_exists u db then Err ''push_notification_tokens_user_id_fkey''
      else Ok (row, db\<lparr>act_push := act_push db @ [row]\<rparr>))"

definition DeletePushTokensByIDs :: "string list \<Rightarrow> account_tables \<Rightarrow> account_tables" where
  "DeletePushTokensByIDs ids db =
     db\<lparr>act_push := map (\<lambda>t. if pt_id t \<in> set ids \<and> \<not> pt_deleted t then t\<lparr>pt_deleted := True\<rparr> else t) (act_push db)\<rparr>"

section \<open>Roles\<close>

definition GetUserRolesByUserId :: "account_tables \<Rightarrow> UserID \<Rightarrow> Role list" where
  "GetUserRolesByUserId db u = map rl_role (filter (\<lambda>r. rl_user r = u \<and> \<not> rl_deleted r) (act_roles db))"

text \<open>\<open>auth.RolesByUserID\<close>, which the sessions ask.\<close>

definition RolesByUserID :: "account_tables \<Rightarrow> UserID \<Rightarrow> Role list" where
  "RolesByUserID db u = GetUserRolesByUserId db u"

text \<open>The rows one after the other: a conflict on user and role updates the row that is there.\<close>

fun upsert_roles :: "UserID \<Rightarrow> (string \<times> Role) list \<Rightarrow> role_row list \<Rightarrow> (string, role_row list) outcome" where
  "upsert_roles u [] rows = Ok rows"
| "upsert_roles u ((i, role) # new) rows =
     (if list_ex (\<lambda>r. rl_user r = u \<and> rl_role r = role) rows
      then upsert_roles u new (map (\<lambda>r. if rl_user r = u \<and> rl_role r = role then r\<lparr>rl_deleted := False\<rparr> else r) rows)
      else if i \<in> rl_id ` set rows then Err ''user_roles_pkey''
      else upsert_roles u new (rows @ [\<lparr>rl_id = i, rl_user = u, rl_role = role, rl_deleted = False\<rparr>]))"

text \<open>One statement must not update a row twice.\<close>

definition AddUserRoles :: "UserID \<Rightarrow> string list \<Rightarrow> Role list \<Rightarrow> account_tables \<Rightarrow> (string, unit \<times> account_tables) outcome" where
  "AddUserRoles u ids roles db =
     (if \<not> distinct roles then Err ''ON CONFLICT DO UPDATE command cannot affect row a second time''
      else if roles \<noteq> [] \<and> \<not> user_exists u db then Err ''user_roles_user_id_fkey''
      else map_o (\<lambda>rows. ((), db\<lparr>act_roles := rows\<rparr>)) (upsert_roles u (zip ids roles) (act_roles db)))"

definition DeleteUserRoles :: "UserID \<Rightarrow> Role list \<Rightarrow> account_tables \<Rightarrow> account_tables" where
  "DeleteUserRoles u roles db =
     db\<lparr>act_roles := map (\<lambda>r. if rl_user r = u \<and> rl_role r \<in> set roles then r\<lparr>rl_deleted := True\<rparr> else r) (act_roles db)\<rparr>"

text \<open>GraphQL forms of a role. A name that is none leaves the value as it was, without an error.\<close>

definition Role_UnmarshalGQL :: "string option \<Rightarrow> Role \<Rightarrow> (string, Role) outcome" where
  "Role_UnmarshalGQL v role =
     (case v of
        None \<Rightarrow> Err ''Role must be a string''
      | Some n \<Rightarrow>
          if to_lower n = ''admin'' then Ok ''ADMIN''
          else if to_lower n = ''beta_tester'' then Ok ''BETA_TESTER''
          else if to_lower n = ''early_access'' then Ok ''EARLY_ACCESS''
          else if to_lower n = ''email_tester'' then Ok ''EMAIL_TESTER''
          else Ok role)"

definition Role_MarshalGQL :: "Role \<Rightarrow> string" where
  "Role_MarshalGQL role =
     (if role \<in> {''ADMIN'', ''BETA_TESTER'', ''EARLY_ACCESS'', ''EMAIL_TESTER''} then [CHR 0x22] @ role @ [CHR 0x22] else [])"

section \<open>Blocked users\<close>

definition same_block :: "UserID \<Rightarrow> UserID \<Rightarrow> block_row \<Rightarrow> bool" where
  "same_block u blocked b = (bl_user b = u \<and> bl_blocked b = blocked \<and> \<not> bl_deleted b)"

text \<open>No row comes back when the user to block is deleted, universal or unknown.\<close>

definition BlockUser_query :: "string \<Rightarrow> UserID \<Rightarrow> UserID \<Rightarrow> account_tables \<Rightarrow> (string, string option \<times> account_tables) outcome" where
  "BlockUser_query i u blocked db =
     (if live_user (act_users db) (\<lambda>v. us_id v = blocked \<and> \<not> us_universal v) = None then Ok (None, db)
      else case find (same_block u blocked) (act_blocks db) of
          Some b \<Rightarrow> Ok (Some (bl_id b),
            db\<lparr>act_blocks := map (\<lambda>b. if same_block u blocked b then b\<lparr>bl_active := True\<rparr> else b) (act_blocks db)\<rparr>)
        | None \<Rightarrow>
            if i \<in> bl_id ` set (act_blocks db) then Err ''user_blocklist_pkey''
            else if \<not> user_exists u db then Err ''user_blocklist_user_id_fkey''
            else Ok (Some i, db\<lparr>act_blocks := act_blocks db @
              [\<lparr>bl_id = i, bl_user = u, bl_blocked = blocked, bl_active = True, bl_deleted = False\<rparr>]\<rparr>))"

definition UnblockUser_query :: "UserID \<Rightarrow> UserID \<Rightarrow> account_tables \<Rightarrow> account_tables" where
  "UnblockUser_query u blocked db =
     db\<lparr>act_blocks := map (\<lambda>b. if same_block u blocked b then b\<lparr>bl_active := False\<rparr> else b) (act_blocks db)\<rparr>"

section \<open>Experiences and settings\<close>

definition AllUserExperienceType :: "string list" where
  "AllUserExperienceType =
     [''EmailUpsell'', ''MaintenanceFeb2023'', ''TwitterConnectionOnboardingUpsell'', ''UpsellMintMemento4'']"

definition UserExperienceType_IsValid :: "string \<Rightarrow> bool" where
  "UserExperienceType_IsValid e = (e \<in> set AllUserExperienceType)"

definition UserExperienceType_UnmarshalGQL :: "string option \<Rightarrow> (string, string) outcome" where
  "UserExperienceType_UnmarshalGQL v =
     (case v of
        None \<Rightarrow> Err ''enums must be strings''
      | Some str \<Rightarrow> if UserExperienceType_IsValid str then Ok str else Err (str @ '' is not a valid UserExperienceType''))"

text \<open>The column is an object from the start; a user that does not exist has no row.\<close>

definition GetUserExperiencesByUserID :: "UserID \<Rightarrow> account_tables \<Rightarrow> (string \<rightharpoonup> bool) option" where
  "GetUserExperiencesByUserID u db = (if user_exists u db then Some (act_experiences db u) else None)"

definition UpdateUserExperience_query :: "(string \<rightharpoonup> bool) \<Rightarrow> UserID \<Rightarrow> account_tables \<Rightarrow> account_tables" where
  "UpdateUserExperience_query experience u db =
     (if user_exists u db then db\<lparr>act_experiences := (act_experiences db)(u := act_experiences db u ++ experience)\<rparr> else db)"

definition UpdateNotificationSettingsByID :: "UserID \<Rightarrow> string \<Rightarrow> account_tables \<Rightarrow> account_tables" where
  "UpdateNotificationSettingsByID u settings db =
     (if user_exists u db then db\<lparr>act_settings := (act_settings db)(u \<mapsto> settings)\<rparr> else db)"

section \<open>The API\<close>

datatype account_error =
    AccInvalid invalid_input | AccAuth auth_error | AccDb string | AccOther string
  | ErrPushTokenBelongsToAnotherUser string | AccUserNotFound UserID

type_synonym 'a account_io = "account_tables \<Rightarrow> (account_error, 'a) outcome \<times> account_tables"

datatype account_input = TextInput string | RolesInput "Role list"

type_synonym account_checks = "account_input \<Rightarrow> string \<Rightarrow> string option"
type_synonym db_faults = "string \<Rightarrow> string option"

definition validated :: "account_checks \<Rightarrow> string \<Rightarrow> account_input \<Rightarrow> string \<Rightarrow> 'a account_io \<Rightarrow> 'a account_io" where
  "validated check name v tag act db =
     (case ValidateFields check [(name, v, tag)] of Some e \<Rightarrow> (Err (AccInvalid e), db) | None \<Rightarrow> act db)"

definition as_user :: "gin_ctx \<Rightarrow> (UserID \<Rightarrow> 'a account_io) \<Rightarrow> 'a account_io" where
  "as_user ctx act db =
     (case getAuthenticatedUserID ctx of
        Ok u \<Rightarrow> act u db | Err e \<Rightarrow> (Err (AccAuth e), db) | Panic p \<Rightarrow> (Panic p, db))"

text \<open>A query fails as a whole, by a fault or by a constraint, and then changes nothing.\<close>

definition run_query :: "db_faults \<Rightarrow> string \<Rightarrow> (account_tables \<Rightarrow> (string, 'a \<times> account_tables) outcome) \<Rightarrow> 'a account_io" where
  "run_query flt name q db =
     (case flt name of
        Some e \<Rightarrow> (Err (AccDb e), db)
      | None \<Rightarrow>
          (case q db of Ok (a, db') \<Rightarrow> (Ok a, db') | Err e \<Rightarrow> (Err (AccDb e), db) | Panic p \<Rightarrow> (Panic p, db)))"

definition changing :: "(account_tables \<Rightarrow> account_tables) \<Rightarrow> account_tables \<Rightarrow> (string, unit \<times> account_tables) outcome" where
  "changing f db = Ok ((), f db)"

definition reading :: "(account_tables \<Rightarrow> 'a) \<Rightarrow> account_tables \<Rightarrow> (string, 'a \<times> account_tables) outcome" where
  "reading f db = Ok (f db, db)"

definition and_then :: "'a account_io \<Rightarrow> ('a \<Rightarrow> 'b account_io) \<Rightarrow> 'b account_io" where
  "and_then m f db = (case m db of (Ok a, db') \<Rightarrow> f a db' | (Err e, db') \<Rightarrow> (Err e, db') | (Panic p, db') \<Rightarrow> (Panic p, db'))"

definition answer :: "(account_error, 'a) outcome \<Rightarrow> 'a account_io" where
  "answer r db = (r, db)"

definition CreatePushTokenForUser ::
  "account_checks \<Rightarrow> db_faults \<Rightarrow> string \<Rightarrow> gin_ctx \<Rightarrow> string \<Rightarrow> push_token_row account_io" where
  "CreatePushTokenForUser check flt newID ctx pushToken =
     validated check ''pushToken'' (TextInput pushToken) ''required,min=1,max=255'' (as_user ctx (\<lambda>userID.
       and_then (run_query flt ''GetPushTokenByPushToken'' (reading (GetPushTokenByPushToken pushToken))) (\<lambda>found.
         case found of
           Some token \<Rightarrow>
             if pt_user token = userID then answer (Ok token) else answer (Err (ErrPushTokenBelongsToAnotherUser pushToken))
         | None \<Rightarrow> run_query flt ''CreatePushTokenForUser'' (CreatePushTokenForUser_query newID userID pushToken))))"

definition DeletePushTokenByPushToken :: "account_checks \<Rightarrow> db_faults \<Rightarrow> gin_ctx \<Rightarrow> string \<Rightarrow> unit account_io" where
  "DeletePushTokenByPushToken check flt ctx pushToken =
     validated check ''pushToken'' (TextInput pushToken) ''required,min=1,max=255'' (as_user ctx (\<lambda>userID.
       and_then (run_query flt ''GetPushTokenByPushToken'' (reading (GetPushTokenByPushToken pushToken))) (\<lambda>found.
         case found of
           Some token \<Rightarrow>
             if pt_user token = userID then run_query flt ''DeletePushTokensByIDs'' (changing (DeletePushTokensByIDs [pt_id token]))
             else answer (Err (ErrPushTokenBelongsToAnotherUser pushToken))
         | None \<Rightarrow> answer (Ok ()))))"

definition read_user :: "db_faults \<Rightarrow> UserID \<Rightarrow> user_row account_io" where
  "read_user flt u =
     and_then (run_query flt ''GetUserById'' (reading (\<lambda>db. GetUserById u (act_users db)))) (\<lambda>found.
       case found of Some row \<Rightarrow> answer (Ok row) | None \<Rightarrow> answer (Err (AccDb ''no rows in result set'')))"

text \<open>
  The two methods on roles also force a refresh of the user's auth tokens in the session store, after which they
  read the user. \<open>newIDs\<close> gives one ID for each role.
\<close>

definition change_roles ::
  "string \<Rightarrow> account_checks \<Rightarrow> db_faults \<Rightarrow> request \<Rightarrow> gin_ctx \<Rightarrow> Role list \<Rightarrow> (UserID \<Rightarrow> unit account_io) \<Rightarrow>
   account_tables \<times> store \<Rightarrow> (account_error, user_row) outcome \<times> account_tables \<times> store" where
  "change_roles refusal check flt rq ctx roles change = (\<lambda>(db, st).
     case validated check ''roles'' (RolesInput roles) ''required,min=1,unique,dive,role,opt_in_role'' (as_user ctx (\<lambda>userID.
            if ''ADMIN'' \<in> set roles then answer (Err (AccOther refusal))
            else and_then (change userID) (\<lambda>_. answer (Ok userID)))) db of
       (Ok userID, db1) \<Rightarrow> (let (r, db2) = read_user flt userID db1 in (r, db2, ForceAuthTokenRefresh rq userID st))
     | (Err e, db1) \<Rightarrow> (Err e, db1, st)
     | (Panic p, db1) \<Rightarrow> (Panic p, db1, st))"

definition OptInForRoles ::
  "account_checks \<Rightarrow> db_faults \<Rightarrow> string list \<Rightarrow> request \<Rightarrow> gin_ctx \<Rightarrow> Role list \<Rightarrow>
   account_tables \<times> store \<Rightarrow> (account_error, user_row) outcome \<times> account_tables \<times> store" where
  "OptInForRoles check flt newIDs rq ctx roles =
     change_roles ''cannot opt in for admin role'' check flt rq ctx roles
       (\<lambda>userID. run_query flt ''AddUserRoles'' (AddUserRoles userID newIDs roles))"

definition OptOutForRoles ::
  "account_checks \<Rightarrow> db_faults \<Rightarrow> request \<Rightarrow> gin_ctx \<Rightarrow> Role list \<Rightarrow>
   account_tables \<times> store \<Rightarrow> (account_error, user_row) outcome \<times> account_tables \<times> store" where
  "OptOutForRoles check flt rq ctx roles =
     change_roles ''cannot opt out of admin role'' check flt rq ctx roles
       (\<lambda>userID. run_query flt ''DeleteUserRoles'' (changing (DeleteUserRoles userID roles)))"

definition UserIsAdmin :: "gin_ctx \<Rightarrow> (string, bool) outcome" where
  "UserIsAdmin ctx = (case cx_roles ctx of None \<Rightarrow> Panic ''key does not exist'' | Some roles \<Rightarrow> Ok (''ADMIN'' \<in> set roles))"

text \<open>Here the user comes before the validation, since the tag names it.\<close>

definition BlockUser :: "account_checks \<Rightarrow> db_faults \<Rightarrow> string \<Rightarrow> gin_ctx \<Rightarrow> UserID \<Rightarrow> unit account_io" where
  "BlockUser check flt newID ctx userID =
     as_user ctx (\<lambda>viewerID. validated check ''userID'' (TextInput userID) (''required,ne='' @ viewerID)
       (and_then (run_query flt ''BlockUser'' (BlockUser_query newID viewerID userID)) (\<lambda>row.
         case row of None \<Rightarrow> answer (Err (AccUserNotFound userID)) | Some _ \<Rightarrow> answer (Ok ()))))"

definition UnblockUser :: "account_checks \<Rightarrow> db_faults \<Rightarrow> gin_ctx \<Rightarrow> UserID \<Rightarrow> unit account_io" where
  "UnblockUser check flt ctx userID =
     validated check ''userID'' (TextInput userID) ''required'' (as_user ctx (\<lambda>viewerID.
       run_query flt ''UnblockUser'' (changing (UnblockUser_query viewerID userID))))"

definition GetUserExperiences :: "account_checks \<Rightarrow> db_faults \<Rightarrow> UserID \<Rightarrow> (string \<times> bool) list account_io" where
  "GetUserExperiences check flt userID =
     validated check ''userID'' (TextInput userID) ''required''
       (and_then (run_query flt ''GetUserExperiencesByUserID'' (reading (GetUserExperiencesByUserID userID))) (\<lambda>experiences.
         case experiences of
           None \<Rightarrow> answer (Err (AccDb ''no rows in result set''))
         | Some asJSON \<Rightarrow> answer (Ok (map (\<lambda>e. (e, asJSON e = Some True)) AllUserExperienceType))))"

definition UpdateUserExperience :: "account_checks \<Rightarrow> db_faults \<Rightarrow> gin_ctx \<Rightarrow> string \<Rightarrow> bool \<Rightarrow> unit account_io" where
  "UpdateUserExperience check flt ctx experienceType v =
     validated check ''experienceType'' (TextInput experienceType) ''required'' (as_user ctx (\<lambda>curUserID.
       run_query flt ''UpdateUserExperience'' (changing (UpdateUserExperience_query [experienceType \<mapsto> v] curUserID))))"

text \<open>The settings are their JSON text.\<close>

definition UpdateUserNotificationSettings :: "account_checks \<Rightarrow> db_faults \<Rightarrow> gin_ctx \<Rightarrow> string \<Rightarrow> unit account_io" where
  "UpdateUserNotificationSettings check flt ctx settings =
     validated check ''notification_settings'' (TextInput settings) ''required'' (as_user ctx (\<lambda>userID.
       run_query flt ''UpdateNotificationSettingsByID'' (changing (UpdateNotificationSettingsByID userID settings))))"

definition UpdateUserPrimaryWallet_api :: "account_checks \<Rightarrow> db_faults \<Rightarrow> gin_ctx \<Rightarrow> WalletID \<Rightarrow> unit account_io" where
  "UpdateUserPrimaryWallet_api check flt ctx primaryWalletID =
     validated check ''primaryWalletID'' (TextInput primaryWalletID) ''required'' (as_user ctx (\<lambda>userID.
       run_query flt ''UpdateUserPrimaryWallet''
         (changing (\<lambda>db. db\<lparr>act_users := UpdateUserPrimaryWallet primaryWalletID userID (act_users db)\<rparr>))))"

definition VerifiedEmailAddressExists :: "account_checks \<Rightarrow> db_faults \<Rightarrow> string \<Rightarrow> bool account_io" where
  "VerifiedEmailAddressExists check flt emailAddress =
     validated check ''emailAddress'' (TextInput emailAddress) ''required''
       (run_query flt ''GetUserByVerifiedEmailAddress''
         (reading (\<lambda>db. GetUserByVerifiedEmailAddress emailAddress (act_users db) \<noteq> None)))"

end
