(* ===== verification/Account_Props.thy ===== *)
theory Account_Props
  imports Accounts Session_Props
begin

text \<open>
  What the methods on accounts promise: the indexes of the tables hold in every run, no call touches what another
  user keeps, a push token is held by one user at a time, and a role that a user opts in for is in the next request.
\<close>

section \<open>Rows that are flagged and not removed\<close>

locale flagged_rows =
  fixes owner :: "'r \<Rightarrow> UserID"
    and key :: "'r \<Rightarrow> 'k"
    and set_flag :: "bool \<Rightarrow> 'r \<Rightarrow> 'r"
  assumes owner_kept: "owner (set_flag b r) = owner r"
    and key_kept: "key (set_flag b r) = key r"
begin

lemma others_kept:
  assumes "\<And>r. r \<in> set rows \<Longrightarrow> P r \<Longrightarrow> owner r \<noteq> v"
  shows "filter (\<lambda>r. owner r = v) (map (\<lambda>r. if P r then set_flag b r else r) rows) = filter (\<lambda>r. owner r = v) rows"
  using assms by (induction rows) (auto simp: owner_kept)

lemma keys_kept: "map key (map (\<lambda>r. if P r then set_flag b r else r) rows) = map key rows"
  by (simp add: key_kept)

end

interpretation push: flagged_rows pt_user pt_id "\<lambda>b t. t\<lparr>pt_deleted := b\<rparr>"
  by unfold_locales simp_all

interpretation role: flagged_rows rl_user "\<lambda>r. (rl_id r, rl_user r, rl_role r)" "\<lambda>b r. r\<lparr>rl_deleted := b\<rparr>"
  by unfold_locales simp_all

interpretation block: flagged_rows bl_user "\<lambda>b. (bl_id b, bl_user b, bl_blocked b, bl_deleted b)" "\<lambda>a b. b\<lparr>bl_active := a\<rparr>"
  by unfold_locales simp_all

section \<open>The indexes\<close>

definition push_ok :: "push_token_row list \<Rightarrow> bool" where
  "push_ok rows = (distinct (map pt_id rows) \<and> distinct (map pt_token (filter (\<lambda>t. \<not> pt_deleted t) rows)))"

definition roles_ok :: "role_row list \<Rightarrow> bool" where
  "roles_ok rows = (distinct (map rl_id rows) \<and> distinct (map (\<lambda>r. (rl_user r, rl_role r)) rows))"

definition blocks_ok :: "block_row list \<Rightarrow> bool" where
  "blocks_ok rows = (distinct (map bl_id rows) \<and>
     distinct (map (\<lambda>b. (bl_user b, bl_blocked b)) (filter (\<lambda>b. \<not> bl_deleted b) rows)))"

definition accounts_ok :: "account_tables \<Rightarrow> bool" where
  "accounts_ok db = (push_ok (act_push db) \<and> roles_ok (act_roles db) \<and> blocks_ok (act_blocks db))"

text \<open>What a user keeps, with the user's row.\<close>

definition owned_by :: "UserID \<Rightarrow> account_tables \<Rightarrow>
  push_token_row list \<times> role_row list \<times> block_row list \<times> (string \<rightharpoonup> bool) \<times> string option \<times> user_row list" where
  "owned_by v db =
     (filter (\<lambda>t. pt_user t = v) (act_push db), filter (\<lambda>r. rl_user r = v) (act_roles db), filter (\<lambda>b. bl_user b = v) (act_blocks db),
      act_experiences db v, act_settings db v, filter (\<lambda>u. us_id u = v) (tb_users (act_users db)))"

text \<open>A change that the users \<open>us\<close> may make.\<close>

definition own_change :: "UserID set \<Rightarrow> account_tables \<Rightarrow> account_tables \<Rightarrow> bool" where
  "own_change us db db' = (accounts_ok db' \<and> (\<forall>v. v \<notin> us \<longrightarrow> owned_by v db' = owned_by v db))"

lemma own_change_refl: "accounts_ok db \<Longrightarrow> own_change us db db"
  by (simp add: own_change_def)

lemma own_change_trans: "own_change us db db1 \<Longrightarrow> own_change us db1 db2 \<Longrightarrow> own_change us db db2"
  by (simp add: own_change_def)

section \<open>The queries\<close>

lemma push_filter_delete:
  "filter (\<lambda>t. \<not> pt_deleted t) (map (\<lambda>t. if P t then t\<lparr>pt_deleted := True\<rparr> else t) rows) = filter (\<lambda>t. \<not> pt_deleted t \<and> \<not> P t) rows"
  by (induction rows) auto

lemma distinct_map_filter_imp:
  "distinct (map f (filter P xs)) \<Longrightarrow> (\<And>x. Q x \<Longrightarrow> P x) \<Longrightarrow> distinct (map f (filter Q xs))"
  by (induction xs) (auto split: if_splits)

lemma delete_push_own:
  assumes "accounts_ok db" "t \<in> set (act_push db)" "pt_user t = u"
  shows "own_change {u} db (DeletePushTokensByIDs [pt_id t] db)"
proof -
  let ?P = "\<lambda>r. pt_id r \<in> set [pt_id t] \<and> \<not> pt_deleted r"
  have d: "distinct (map pt_id (act_push db))" "distinct (map pt_token (filter (\<lambda>t. \<not> pt_deleted t) (act_push db)))"
    using assms(1) by (auto simp: accounts_ok_def push_ok_def)
  have "pt_user r = u" if "r \<in> set (act_push db)" "?P r" for r
    using that assms(2,3) d(1) by (auto dest: inj_onD [OF iffD1 [OF distinct_map, THEN conjunct2]])
  then have o: "filter (\<lambda>r. pt_user r = v) (map (\<lambda>r. if ?P r then r\<lparr>pt_deleted := True\<rparr> else r) (act_push db))
      = filter (\<lambda>r. pt_user r = v) (act_push db)" if "v \<noteq> u" for v
    by (intro push.others_kept) (use that in blast)
  have "push_ok (map (\<lambda>r. if ?P r then r\<lparr>pt_deleted := True\<rparr> else r) (act_push db))"
    unfolding push_ok_def push.keys_kept push_filter_delete
    using d by (auto elim: distinct_map_filter_imp)
  then show ?thesis
    using assms(1) o by (simp add: own_change_def accounts_ok_def DeletePushTokensByIDs_def owned_by_def)
qed

lemma find_map_token: "find (\<lambda>t. pt_token t = token \<and> \<not> pt_deleted t) rows = None \<longleftrightarrow>
  token \<notin> pt_token ` set (filter (\<lambda>t. \<not> pt_deleted t) rows)"
  by (auto simp: find_None_iff)

lemma create_push_own:
  assumes "accounts_ok db" "CreatePushTokenForUser_query i u token db = Ok (row, db')"
  shows "own_change {u} db db'"
  using assms
  by (auto simp: CreatePushTokenForUser_query_def GetPushTokenByPushToken_def find_map_token own_change_def accounts_ok_def
      push_ok_def owned_by_def Let_def split: if_splits)

lemma roles_ok_keys:
  assumes "map (\<lambda>r. (rl_id r, rl_user r, rl_role r)) xs = map (\<lambda>r. (rl_id r, rl_user r, rl_role r)) ys"
  shows "roles_ok xs \<longleftrightarrow> roles_ok ys"
proof -
  have "roles_ok zs \<longleftrightarrow> distinct (map fst (map (\<lambda>r. (rl_id r, rl_user r, rl_role r)) zs)) \<and>
      distinct (map snd (map (\<lambda>r. (rl_id r, rl_user r, rl_role r)) zs))" for zs
    by (simp add: roles_ok_def comp_def)
  then show ?thesis using assms by presburger
qed

lemma blocks_ok_keys:
  assumes "map (\<lambda>b. (bl_id b, bl_user b, bl_blocked b, bl_deleted b)) xs = map (\<lambda>b. (bl_id b, bl_user b, bl_blocked b, bl_deleted b)) ys"
  shows "blocks_ok xs \<longleftrightarrow> blocks_ok ys"
proof -
  have "blocks_ok zs \<longleftrightarrow> distinct (map fst (map (\<lambda>b. (bl_id b, bl_user b, bl_blocked b, bl_deleted b)) zs)) \<and>
      distinct (map (\<lambda>(i, u, v, d). (u, v)) (filter (\<lambda>(i, u, v, d). \<not> d)
        (map (\<lambda>b. (bl_id b, bl_user b, bl_blocked b, bl_deleted b)) zs)))" for zs
    by (simp add: blocks_ok_def comp_def filter_map)
  then show ?thesis using assms by presburger
qed

lemma revived:
  assumes "\<exists>r\<in>set rows. rl_user r = u \<and> rl_role r = role"
  shows "set (map rl_role (filter (\<lambda>r. rl_user r = u \<and> \<not> rl_deleted r)
      (map (\<lambda>r. if rl_user r = u \<and> rl_role r = role then r\<lparr>rl_deleted := False\<rparr> else r) rows))) =
    insert role (set (map rl_role (filter (\<lambda>r. rl_user r = u \<and> \<not> rl_deleted r) rows)))"
proof -
  have "set (map rl_role (filter (\<lambda>r. rl_user r = u \<and> \<not> rl_deleted r)
      (map (\<lambda>r. if rl_user r = u \<and> rl_role r = role then r\<lparr>rl_deleted := False\<rparr> else r) rows))) =
    {role'. \<exists>r\<in>set rows. rl_user r = u \<and> rl_role r = role' \<and> (role' = role \<or> \<not> rl_deleted r)}"
    by (induction rows) auto
  also have "\<dots> = insert role (set (map rl_role (filter (\<lambda>r. rl_user r = u \<and> \<not> rl_deleted r) rows)))"
    using assms by auto
  finally show ?thesis .
qed

lemma upsert_roles_own:
  assumes "roles_ok rows" "upsert_roles u new rows = Ok rows'"
  shows "roles_ok rows' \<and> (\<forall>v. v \<noteq> u \<longrightarrow> filter (\<lambda>r. rl_user r = v) rows' = filter (\<lambda>r. rl_user r = v) rows) \<and>
    set (map rl_role (filter (\<lambda>r. rl_user r = u \<and> \<not> rl_deleted r) rows')) =
      set (map rl_role (filter (\<lambda>r. rl_user r = u \<and> \<not> rl_deleted r) rows)) \<union> snd ` set new"
  using assms
proof (induction u new rows rule: upsert_roles.induct)
  case (2 u i role new rows)
  let ?P = "\<lambda>r. rl_user r = u \<and> rl_role r = role"
  show ?case
  proof (cases "list_ex ?P rows")
    case True
    let ?rows = "map (\<lambda>r. if ?P r then r\<lparr>rl_deleted := False\<rparr> else r) rows"
    have "roles_ok ?rows \<longleftrightarrow> roles_ok rows" by (intro roles_ok_keys role.keys_kept)
    then have ok: "roles_ok ?rows" using 2(3) by blast
    have r: "upsert_roles u new ?rows = Ok rows'" using 2(4) True by simp
    have "set (map rl_role (filter (\<lambda>r. rl_user r = u \<and> \<not> rl_deleted r) ?rows)) =
        insert role (set (map rl_role (filter (\<lambda>r. rl_user r = u \<and> \<not> rl_deleted r) rows)))"
      by (rule revived) (use True in \<open>simp add: list_ex_iff\<close>)
    moreover have "filter (\<lambda>r. rl_user r = v) ?rows = filter (\<lambda>r. rl_user r = v) rows" if "v \<noteq> u" for v
      by (intro role.others_kept) (use that in auto)
    ultimately show ?thesis using 2(1) [OF True ok r] by auto
  next
    case False
    then have i: "i \<notin> rl_id ` set rows" and
      r: "upsert_roles u new (rows @ [\<lparr>rl_id = i, rl_user = u, rl_role = role, rl_deleted = False\<rparr>]) = Ok rows'"
      using 2(4) by (auto split: if_splits)
    have ok: "roles_ok (rows @ [\<lparr>rl_id = i, rl_user = u, rl_role = role, rl_deleted = False\<rparr>])"
      using 2(3) i False by (auto simp: roles_ok_def list_ex_iff)
    show ?thesis using 2(2) [OF False i ok r] by auto
  qed
qed simp

lemma AddUserRoles_own:
  assumes "accounts_ok db" "AddUserRoles u ids roles db = Ok (x, db')"
  shows "own_change {u} db db'"
proof -
  obtain rows where rows: "upsert_roles u (zip ids roles) (act_roles db) = Ok rows" "db' = db\<lparr>act_roles := rows\<rparr>"
    using assms(2) by (auto simp: AddUserRoles_def map_o_eq_Ok split: if_splits)
  show ?thesis
    using upsert_roles_own [OF _ rows(1)] assms(1) rows(2) by (simp add: own_change_def accounts_ok_def owned_by_def)
qed

lemma DeleteUserRoles_own: "accounts_ok db \<Longrightarrow> own_change {u} db (DeleteUserRoles u roles db)"
proof -
  assume ok: "accounts_ok db"
  let ?rows = "map (\<lambda>r. if rl_user r = u \<and> rl_role r \<in> set roles then r\<lparr>rl_deleted := True\<rparr> else r) (act_roles db)"
  have "roles_ok ?rows \<longleftrightarrow> roles_ok (act_roles db)" by (intro roles_ok_keys role.keys_kept)
  moreover have "filter (\<lambda>r. rl_user r = v) ?rows = filter (\<lambda>r. rl_user r = v) (act_roles db)" if "v \<noteq> u" for v
    by (intro role.others_kept) (use that in auto)
  ultimately show ?thesis using ok by (simp add: own_change_def accounts_ok_def owned_by_def DeleteUserRoles_def)
qed

lemma flag_blocks_own:
  assumes "accounts_ok db"
  shows "own_change {u} db (db\<lparr>act_blocks := map (\<lambda>b. if same_block u w b then b\<lparr>bl_active := a\<rparr> else b) (act_blocks db)\<rparr>)"
proof -
  let ?rows = "map (\<lambda>b. if same_block u w b then b\<lparr>bl_active := a\<rparr> else b) (act_blocks db)"
  have "blocks_ok ?rows \<longleftrightarrow> blocks_ok (act_blocks db)" by (intro blocks_ok_keys block.keys_kept)
  moreover have "filter (\<lambda>b. bl_user b = v) ?rows = filter (\<lambda>b. bl_user b = v) (act_blocks db)" if "v \<noteq> u" for v
    by (intro block.others_kept) (use that in \<open>auto simp: same_block_def\<close>)
  ultimately show ?thesis using assms by (simp add: own_change_def accounts_ok_def owned_by_def)
qed

lemma BlockUser_query_own:
  assumes "accounts_ok db" "BlockUser_query i u w db = Ok (x, db')"
  shows "own_change {u} db db'"
proof (cases "find (same_block u w) (act_blocks db)")
  case None
  then have "(u, w) \<notin> (\<lambda>b. (bl_user b, bl_blocked b)) ` set (filter (\<lambda>b. \<not> bl_deleted b) (act_blocks db))"
    by (auto simp: find_None_iff same_block_def)
  then show ?thesis
    using assms None
    by (auto simp: BlockUser_query_def own_change_def accounts_ok_def blocks_ok_def owned_by_def split: if_splits)
next
  case (Some b)
  then show ?thesis
    using assms flag_blocks_own [OF assms(1)] by (auto simp: BlockUser_query_def own_change_refl split: if_splits)
qed

lemma simple_queries_own:
  assumes "accounts_ok db"
  shows "own_change {u} db (UnblockUser_query u w db)" "own_change {u} db (UpdateUserExperience_query e u db)"
    "own_change {u} db (UpdateNotificationSettingsByID u settings db)"
  using flag_blocks_own [OF assms] assms
  by (simp_all add: UnblockUser_query_def UpdateUserExperience_query_def UpdateNotificationSettingsByID_def own_change_def
      accounts_ok_def owned_by_def)

lemma primary_wallet_own:
  assumes "accounts_ok db"
  shows "own_change {u} db (db\<lparr>act_users := UpdateUserPrimaryWallet w u (act_users db)\<rparr>)"
proof -
  have "filter (\<lambda>x. us_id x = v) (map (\<lambda>x. if us_id x = u then if w \<in> set (us_wallets x) then x\<lparr>us_primary := Some w\<rparr> else x else x) rows)
      = filter (\<lambda>x. us_id x = v) rows" if "v \<noteq> u" for v rows
    using that by (induction rows) auto
  then show ?thesis
    using assms by (simp add: own_change_def accounts_ok_def owned_by_def UpdateUserPrimaryWallet_def on_user_def) blast
qed

section \<open>The methods\<close>

definition own_at :: "UserID set \<Rightarrow> account_tables \<Rightarrow> 'a account_io \<Rightarrow> bool" where
  "own_at us db m = (accounts_ok db \<longrightarrow> own_change us db (snd (m db)))"

named_theorems own_at_intros

lemma own_at_answer [own_at_intros]: "own_at us db (answer r)"
  by (simp add: own_at_def answer_def own_change_refl)

lemma own_at_query [own_at_intros]:
  assumes "\<And>a db'. accounts_ok db \<Longrightarrow> q db = Ok (a, db') \<Longrightarrow> own_change us db db'"
  shows "own_at us db (run_query flt name q)"
  using assms by (auto simp: own_at_def run_query_def own_change_refl split: option.splits outcome.splits prod.splits)

lemma own_at_change [own_at_intros]:
  "(accounts_ok db \<Longrightarrow> own_change us db (f db)) \<Longrightarrow> own_at us db (run_query flt name (changing f))"
  by (rule own_at_query) (auto simp: changing_def)

lemma own_at_read:
  assumes "own_at us db (f (g db))"
  shows "own_at us db (and_then (run_query flt name (reading g)) f)"
  using assms by (auto simp: own_at_def and_then_def run_query_def reading_def own_change_refl split: option.splits)

lemma own_at_then:
  assumes "own_at us db m" "\<And>a db'. own_at us db' (f a)"
  shows "own_at us db (and_then m f)"
proof (cases "m db")
  case (Pair r db')
  then show ?thesis
    using assms by (cases r) (auto simp: own_at_def and_then_def own_change_def)
qed

lemma own_at_validated [own_at_intros]: "own_at us db act \<Longrightarrow> own_at us db (validated check name v tag act)"
  by (simp add: own_at_def validated_def own_change_refl split: option.splits)

lemma own_at_as_user [own_at_intros]:
  assumes "\<And>u. own_at {u} db (act u)"
  shows "own_at {v. getAuthenticatedUserID ctx = Ok v} db (as_user ctx act)"
  using assms by (auto simp: own_at_def as_user_def own_change_refl split: outcome.splits)

lemma push_methods_own [own_at_intros]:
  "own_at {v. getAuthenticatedUserID ctx = Ok v} db (CreatePushTokenForUser check flt i ctx token)"
  "own_at {v. getAuthenticatedUserID ctx = Ok v} db (DeletePushTokenByPushToken check flt ctx token)"
proof -
  have found: "t \<in> set (act_push db)" if "GetPushTokenByPushToken token db = Some t" for t db
    using that by (auto simp: GetPushTokenByPushToken_def find_Some_iff)
  show "own_at {v. getAuthenticatedUserID ctx = Ok v} db (CreatePushTokenForUser check flt i ctx token)"
    unfolding CreatePushTokenForUser_def
    by (intro own_at_intros own_at_read) (auto split: option.split intro!: own_at_intros create_push_own)
  show "own_at {v. getAuthenticatedUserID ctx = Ok v} db (DeletePushTokenByPushToken check flt ctx token)"
    unfolding DeletePushTokenByPushToken_def
    by (intro own_at_intros own_at_read)
      (auto split: option.split intro!: own_at_intros delete_push_own dest: found simp: changing_def)
qed

lemma read_user_same: "read_user flt u db = (r, db') \<Longrightarrow> db' = db"
  by (auto simp: read_user_def and_then_def run_query_def reading_def answer_def split: option.splits)

lemma role_changes_own:
  assumes "\<And>u db. own_at {u} db (change u)"
  shows "accounts_ok db \<Longrightarrow>
    own_change {v. getAuthenticatedUserID ctx = Ok v} db (fst (snd (change_roles refusal check flt rq ctx roles change (db, st))))"
proof -
  let ?m = "validated check ''roles'' (RolesInput roles) ''required,min=1,unique,dive,role,opt_in_role'' (as_user ctx (\<lambda>userID.
            if ''ADMIN'' \<in> set roles then answer (Err (AccOther refusal))
            else and_then (change userID) (\<lambda>_. answer (Ok userID))))"
  assume ok: "accounts_ok db"
  have "own_at {v. getAuthenticatedUserID ctx = Ok v} db ?m"
    by (intro own_at_intros) (auto intro!: own_at_intros own_at_then assms)
  then have "own_change {v. getAuthenticatedUserID ctx = Ok v} db (snd (?m db))" using ok by (simp add: own_at_def)
  then show ?thesis by (auto simp: change_roles_def dest: read_user_same split: prod.splits outcome.splits)
qed

lemma other_methods_own [own_at_intros]:
  "own_at {v. getAuthenticatedUserID ctx = Ok v} db (BlockUser check flt i ctx w)"
  "own_at {v. getAuthenticatedUserID ctx = Ok v} db (UnblockUser check flt ctx w)"
  "own_at {v. getAuthenticatedUserID ctx = Ok v} db (UpdateUserExperience check flt ctx e b)"
  "own_at {v. getAuthenticatedUserID ctx = Ok v} db (UpdateUserNotificationSettings check flt ctx settings)"
  "own_at {v. getAuthenticatedUserID ctx = Ok v} db (UpdateUserPrimaryWallet_api check flt ctx w)"
proof -
  show "own_at {v. getAuthenticatedUserID ctx = Ok v} db (BlockUser check flt i ctx w)"
    unfolding BlockUser_def
    by (intro own_at_intros own_at_then) (auto split: option.split intro: own_at_intros BlockUser_query_own)
qed (unfold UnblockUser_def UpdateUserExperience_def UpdateUserNotificationSettings_def UpdateUserPrimaryWallet_api_def,
  (intro own_at_validated own_at_as_user own_at_change simple_queries_own primary_wallet_own; assumption)+)

section \<open>Runs\<close>

datatype account_call =
    RegisterPush string string | UnregisterPush string | OptIn "string list" "Role list" | OptOut "Role list"
  | Block string UserID | Unblock UserID | SetExperience string bool | SetNotifications string | SetPrimary WalletID

text \<open>A call with what the request brings and meets.\<close>

record account_event =
  ae_call :: account_call
  ae_ctx :: gin_ctx
  ae_check :: account_checks
  ae_faults :: db_faults
  ae_request :: request

fun account_step :: "account_event \<Rightarrow> account_tables \<times> store \<Rightarrow> account_tables \<times> store" where
  "account_step e (db, st) =
     (let check = ae_check e; flt = ae_faults e; ctx = ae_ctx e; rq = ae_request e in
      case ae_call e of
        RegisterPush i token \<Rightarrow> (snd (CreatePushTokenForUser check flt i ctx token db), st)
      | UnregisterPush token \<Rightarrow> (snd (DeletePushTokenByPushToken check flt ctx token db), st)
      | OptIn ids roles \<Rightarrow> snd (OptInForRoles check flt ids rq ctx roles (db, st))
      | OptOut roles \<Rightarrow> snd (OptOutForRoles check flt rq ctx roles (db, st))
      | Block i u \<Rightarrow> (snd (BlockUser check flt i ctx u db), st)
      | Unblock u \<Rightarrow> (snd (UnblockUser check flt ctx u db), st)
      | SetExperience t v \<Rightarrow> (snd (UpdateUserExperience check flt ctx t v db), st)
      | SetNotifications s \<Rightarrow> (snd (UpdateUserNotificationSettings check flt ctx s db), st)
      | SetPrimary w \<Rightarrow> (snd (UpdateUserPrimaryWallet_api check flt ctx w db), st))"

definition run_accounts :: "account_event list \<Rightarrow> account_tables \<times> store \<Rightarrow> account_tables \<times> store" where
  "run_accounts = fold account_step"

lemma account_step_own:
  assumes "accounts_ok db"
  shows "own_change {v. getAuthenticatedUserID (ae_ctx e) = Ok v} db (fst (account_step e (db, st)))"
proof -
  have m: "own_change {v. getAuthenticatedUserID (ae_ctx e) = Ok v} db (snd (m db))"
    if "own_at {v. getAuthenticatedUserID (ae_ctx e) = Ok v} db m" for m :: "'x account_io"
    using that assms by (simp add: own_at_def)
  have add: "own_at {u} db (run_query flt ''AddUserRoles'' (AddUserRoles u ids roles))" for u ids roles flt db
    by (intro own_at_query AddUserRoles_own)
  have del: "own_at {u} db (run_query flt ''DeleteUserRoles'' (changing (DeleteUserRoles u roles)))" for u roles flt db
    by (intro own_at_change DeleteUserRoles_own)
  note r = role_changes_own [OF add assms] role_changes_own [OF del assms]
  show ?thesis
    by (cases "ae_call e")
      (simp_all add: Let_def m own_at_intros OptInForRoles_def OptOutForRoles_def r)
qed

text \<open>C5: In every run of calls on accounts, by any users and with any failing queries, the indexes of the tables
  hold: a push token has one live holder, a user a role once. And what one user keeps is left as it was by all calls that do not run
  as that user.\<close>

theorem account_calls_stay_own:
  assumes "accounts_ok db"
  shows "accounts_ok (fst (run_accounts es (db, st))) \<and>
    (\<forall>v. (\<forall>e\<in>set es. getAuthenticatedUserID (ae_ctx e) \<noteq> Ok v) \<longrightarrow> owned_by v (fst (run_accounts es (db, st))) = owned_by v db)"
  using assms
proof (induction es arbitrary: db st)
  case (Cons e es)
  obtain db1 st1 where s: "account_step e (db, st) = (db1, st1)" by fastforce
  then have "own_change {v. getAuthenticatedUserID (ae_ctx e) = Ok v} db db1" using account_step_own [OF Cons.prems] by (metis fst_conv)
  then show ?case using Cons.IH [of db1 st1] s by (simp add: run_accounts_def own_change_def)
qed (simp add: run_accounts_def)

section \<open>Roles\<close>

lemma AddUserRoles_roles:
  assumes "accounts_ok db" "AddUserRoles u ids roles db = Ok (x, db')" "length ids = length roles"
  shows "set (RolesByUserID db' u) = set (RolesByUserID db u) \<union> set roles"
proof -
  obtain rows where rows: "upsert_roles u (zip ids roles) (act_roles db) = Ok rows" "db' = db\<lparr>act_roles := rows\<rparr>"
    using assms(2) by (auto simp: AddUserRoles_def map_o_eq_Ok split: if_splits)
  have "snd ` set (zip ids roles) = set roles" using assms(3) by (metis list.set_map map_snd_zip)
  then show ?thesis
    using upsert_roles_own [OF _ rows(1)] assms(1) rows(2)
    by (simp add: accounts_ok_def RolesByUserID_def GetUserRolesByUserId_def)
qed

lemma OptInForRoles_Ok:
  assumes "OptInForRoles check flt ids rq ctx roles (db, st) = (Ok row, db', st')"
  shows "\<exists>u. getAuthenticatedUserID ctx = Ok u \<and> ''ADMIN'' \<notin> set roles \<and> AddUserRoles u ids roles db = Ok ((), db') \<and>
    st' = ForceAuthTokenRefresh rq u st"
  using assms
  by (auto simp: OptInForRoles_def change_roles_def validated_def as_user_def and_then_def run_query_def answer_def
      dest!: read_user_same split: option.splits outcome.splits prod.splits if_splits)

lemma issueSessionTokens_roles:
  assumes "issueSessionTokens rq i u s p st r = (None, st', r')" "u \<noteq> []" "s \<noteq> []"
  shows "ctx_is s u (rs_ctx r')" "cx_roles (rs_ctx r') = Some (st_roles st u)"
  using assms
  by (auto simp: issueSessionTokens_def Let_def setSessionCookies_def setSessionStateForCtx_def ctx_is_def
      split: option.splits prod.splits if_splits)

lemma continue_with_refresh_roles:
  assumes "continue_with_refresh rq i authErr c st r = (res, st', r')"
    and "\<And>f. c = Token f \<Longrightarrow> rc_user f \<noteq> [] \<and> rc_session f \<noteq> []"
  shows "(\<exists>err. ctx_out err (rs_ctx r')) \<or>
    (\<exists>f. c = Token f \<and> ctx_is (rc_session f) (rc_user f) (rs_ctx r') \<and> cx_roles (rs_ctx r') = Some (st_roles st (rc_user f)))"
proof (cases "getAndParseRefreshToken (rq_now rq) c")
  case (Ok f)
  then have f: "c = Token f" by (cases c) (simp_all split: if_splits)
  obtain res1 st1 r1 where iss: "issueSessionTokens rq i (rc_user f) (rc_session f) (rc_id f) st r = (res1, st1, r1)"
    by (metis prod_cases3)
  show ?thesis
  proof (cases res1)
    case None
    then show ?thesis
      using assms(1) Ok f iss issueSessionTokens_roles [OF _ conjunct1 [OF assms(2) [OF f]] conjunct2 [OF assms(2) [OF f]]]
      by (auto simp: continue_with_refresh_def)
  next
    case (Some err)
    then have "ctx_out err (rs_ctx r')" using assms(1) by (auto simp: continue_with_refresh_def Ok iss Let_def split: if_splits)
    then show ?thesis by blast
  qed
next
  case (Err e)
  then have "ctx_out e (rs_ctx r')" using assms(1) by (auto simp: continue_with_refresh_def Let_def split: if_splits)
  then show ?thesis by blast
next
  case (Panic q)
  then show ?thesis by (cases c) (simp_all split: if_splits)
qed

lemma forced_refresh_catches:
  assumes "sess_inv cfg w" "rq_cfg rq = cfg" "rq_now rq = w_clock w" "\<not> f_redis_set (rq_faults rq)"
    and "a \<in> set (w_auth w)" "ac_issued a = Some i" "i \<noteq> unix (rq_now rq)"
    and "live (rq_now rq') (ac_expires a) (ac_issued a)"
  shows "mustRefreshAuthToken rq' (ac_user a) i (ForceAuthTokenRefresh rq (ac_user a) (w_store w)\<lparr>st_roles := roles\<rparr>)"
proof -
  let ?c = "SetTime (rq_now rq) (ac_user a) (rq_now rq) (cfg_auth_ttl cfg * second + minute) True (st_cache (w_store w))"
  have ok: "cache_ok cfg (rq_now rq) (st_cache (w_store w))" "i \<le> unix (rq_now rq)" "ac_expires a = i + cfg_auth_ttl cfg"
    using assms(1,3,5,6) by (auto simp: sess_inv_def auth_ok_def)
  obtain t x where t: "?c (ac_user a) = Some (t, x)" "unix (rq_now rq) \<le> t"
    using cache_le_SetTime(2) [OF ok(1)] by blast
  have "x = t + cfg_auth_ttl cfg + 60"
    using cache_le_SetTime(1) [OF ok(1), of "ac_user a"] t ok(1) by (fastforce simp: cache_le_def cache_ok_def)
  moreover have "unix (rq_now rq') < i + cfg_auth_ttl cfg" using assms(6,8) ok(3) by (simp add: live_def less_seconds)
  ultimately have "unix (rq_now rq') < x" using t(2) ok(2) by linarith
  then have "cache_get (rq_now rq') ?c (ac_user a) = Some t" using t(1) by (simp add: cache_get_def less_seconds)
  moreover have "i < t" using ok(2) assms(7) t(2) by linarith
  ultimately show ?thesis using assms(2,4) by (simp add: mustRefreshAuthToken_def ForceAuthTokenRefresh_def GetTime_def second_def)
qed

text \<open>C4: A role that a user opts in for is there in the user's next request: after \<open>OptInForRoles\<close> the roles are the old ones
  with the new, never \<open>ADMIN\<close>; and a request with any auth token of that user and any refresh token is turned
  away, or runs with exactly the roles of the tables, or with those in its auth token until that expires. The last happens
  only with a token issued in the second of the call, or when the forced refresh could not be noted, an
  error that the call only logs.\<close>

theorem opted_in_roles_arrive:
  assumes "reach cfg w" "accounts_ok db" "length ids = length roles"
    and "OptInForRoles check flt ids rq ctx roles (db, w_store w) = (Ok row, db', st')"
    and "rq_cfg rq = cfg" "rq_now rq = w_clock w" "getAuthenticatedUserID ctx = Ok u"
    and "a \<in> set (w_auth w)" "ac_user a = u"
    and "\<And>f. c = Token f \<Longrightarrow> f \<in> set (w_refresh w) \<and> rc_user f = u"
    and "ContinueSession rq' i j (Token a) c (st'\<lparr>st_roles := RolesByUserID db'\<rparr>) no_response = (res, st'', r)"
  shows "set (RolesByUserID db' u) = set (RolesByUserID db u) \<union> set roles \<and> ''ADMIN'' \<notin> set roles \<and>
    ((\<exists>err. ctx_out err (rs_ctx r)) \<or>
     GetUserIDFromCtx (rs_ctx r) = Ok u \<and> cx_roles (rs_ctx r) = Some (RolesByUserID db' u) \<or>
     GetUserIDFromCtx (rs_ctx r) = Ok u \<and> cx_roles (rs_ctx r) = Some (ac_roles a) \<and>
       live (rq_now rq') (ac_expires a) (ac_issued a) \<and>
       (f_redis_set (rq_faults rq) \<or> ac_issued a = Some (unix (rq_now rq))))"
proof (intro conjI)
  let ?st = "st'\<lparr>st_roles := RolesByUserID db'\<rparr>"
  have o: "AddUserRoles u ids roles db = Ok ((), db')" "''ADMIN'' \<notin> set roles" "st' = ForceAuthTokenRefresh rq u (w_store w)"
    using OptInForRoles_Ok [OF assms(4)] assms(7) by auto
  show "set (RolesByUserID db' u) = set (RolesByUserID db u) \<union> set roles" "''ADMIN'' \<notin> set roles"
    using AddUserRoles_roles [OF assms(2) o(1) assms(3)] o(2) by simp_all
  note inv = reach_sess_inv [OF assms(1)]
  have a: "(ac_session a, ac_user a) \<in> set (w_started w)" using inv assms(8) by (simp add: sess_inv_def auth_ok_def)
  obtain k where k: "ac_issued a = Some k" using inv assms(8) by (auto simp: sess_inv_def auth_ok_def)
  have ne: "s \<noteq> [] \<and> v \<noteq> []" if "(s, v) \<in> set (w_started w)" for s v
    using inv that by (auto simp: sess_inv_def started_ok_def)
  have f: "rc_user f \<noteq> [] \<and> rc_session f \<noteq> []" if "c = Token f" for f
    using assms(10) [OF that] inv ne by (auto simp: sess_inv_def refresh_ok_def)
  have cont: "ContinueSession rq' i j (Token a) c ?st no_response =
      (if live (rq_now rq') (ac_expires a) (ac_issued a) then
         if mustRefreshAuthToken rq' u k ?st then continue_with_refresh rq' j None c ?st no_response
         else (None, ?st, setSessionStateForCtx u (ac_session a) (ac_roles a) no_response)
       else continue_with_refresh rq' j (Some ErrInvalidJWT) c ?st no_response)"
    using k ne [OF a] assms(9) by (simp add: ContinueSession_def)
  consider (refresh) authErr where "continue_with_refresh rq' j authErr c ?st no_response = (res, st'', r)"
    | (token) "live (rq_now rq') (ac_expires a) (ac_issued a)" "\<not> mustRefreshAuthToken rq' u k ?st"
        "r = setSessionStateForCtx u (ac_session a) (ac_roles a) no_response"
    using assms(11) unfolding cont by (auto split: if_splits)
  then show "(\<exists>err. ctx_out err (rs_ctx r)) \<or>
     GetUserIDFromCtx (rs_ctx r) = Ok u \<and> cx_roles (rs_ctx r) = Some (RolesByUserID db' u) \<or>
     GetUserIDFromCtx (rs_ctx r) = Ok u \<and> cx_roles (rs_ctx r) = Some (ac_roles a) \<and>
       live (rq_now rq') (ac_expires a) (ac_issued a) \<and>
       (f_redis_set (rq_faults rq) \<or> ac_issued a = Some (unix (rq_now rq)))"
  proof cases
    case refresh
    from continue_with_refresh_roles [OF refresh f] have "(\<exists>err. ctx_out err (rs_ctx r)) \<or>
        (\<exists>f. c = Token f \<and> ctx_is (rc_session f) (rc_user f) (rs_ctx r) \<and> cx_roles (rs_ctx r) = Some (st_roles ?st (rc_user f)))"
      by blast
    then show ?thesis using assms(10) by (auto simp: ctx_is_def GetUserIDFromCtx_def)
  next
    case token
    have "f_redis_set (rq_faults rq) \<or> k = unix (rq_now rq)"
      using forced_refresh_catches [OF inv assms(5,6) _ assms(8) k _ token(1), of "RolesByUserID db'"] token(2) assms(9) o(3) by auto
    moreover have "GetUserIDFromCtx (rs_ctx r) = Ok u" "cx_roles (rs_ctx r) = Some (ac_roles a)"
      using token(3) setSessionState_simps [of "ac_session a" u] ne [OF a] assms(9) by (auto simp: ctx_is_def GetUserIDFromCtx_def)
    ultimately show ?thesis using token(1) k by simp
  qed
qed

section \<open>Push tokens\<close>

lemma find_map_filter: "find P (map f xs) = map_option f (find (\<lambda>x. P (f x)) xs)"
  by (induction xs) auto

lemma find_agree: "(\<And>x. x \<in> set xs \<Longrightarrow> P x \<longleftrightarrow> Q x) \<Longrightarrow> find P xs = find Q xs"
  by (induction xs) auto

lemma live_token_unique:
  assumes "accounts_ok db" "t \<in> set (act_push db)" "x \<in> set (act_push db)" "\<not> pt_deleted t" "\<not> pt_deleted x" "pt_token x = pt_token t"
  shows "x = t"
  using assms inj_onD [of pt_token "set (filter (\<lambda>t. \<not> pt_deleted t) (act_push db))" x t]
  by (auto simp: accounts_ok_def push_ok_def distinct_map)

lemma find_deleted:
  assumes "accounts_ok db" "GetPushTokenByPushToken token db = Some t"
  shows "GetPushTokenByPushToken token' (DeletePushTokensByIDs [pt_id t] db) =
    (if token' = token then None else GetPushTokenByPushToken token' db)"
proof -
  let ?f = "\<lambda>x. if pt_id x \<in> set [pt_id t] \<and> \<not> pt_deleted x then x\<lparr>pt_deleted := True\<rparr> else x"
  have t: "t \<in> set (act_push db)" "pt_token t = token" "\<not> pt_deleted t"
    using assms(2) by (auto simp: GetPushTokenByPushToken_def find_Some_iff)
  have same: "x = t" if "x \<in> set (act_push db)" "pt_id x = pt_id t" for x
    using that t(1) assms(1) by (auto simp: accounts_ok_def push_ok_def distinct_map dest: inj_onD)
  have eq: "GetPushTokenByPushToken token' (DeletePushTokensByIDs [pt_id t] db) =
      map_option ?f (find (\<lambda>x. pt_token (?f x) = token' \<and> \<not> pt_deleted (?f x)) (act_push db))"
    using find_map_filter [of "\<lambda>x. pt_token x = token' \<and> \<not> pt_deleted x" ?f "act_push db"]
    by (simp add: GetPushTokenByPushToken_def DeletePushTokensByIDs_def del: find_map_filter)
  show ?thesis
  proof (cases "token' = token")
    case True
    have "\<not> (pt_token (?f x) = token' \<and> \<not> pt_deleted (?f x))" if x: "x \<in> set (act_push db)" for x
    proof
      assume "pt_token (?f x) = token' \<and> \<not> pt_deleted (?f x)"
      then have "\<not> pt_deleted x" "pt_token x = pt_token t" "pt_id x \<noteq> pt_id t" using t(2) True by (auto split: if_splits)
      then show False using live_token_unique [OF assms(1) t(1) x t(3)] by blast
    qed
    then have "find (\<lambda>x. pt_token (?f x) = token' \<and> \<not> pt_deleted (?f x)) (act_push db) = None"
      unfolding find_None_iff by blast
    then show ?thesis using eq True by simp
  next
    case False
    have "find (\<lambda>x. pt_token (?f x) = token' \<and> \<not> pt_deleted (?f x)) (act_push db) = GetPushTokenByPushToken token' db"
      unfolding GetPushTokenByPushToken_def by (rule find_agree) (auto dest: same simp: t(2) False)
    moreover have "map_option ?f (GetPushTokenByPushToken token' db) = GetPushTokenByPushToken token' db"
    proof (cases "GetPushTokenByPushToken token' db")
      case (Some x)
      then have "x \<in> set (act_push db)" "pt_token x = token'" by (auto simp: GetPushTokenByPushToken_def find_Some_iff)
      then show ?thesis using Some same t False by auto
    qed simp
    ultimately show ?thesis using eq False by simp
  qed
qed

lemma find_created:
  assumes "GetPushTokenByPushToken token db = None" "pt_token row = token" "\<not> pt_deleted row"
  shows "GetPushTokenByPushToken token' (db\<lparr>act_push := act_push db @ [row]\<rparr>) =
    (if token' = token then Some row else GetPushTokenByPushToken token' db)"
proof -
  have "find P (xs @ [row]) = (case find P xs of Some x \<Rightarrow> Some x | None \<Rightarrow> if P row then Some row else None)" for P xs
    by (induction xs) auto
  then show ?thesis using assms by (auto simp: GetPushTokenByPushToken_def split: option.split)
qed

text \<open>C20: A push token is held by one user. Registering it gives it to the caller if nobody holds it, is no change if the caller does,
  and is refused if another user does; unregistering takes it from the caller, is no change if
  nobody holds it, and is refused for another user's. No other token changes its holder.\<close>

theorem push_tokens_exact:
  assumes "accounts_ok db" "getAuthenticatedUserID ctx = Ok u" "check (TextInput token) ''required,min=1,max=255'' = None"
    and "\<And>q. flt q = None"
  shows "(case (CreatePushTokenForUser check flt i ctx token db, GetPushTokenByPushToken token db) of
      ((r, db'), Some t) \<Rightarrow> db' = db \<and> r = (if pt_user t = u then Ok t else Err (ErrPushTokenBelongsToAnotherUser token))
    | ((r, db'), None) \<Rightarrow> i \<in> pt_id ` set (act_push db) \<or> \<not> user_exists u db \<or>
        (\<exists>row. r = Ok row \<and> pt_user row = u \<and>
           (\<forall>token'. GetPushTokenByPushToken token' db' = (if token' = token then Some row else GetPushTokenByPushToken token' db)))) \<and>
    (case (DeletePushTokenByPushToken check flt ctx token db, GetPushTokenByPushToken token db) of
      ((r, db'), Some t) \<Rightarrow>
        if pt_user t = u
        then r = Ok () \<and> (\<forall>token'. GetPushTokenByPushToken token' db' = (if token' = token then None else GetPushTokenByPushToken token' db))
        else db' = db \<and> r = Err (ErrPushTokenBelongsToAnotherUser token)
    | ((r, db'), None) \<Rightarrow> db' = db \<and> r = Ok ())"
proof -
  have v: "ValidateFields check [(n, TextInput token, ''required,min=1,max=255'')] = None" for n
    using assms(3) by (simp add: ValidateFields_def)
  note defs = validated_def v as_user_def assms(2,4) and_then_def run_query_def reading_def answer_def changing_def
  show ?thesis
  proof (cases "GetPushTokenByPushToken token db")
    case None
    then show ?thesis
      using find_created [OF None]
      by (auto simp: CreatePushTokenForUser_def DeletePushTokenByPushToken_def defs CreatePushTokenForUser_query_def Let_def)
  next
    case (Some t)
    then show ?thesis
      using find_deleted [OF assms(1) Some] by (auto simp: CreatePushTokenForUser_def DeletePushTokenByPushToken_def defs)
  qed
qed

section \<open>Samples\<close>

definition user_ctx :: "UserID \<Rightarrow> gin_ctx" where
  "user_ctx u = \<lparr>cx_user = Some (AsDBID u), cx_session = Some (AsDBID ''s''), cx_auth_error = Some None, cx_authed = True,
     cx_roles = Some []\<rparr>"

definition sample_user :: "UserID \<Rightarrow> user_row" where
  "sample_user u = \<lparr>us_id = u, us_deleted = False, us_username = None, us_idempotent = None, us_wallets = [], us_universal = False,
     us_primary = None\<rparr>"

definition sample_accounts :: account_tables where
  "sample_accounts =
     \<lparr>act_users = \<lparr>tb_users = map sample_user [''u'', ''v'', ''w''], tb_wallets = [], tb_pii = []\<rparr>,
      act_push = [\<lparr>pt_id = ''p1'', pt_user = ''w'', pt_token = ''phone'', pt_deleted = False\<rparr>],
      act_roles = [], act_blocks = [], act_experiences = (\<lambda>_. Map.empty), act_settings = (\<lambda>_. None)\<rparr>"

definition sample_request :: request where
  "sample_request = \<lparr>rq_cfg = sample_cfg, rq_now = 160 * second, rq_client = ([], [], []), rq_faults = no_faults\<rparr>"

definition sample_call :: "UserID \<Rightarrow> account_call \<Rightarrow> account_event" where
  "sample_call u c = \<lparr>ae_call = c, ae_ctx = user_ctx u, ae_check = (\<lambda>_ _. None), ae_faults = (\<lambda>_. None), ae_request = sample_request\<rparr>"

lemma sample_accounts_ok: "accounts_ok sample_accounts"
  by (simp add: sample_accounts_def accounts_ok_def push_ok_def roles_ok_def blocks_ok_def)

lemma user_ctx_user [simp]: "getAuthenticatedUserID (user_ctx u) = Ok u"
  by (simp add: getAuthenticatedUserID_def user_ctx_def GetAuthErrorFromCtx_def GetUserIDFromCtx_def)

text \<open>Two users try to take the phone of a third, opt in for a role, and block each other.\<close>

lemma account_calls_stay_own_witness:
  "let db = fst (run_accounts [sample_call ''u'' (UnregisterPush ''phone''), sample_call ''v'' (RegisterPush ''p2'' ''phone''),
      sample_call ''u'' (OptIn [''r1''] [''BETA_TESTER'']), sample_call ''v'' (Block ''b1'' ''u'')] (sample_accounts, w_store (snd (sample_world 1))))
   in accounts_ok db \<and> owned_by ''w'' db = owned_by ''w'' sample_accounts"
  using account_calls_stay_own [OF sample_accounts_ok,
      of "[sample_call ''u'' (UnregisterPush ''phone''), sample_call ''v'' (RegisterPush ''p2'' ''phone''),
      sample_call ''u'' (OptIn [''r1''] [''BETA_TESTER'']), sample_call ''v'' (Block ''b1'' ''u'')]" "w_store (snd (sample_world 1))"]
  by (simp add: Let_def sample_call_def)

lemma push_tokens_exact_witness:
  "fst (CreatePushTokenForUser (\<lambda>_ _. None) (\<lambda>_. None) ''p2'' (user_ctx ''u'') ''phone'' sample_accounts) =
     Err (ErrPushTokenBelongsToAnotherUser ''phone'') \<and>
   GetPushTokenByPushToken ''phone''
     (snd (DeletePushTokenByPushToken (\<lambda>_ _. None) (\<lambda>_. None) (user_ctx ''w'') ''phone'' sample_accounts)) = None"
proof -
  let ?t = "\<lparr>pt_id = ''p1'', pt_user = ''w'', pt_token = ''phone'', pt_deleted = False\<rparr>"
  have t: "GetPushTokenByPushToken ''phone'' sample_accounts = Some ?t"
    by (simp add: GetPushTokenByPushToken_def sample_accounts_def)
  show ?thesis
    using push_tokens_exact [OF sample_accounts_ok user_ctx_user, of "\<lambda>_ _. None" "''phone''" "\<lambda>_. None" "''p2''" "''u''"]
      push_tokens_exact [OF sample_accounts_ok user_ctx_user, of "\<lambda>_ _. None" "''phone''" "\<lambda>_. None" "''p2''" "''w''"]
    by (simp add: t split: prod.splits)
qed

text \<open>The session of the sample world, asked once more a minute after the login: the world in which the user opts in.\<close>

definition sample_browse :: event where "sample_browse = sample_event 160 (Token sample_token) Browse ''t''"

definition opt_in_world :: world where
  "opt_in_world = snd (the (wexec sample_cfg (snd (sample_world 1)) sample_browse))"

lemma opt_in_world_reach: "reach sample_cfg opt_in_world"
proof -
  have "wexec sample_cfg (snd (sample_world 1)) sample_browse \<noteq> None" by code_simp
  then have "wstep sample_cfg (snd (sample_world 1)) sample_browse (fst (the (wexec sample_cfg (snd (sample_world 1)) sample_browse))) opt_in_world"
    by (auto intro!: wexec_step simp: opt_in_world_def)
  then show ?thesis using sample_reach(2) by (blast intro: reach.step)
qed

definition sample_refresh :: refresh_claims where
  "sample_refresh = hd (w_refresh opt_in_world)"

definition opted_in :: "(account_error, user_row) outcome \<times> account_tables \<times> store" where
  "opted_in = OptInForRoles (\<lambda>_ _. None) (\<lambda>_. None) [''r1''] sample_request (user_ctx ''u'') [''BETA_TESTER'']
     (sample_accounts, w_store opt_in_world)"

definition next_request :: "auth_error option \<times> store \<times> response" where
  "next_request = ContinueSession (sample_request\<lparr>rq_now := 170 * second\<rparr>) ''i'' ''j'' (Token sample_token) (Token sample_refresh)
     ((snd (snd opted_in))\<lparr>st_roles := RolesByUserID (fst (snd opted_in))\<rparr>) no_response"

lemma opted_in_roles_arrive_witness:
  "set (RolesByUserID (fst (snd opted_in)) ''u'') = {''BETA_TESTER''} \<and>
   cx_roles (rs_ctx (snd (snd next_request))) = Some (RolesByUserID (fst (snd opted_in)) ''u'')"
proof -
  have w: "rq_now sample_request = w_clock opt_in_world" "w_auth opt_in_world = [sample_token]" "w_refresh opt_in_world = [sample_refresh]"
    "fst opted_in = Ok (sample_user ''u'')" "cx_authed (rs_ctx (snd (snd next_request)))" "rc_user sample_refresh = ''u''"
    "ac_issued sample_token \<noteq> Some (unix (rq_now sample_request))"
    "set (RolesByUserID sample_accounts ''u'') = {}"
    by code_simp+
  have "OptInForRoles (\<lambda>_ _. None) (\<lambda>_. None) [''r1''] sample_request (user_ctx ''u'') [''BETA_TESTER'']
      (sample_accounts, w_store opt_in_world) = (Ok (sample_user ''u''), fst (snd opted_in), snd (snd opted_in))"
    using w(4) by (simp add: opted_in_def prod_eq_iff)
  note arrive = opted_in_roles_arrive [OF opt_in_world_reach sample_accounts_ok _ this _ w(1) user_ctx_user,
      of sample_token "Token sample_refresh" "sample_request\<lparr>rq_now := 170 * second\<rparr>" "''i''" "''j''"
        "fst next_request" "fst (snd next_request)" "snd (snd next_request)"]
  have "\<not> ctx_out err (rs_ctx (snd (snd next_request)))" for err using w(5) by (simp add: ctx_out_def)
  then show ?thesis
    using arrive w(2,3,6,7,8) by (simp add: sample_request_def no_faults_def sample_token_def next_request_def)
qed

section \<open>Further facts\<close>

text \<open>A role is read back from its GraphQL name in any case; a name that is none is no error.\<close>

lemma role_names:
  "role \<in> {''ADMIN'', ''BETA_TESTER'', ''EARLY_ACCESS'', ''EMAIL_TESTER''} \<Longrightarrow>
   Role_MarshalGQL role = [CHR 0x22] @ role @ [CHR 0x22] \<and> Role_UnmarshalGQL (Some role) r = Ok role"
  by (simp add: Role_MarshalGQL_def) (elim disjE; simp; code_simp)

lemma unknown_role_accepted: "Role_UnmarshalGQL (Some ''OWNER'') r = Ok r"
  by code_simp

text \<open>An experience is read as it was last written; the others stay.\<close>

lemma experience_read_back:
  assumes "user_exists u db" "\<And>v tag. check v tag = None" "\<And>q. flt q = None" "getAuthenticatedUserID ctx = Ok u"
  shows "fst (GetUserExperiences check flt u (snd (UpdateUserExperience check flt ctx e b db))) =
    Ok (map (\<lambda>e'. (e', if e' = e then b else act_experiences db u e' = Some True)) AllUserExperienceType)"
  using assms
  by (auto simp: GetUserExperiences_def UpdateUserExperience_def validated_def ValidateFields_def as_user_def and_then_def
      run_query_def reading_def changing_def answer_def GetUserExperiencesByUserID_def UpdateUserExperience_query_def user_exists_def)

end
