(* ===== verification/Spec2Isabelle.thy ===== *)
theory Spec2Isabelle
  imports Page_Properties Batcher_Props Token_Ids Chains Token_Uris Retrying Gateways Uri_Data Validate Session_Props User_Props Authn_Props Notif_Props Split_Props Pool_Props Email_Props Guard_Props Collection_Props
    Scrub_Props Gql_Props Gql_Nodes Redis_Props Media_Mapper User_Api Account_Props
begin

text \<open>
  A model of the Go back end of go-mutuals, a social network of wallet owners, with the theorems that make its
  own logic correct, and those that show where it is not.

  The program and its parts. A GraphQL server (server/, graphql/) runs each request through the middleware
  (middleware/middleware.go), which restores the login session from its cookies (service/auth), and then calls the API
  (publicapi/), which reads through paginators and batching data loaders (publicapi/pagination.go, util/batch) and
  writes through repositories (service/user, service/persist/postgres) and generated queries (db/gen/coredb). Logging in
  goes through an authenticator (service/auth/auth.go), which checks a signature against the chain
  (service/multichain, service/eth), a magic link or a one-time token. Events (event/) become notifications
  (service/notifications). Token addresses, token IDs, media types and token URIs (service/persist) are read over
  RPC, IPFS and Arweave gateways (service/rpc) with retries (util/retry). Input is validated by validate/. Around
  each GraphQL field stand the directives and handlers of graphql/resolver/handlers.go, which refuse a request, translate
  errors into values of the schema, and log the request without its secrets. Work for other services goes
  out as tasks (service/task).

  How code becomes definitions. A Go function is a definition of the same name. A result is an \<open>outcome\<close>
  of theory Prelude: \<open>Ok\<close> the value, \<open>Err\<close> the error that is returned, \<open>Panic\<close> a run-time panic; a
  function that returns no error and cannot panic returns its value. Structs are records, enumerations
  datatypes or the integers and strings they are in the code, maps are partial functions or association lists. Integers are
  words or integers with the wrap written out where the width matters. State is passed and returned. Strings are
  lists of characters that stand for bytes, except where a theory says that they stand for code points.

  Theories.

    \<^item> Prelude, Go_Strings, Go_Numerals, Go_Values: outcomes, the parts of Go's library the code calls on strings
      and numerals, and dynamically typed values.
    \<^item> Cursor_Codec, Cursor, Cursor_Types: the binary cursors of publicapi/pagination.go. A locale states when
      a cursor type is read back from what it is packed to; it is interpreted for all seven types.
    \<^item> Paging, Paginators, Keyset_Sql, Page_Api, Position_Api, Page_Properties: \<open>applyCursors\<close>,
      \<open>pageEdgesFrom\<close>, \<open>pageInfoFrom\<close>, the typed paginators, the keyset queries, and the API methods built on
      them. Locales state what a keyset query promises; a client that follows the cursors visits every row once.
    \<^item> Batcher, Batcher_Inv, Batcher_Props: the concurrent batcher of util/batch/batch.go as an inductive step
      relation over any number of callers, its invariant, and its refinement of a direct call.
    \<^item> Token_Ids, Chains, Token_Uris: the numeric strings, chains, addresses, media types and URIs of
      service/persist/token.go and wallet.go with their text, JSON, database and GraphQL forms.
    \<^item> Retrying, Gateways, Uri_Data: util/retry/retry.go, service/rpc/ipfs, service/rpc/arweave and the reading of
      URIs in service/rpc/rpc.go.
    \<^item> Validate: the validators of validate/validate.go.
    \<^item> Sessions, Session_Runs, Session_Props: tokens and session rows of service/auth, forced refreshes, the context
      of a request and the middleware. A world is the tables, redis, and the tokens issued so far; a step is one
      request. An invariant of every reachable world ties each token to a login.
    \<^item> User_Store, Users, User_Inv, User_Triples, User_Runs, User_Props: the tables of users, wallets and email
      addresses with their unique indexes and transactions, the repository and service/user. Each operation is
      shown to keep the invariant of the tables by triples over a connection, also where it fails half-way.
    \<^item> Authenticators, Authn_Props: nonces, signatures, magic links, one-time tokens and the choice between
      them. A locale \<open>use_once\<close> says what is accepted at most once; it is interpreted for nonces and for tokens.
    \<^item> Events, Notifications, Notif_Props: events, their rows, and the notifications they cause; histories of events
      with weeks that may go back, queries that may fail and handlers that may overlap.
    \<^item> Splits, Split_Props: publicapi/split.go on the tables of splits and recipients with their unique index.
    \<^item> Pool_Tokens, Pool_Props: token transfers from the webhook (streamer/process.go) through the task
      (tokenprocessing/process.go) to service/multichain. The database's answers are an argument, and the maps'
      iteration orders too.
    \<^item> Collections, Collection_Props: the helpers of util/helpers.go on slices and nested maps, and the nullable
      columns of service/persist/persist.go. A loop that may not end is a partial function into an option.
    \<^item> Emails, Email_Props: emails/verify.go, the client in service/emails and the API on addresses. Histories of all
      calls that write addresses show what a verified address rests on.
    \<^item> Guards, Guard_Props: middleware/, service/auth/basicauth, the routes of the emails service, service/throttle.
    \<^item> Scrubber, Scrub_Props: what graphql/resolver/handlers.go logs of a query and its variables. Two requests
      whose objects differ only in fields marked \<open>@scrub\<close> are logged alike, by rule induction on that relation; and
      which secrets the schema does not mark, or the variables show.
    \<^item> Gql_Handlers, Gql_Props: the directives, the translation of errors (with the generated tables of
      graphql/model) and the exchange of the API object around a mutation, over resolvers with a state of
      their own. \<open>@authRequired\<close> is composed with the runs of the session model.
    \<^item> Gql_Nodes: global IDs and what a request sees of its own user.
    \<^item> Redis_Cache, Redis_Props: the caches of service/redis/redis.go on one server. A locale states what a
      register that only grows promises; the refresh times are one, and the operations refine the table that theory Sessions has for them.
    \<^item> Media_Mapper: the image URLs of service/mediamapper, with Go's slices as arrays and lengths, since the calls share them.
    \<^item> Accounts, Account_Props: push tokens, roles, blocked users, experiences and settings of publicapi/user.go with
      their tables. Calls by any users keep the indexes and stay with their own rows; a role that a user
      opts in for is followed through the session store into the next request. A locale has the facts on rows that are flagged
      and never removed; it is interpreted for the three tables.
    \<^item> User_Api: the methods of publicapi/user.go on wallets and names, and the task after a removal.
    \<^item> Tasks: env/env.go and service/task/task.go, composed with the guards of the receiving routes.

  Parameters and bounds. What the code calls outside the repository is an argument: the clock, the cryptographic and
  JWT libraries, the validator library's built-in tags, the HTML sanitiser, the magic link service, HTTP, the rate
  limiter of redis, whether a statement of the database fails. A hypothesis about such an argument is named where it is used and has an
  instance. Loops over data are structural. The loop of \<open>Retryer\<close> takes the list of the limiter's answers, which it
  consumes; that it returns once the limiter has let it go often enough is a theorem. Reading an Arweave manifest and decoding a
  cursor go over finite input. Time is in nanoseconds, which JWTs and redis cut to seconds as the code does.

  Steps. The batcher is modelled at the grain of its atomic accesses. A request of the session model is one step: two
  requests at the same instant are ordered one way or the other. An operation on users is one step, or, where the
  code looks first and writes later without an index that would refuse the write, the write alone, at any time. The
  handling of an event is one step whose read sees what the environment says: the rows that are there, older ones if
  handlers overlap, or none if the query fails. Errors that the code drops or only logs are outcomes like the
  others: what then still holds is said by the theorem.

  Not modelled. Code without logic of its own: the generated GraphQL server beyond the shape of a field with directives,
  batched queries and contract bindings (graphql/generated, db/gen/coredb/batch.go, contracts), code generators
  (cmd/dataloaders, graphql/plugin), start-up (cmd, server, docker, db/migrate.go), logging, tracing and error reporting
  (service/logger, service/tracing, service/sentry), and clients of remote services (service/pubsub, most of service/rpc).
  The other GraphQL resolvers forward to publicapi and convert types. The
  administrative endpoints (admin, adminapi) run statements on an older schema. Of the package emails,
  subscriptions.go and send.go use fields and types that do not exist, so that there is nothing to translate.
\<close>

end
